(* ===== verification/Prelude.thy ===== *)
theory Prelude
  imports Main "HOL-Library.Char_ord" "HOL-Library.List_Lexorder"
begin

text \<open>
  Shared material of the BoxFleet development: the named theorem collections, Go's string
  primitives that the sources use, tables of rows (lists of records with a key column) with
  the SQL statements on them, and a generic reachability argument for step relations.
\<close>

named_theorems table_simps \<open>lookups in tables after updates and inserts\<close>
named_theorems go_defs \<open>definitions of the Go library primitives the sources call\<close>

section \<open>Results\<close>

text \<open>
  A Go function that returns \<open>(T, error)\<close> is a function into a sum: \<open>Inl e\<close> for an error,
  \<open>Inr x\<close> for a value with a nil error. \<open>bind_res\<close> is the early return \<open>if err != nil\<close>.
\<close>

fun bind_res :: "'e + 'a \<Rightarrow> ('a \<Rightarrow> 'e + 'b) \<Rightarrow> 'e + 'b" where
  "bind_res (Inl e) f = Inl e"
| "bind_res (Inr x) f = f x"

fun is_ok :: "'e + 'a \<Rightarrow> bool" where
  "is_ok (Inl _) = False"
| "is_ok (Inr _) = True"

lemma bind_res_Inr_iff: "bind_res r f = Inr y \<longleftrightarrow> (\<exists>x. r = Inr x \<and> f x = Inr y)"
  by (cases r) auto

lemma bind_res_Inl_iff:
  "bind_res r f = Inl e \<longleftrightarrow> r = Inl e \<or> (\<exists>x. r = Inr x \<and> f x = Inl e)"
  by (cases r) auto

text \<open>
  A method with side effects returns its result beside the new state, also when it fails:
  what was written before the error stays. \<open>bind_st\<close> sequences two of them.
\<close>

fun bind_st :: "('e + 'a) \<times> 's \<Rightarrow> ('a \<Rightarrow> 's \<Rightarrow> ('e + 'b) \<times> 's) \<Rightarrow> ('e + 'b) \<times> 's" where
  "bind_st (Inl e, s) f = (Inl e, s)"
| "bind_st (Inr x, s) f = f x s"

lemma bind_st_Inr_iff: "bind_st r f = (Inr y, t) \<longleftrightarrow> (\<exists>x s. r = (Inr x, s) \<and> f x s = (Inr y, t))"
  by (cases "(r, f)" rule: bind_st.cases) auto

text \<open>What holds of the state and is kept by both parts is kept by their sequence.\<close>

lemma bind_st_keeps:
  assumes "P (snd r)" and "\<And>x s. r = (Inr x, s) \<Longrightarrow> P (snd (f x s))"
  shows "P (snd (bind_st r f))"
  using assms by (cases "(r, f)" rule: bind_st.cases) auto

section \<open>Go strings\<close>

text \<open>
  A Go string is a byte sequence, here a \<^typ>\<open>char list\<close>. \<open>unicode.IsSpace\<close> accepts 25
  code points; \<open>space_runes\<close> lists their UTF-8 encodings. \<open>strings.TrimSpace\<close> removes
  them from both ends.
\<close>

definition space_runes :: "string list" where
  [go_defs]: "space_runes =
    [[CHR 0x09], [CHR 0x0A], [CHR 0x0B], [CHR 0x0C], [CHR 0x0D], [CHR 0x20],
     [CHR 0xC2, CHR 0x85], [CHR 0xC2, CHR 0xA0], [CHR 0xE1, CHR 0x9A, CHR 0x80],
     [CHR 0xE2, CHR 0x80, CHR 0x80], [CHR 0xE2, CHR 0x80, CHR 0x81],
     [CHR 0xE2, CHR 0x80, CHR 0x82], [CHR 0xE2, CHR 0x80, CHR 0x83],
     [CHR 0xE2, CHR 0x80, CHR 0x84], [CHR 0xE2, CHR 0x80, CHR 0x85],
     [CHR 0xE2, CHR 0x80, CHR 0x86], [CHR 0xE2, CHR 0x80, CHR 0x87],
     [CHR 0xE2, CHR 0x80, CHR 0x88], [CHR 0xE2, CHR 0x80, CHR 0x89],
     [CHR 0xE2, CHR 0x80, CHR 0x8A], [CHR 0xE2, CHR 0x80, CHR 0xA8],
     [CHR 0xE2, CHR 0x80, CHR 0xA9], [CHR 0xE2, CHR 0x80, CHR 0xAF],
     [CHR 0xE2, CHR 0x81, CHR 0x9F], [CHR 0xE3, CHR 0x80, CHR 0x80]]"

fun has_prefix :: "string \<Rightarrow> string \<Rightarrow> bool" where
  "has_prefix s [] = True"
| "has_prefix [] (p # ps) = False"
| "has_prefix (c # cs) (p # ps) = (c = p \<and> has_prefix cs ps)"

fun space_at :: "string list \<Rightarrow> string \<Rightarrow> nat" where
  "space_at [] s = 0"
| "space_at (p # ps) s = (if has_prefix s p then length p else space_at ps s)"

text \<open>\<open>trim_front rs s\<close> removes the listed sequences from the front of \<open>s\<close>.\<close>

function trim_front :: "string list \<Rightarrow> string \<Rightarrow> string" where
  "trim_front rs s = (if s = [] \<or> space_at rs s = 0 then s
                      else trim_front rs (drop (space_at rs s) s))"
  by pat_completeness auto
termination
  by (relation "measure (\<lambda>(rs, s). length s)") auto

declare trim_front.simps [simp del]

definition trim_space :: "string \<Rightarrow> string" where
  "trim_space s =
     rev (trim_front (map rev space_runes) (rev (trim_front space_runes s)))"

lemma trim_front_Nil [simp]: "trim_front rs [] = []"
  by (simp add: trim_front.simps)

lemma trim_space_Nil [simp]: "trim_space [] = []"
  by (simp add: trim_space_def)

lemma trim_front_stops: "trim_front rs s = [] \<or> space_at rs (trim_front rs s) = 0"
proof (induction rs s rule: trim_front.induct)
  case (1 rs s)
  then show ?case
    by (cases "s = [] \<or> space_at rs s = 0") (auto simp: trim_front.simps [of rs s])
qed

lemma trim_front_fixed: "space_at rs s = 0 \<Longrightarrow> trim_front rs s = s"
  by (subst trim_front.simps) simp

lemma trim_front_idem: "trim_front rs (trim_front rs s) = trim_front rs s"
  using trim_front_stops [of rs s] by (auto simp: trim_front_fixed)

lemma trim_front_suffix: "\<exists>n. trim_front rs s = drop n s"
proof (induction rs s rule: trim_front.induct)
  case (1 rs s)
  show ?case
  proof (cases "s = [] \<or> space_at rs s = 0")
    case True
    then show ?thesis by (intro exI [of _ 0]) (simp add: trim_front.simps [of rs s])
  next
    case False
    with "1.IH" obtain n where "trim_front rs (drop (space_at rs s) s) = drop n (drop (space_at rs s) s)"
      by auto
    with False show ?thesis
      by (auto simp: trim_front.simps [of rs s])
  qed
qed

lemma length_trim_front: "length (trim_front rs s) \<le> length s"
  using trim_front_suffix [of rs s] by auto

lemma length_trim_space: "length (trim_space s) \<le> length s"
  unfolding trim_space_def
  using length_trim_front [of "map rev space_runes" "rev (trim_front space_runes s)"]
    length_trim_front [of space_runes s] by simp

text \<open>Trimming is idempotent: no listed sequence starts what is left, nor any prefix of it.\<close>

lemma has_prefix_append: "has_prefix s p \<Longrightarrow> has_prefix (s @ t) p"
  by (induction s p rule: has_prefix.induct) auto

lemma space_at_0_iff: "[] \<notin> set rs \<Longrightarrow> space_at rs s = 0 \<longleftrightarrow> (\<forall>p \<in> set rs. \<not> has_prefix s p)"
  by (induction rs) auto

lemma trim_front_clean:
  assumes "[] \<notin> set rs" and "trim_front rs s = t @ u"
  shows "trim_front rs t = t"
proof (cases "t = []")
  case False
  then have "space_at rs (t @ u) = 0" using trim_front_stops [of rs s] assms(2) by auto
  then have "space_at rs t = 0" using assms(1) has_prefix_append by (auto simp: space_at_0_iff)
  then show ?thesis by (rule trim_front_fixed)
qed simp

lemma trim_front_split: "\<exists>t. s = t @ trim_front rs s"
  using trim_front_suffix [of rs s] by (metis append_take_drop_id)

lemma trim_space_idem [simp]: "trim_space (trim_space s) = trim_space s"
proof -
  let ?f = "trim_front space_runes s"
  let ?b = "trim_front (map rev space_runes) (rev ?f)"
  obtain t where "rev ?f = t @ ?b" using trim_front_split by blast
  then have "?f = rev ?b @ rev t" by (metis rev_append rev_rev_ident)
  then have "trim_front space_runes (rev ?b) = rev ?b"
    by (rule trim_front_clean [rotated]) (simp add: space_runes_def)
  then show ?thesis by (simp add: trim_space_def trim_front_idem)
qed

section \<open>Tables\<close>

text \<open>
  A SQL table is the list of its rows. \<open>sel p t\<close> is \<open>SELECT * FROM t WHERE p\<close> read by a
  \<open>:one\<close> query (\<^const>\<open>None\<close> is \<open>sql.ErrNoRows\<close>); \<open>upd p f t\<close> is \<open>UPDATE t SET f WHERE p\<close>,
  and \<open>upd_returning\<close> adds \<open>RETURNING *\<close>, the first updated row.
\<close>

definition sel :: "('r \<Rightarrow> bool) \<Rightarrow> 'r list \<Rightarrow> 'r option" where
  "sel p t = List.find p t"

definition upd :: "('r \<Rightarrow> bool) \<Rightarrow> ('r \<Rightarrow> 'r) \<Rightarrow> 'r list \<Rightarrow> 'r list" where
  "upd p f t = map (\<lambda>r. if p r then f r else r) t"

definition upd_returning :: "('r \<Rightarrow> bool) \<Rightarrow> ('r \<Rightarrow> 'r) \<Rightarrow> 'r list \<Rightarrow> 'r list \<times> 'r option" where
  "upd_returning p f t = (upd p f t, map_option f (sel p t))"

lemma sel_Some_iff:
  "sel p t = Some r \<longleftrightarrow> (\<exists>i < length t. p (t ! i) \<and> r = t ! i \<and> (\<forall>j < i. \<not> p (t ! j)))"
  by (auto simp: sel_def find_Some_iff)

lemma sel_None_iff: "sel p t = None \<longleftrightarrow> (\<forall>r \<in> set t. \<not> p r)"
  by (auto simp: sel_def find_None_iff)

lemma sel_SomeD: "sel p t = Some r \<Longrightarrow> r \<in> set t \<and> p r"
  by (auto simp: sel_Some_iff)

lemma sel_Nil [simp]: "sel p [] = None"
  by (simp add: sel_def)

lemma sel_Cons [simp]: "sel p (r # t) = (if p r then Some r else sel p t)"
  by (simp add: sel_def)

lemma sel_append: "sel p (t @ u) = (case sel p t of Some r \<Rightarrow> Some r | None \<Rightarrow> sel p u)"
  by (induction t) auto

lemma upd_Nil [simp]: "upd p f [] = []"
  by (simp add: upd_def)

lemma upd_Cons [simp]: "upd p f (r # t) = (if p r then f r else r) # upd p f t"
  by (simp add: upd_def)

lemma length_upd [simp]: "length (upd p f t) = length t"
  by (simp add: upd_def)

lemma set_upd: "set (upd p f t) = (\<lambda>r. if p r then f r else r) ` set t"
  by (simp add: upd_def)

lemma upd_append [simp]: "upd p f (t @ u) = upd p f t @ upd p f u"
  by (simp add: upd_def)

lemma upd_id: "(\<And>r. r \<in> set t \<Longrightarrow> p r \<Longrightarrow> f r = r) \<Longrightarrow> upd p f t = t"
  by (induction t) auto

lemma upd_none: "\<forall>r \<in> set t. \<not> p r \<Longrightarrow> upd p f t = t"
  by (rule upd_id) auto

lemma map_key_upd: "(\<And>r. p r \<Longrightarrow> key (f r) = key r) \<Longrightarrow> map key (upd p f t) = map key t"
  by (induction t) auto

text \<open>With a unique key, the row a key selects is the only row of the table with that key.\<close>

lemma sel_unique:
  assumes "x \<in> set t" and "p x" and "\<And>y. y \<in> set t \<Longrightarrow> p y \<Longrightarrow> y = x"
  shows "sel p t = Some x"
proof (cases "sel p t")
  case None
  then show ?thesis using assms(1,2) by (simp add: sel_None_iff)
next
  case (Some y)
  then have "y = x" using assms(3) sel_SomeD [OF Some] by blast
  then show ?thesis using Some by simp
qed

lemma sel_key: "distinct (map key t) \<Longrightarrow> r \<in> set t \<Longrightarrow> sel (\<lambda>x. key x = key r) t = Some r"
  by (induction t) auto

lemma sel_key_iff:
  "distinct (map key t) \<Longrightarrow> sel (\<lambda>x. key x = k) t = Some r \<longleftrightarrow> r \<in> set t \<and> key r = k"
  using sel_key [of key t r] sel_SomeD [of "\<lambda>x. key x = k" t r] by auto

lemma distinct_key_eq: "distinct (map key t) \<Longrightarrow> r \<in> set t \<Longrightarrow> s \<in> set t \<Longrightarrow> key r = key s \<Longrightarrow> r = s"
  by (auto simp: distinct_map dest: inj_onD)

lemma sel_upd_key:
  assumes "\<And>r. p r \<Longrightarrow> key (f r) = key r"
  shows "sel (\<lambda>x. key x = k) (upd p f t)
         = map_option (\<lambda>r. if p r then f r else r) (sel (\<lambda>x. key x = k) t)"
  using assms by (induction t) auto

section \<open>Reachable states\<close>

text \<open>
  A component whose state changes by a step relation: what holds at the start and is kept
  by every step holds in every reachable state, and a relation between two states that is
  reflexive, transitive and holds of every step from a good state holds of every run.
\<close>

inductive run :: "('s \<Rightarrow> 's \<Rightarrow> bool) \<Rightarrow> 's \<Rightarrow> 's \<Rightarrow> bool" for step where
  run_refl: "run step s s"
| run_step: "run step s t \<Longrightarrow> step t u \<Longrightarrow> run step s u"

inductive_cases run_stepE: "run step s u"

lemma run_one: "step s t \<Longrightarrow> run step s t"
  by (rule run.run_step, rule run.run_refl)

lemma run_append: "run step s t \<Longrightarrow> run step t u \<Longrightarrow> run step s u"
  by (rotate_tac, induction rule: run.induct) (auto intro: run.run_step)

locale invariant_system =
  fixes step :: "'s \<Rightarrow> 's \<Rightarrow> bool"
    and inv :: "'s \<Rightarrow> bool"
  assumes inv_step: "inv s \<Longrightarrow> step s t \<Longrightarrow> inv t"
begin

lemma run_inv: "run step s t \<Longrightarrow> inv s \<Longrightarrow> inv t"
  by (induction rule: run.induct) (auto intro: inv_step)

lemma run_stable:
  assumes "run step s t" and "inv s" and "Q s"
    and "\<And>u v. inv u \<Longrightarrow> Q u \<Longrightarrow> step u v \<Longrightarrow> Q v"
  shows "Q t"
  using assms(1,2,3)
proof (induction rule: run.induct)
  case (run_step s t u)
  then show ?case using assms(4) run_inv by blast
qed auto

lemma run_rel:
  assumes "run step s t" and "inv s" and "\<And>u. R u u"
    and "\<And>u v w. R u v \<Longrightarrow> R v w \<Longrightarrow> R u w"
    and "\<And>u v. inv u \<Longrightarrow> step u v \<Longrightarrow> R u v"
  shows "R s t"
  using assms(1,2)
proof (induction rule: run.induct)
  case (run_refl s)
  show ?case by (rule assms(3))
next
  case (run_step s t u)
  then show ?case using assms(4,5) run_inv by blast
qed

end

end
