(* ===== verification/Timestamps.thy ===== *)
theory Timestamps
  imports Prelude
begin

text \<open>
  Timestamps as the database stores and compares them. A \<open>TEXT\<close> timestamp column holds
  a UTC instant \<open>YYYY-MM-DDTHH:MM:SS\<close> followed by an optional fraction and \<open>Z\<close>. Go
  writes \<open>time.RFC3339Nano\<close> (\<open>time.Now().UTC().Format\<close>, no trailing zeros in the fraction,
  no fraction at all when it is zero); SQL writes \<open>strftime('%Y-%m-%dT%H:%M:%fZ','now')\<close>
  (always three fraction digits). SQL compares the two as text. The first 19 characters
  have a fixed width and order as the whole second does, so a stamp is that second and the
  text after it, ordered lexicographically.
\<close>

datatype stamp = Stamp (stamp_secs: int) (stamp_tail: string)

instantiation stamp :: linorder
begin

definition less_eq_stamp :: "stamp \<Rightarrow> stamp \<Rightarrow> bool" where
  "less_eq_stamp a b \<longleftrightarrow> stamp_secs a < stamp_secs b \<or>
     (stamp_secs a = stamp_secs b \<and> stamp_tail a \<le> stamp_tail b)"

definition less_stamp :: "stamp \<Rightarrow> stamp \<Rightarrow> bool" where
  "less_stamp a b \<longleftrightarrow> stamp_secs a < stamp_secs b \<or>
     (stamp_secs a = stamp_secs b \<and> stamp_tail a < stamp_tail b)"

instance
  by standard (auto simp: less_eq_stamp_def less_stamp_def stamp.expand)

end

section \<open>Formatting an instant\<close>

text \<open>An instant is the number of nanoseconds since the Unix epoch.\<close>

type_synonym instant = int

abbreviation ns_per_s :: int where
  "ns_per_s \<equiv> 1000000000"

fun fixed_digits :: "nat \<Rightarrow> nat \<Rightarrow> nat list" where
  "fixed_digits 0 n = []"
| "fixed_digits (Suc k) n = fixed_digits k (n div 10) @ [n mod 10]"

definition strip_zeros :: "nat list \<Rightarrow> nat list" where
  "strip_zeros ds = rev (dropWhile (\<lambda>d. d = 0) (rev ds))"

definition digit_char :: "nat \<Rightarrow> char" where
  "digit_char d = char_of (48 + d)"

definition digit_val :: "char \<Rightarrow> nat" where
  "digit_val c = of_char c - 48"

definition go_tail :: "nat \<Rightarrow> string" where
  "go_tail n = (let ds = strip_zeros (fixed_digits 9 n)
                in if ds = [] then ''Z'' else ''.'' @ map digit_char ds @ ''Z'')"

definition rfc3339nano :: "instant \<Rightarrow> stamp" where
  "rfc3339nano t = Stamp (t div ns_per_s) (go_tail (nat (t mod ns_per_s)))"

definition sql_now :: "instant \<Rightarrow> stamp" where
  "sql_now t = Stamp (t div ns_per_s)
     (''.'' @ map digit_char (fixed_digits 3 (nat (t mod ns_per_s) div 1000000)) @ ''Z'')"

section \<open>Parsing it back\<close>

definition digits_val :: "nat list \<Rightarrow> nat" where
  "digits_val ds = foldl (\<lambda>a d. 10 * a + d) 0 ds"

definition tail_ns :: "string \<Rightarrow> nat" where
  "tail_ns s = (case s of [] \<Rightarrow> 0
     | c # cs \<Rightarrow> if c = CHR ''.''
         then let ds = map digit_val (butlast cs) in digits_val ds * 10 ^ (9 - length ds)
         else 0)"

definition parse_stamp :: "stamp \<Rightarrow> instant" where
  "parse_stamp s = stamp_secs s * ns_per_s + int (tail_ns (stamp_tail s))"

definition stamp_ok :: "stamp \<Rightarrow> bool" where
  "stamp_ok s \<longleftrightarrow> tail_ns (stamp_tail s) < 1000000000"

section \<open>Round trips\<close>

lemma digit_val_char [simp]: "d < 10 \<Longrightarrow> digit_val (digit_char d) = d"
  by (simp add: digit_val_def digit_char_def)

lemma fixed_digits_small: "d \<in> set (fixed_digits k n) \<Longrightarrow> d < 10"
  by (induction k n rule: fixed_digits.induct) auto

lemma length_fixed_digits [simp]: "length (fixed_digits k n) = k"
  by (induction k n rule: fixed_digits.induct) auto

lemma digits_val_snoc: "digits_val (ds @ [d]) = 10 * digits_val ds + d"
  by (simp add: digits_val_def)

lemma digits_val_fixed: "digits_val (fixed_digits k n) = n mod 10 ^ k"
proof (induction k n rule: fixed_digits.induct)
  case (1 n)
  show ?case by (simp add: digits_val_def)
next
  case (2 k n)
  have "digits_val (fixed_digits (Suc k) n) = 10 * (n div 10 mod 10 ^ k) + n mod 10"
    by (simp add: digits_val_snoc "2.IH")
  also have "\<dots> = n mod 10 ^ Suc k"
    by (simp add: mod_mult2_eq [of n 10 "10 ^ k"])
  finally show ?case .
qed

lemma digits_val_zeros: "digits_val (ds @ replicate k 0) = digits_val ds * 10 ^ k"
  by (induction k arbitrary: ds) (simp_all add: replicate_append_same [symmetric] digits_val_snoc
      flip: append_assoc)

lemma strip_zeros_split: "\<exists>k. ds = strip_zeros ds @ replicate k 0"
proof -
  have eq: "rev ds = takeWhile (\<lambda>d. d = 0) (rev ds) @ dropWhile (\<lambda>d. d = 0) (rev ds)"
    by simp
  define zs where "zs = takeWhile (\<lambda>d. d = 0) (rev ds)"
  have "\<forall>d \<in> set zs. d = 0"
    unfolding zs_def by (auto dest: set_takeWhileD)
  then have zs: "zs = replicate (length zs) 0"
    by (simp add: replicate_length_same)
  have "ds = strip_zeros ds @ rev zs"
    using eq unfolding strip_zeros_def zs_def by (metis rev_append rev_rev_ident)
  then have "ds = strip_zeros ds @ replicate (length zs) 0"
    by (subst (asm) zs) simp
  then show ?thesis ..
qed

lemma tail_ns_go_tail:
  assumes "n < 1000000000"
  shows "tail_ns (go_tail n) = n"
proof -
  let ?ds = "strip_zeros (fixed_digits 9 n)"
  obtain k where k: "fixed_digits 9 n = ?ds @ replicate k 0"
    using strip_zeros_split by blast
  have len: "length ?ds + k = 9"
    using arg_cong [OF k, of length] by simp
  have small: "d < 10" if "d \<in> set ?ds" for d
    using that k fixed_digits_small [of d 9 n] by (metis Un_iff set_append)
  have val: "digits_val ?ds * 10 ^ k = n"
    using assms digits_val_fixed [of 9 n] by (simp add: k [symmetric] flip: digits_val_zeros)
  have parse: "map (digit_val \<circ> digit_char) ?ds = ?ds"
    by (rule map_idI) (simp add: small)
  show ?thesis
  proof (cases "?ds = []")
    case True
    with val show ?thesis by (simp add: go_tail_def tail_ns_def digits_val_def)
  next
    case False
    then have "tail_ns (go_tail n) = digits_val ?ds * 10 ^ (9 - length ?ds)"
      by (simp add: go_tail_def tail_ns_def Let_def butlast_append parse)
    moreover have "9 - length ?ds = k" using len by simp
    ultimately show ?thesis using val by simp
  qed
qed

lemma tail_ns_sql:
  assumes "n < 1000"
  shows "tail_ns (''.'' @ map digit_char (fixed_digits 3 n) @ ''Z'') = n * 1000000"
proof -
  have "map (digit_val \<circ> digit_char) (fixed_digits 3 n) = fixed_digits 3 n"
    by (rule map_idI) (simp add: fixed_digits_small)
  then show ?thesis
    using assms digits_val_fixed [of 3 n]
    by (simp add: tail_ns_def Let_def butlast_append)
qed

lemma parse_rfc3339nano: "parse_stamp (rfc3339nano t) = t"
proof -
  have "tail_ns (go_tail (nat (t mod ns_per_s))) = nat (t mod ns_per_s)"
    by (rule tail_ns_go_tail) (simp add: nat_less_iff)
  then show ?thesis by (simp add: parse_stamp_def rfc3339nano_def)
qed

lemma parse_sql_now: "parse_stamp (sql_now t) = t - t mod 1000000"
proof -
  define r where "r = t mod ns_per_s"
  have r: "0 \<le> r" "r < ns_per_s" by (simp_all add: r_def)
  have small: "nat r div 1000000 < 1000" using r by (simp add: nat_less_iff)
  have "parse_stamp (sql_now t) = t div ns_per_s * ns_per_s + int (nat r div 1000000 * 1000000)"
    unfolding parse_stamp_def sql_now_def r_def [symmetric]
    by (simp only: stamp.sel tail_ns_sql [OF small])
  also have "int (nat r div 1000000 * 1000000) = r - r mod 1000000"
    using r by (simp add: zdiv_int minus_mod_eq_div_mult)
  also have "r mod 1000000 = t mod 1000000"
    by (simp add: r_def mod_mod_cancel)
  finally show ?thesis
    using div_mult_mod_eq [of t ns_per_s] by (simp add: r_def)
qed

lemma stamp_ok_rfc3339nano [simp]: "stamp_ok (rfc3339nano t)"
  by (simp add: stamp_ok_def rfc3339nano_def tail_ns_go_tail nat_less_iff)

lemma stamp_ok_sql_now [simp]: "stamp_ok (sql_now t)"
proof -
  have small: "nat (t mod ns_per_s) div 1000000 < 1000" by (simp add: nat_less_iff)
  show ?thesis
    unfolding stamp_ok_def sql_now_def stamp.sel tail_ns_sql [OF small] using small by simp
qed

section \<open>Text order against time order\<close>

text \<open>
  Text order follows the whole second. Within one second it need not follow the time: a
  stamp without a fraction sorts after every stamp of that second with one.
\<close>

lemma stamp_less_secs: "(a::stamp) \<le> b \<Longrightarrow> stamp_secs a \<le> stamp_secs b"
  by (auto simp: less_eq_stamp_def)

lemma stamp_le_skew:
  assumes "a \<le> b" and "stamp_ok a"
  shows "parse_stamp a < parse_stamp b + ns_per_s"
  using assms stamp_less_secs [of a b] by (auto simp: parse_stamp_def stamp_ok_def)

lemma stamp_less_of_secs: "stamp_secs a < stamp_secs b \<Longrightarrow> a < b"
  by (simp add: less_stamp_def)

lemma parse_gap_less:
  assumes "parse_stamp a + ns_per_s \<le> parse_stamp b" and "stamp_ok b"
  shows "a < b"
  using assms stamp_le_skew [of b a] by (meson leD leI not_le)

section \<open>The clock as SQL prints it\<close>

lemma append_less_same [simp]: "(u @ v < u @ w) = (v < (w :: char list))"
  by (induction u) auto

lemma digit_char_less: "d < e \<Longrightarrow> e < 10 \<Longrightarrow> digit_char d < digit_char e"
  by (simp add: digit_char_def less_char_def)

lemma fixed_digits_less:
  "n < m \<Longrightarrow> m < 10 ^ k \<Longrightarrow>
   map digit_char (fixed_digits k n) @ x < map digit_char (fixed_digits k m) @ y"
proof (induction k arbitrary: n m x y)
  case (Suc k)
  show ?case
  proof (cases "n div 10 < m div 10")
    case True
    moreover have "m div 10 < 10 ^ k" using Suc.prems(2) by (simp add: less_mult_imp_div_less mult.commute)
    ultimately show ?thesis by (simp add: Suc.IH)
  next
    case False
    then have eq: "n div 10 = m div 10" using Suc.prems(1) by (meson div_le_mono le_antisym less_imp_le not_less)
    then have "n mod 10 < m mod 10" using Suc.prems(1) by (metis mult_div_mod_eq nat_add_left_cancel_less)
    then show ?thesis by (simp add: eq digit_char_less)
  qed
qed simp

lemma sql_now_mono:
  assumes "t \<le> u"
  shows "sql_now t \<le> sql_now u"
proof (cases "t div ns_per_s = u div ns_per_s")
  case True
  define a b where "a = nat (t mod ns_per_s) div 1000000" and "b = nat (u mod ns_per_s) div 1000000"
  have "t mod ns_per_s \<le> u mod ns_per_s"
    using assms True by (metis add_le_cancel_left mult_div_mod_eq)
  then have le: "a \<le> b" unfolding a_def b_def by (intro div_le_mono nat_mono)
  have small: "b < 10 ^ 3" by (simp add: b_def nat_less_iff)
  have "map digit_char (fixed_digits 3 a) @ ''Z'' \<le> map digit_char (fixed_digits 3 b) @ ''Z''"
  proof (cases "a = b")
    case False
    with le have "a < b" by simp
    then show ?thesis using fixed_digits_less small by (blast intro: less_imp_le)
  qed simp
  then have "stamp_tail (sql_now t) \<le> stamp_tail (sql_now u)"
    unfolding sql_now_def stamp.sel a_def [symmetric] b_def [symmetric] by simp
  then show ?thesis using True unfolding less_eq_stamp_def sql_now_def stamp.sel by blast
next
  case False
  moreover have "t div ns_per_s \<le> u div ns_per_s" using assms by (rule zdiv_mono1) simp
  ultimately show ?thesis by (simp add: sql_now_def less_eq_stamp_def)
qed

text \<open>
  A lease text is compared with the clock text: the comparison follows real time up to one
  second in either direction.
\<close>

lemma lease_text_late: "sql_now now < rfc3339nano u \<Longrightarrow> now < u + ns_per_s"
proof (rule ccontr)
  assume lt: "sql_now now < rfc3339nano u" and "\<not> now < u + ns_per_s"
  then have "(u + ns_per_s) div ns_per_s \<le> now div ns_per_s"
    by (intro zdiv_mono1) simp_all
  then have "stamp_secs (rfc3339nano u) < stamp_secs (sql_now now)"
    by (simp add: rfc3339nano_def sql_now_def)
  with lt show False by (auto dest: stamp_less_of_secs)
qed

lemma lease_text_early: "rfc3339nano u \<le> sql_now now \<Longrightarrow> u < now + ns_per_s"
proof (rule ccontr)
  assume le: "rfc3339nano u \<le> sql_now now" and "\<not> u < now + ns_per_s"
  then have "(now + ns_per_s) div ns_per_s \<le> u div ns_per_s"
    by (intro zdiv_mono1) simp_all
  then have "stamp_secs (sql_now now) < stamp_secs (rfc3339nano u)"
    by (simp add: rfc3339nano_def sql_now_def)
  with le show False by (auto dest: stamp_less_of_secs)
qed

end
