(* ===== verification/Nodes.thy ===== *)
theory Nodes
  imports Timestamps
begin

text \<open>
  The nodes table and how a reference (an id, a name or an alias) is resolved to a live
  node: \<open>internal/server/db/nodes.go\<close> (\<open>resolveNode\<close>, \<open>GetNode\<close>, \<open>SetNodeStatus\<close>) with
  the queries of \<open>internal/server/store/sqlc/nodes.sql.go\<close> they run. Every component of the
  server starts by resolving a node, so the other stores extend this record.
\<close>

datatype node_status = NodePending | NodeActive | NodeDisabled | NodeDegraded

record node_host =
  host_id :: string
  host_addr :: string
  host_tag :: string
  host_selected :: bool

record node_row =
  node_id :: string
  node_name :: string
  node_public_host :: string
  node_hosts :: "node_host list"
  node_status :: node_status
  node_sing_box_version :: string
  node_last_seen_at :: "stamp option"
  node_deleted_at :: "stamp option"
  node_created_at :: stamp
  node_updated_at :: stamp

text \<open>\<open>db_aliases\<close> holds the rows \<open>(alias, node_id)\<close> of \<open>node_name_aliases\<close>.\<close>

record node_db =
  db_nodes :: "node_row list"
  db_aliases :: "(string \<times> string) list"

section \<open>Queries\<close>

definition q_GetNodeByIDIncludingDeleted :: "'a node_db_scheme \<Rightarrow> string \<Rightarrow> node_row option" where
  "q_GetNodeByIDIncludingDeleted db i = sel (\<lambda>n. node_id n = i) (db_nodes db)"

definition q_GetNodeByName :: "'a node_db_scheme \<Rightarrow> string \<Rightarrow> node_row option" where
  "q_GetNodeByName db nm =
     sel (\<lambda>n. node_deleted_at n = None \<and>
              (node_name n = nm \<or> Some (node_id n) = map_option snd (sel (\<lambda>a. fst a = nm) (db_aliases db))))
         (db_nodes db)"

definition q_ListNodes :: "'a node_db_scheme \<Rightarrow> node_row list" where
  "q_ListNodes db = sort_key node_name (filter (\<lambda>n. node_deleted_at n = None) (db_nodes db))"

definition q_SetNodeStatus :: "instant \<Rightarrow> 'a node_db_scheme \<Rightarrow> string \<Rightarrow> node_status \<Rightarrow> 'a node_db_scheme \<times> nat" where
  "q_SetNodeStatus now db i st =
     (let p = (\<lambda>n. node_id n = i \<and> node_deleted_at n = None)
      in (db\<lparr>db_nodes := upd p (\<lambda>n. n\<lparr>node_status := st, node_updated_at := sql_now now\<rparr>) (db_nodes db)\<rparr>,
          length (filter p (db_nodes db))))"

definition q_PromotePendingNodeToActive :: "instant \<Rightarrow> 'a node_db_scheme \<Rightarrow> string \<Rightarrow> 'a node_db_scheme \<times> nat" where
  "q_PromotePendingNodeToActive now db nm =
     (let p = (\<lambda>n. node_name n = nm \<and> node_deleted_at n = None \<and> node_status n = NodePending)
      in (db\<lparr>db_nodes := upd p (\<lambda>n. n\<lparr>node_status := NodeActive, node_updated_at := sql_now now\<rparr>) (db_nodes db)\<rparr>,
          length (filter p (db_nodes db))))"

section \<open>Resolving a reference\<close>

definition normalizeName :: "string \<Rightarrow> string" where
  "normalizeName nm = trim_space nm"

text \<open>
  \<open>resolveNode\<close> with \<open>includingDeleted = false\<close>: an id hit decides, and a deleted row with
  that id is \<open>ErrNoRows\<close> even when a live node carries the reference as its name.
\<close>

definition resolveNode :: "'a node_db_scheme \<Rightarrow> string \<Rightarrow> node_row option" where
  "resolveNode db reference =
     (let r = normalizeName reference in
      case q_GetNodeByIDIncludingDeleted db r of
        None \<Rightarrow> q_GetNodeByName db r
      | Some n \<Rightarrow> if node_deleted_at n \<noteq> None then None else Some n)"

definition ListNodes :: "'a node_db_scheme \<Rightarrow> node_row list" where
  "ListNodes db = q_ListNodes db"

definition GetNode :: "'a node_db_scheme \<Rightarrow> string \<Rightarrow> node_row option" where
  "GetNode db nm = resolveNode db nm"

datatype set_status_error = UnsupportedNodeStatus | StatusNodeNotFound

fun validNodeStatus :: "string \<Rightarrow> node_status option" where
  "validNodeStatus st =
     (if st = ''pending'' then Some NodePending
      else if st = ''active'' then Some NodeActive
      else if st = ''disabled'' then Some NodeDisabled
      else if st = ''degraded'' then Some NodeDegraded
      else None)"

definition SetNodeStatus ::
  "instant \<Rightarrow> 'a node_db_scheme \<Rightarrow> string \<Rightarrow> string \<Rightarrow> (set_status_error + unit) \<times> 'a node_db_scheme" where
  "SetNodeStatus now db nm status =
     (case validNodeStatus status of
        None \<Rightarrow> (Inl UnsupportedNodeStatus, db)
      | Some st \<Rightarrow>
        (case GetNode db nm of
           None \<Rightarrow> (Inl StatusNodeNotFound, db)
         | Some n \<Rightarrow>
           (let (db', affected) = q_SetNodeStatus now db (node_id n) st
            in if affected = 0 then (Inl StatusNodeNotFound, db') else (Inr (), db'))))"

lemma GetNode_SomeD:
  assumes "GetNode db nm = Some n"
  shows "n \<in> set (db_nodes db) \<and> node_deleted_at n = None"
  using assms
  by (auto simp: GetNode_def resolveNode_def q_GetNodeByIDIncludingDeleted_def q_GetNodeByName_def Let_def
      dest: sel_SomeD split: option.splits if_splits)

lemma GetNode_cong:
  "db_nodes db = db_nodes db' \<Longrightarrow> db_aliases db = db_aliases db' \<Longrightarrow> GetNode db nm = GetNode db' nm"
  by (simp add: GetNode_def resolveNode_def q_GetNodeByIDIncludingDeleted_def q_GetNodeByName_def Let_def
      split: option.split)

lemma GetNode_deleted_id:
  "q_GetNodeByIDIncludingDeleted db (normalizeName nm) = Some n \<Longrightarrow> node_deleted_at n \<noteq> None \<Longrightarrow> GetNode db nm = None"
  by (simp add: GetNode_def resolveNode_def)

end
