(* ===== verification/Operation_Store.thy ===== *)
theory Operation_Store
  imports Nodes
begin

text \<open>
  The tables \<open>node_operations\<close> and \<open>node_operation_events\<close> and the SQL statements on them:
  \<open>internal/server/store/sqlc/node_operations.sql.go\<close>. A row is a record; a nullable column
  is an option; \<open>required_capabilities_json\<close> is kept as the string list it encodes. The
  constraints of the schema (primary keys, \<open>UNIQUE (node_id, idempotency_key)\<close>, the partial
  unique index on active rows, foreign keys, checks) are the guards of the inserts: an
  insert that violates one is \<^const>\<open>None\<close>.
\<close>

datatype op_status = OpQueued | OpRunning | OpSucceeded | OpFailed | OpCancelled | OpExpired

record op_row =
  op_id :: string
  op_node :: string
  op_kind :: string
  op_status :: op_status
  op_phase :: string
  op_payload :: string
  op_result :: string
  op_key :: string
  op_caps :: "string list"
  op_attempt :: int
  op_lease_hash :: "string option"
  op_lease_expires :: "stamp option"
  op_cancel :: bool
  op_not_before :: "stamp option"
  op_expires :: "stamp option"
  op_requested_by :: string
  op_requested_at :: stamp
  op_claimed_at :: "stamp option"
  op_started_at :: "stamp option"
  op_finished_at :: "stamp option"
  op_updated_at :: stamp
  op_error :: string
  op_retry_of :: "string option"

text \<open>\<open>reported_at\<close> holds the server's own stamp or the agent's text, kept verbatim.\<close>

datatype reported = ReportedNow stamp | ReportedText string

record op_event =
  ev_id :: string
  ev_op :: string
  ev_attempt :: int
  ev_seq :: int
  ev_status :: op_status
  ev_phase :: string
  ev_message :: string
  ev_details :: string
  ev_result :: string
  ev_error :: string
  ev_reported_at :: reported
  ev_created_at :: stamp

record op_db = node_db +
  db_ops :: "op_row list"
  db_events :: "op_event list"

fun op_active :: "op_status \<Rightarrow> bool" where
  "op_active OpQueued = True"
| "op_active OpRunning = True"
| "op_active _ = False"

abbreviation op_is_active :: "op_row \<Rightarrow> bool" where
  "op_is_active r \<equiv> op_active (op_status r)"

text \<open>A SQL comparison with \<open>NULL\<close> is \<open>NULL\<close>, which a \<open>WHERE\<close> clause treats as false.\<close>

fun after_now :: "stamp option \<Rightarrow> instant \<Rightarrow> bool" where
  "after_now None now = False"
| "after_now (Some e) now = (sql_now now < e)"

fun not_after_now :: "stamp option \<Rightarrow> instant \<Rightarrow> bool" where
  "not_after_now None now = False"
| "not_after_now (Some e) now = (e \<le> sql_now now)"

definition allowed_kinds :: "string list" where
  "allowed_kinds = [''update.bundle'', ''update.agent'', ''update.sing_box'',
     ''config.reconcile'', ''diagnostics.collect'', ''logs.collect'']"

section \<open>Reads\<close>

definition q_GetNodeOperationByID :: "'a op_db_scheme \<Rightarrow> string \<Rightarrow> op_row option" where
  "q_GetNodeOperationByID db i = sel (\<lambda>r. op_id r = i) (db_ops db)"

definition q_GetNodeOperationByIdempotencyKey :: "'a op_db_scheme \<Rightarrow> string \<Rightarrow> string \<Rightarrow> op_row option" where
  "q_GetNodeOperationByIdempotencyKey db nid key =
     sel (\<lambda>r. op_node r = nid \<and> op_key r = key) (db_ops db)"

definition q_GetActiveNodeOperation :: "'a op_db_scheme \<Rightarrow> string \<Rightarrow> op_row option" where
  "q_GetActiveNodeOperation db nid =
     (case sort_key op_requested_at (filter (\<lambda>r. op_node r = nid \<and> op_is_active r) (db_ops db)) of
        [] \<Rightarrow> None | r # _ \<Rightarrow> Some r)"

definition q_ListActiveNodeOperations :: "'a op_db_scheme \<Rightarrow> op_row list" where
  "q_ListActiveNodeOperations db = sort_key op_requested_at (filter op_is_active (db_ops db))"

definition q_ListNodeOperations :: "'a op_db_scheme \<Rightarrow> string \<Rightarrow> nat \<Rightarrow> nat \<Rightarrow> op_row list" where
  "q_ListNodeOperations db nid lim off =
     take lim (drop off (rev (sort_key op_requested_at (rev (filter (\<lambda>r. op_node r = nid) (db_ops db))))))"

definition q_CountNodeOperations :: "'a op_db_scheme \<Rightarrow> string \<Rightarrow> nat" where
  "q_CountNodeOperations db nid = length (filter (\<lambda>r. op_node r = nid) (db_ops db))"

definition q_GetNodeOperationEvent :: "'a op_db_scheme \<Rightarrow> string \<Rightarrow> int \<Rightarrow> int \<Rightarrow> op_event option" where
  "q_GetNodeOperationEvent db i att sq =
     sel (\<lambda>e. ev_op e = i \<and> ev_attempt e = att \<and> ev_seq e = sq) (db_events db)"

definition q_LastNodeOperationEventSequence :: "'a op_db_scheme \<Rightarrow> string \<Rightarrow> int \<Rightarrow> int" where
  "q_LastNodeOperationEventSequence db i att =
     (case map ev_seq (filter (\<lambda>e. ev_op e = i \<and> ev_attempt e = att) (db_events db)) of
        [] \<Rightarrow> 0 | s # ss \<Rightarrow> fold max ss s)"

definition q_ListNodeOperationEvents :: "'a op_db_scheme \<Rightarrow> string \<Rightarrow> op_event list" where
  "q_ListNodeOperationEvents db i =
     sort_key ev_attempt (sort_key ev_seq (filter (\<lambda>e. ev_op e = i) (db_events db)))"

section \<open>Writes\<close>

definition new_op ::
  "instant \<Rightarrow> string \<Rightarrow> string \<Rightarrow> string \<Rightarrow> string \<Rightarrow> string \<Rightarrow> string list \<Rightarrow> stamp option \<Rightarrow> stamp option \<Rightarrow> string \<Rightarrow> string option \<Rightarrow> op_row" where
  "new_op now i nid kind payload key caps nb ex by retry =
     \<lparr>op_id = i, op_node = nid, op_kind = kind, op_status = OpQueued, op_phase = ''queued'',
      op_payload = payload, op_result = ''{}'', op_key = key, op_caps = caps, op_attempt = 0,
      op_lease_hash = None, op_lease_expires = None, op_cancel = False, op_not_before = nb,
      op_expires = ex, op_requested_by = by, op_requested_at = sql_now now, op_claimed_at = None,
      op_started_at = None, op_finished_at = None, op_updated_at = sql_now now, op_error = '''',
      op_retry_of = retry\<rparr>"

definition q_CreateNodeOperation :: "'a op_db_scheme \<Rightarrow> op_row \<Rightarrow> 'a op_db_scheme option" where
  "q_CreateNodeOperation db r =
     (if (\<exists>x \<in> set (db_ops db). op_id x = op_id r)
       \<or> (\<exists>x \<in> set (db_ops db). op_node x = op_node r \<and> op_key x = op_key r)
       \<or> (op_is_active r \<and> (\<exists>x \<in> set (db_ops db). op_node x = op_node r \<and> op_is_active x))
       \<or> \<not> (\<exists>n \<in> set (db_nodes db). node_id n = op_node r)
       \<or> (case op_retry_of r of None \<Rightarrow> False
           | Some p \<Rightarrow> \<not> (\<exists>x \<in> set (db_ops db). op_id x = p))
       \<or> op_kind r \<notin> set allowed_kinds
      then None
      else Some (db\<lparr>db_ops := db_ops db @ [r]\<rparr>))"

definition q_ExpireQueuedNodeOperations :: "instant \<Rightarrow> 'a op_db_scheme \<Rightarrow> string \<Rightarrow> 'a op_db_scheme" where
  "q_ExpireQueuedNodeOperations now db nid =
     db\<lparr>db_ops := upd (\<lambda>r. op_node r = nid \<and> op_status r = OpQueued \<and> not_after_now (op_expires r) now)
        (\<lambda>r. r\<lparr>op_status := OpExpired, op_phase := ''expired'', op_finished_at := Some (sql_now now),
               op_updated_at := sql_now now, op_error := ''operation expired before it was claimed''\<rparr>)
        (db_ops db)\<rparr>"

text \<open>The \<open>WHERE\<close> clause of \<open>ClaimNodeOperation\<close>.\<close>

definition claimable :: "instant \<Rightarrow> op_row \<Rightarrow> bool" where
  "claimable now r \<longleftrightarrow> \<not> op_cancel r
     \<and> (op_not_before r = None \<or> not_after_now (op_not_before r) now)
     \<and> ((op_status r = OpQueued \<and> (op_expires r = None \<or> after_now (op_expires r) now))
        \<or> (op_status r = OpRunning \<and> not_after_now (op_lease_expires r) now))"

definition claim_row :: "instant \<Rightarrow> string option \<Rightarrow> stamp option \<Rightarrow> op_row \<Rightarrow> op_row" where
  "claim_row now hash ex r = r\<lparr>
     op_status := OpRunning,
     op_phase := (if op_status r = OpQueued then ''claimed'' else op_phase r),
     op_attempt := op_attempt r + 1,
     op_lease_hash := hash, op_lease_expires := ex,
     op_claimed_at := Some (sql_now now),
     op_started_at := Some (case op_started_at r of Some s \<Rightarrow> s | None \<Rightarrow> sql_now now),
     op_updated_at := sql_now now\<rparr>"

definition q_ClaimNodeOperation ::
  "instant \<Rightarrow> 'a op_db_scheme \<Rightarrow> string option \<Rightarrow> stamp option \<Rightarrow> string \<Rightarrow> string \<Rightarrow> 'a op_db_scheme \<times> op_row option" where
  "q_ClaimNodeOperation now db hash ex i nid =
     (let (t, r) = upd_returning (\<lambda>r. op_id r = i \<and> op_node r = nid \<and> claimable now r)
                     (claim_row now hash ex) (db_ops db)
      in (db\<lparr>db_ops := t\<rparr>, r))"

text \<open>The lease test shared by \<open>Resume\<close>, \<open>Renew\<close> and \<open>ApplyNodeOperationEvent\<close>.\<close>

definition holds_lease :: "instant \<Rightarrow> string option \<Rightarrow> op_row \<Rightarrow> bool" where
  "holds_lease now hash r \<longleftrightarrow> op_status r = OpRunning \<and> hash \<noteq> None \<and> op_lease_hash r = hash
     \<and> after_now (op_lease_expires r) now"

definition q_ResumeNodeOperationLease ::
  "instant \<Rightarrow> 'a op_db_scheme \<Rightarrow> stamp option \<Rightarrow> string \<Rightarrow> string \<Rightarrow> string option \<Rightarrow> 'a op_db_scheme \<times> op_row option" where
  "q_ResumeNodeOperationLease now db ex i nid hash =
     (let (t, r) = upd_returning (\<lambda>r. op_id r = i \<and> op_node r = nid \<and> holds_lease now hash r)
                     (\<lambda>r. r\<lparr>op_lease_expires := ex, op_updated_at := sql_now now\<rparr>) (db_ops db)
      in (db\<lparr>db_ops := t\<rparr>, r))"

definition q_RenewNodeOperationLease ::
  "instant \<Rightarrow> 'a op_db_scheme \<Rightarrow> stamp option \<Rightarrow> string \<Rightarrow> string \<Rightarrow> string option \<Rightarrow> int \<Rightarrow> 'a op_db_scheme \<times> bool option" where
  "q_RenewNodeOperationLease now db ex i nid hash att =
     (let (t, r) = upd_returning
                     (\<lambda>r. op_id r = i \<and> op_node r = nid \<and> holds_lease now hash r \<and> op_attempt r = att)
                     (\<lambda>r. r\<lparr>op_lease_expires := ex, op_updated_at := sql_now now\<rparr>) (db_ops db)
      in (db\<lparr>db_ops := t\<rparr>, map_option op_cancel r))"

definition cancel_row :: "instant \<Rightarrow> op_row \<Rightarrow> op_row" where
  "cancel_row now r = r\<lparr>
     op_cancel := True,
     op_status := (if op_status r = OpQueued then OpCancelled else op_status r),
     op_phase := (if op_status r = OpQueued then ''cancelled'' else op_phase r),
     op_finished_at := (if op_status r = OpQueued then Some (sql_now now) else op_finished_at r),
     op_updated_at := sql_now now\<rparr>"

definition q_RequestNodeOperationCancel ::
  "instant \<Rightarrow> 'a op_db_scheme \<Rightarrow> string \<Rightarrow> 'a op_db_scheme \<times> op_row option" where
  "q_RequestNodeOperationCancel now db i =
     (let (t, r) = upd_returning (\<lambda>r. op_id r = i \<and> op_is_active r) (cancel_row now) (db_ops db)
      in (db\<lparr>db_ops := t\<rparr>, r))"

definition q_CancelUnclaimedNodeOperation :: "instant \<Rightarrow> 'a op_db_scheme \<Rightarrow> string \<Rightarrow> 'a op_db_scheme" where
  "q_CancelUnclaimedNodeOperation now db i =
     db\<lparr>db_ops := upd (\<lambda>r. op_id r = i \<and> op_status r = OpQueued)
        (\<lambda>r. r\<lparr>op_status := OpCancelled, op_phase := ''cancelled'', op_cancel := True,
               op_finished_at := Some (sql_now now), op_updated_at := sql_now now\<rparr>) (db_ops db)\<rparr>"

definition q_AppendNodeOperationEvent :: "'a op_db_scheme \<Rightarrow> op_event \<Rightarrow> 'a op_db_scheme option" where
  "q_AppendNodeOperationEvent db e =
     (if q_GetNodeOperationEvent db (ev_op e) (ev_attempt e) (ev_seq e) \<noteq> None then Some db
      else if (\<exists>x \<in> set (db_events db). ev_id x = ev_id e)
        \<or> \<not> (\<exists>x \<in> set (db_ops db). op_id x = ev_op e)
        \<or> ev_attempt e \<le> 0 \<or> ev_seq e \<le> 0
        \<or> ev_status e \<notin> {OpRunning, OpSucceeded, OpFailed, OpCancelled}
      then None
      else Some (db\<lparr>db_events := db_events db @ [e]\<rparr>))"

definition apply_event_row ::
  "instant \<Rightarrow> op_status \<Rightarrow> string \<Rightarrow> string \<Rightarrow> string \<Rightarrow> stamp option \<Rightarrow> stamp option \<Rightarrow> op_row \<Rightarrow> op_row" where
  "apply_event_row now st phase result err ex fin r = r\<lparr>
     op_status := st, op_phase := phase, op_result := result, op_error := err,
     op_lease_expires := (if st = OpRunning then ex else None),
     op_lease_hash := (if st = OpRunning then op_lease_hash r else None),
     op_finished_at := (case fin of Some f \<Rightarrow> Some f | None \<Rightarrow> op_finished_at r),
     op_updated_at := sql_now now\<rparr>"

definition q_ApplyNodeOperationEvent ::
  "instant \<Rightarrow> 'a op_db_scheme \<Rightarrow> op_status \<Rightarrow> string \<Rightarrow> string \<Rightarrow> string \<Rightarrow> stamp option \<Rightarrow> stamp option
   \<Rightarrow> string \<Rightarrow> string \<Rightarrow> string option \<Rightarrow> int \<Rightarrow> 'a op_db_scheme \<times> op_row option" where
  "q_ApplyNodeOperationEvent now db st phase result err ex fin i nid hash att =
     (let (t, r) = upd_returning
                     (\<lambda>r. op_id r = i \<and> op_node r = nid \<and> holds_lease now hash r \<and> op_attempt r = att)
                     (apply_event_row now st phase result err ex fin) (db_ops db)
      in (db\<lparr>db_ops := t\<rparr>, r))"

end
