(* ===== verification/Node_Operations.thy ===== *)
theory Node_Operations
  imports Operation_Store
begin

text \<open>
  Durable node operations: \<open>internal/server/db/node_operations.go\<close>. One definition per
  method of \<open>DB\<close>; a method that writes returns its result beside the new database, and a
  failed transaction returns the database it started from (\<open>withTx\<close> rolls back). The clock
  is read once per call (\<open>now\<close>); a fresh id, a lease secret and the SHA-256 function are
  arguments. A JSON text enters as what \<open>encoding/json\<close> makes of it, a timestamp text as
  what \<open>time.Parse\<close> makes of it.
\<close>

datatype op_error =
    OpNodeNotFound
  | UnsupportedKind
  | PayloadTooLarge | PayloadSyntax | PayloadNotObject
  | KeyRequired | KeyTooLong
  | TooManyCapabilities | CapabilityTooLong | CapabilityInvalid
  | BadTimestamp
  | ExpiresBeforeNotBefore
  | ErrOperationIdempotencyConflict
  | ErrActiveNodeOperation
  | RetryOfNotFound | RetryOfNotTerminal
  | OpConstraint
  | ErrInvalidOperationLease
  | OpNoRows
  | InvalidEventStatus | InvalidPhase | MessageTooLong | ErrorTooLong
  | SequenceReused | SequenceExists | SequenceGap
  | NotRequestedToCancel

section \<open>Inputs as the library delivers them\<close>

datatype time_arg = TimeBlank | TimeBad | TimeAt instant

datatype json_doc = JsonBlank | JsonMalformed | JsonNull | JsonObject string

record raw_json =
  json_bytes :: nat
  json_doc :: json_doc

definition normalizeJSONObject :: "raw_json \<Rightarrow> op_error + string" where
  "normalizeJSONObject raw =
     (if json_bytes raw > 256 * 1024 then Inl PayloadTooLarge
      else case json_doc raw of
        JsonBlank \<Rightarrow> Inr ''{}''
      | JsonMalformed \<Rightarrow> Inl PayloadSyntax
      | JsonNull \<Rightarrow> Inl PayloadNotObject
      | JsonObject s \<Rightarrow> Inr s)"

text \<open>The instant Go's \<open>Time.IsZero\<close> tests for: the first of January of the year 1.\<close>

definition go_zero_time :: instant where
  "go_zero_time = - 62135596800 * ns_per_s"

definition normalizeOptionalTimestamp :: "time_arg \<Rightarrow> op_error + (stamp option \<times> instant option)" where
  "normalizeOptionalTimestamp v =
     (case v of TimeBlank \<Rightarrow> Inr (None, None)
      | TimeBad \<Rightarrow> Inl BadTimestamp
      | TimeAt t \<Rightarrow> Inr (Some (rfc3339nano t), Some t))"

definition nullableString :: "string \<Rightarrow> string option" where
  "nullableString v = (let v = trim_space v in if v = '''' then None else Some v)"

definition str_or_empty :: "string option \<Rightarrow> string" where
  "str_or_empty v = (case v of None \<Rightarrow> '''' | Some s \<Rightarrow> s)"

section \<open>Capabilities\<close>

fun norm_caps :: "string list \<Rightarrow> string list \<Rightarrow> string list" where
  "norm_caps seen [] = []"
| "norm_caps seen (v # vs) =
     (let v' = trim_space v
      in if v' = '''' \<or> v' \<in> set seen then norm_caps seen vs
         else v' # norm_caps (v' # seen) vs)"

definition normalizeCapabilities :: "string list \<Rightarrow> string list" where
  "normalizeCapabilities values = sort (norm_caps [] values)"

definition hasCapabilities :: "string list \<Rightarrow> string list \<Rightarrow> bool" where
  "hasCapabilities available required =
     (let have = normalizeCapabilities available in list_all (\<lambda>c. c \<in> set have) required)"

definition in_range :: "char \<Rightarrow> char \<Rightarrow> char \<Rightarrow> bool" where
  "in_range lo hi c \<longleftrightarrow> lo \<le> c \<and> c \<le> hi"

definition cap_char :: "char \<Rightarrow> bool" where
  "cap_char c \<longleftrightarrow> in_range CHR ''a'' CHR ''z'' c \<or> in_range CHR ''0'' CHR ''9'' c
     \<or> c = CHR ''.'' \<or> c = CHR ''_'' \<or> c = CHR ''-''"

fun check_caps :: "string list \<Rightarrow> op_error + unit" where
  "check_caps [] = Inr ()"
| "check_caps (c # cs) =
     (if length c > 128 then Inl CapabilityTooLong
      else if \<not> list_all cap_char c then Inl CapabilityInvalid
      else check_caps cs)"

definition validateCapabilities :: "string list \<Rightarrow> op_error + unit" where
  "validateCapabilities caps =
     (if length caps > 128 then Inl TooManyCapabilities else check_caps caps)"

definition requiredCapabilitiesForOperation :: "string \<Rightarrow> string list" where
  "requiredCapabilitiesForOperation kind =
     (if kind = ''update.agent'' then
        [''operations.v1'', ''update.agent.v1'', ''download.streaming.v1'',
         ''install.versioned.v1'', ''restart_resume.agent.v1'']
      else if kind = ''update.sing_box'' then
        [''operations.v1'', ''update.sing_box.v1'', ''download.streaming.v1'',
         ''install.versioned.v1'', ''rollback.sing_box.v1'']
      else if kind = ''update.bundle'' then
        [''operations.v1'', ''update.agent.v1'', ''update.sing_box.v1'', ''download.streaming.v1'',
         ''install.versioned.v1'', ''restart_resume.agent.v1'', ''rollback.sing_box.v1'']
      else [''operations.v1''])"

section \<open>Creating an operation\<close>

record create_params =
  cp_node :: string
  cp_kind :: string
  cp_payload :: raw_json
  cp_key :: string
  cp_caps :: "string list"
  cp_not_before :: time_arg
  cp_expires :: time_arg
  cp_by :: string
  cp_retry_of :: string

text \<open>The validated request: what the transaction of \<open>CreateNodeOperation\<close> works on.\<close>

record op_request =
  rq_kind :: string
  rq_payload :: string
  rq_key :: string
  rq_caps :: "string list"
  rq_not_before :: "stamp option"
  rq_expires :: "stamp option"
  rq_by :: string
  rq_retry_of :: string

definition nodeOperationRequestMatches :: "op_row \<Rightarrow> op_request \<Rightarrow> bool" where
  "nodeOperationRequestMatches r q \<longleftrightarrow> op_kind r = rq_kind q \<and> op_payload r = rq_payload q
     \<and> op_key r = rq_key q \<and> op_caps r = rq_caps q \<and> op_not_before r = rq_not_before q
     \<and> op_expires r = rq_expires q \<and> str_or_empty (op_retry_of r) = rq_retry_of q"

definition validate_create :: "create_params \<Rightarrow> op_error + op_request" where
  "validate_create p =
     (let kind = trim_space (cp_kind p); key = trim_space (cp_key p); by = trim_space (cp_by p) in
      if kind \<notin> set allowed_kinds then Inl UnsupportedKind else
      bind_res (normalizeJSONObject (cp_payload p)) (\<lambda>payload.
      if key = '''' then Inl KeyRequired else
      if length key > 128 then Inl KeyTooLong else
      let caps = normalizeCapabilities (cp_caps p @ requiredCapabilitiesForOperation kind) in
      bind_res (validateCapabilities caps) (\<lambda>_.
      bind_res (normalizeOptionalTimestamp (cp_not_before p)) (\<lambda>(nb, nbt).
      bind_res (normalizeOptionalTimestamp (cp_expires p)) (\<lambda>(ex, ext).
      if (case (nbt, ext) of (Some n, Some e) \<Rightarrow> n \<noteq> go_zero_time \<and> e \<noteq> go_zero_time \<and> \<not> n < e | _ \<Rightarrow> False)
      then Inl ExpiresBeforeNotBefore
      else Inr \<lparr>rq_kind = kind, rq_payload = payload, rq_key = key, rq_caps = caps,
                rq_not_before = nb, rq_expires = ex,
                rq_by = (if by = '''' then ''admin'' else by), rq_retry_of = cp_retry_of p\<rparr>)))))"

definition create_tx ::
  "instant \<Rightarrow> string \<Rightarrow> 'a op_db_scheme \<Rightarrow> string \<Rightarrow> op_request \<Rightarrow> op_error + (op_row \<times> bool \<times> 'a op_db_scheme)" where
  "create_tx now fresh db nid q =
     (case q_GetNodeOperationByIdempotencyKey db nid (rq_key q) of
        Some existing \<Rightarrow>
          if nodeOperationRequestMatches existing q then Inr (existing, False, db)
          else Inl ErrOperationIdempotencyConflict
      | None \<Rightarrow>
        if q_GetActiveNodeOperation db nid \<noteq> None then Inl ErrActiveNodeOperation else
        bind_res (if rq_retry_of q = '''' then Inr ()
                  else case q_GetNodeOperationByID db (rq_retry_of q) of
                    None \<Rightarrow> Inl RetryOfNotFound
                  | Some prev \<Rightarrow> if op_node prev \<noteq> nid \<or> op_is_active prev
                                 then Inl RetryOfNotTerminal else Inr ()) (\<lambda>_.
        case q_CreateNodeOperation db (new_op now fresh nid (rq_kind q) (rq_payload q) (rq_key q)
               (rq_caps q) (rq_not_before q) (rq_expires q) (rq_by q) (nullableString (rq_retry_of q))) of
          None \<Rightarrow> Inl OpConstraint
        | Some db' \<Rightarrow>
          (case q_GetNodeOperationByID db' fresh of
             None \<Rightarrow> Inl OpNoRows | Some r \<Rightarrow> Inr (r, True, db'))))"

text \<open>
  \<open>CreateNodeOperation\<close>: on a failed transaction the idempotency key is looked up again in
  the rolled-back database, so that a lost race with an identical request still returns the
  durable row.
\<close>

definition CreateNodeOperation ::
  "instant \<Rightarrow> string \<Rightarrow> 'a op_db_scheme \<Rightarrow> create_params \<Rightarrow> (op_error + (op_row \<times> bool)) \<times> 'a op_db_scheme" where
  "CreateNodeOperation now fresh db p =
     (case GetNode db (cp_node p) of
        None \<Rightarrow> (Inl OpNodeNotFound, db)
      | Some node \<Rightarrow>
        (case validate_create p of
           Inl e \<Rightarrow> (Inl e, db)
         | Inr q \<Rightarrow>
           (case create_tx now fresh db (node_id node) q of
              Inr (r, created, db') \<Rightarrow> (Inr (r, created), db')
            | Inl e \<Rightarrow>
              (case q_GetNodeOperationByIdempotencyKey db (node_id node) (rq_key q) of
                 None \<Rightarrow> (Inl e, db)
               | Some existing \<Rightarrow>
                 if nodeOperationRequestMatches existing q then (Inr (existing, False), db)
                 else (Inl ErrOperationIdempotencyConflict, db)))))"

section \<open>Reading operations\<close>

definition GetNodeOperation :: "'a op_db_scheme \<Rightarrow> string \<Rightarrow> op_error + op_row" where
  "GetNodeOperation db i =
     (case q_GetNodeOperationByID db (trim_space i) of None \<Rightarrow> Inl OpNoRows | Some r \<Rightarrow> Inr r)"

definition GetActiveNodeOperation ::
  "instant \<Rightarrow> 'a op_db_scheme \<Rightarrow> string \<Rightarrow> (op_error + op_row option) \<times> 'a op_db_scheme" where
  "GetActiveNodeOperation now db nm =
     (case GetNode db nm of
        None \<Rightarrow> (Inl OpNodeNotFound, db)
      | Some node \<Rightarrow>
        (let db' = q_ExpireQueuedNodeOperations now db (node_id node)
         in (Inr (q_GetActiveNodeOperation db' (node_id node)), db')))"

definition ListNodeOperations ::
  "'a op_db_scheme \<Rightarrow> string \<Rightarrow> int \<Rightarrow> int \<Rightarrow> op_error + (op_row list \<times> nat)" where
  "ListNodeOperations db nm lim off =
     (case GetNode db nm of
        None \<Rightarrow> Inl OpNodeNotFound
      | Some node \<Rightarrow>
        (let lim' = (if lim \<le> 0 \<or> lim > 200 then 50 else lim); off' = (if off < 0 then 0 else off)
         in Inr (q_ListNodeOperations db (node_id node) (nat lim') (nat off'),
                 q_CountNodeOperations db (node_id node))))"

definition ListActiveNodeOperations :: "'a op_db_scheme \<Rightarrow> op_row list" where
  "ListActiveNodeOperations db = q_ListActiveNodeOperations db"

section \<open>Claiming and leases\<close>

definition NodeOperationLeaseDuration :: instant where
  "NodeOperationLeaseDuration = 90 * ns_per_s"

definition lease_until :: "instant \<Rightarrow> stamp option" where
  "lease_until now = Some (rfc3339nano (now + NodeOperationLeaseDuration))"

record claim_params =
  cl_node :: string
  cl_caps :: "string list"
  cl_current_op :: string
  cl_token :: string

definition ClaimNodeOperation ::
  "(string \<Rightarrow> string) \<Rightarrow> instant \<Rightarrow> string \<Rightarrow> 'a op_db_scheme \<Rightarrow> claim_params
   \<Rightarrow> (op_error + (op_row \<times> string) option) \<times> 'a op_db_scheme" where
  "ClaimNodeOperation sha now secret db p =
     (case GetNode db (cl_node p) of
        None \<Rightarrow> (Inl OpNodeNotFound, db)
      | Some node \<Rightarrow>
        (let nid = node_id node; db1 = q_ExpireQueuedNodeOperations now db nid in
         case q_GetActiveNodeOperation db1 nid of
           None \<Rightarrow> (Inr None, db1)
         | Some op \<Rightarrow>
           if \<not> hasCapabilities (cl_caps p) (op_caps op) then (Inr None, db1) else
           let fresh_claim =
             (\<lambda>db2. let token = ''bfl_'' @ secret;
                        (db3, claimed) = q_ClaimNodeOperation now db2 (nullableString (sha token))
                                           (lease_until now) (op_id op) nid
                    in (Inr (map_option (\<lambda>r. (r, token)) claimed), db3))
           in if trim_space (cl_current_op p) = op_id op \<and> trim_space (cl_token p) \<noteq> '''' then
                (case q_ResumeNodeOperationLease now db1 (lease_until now) (op_id op) nid
                        (nullableString (sha (cl_token p))) of
                   (db2, Some r) \<Rightarrow> (Inr (Some (r, cl_token p)), db2)
                 | (db2, None) \<Rightarrow> fresh_claim db2)
              else fresh_claim db1))"

definition RenewNodeOperationLease ::
  "(string \<Rightarrow> string) \<Rightarrow> instant \<Rightarrow> 'a op_db_scheme \<Rightarrow> string \<Rightarrow> string \<Rightarrow> string \<Rightarrow> int
   \<Rightarrow> (op_error + bool) \<times> 'a op_db_scheme" where
  "RenewNodeOperationLease sha now db nm i token att =
     (case GetNode db nm of
        None \<Rightarrow> (Inl OpNodeNotFound, db)
      | Some node \<Rightarrow>
        if i = '''' \<or> token = '''' \<or> att \<le> 0 then (Inl ErrInvalidOperationLease, db)
        else
          (case q_RenewNodeOperationLease now db (lease_until now) i (node_id node)
                  (nullableString (sha token)) att of
             (db', None) \<Rightarrow> (Inl ErrInvalidOperationLease, db')
           | (db', Some c) \<Rightarrow> (Inr c, db')))"

section \<open>Cancelling\<close>

definition RequestNodeOperationCancel ::
  "instant \<Rightarrow> 'a op_db_scheme \<Rightarrow> string \<Rightarrow> (op_error + op_row) \<times> 'a op_db_scheme" where
  "RequestNodeOperationCancel now db i =
     (case q_RequestNodeOperationCancel now db (trim_space i) of
        (db', None) \<Rightarrow> (Inl OpNoRows, db')
      | (db', Some r) \<Rightarrow> (Inr r, db'))"

definition CancelUnclaimedNodeOperation ::
  "instant \<Rightarrow> 'a op_db_scheme \<Rightarrow> string \<Rightarrow> (op_error + op_row) \<times> 'a op_db_scheme" where
  "CancelUnclaimedNodeOperation now db i =
     (let db' = q_CancelUnclaimedNodeOperation now db i in (GetNodeOperation db' i, db'))"

section \<open>Recording progress\<close>

record event_params =
  ep_node :: string
  ep_op :: string
  ep_token :: string
  ep_attempt :: int
  ep_seq :: int
  ep_status :: string
  ep_phase :: string
  ep_message :: string
  ep_details :: raw_json
  ep_result :: raw_json
  ep_error :: string
  ep_reported_at :: "string \<times> time_arg"

definition validOperationEventStatus :: "string \<Rightarrow> op_status option" where
  "validOperationEventStatus st =
     (if st = ''running'' then Some OpRunning
      else if st = ''succeeded'' then Some OpSucceeded
      else if st = ''failed'' then Some OpFailed
      else if st = ''cancelled'' then Some OpCancelled
      else None)"

fun phase_chars :: "bool \<Rightarrow> string \<Rightarrow> bool" where
  "phase_chars first [] = True"
| "phase_chars first (c # cs) =
     ((in_range CHR ''a'' CHR ''z'' c \<or> (\<not> first \<and> in_range CHR ''0'' CHR ''9'' c)
       \<or> (\<not> first \<and> c = CHR ''_'')) \<and> phase_chars False cs)"

definition validOperationPhase :: "string \<Rightarrow> bool" where
  "validOperationPhase phase =
     (let p = trim_space phase in p \<noteq> '''' \<and> length p \<le> 64 \<and> phase_chars True p)"

definition terminalFinishedAt :: "instant \<Rightarrow> op_status \<Rightarrow> stamp option" where
  "terminalFinishedAt now st = (if st = OpRunning then None else Some (rfc3339nano now))"

text \<open>The validated report: the row to append, short of its id and creation time.\<close>

definition validate_event :: "instant \<Rightarrow> event_params \<Rightarrow> op_error + op_event" where
  "validate_event now p =
     (if ep_attempt p \<le> 0 \<or> ep_seq p \<le> 0 \<or> ep_token p = '''' then Inl ErrInvalidOperationLease else
      case validOperationEventStatus (ep_status p) of
        None \<Rightarrow> Inl InvalidEventStatus
      | Some st \<Rightarrow>
        if \<not> validOperationPhase (ep_phase p) then Inl InvalidPhase else
        let message = trim_space (ep_message p); err = trim_space (ep_error p) in
        if length message > 2048 then Inl MessageTooLong else
        if length err > 8192 then Inl ErrorTooLong else
        bind_res (normalizeJSONObject (ep_details p)) (\<lambda>details.
        bind_res (normalizeJSONObject (ep_result p)) (\<lambda>result.
        bind_res (if fst (ep_reported_at p) = '''' then Inr (ReportedNow (rfc3339nano now))
                  else case snd (ep_reported_at p) of
                    TimeAt _ \<Rightarrow> Inr (ReportedText (fst (ep_reported_at p)))
                  | _ \<Rightarrow> Inl BadTimestamp) (\<lambda>rep.
        Inr \<lparr>ev_id = '''', ev_op = ep_op p, ev_attempt = ep_attempt p, ev_seq = ep_seq p,
             ev_status = st, ev_phase = ep_phase p, ev_message = message, ev_details = details,
             ev_result = result, ev_error = err, ev_reported_at = rep,
             ev_created_at = sql_now now\<rparr>))))"

definition same_event_content :: "op_event \<Rightarrow> op_event \<Rightarrow> bool" where
  "same_event_content a b \<longleftrightarrow> ev_status a = ev_status b \<and> ev_phase a = ev_phase b
     \<and> ev_message a = ev_message b \<and> ev_details a = ev_details b \<and> ev_result a = ev_result b
     \<and> ev_error a = ev_error b"

definition record_tx ::
  "(string \<Rightarrow> string) \<Rightarrow> instant \<Rightarrow> string \<Rightarrow> 'a op_db_scheme \<Rightarrow> string \<Rightarrow> string \<Rightarrow> op_event
   \<Rightarrow> op_error + (op_row \<times> 'a op_db_scheme)" where
  "record_tx sha now fresh db nid token e =
     (case q_GetNodeOperationByID db (ev_op e) of
        None \<Rightarrow> Inl OpNoRows
      | Some cur \<Rightarrow>
        if op_node cur \<noteq> nid then Inl ErrInvalidOperationLease else
        (case q_GetNodeOperationEvent db (ev_op e) (ev_attempt e) (ev_seq e) of
           Some x \<Rightarrow> if same_event_content x e then Inr (cur, db) else Inl SequenceReused
         | None \<Rightarrow>
           if op_status cur \<noteq> OpRunning \<or> op_attempt cur \<noteq> ev_attempt e
              \<or> op_lease_hash cur \<noteq> Some (sha token) then Inl ErrInvalidOperationLease else
           if ev_status e = OpCancelled \<and> \<not> op_cancel cur then Inl NotRequestedToCancel else
           let lst = q_LastNodeOperationEventSequence db (ev_op e) (ev_attempt e) in
           if ev_seq e \<le> lst then Inl SequenceExists else
           if ev_seq e \<noteq> lst + 1 then Inl SequenceGap else
           (case q_AppendNodeOperationEvent db (e\<lparr>ev_id := fresh\<rparr>) of
              None \<Rightarrow> Inl OpConstraint
            | Some db1 \<Rightarrow>
              (case q_ApplyNodeOperationEvent now db1 (ev_status e) (ev_phase e) (ev_result e) (ev_error e)
                      (lease_until now) (terminalFinishedAt now (ev_status e)) (ev_op e) nid
                      (nullableString (sha token)) (ev_attempt e) of
                 (db2, None) \<Rightarrow> Inl ErrInvalidOperationLease
               | (db2, Some r) \<Rightarrow> Inr (r, db2)))))"

definition RecordNodeOperationEvent ::
  "(string \<Rightarrow> string) \<Rightarrow> instant \<Rightarrow> string \<Rightarrow> 'a op_db_scheme \<Rightarrow> event_params
   \<Rightarrow> (op_error + op_row) \<times> 'a op_db_scheme" where
  "RecordNodeOperationEvent sha now fresh db p =
     (case GetNode db (ep_node p) of
        None \<Rightarrow> (Inl OpNodeNotFound, db)
      | Some node \<Rightarrow>
        (case validate_event now p of
           Inl e \<Rightarrow> (Inl e, db)
         | Inr e \<Rightarrow>
           (case record_tx sha now fresh db (node_id node) (ep_token p) e of
              Inl err \<Rightarrow> (Inl err, db)
            | Inr (r, db') \<Rightarrow> (Inr r, db'))))"

definition ListNodeOperationEvents :: "'a op_db_scheme \<Rightarrow> string \<Rightarrow> op_event list" where
  "ListNodeOperationEvents db i = q_ListNodeOperationEvents db (trim_space i)"

end
