(* ===== verification/Operation_Lifecycle.thy ===== *)
theory Operation_Lifecycle
  imports Node_Operations
begin

text \<open>
  The invariant of the operation store and how rows may evolve, proved for every statement
  of \<open>Operation_Store\<close>, then for every method of \<open>Node_Operations\<close>, then for every run of the
  server: any sequence of calls, with time moving forward and the other tables changing
  freely between them.
\<close>

section \<open>Rows\<close>

definition row_ok :: "op_row \<Rightarrow> bool" where
  "row_ok r \<longleftrightarrow> op_attempt r \<ge> 0 \<and>
     (case op_status r of
        OpQueued \<Rightarrow> op_attempt r = 0 \<and> op_lease_hash r = None \<and> op_lease_expires r = None
          \<and> \<not> op_cancel r \<and> op_finished_at r = None
      | OpRunning \<Rightarrow> op_attempt r \<ge> 1 \<and> op_lease_hash r \<noteq> None \<and> op_lease_expires r \<noteq> None
          \<and> op_finished_at r = None
      | _ \<Rightarrow> op_lease_hash r = None \<and> op_lease_expires r = None \<and> op_finished_at r \<noteq> None)"

text \<open>
  What one row may become: its identity and request columns are fixed, attempts and
  cancellation only grow, it never becomes active again, and a terminal row is frozen.
\<close>

definition row_evolves :: "op_row \<Rightarrow> op_row \<Rightarrow> bool" where
  "row_evolves r r' \<longleftrightarrow> op_id r' = op_id r \<and> op_node r' = op_node r \<and> op_key r' = op_key r
     \<and> op_kind r' = op_kind r \<and> op_payload r' = op_payload r \<and> op_caps r' = op_caps r
     \<and> op_not_before r' = op_not_before r \<and> op_expires r' = op_expires r
     \<and> op_requested_at r' = op_requested_at r \<and> op_retry_of r' = op_retry_of r
     \<and> op_attempt r \<le> op_attempt r' \<and> (op_cancel r \<longrightarrow> op_cancel r')
     \<and> (op_is_active r' \<longrightarrow> op_is_active r) \<and> (\<not> op_is_active r \<longrightarrow> r' = r)
     \<and> (op_status r = OpRunning \<longrightarrow> op_status r' \<noteq> OpQueued)"

lemma row_evolves_refl [simp]: "row_evolves r r"
  by (simp add: row_evolves_def)

lemma row_evolves_trans: "row_evolves a b \<Longrightarrow> row_evolves b c \<Longrightarrow> row_evolves a c"
  unfolding row_evolves_def by (cases "op_status b") auto

section \<open>The store\<close>

definition ev_seqs :: "'a op_db_scheme \<Rightarrow> string \<Rightarrow> int \<Rightarrow> int list" where
  "ev_seqs db i att = map ev_seq (filter (\<lambda>e. ev_op e = i \<and> ev_attempt e = att) (db_events db))"

definition gapless :: "int list \<Rightarrow> bool" where
  "gapless s \<longleftrightarrow> s = map int [1..<Suc (length s)]"

definition ops_inv :: "'a op_db_scheme \<Rightarrow> bool" where
  "ops_inv db \<longleftrightarrow>
     distinct (map op_id (db_ops db))
     \<and> distinct (map (\<lambda>r. (op_node r, op_key r)) (db_ops db))
     \<and> distinct (map op_node (filter op_is_active (db_ops db)))
     \<and> (\<forall>r \<in> set (db_ops db). row_ok r)
     \<and> (\<forall>i att. gapless (ev_seqs db i att))
     \<and> (\<forall>e \<in> set (db_events db). \<exists>r \<in> set (db_ops db). op_id r = ev_op e \<and> ev_attempt e \<le> op_attempt r)"

definition ops_evolve :: "'a op_db_scheme \<Rightarrow> 'a op_db_scheme \<Rightarrow> bool" where
  "ops_evolve db db' \<longleftrightarrow> (\<forall>i r. q_GetNodeOperationByID db i = Some r \<longrightarrow>
     (\<exists>r'. q_GetNodeOperationByID db' i = Some r' \<and> row_evolves r r'))
     \<and> (\<exists>es. db_events db' = db_events db @ es)"

definition good_change :: "'a op_db_scheme \<Rightarrow> 'a op_db_scheme \<Rightarrow> bool" where
  "good_change db db' \<longleftrightarrow> (ops_inv db \<longrightarrow> ops_inv db' \<and> ops_evolve db db')"

lemma ops_evolve_refl [simp]: "ops_evolve db db"
  by (simp add: ops_evolve_def)

lemma ops_evolve_trans: "ops_evolve a b \<Longrightarrow> ops_evolve b c \<Longrightarrow> ops_evolve a c"
  unfolding ops_evolve_def by (metis append_assoc row_evolves_trans)

lemma good_change_refl [simp]: "good_change db db"
  by (simp add: good_change_def)

lemma good_change_trans [trans]: "good_change a b \<Longrightarrow> good_change b c \<Longrightarrow> good_change a c"
  unfolding good_change_def using ops_evolve_trans by blast

lemma active_nodes_upd:
  assumes "\<And>r. r \<in> set t \<Longrightarrow> p r \<Longrightarrow> op_node (f r) = op_node r \<and> (op_is_active (f r) \<longrightarrow> op_is_active r)"
  shows "op_node ` {r \<in> set (upd p f t). op_is_active r} \<subseteq> op_node ` {r \<in> set t. op_is_active r}"
proof
  fix n
  assume "n \<in> op_node ` {r \<in> set (upd p f t). op_is_active r}"
  then obtain r where "r \<in> set t" "n = op_node (if p r then f r else r)" "op_is_active (if p r then f r else r)"
    by (auto simp: set_upd)
  then show "n \<in> op_node ` {r \<in> set t. op_is_active r}"
    using assms [of r] by (cases "p r") auto
qed

lemma filter_active_upd:
  assumes "\<And>r. r \<in> set t \<Longrightarrow> p r \<Longrightarrow> op_node (f r) = op_node r \<and> (op_is_active (f r) \<longrightarrow> op_is_active r)"
    and "distinct (map op_node (filter op_is_active t))"
  shows "distinct (map op_node (filter op_is_active (upd p f t)))"
  using assms
proof (induction t)
  case (Cons x t)
  let ?x = "if p x then f x else x"
  have tail: "distinct (map op_node (filter op_is_active (upd p f t)))"
    using Cons by (auto split: if_splits)
  have sub: "op_node ` {r \<in> set (upd p f t). op_is_active r} \<subseteq> op_node ` {r \<in> set t. op_is_active r}"
    using Cons.prems(1) by (intro active_nodes_upd) simp
  have x: "op_node ?x = op_node x" "op_is_active ?x \<longrightarrow> op_is_active x"
    using Cons.prems(1) [of x] by auto
  show ?case
  proof (cases "op_is_active ?x")
    case True
    then have "op_node x \<notin> op_node ` {r \<in> set t. op_is_active r}"
      using Cons.prems(2) x by auto
    then have "op_node ?x \<notin> op_node ` {r \<in> set (upd p f t). op_is_active r}"
      using sub x by auto
    then show ?thesis using True tail by simp
  next
    case False
    then show ?thesis using tail by simp
  qed
qed simp

lemma map_key_upd_on:
  "(\<And>r. r \<in> set t \<Longrightarrow> p r \<Longrightarrow> key (f r) = key r) \<Longrightarrow> map key (upd p f t) = map key t"
  by (induction t) auto

lemma sel_upd_key_on:
  assumes "\<And>r. r \<in> set t \<Longrightarrow> p r \<Longrightarrow> key (f r) = key r"
  shows "sel (\<lambda>x. key x = k) (upd p f t)
         = map_option (\<lambda>r. if p r then f r else r) (sel (\<lambda>x. key x = k) t)"
  using assms by (induction t) auto

text \<open>An \<open>UPDATE\<close> that moves each row it touches to a well-formed evolution of it is good.\<close>

lemma good_upd:
  assumes ok: "\<And>r. r \<in> set (db_ops db) \<Longrightarrow> p r \<Longrightarrow> row_ok r \<Longrightarrow> row_ok (f r) \<and> row_evolves r (f r)"
  shows "good_change db (db\<lparr>db_ops := upd p f (db_ops db)\<rparr>)"
  unfolding good_change_def
proof
  assume inv: "ops_inv db"
  let ?t = "db_ops db" and ?db = "db\<lparr>db_ops := upd p f (db_ops db)\<rparr>"
  have rows: "row_ok r" if "r \<in> set ?t" for r using inv that by (simp add: ops_inv_def)
  have ev: "row_evolves r (f r)" if "r \<in> set ?t" "p r" for r
    using ok [OF that rows] that by blast
  have keep: "op_id (f r) = op_id r" "op_node (f r) = op_node r" "op_key (f r) = op_key r"
      "op_is_active (f r) \<longrightarrow> op_is_active r" "op_attempt r \<le> op_attempt (f r)" if "r \<in> set ?t" "p r" for r
    using ev [OF that] unfolding row_evolves_def by blast+
  have seqs: "ev_seqs ?db i att = ev_seqs db i att" for i att by (simp add: ev_seqs_def)
  have "\<exists>r \<in> set (upd p f ?t). op_id r = ev_op e \<and> ev_attempt e \<le> op_attempt r"
    if "e \<in> set (db_events db)" for e
  proof -
    from inv that obtain r where r: "r \<in> set ?t" "op_id r = ev_op e" "ev_attempt e \<le> op_attempt r"
      by (auto simp: ops_inv_def)
    let ?r = "if p r then f r else r"
    have "?r \<in> set (upd p f ?t)" using r by (auto simp: set_upd)
    moreover have "op_id ?r = ev_op e \<and> ev_attempt e \<le> op_attempt ?r"
      using keep [OF r(1)] r(2,3) by (cases "p r") (auto intro: order_trans [OF r(3)])
    ultimately show ?thesis by blast
  qed
  moreover have "distinct (map op_id (upd p f ?t))" "distinct (map (\<lambda>r. (op_node r, op_key r)) (upd p f ?t))"
    using inv keep by (simp_all add: ops_inv_def map_key_upd_on)
  moreover have "distinct (map op_node (filter op_is_active (upd p f ?t)))"
    using inv keep by (intro filter_active_upd) (simp_all add: ops_inv_def)
  moreover have "\<forall>r \<in> set (upd p f ?t). row_ok r"
    using ok rows by (auto simp: set_upd)
  ultimately have "ops_inv ?db"
    using inv by (simp add: ops_inv_def seqs)
  moreover have "ops_evolve db ?db"
    using ev keep by (auto simp: ops_evolve_def q_GetNodeOperationByID_def sel_upd_key_on dest: sel_SomeD)
  ultimately show "ops_inv ?db \<and> ops_evolve db ?db" ..
qed

section \<open>Statements\<close>

lemma good_expire: "good_change db (q_ExpireQueuedNodeOperations now db nid)"
  unfolding q_ExpireQueuedNodeOperations_def
  by (rule good_upd) (auto simp: row_ok_def row_evolves_def)

lemma good_cancel: "good_change db (fst (q_RequestNodeOperationCancel now db i))"
  unfolding q_RequestNodeOperationCancel_def upd_returning_def Let_def prod.case fst_conv
proof (rule good_upd)
  fix r
  assume "op_id r = i \<and> op_is_active r" and "row_ok r"
  then consider "op_status r = OpQueued" | "op_status r = OpRunning"
    by (cases "op_status r") auto
  then show "row_ok (cancel_row now r) \<and> row_evolves r (cancel_row now r)"
    using \<open>row_ok r\<close> by cases (simp_all add: row_ok_def row_evolves_def cancel_row_def)
qed

lemma good_cancel_unclaimed: "good_change db (q_CancelUnclaimedNodeOperation now db i)"
  unfolding q_CancelUnclaimedNodeOperation_def
  by (rule good_upd) (auto simp: row_ok_def row_evolves_def)

lemma good_claim:
  "hash \<noteq> None \<Longrightarrow> ex \<noteq> None \<Longrightarrow> good_change db (fst (q_ClaimNodeOperation now db hash ex i nid))"
  unfolding q_ClaimNodeOperation_def upd_returning_def Let_def prod.case fst_conv
proof (rule good_upd)
  fix r
  assume h: "hash \<noteq> None" "ex \<noteq> None" and "op_id r = i \<and> op_node r = nid \<and> claimable now r" and "row_ok r"
  then consider "op_status r = OpQueued" | "op_status r = OpRunning"
    by (auto simp: claimable_def)
  then show "row_ok (claim_row now hash ex r) \<and> row_evolves r (claim_row now hash ex r)"
    using h \<open>row_ok r\<close> by cases (simp_all add: row_ok_def row_evolves_def claim_row_def)
qed

lemma good_resume:
  "ex \<noteq> None \<Longrightarrow> good_change db (fst (q_ResumeNodeOperationLease now db ex i nid hash))"
  unfolding q_ResumeNodeOperationLease_def upd_returning_def Let_def prod.case fst_conv
  by (rule good_upd) (auto simp: row_ok_def row_evolves_def holds_lease_def)

lemma good_renew:
  "ex \<noteq> None \<Longrightarrow> good_change db (fst (q_RenewNodeOperationLease now db ex i nid hash att))"
  unfolding q_RenewNodeOperationLease_def upd_returning_def Let_def prod.case fst_conv
  by (rule good_upd) (auto simp: row_ok_def row_evolves_def holds_lease_def)

lemma good_apply:
  assumes "ex \<noteq> None" and "st \<noteq> OpQueued" and "st \<noteq> OpRunning \<longrightarrow> fin \<noteq> None" and "st = OpRunning \<longrightarrow> fin = None"
  shows "good_change db (fst (q_ApplyNodeOperationEvent now db st ph res err ex fin i nid hash att))"
  unfolding q_ApplyNodeOperationEvent_def upd_returning_def Let_def prod.case fst_conv
  using assms
  by (intro good_upd) (auto simp: row_ok_def row_evolves_def holds_lease_def apply_event_row_def
      split: op_status.splits)

lemma good_insert:
  assumes "q_CreateNodeOperation db r = Some db'" and "row_ok r"
  shows "good_change db db'"
proof -
  have db': "db' = db\<lparr>db_ops := db_ops db @ [r]\<rparr>"
    and ids: "op_id r \<notin> op_id ` set (db_ops db)"
    and keys: "(op_node r, op_key r) \<notin> (\<lambda>r. (op_node r, op_key r)) ` set (db_ops db)"
    and act: "op_is_active r \<longrightarrow> op_node r \<notin> op_node ` {x \<in> set (db_ops db). op_is_active x}"
    using assms(1) by (auto simp: q_CreateNodeOperation_def image_iff split: if_splits)
  show ?thesis
    unfolding good_change_def
  proof
    assume inv: "ops_inv db"
    then have "ops_inv db'"
      using ids keys act assms(2) by (auto simp: db' ops_inv_def ev_seqs_def)
    moreover have "ops_evolve db db'"
      by (auto simp: db' ops_evolve_def q_GetNodeOperationByID_def sel_append)
    ultimately show "ops_inv db' \<and> ops_evolve db db'" ..
  qed
qed

section \<open>Event sequences\<close>

lemma gapless_Nil [simp]: "gapless []"
  by (simp add: gapless_def)

lemma gapless_snoc: "gapless s \<Longrightarrow> x = int (length s) + 1 \<Longrightarrow> gapless (s @ [x])"
  by (simp add: gapless_def)

lemma last_seq_gapless:
  assumes "gapless (ev_seqs db i att)"
  shows "q_LastNodeOperationEventSequence db i att = int (length (ev_seqs db i att))"
proof (cases "ev_seqs db i att")
  case Nil
  then show ?thesis by (simp add: q_LastNodeOperationEventSequence_def ev_seqs_def)
next
  case (Cons x xs)
  have "q_LastNodeOperationEventSequence db i att = fold max xs x"
    using Cons by (simp add: q_LastNodeOperationEventSequence_def ev_seqs_def)
  also have "\<dots> = Max (set (ev_seqs db i att))"
    by (simp add: Cons Max.set_eq_fold del: list.set)
  also have "\<dots> = Max (int ` {1..<Suc (length (ev_seqs db i att))})"
    using assms by (metis gapless_def set_map set_upt)
  also have "\<dots> = int (length (ev_seqs db i att))"
    using Cons by (intro Max_eqI) (auto simp: image_int_atLeastLessThan)
  finally show ?thesis .
qed

lemma event_present_iff:
  assumes "gapless (ev_seqs db i att)"
  shows "q_GetNodeOperationEvent db i att sq \<noteq> None \<longleftrightarrow> 1 \<le> sq \<and> sq \<le> int (length (ev_seqs db i att))"
proof -
  have "q_GetNodeOperationEvent db i att sq \<noteq> None \<longleftrightarrow> sq \<in> set (ev_seqs db i att)"
    by (auto simp: q_GetNodeOperationEvent_def sel_None_iff ev_seqs_def)
  also have "\<dots> \<longleftrightarrow> sq \<in> int ` {1..<Suc (length (ev_seqs db i att))}"
    using assms by (metis gapless_def set_map set_upt)
  also have "\<dots> \<longleftrightarrow> 1 \<le> sq \<and> sq \<le> int (length (ev_seqs db i att))"
    by (auto simp: image_int_atLeastLessThan)
  finally show ?thesis .
qed

lemma good_append:
  assumes app: "q_AppendNodeOperationEvent db e = Some db'"
    and nxt: "ev_seq e = q_LastNodeOperationEventSequence db (ev_op e) (ev_attempt e) + 1"
    and cur: "q_GetNodeOperationByID db (ev_op e) = Some cur" "ev_attempt e \<le> op_attempt cur"
  shows "good_change db db'"
  unfolding good_change_def
proof
  assume inv: "ops_inv db"
  show "ops_inv db' \<and> ops_evolve db db'"
  proof (cases "db' = db")
    case True
    then show ?thesis using inv by simp
  next
    case False
    then have db': "db' = db\<lparr>db_events := db_events db @ [e]\<rparr>"
      using app by (auto simp: q_AppendNodeOperationEvent_def split: if_splits)
    have gap: "gapless (ev_seqs db i att)" for i att using inv by (simp add: ops_inv_def)
    have seqs: "ev_seqs db' i att = ev_seqs db i att @
        (if ev_op e = i \<and> ev_attempt e = att then [ev_seq e] else [])" for i att
      by (simp add: db' ev_seqs_def)
    have "gapless (ev_seqs db' i att)" for i att
      using gap [of i att] nxt by (auto simp: seqs last_seq_gapless [OF gap] intro: gapless_snoc)
    moreover have "cur \<in> set (db_ops db) \<and> op_id cur = ev_op e"
      using cur(1) by (auto simp: q_GetNodeOperationByID_def dest: sel_SomeD)
    ultimately have "ops_inv db'"
      using inv cur(2) by (auto simp: db' ops_inv_def)
    then show ?thesis by (simp add: db' ops_evolve_def q_GetNodeOperationByID_def)
  qed
qed

section \<open>Methods\<close>

text \<open>
  What the methods rely on of \<open>SHA256Hex\<close>: it prints a digest, which is a non-empty text
  without surrounding white space.
\<close>

definition hex_digest :: "(string \<Rightarrow> string) \<Rightarrow> bool" where
  "hex_digest sha \<longleftrightarrow> (\<forall>x. sha x \<noteq> '''' \<and> trim_space (sha x) = sha x)"

lemma nullable_digest: "hex_digest sha \<Longrightarrow> nullableString (sha x) = Some (sha x)"
  by (simp add: hex_digest_def nullableString_def)

lemma lease_until_Some [simp]: "lease_until now \<noteq> None"
  by (simp add: lease_until_def)

lemma row_ok_new_op [simp]: "row_ok (new_op now i nid kind payload key caps nb ex by retry)"
  by (simp add: row_ok_def new_op_def)

lemma good_create_tx: "create_tx now fresh db nid q = Inr (r, c, db') \<Longrightarrow> good_change db db'"
  by (auto simp: create_tx_def bind_res_Inr_iff split: option.splits if_splits intro: good_insert)

lemma good_CreateNodeOperation: "good_change db (snd (CreateNodeOperation now fresh db p))"
  by (auto simp: CreateNodeOperation_def dest: good_create_tx split: option.splits sum.splits prod.splits)

lemma good_GetActiveNodeOperation: "good_change db (snd (GetActiveNodeOperation now db nm))"
  by (auto simp: GetActiveNodeOperation_def Let_def good_expire split: option.splits)

lemma good_ClaimNodeOperation:
  assumes "hex_digest sha"
  shows "good_change db (snd (ClaimNodeOperation sha now secret db p))"
proof (cases "GetNode db (cl_node p)")
  case None
  then show ?thesis by (simp add: ClaimNodeOperation_def)
next
  case (Some node)
  let ?nid = "node_id node"
  let ?db1 = "q_ExpireQueuedNodeOperations now db ?nid"
  have e: "good_change db ?db1" by (rule good_expire)
  have c: "good_change d (fst (q_ClaimNodeOperation now d (nullableString (sha x)) (lease_until now) i ?nid))" for d i x
    by (rule good_claim) (simp_all add: nullable_digest [OF assms])
  have r: "good_change ?db1 (fst (q_ResumeNodeOperationLease now ?db1 (lease_until now) i ?nid h))" for i h
    by (rule good_resume) simp
  show ?thesis
    using Some e good_change_trans [OF e c] good_change_trans [OF e r] good_change_trans [OF good_change_trans [OF e r] c]
    by (auto simp: ClaimNodeOperation_def Let_def case_prod_beta split: option.split)
qed

lemma good_RenewNodeOperationLease: "good_change db (snd (RenewNodeOperationLease sha now db nm i tok att))"
  using good_renew [of "lease_until now" db now i _ "nullableString (sha tok)" att]
  by (auto simp: RenewNodeOperationLease_def case_prod_beta split: option.split)

lemma good_RequestNodeOperationCancel: "good_change db (snd (RequestNodeOperationCancel now db i))"
  using good_cancel [of db now "trim_space i"]
  by (auto simp: RequestNodeOperationCancel_def case_prod_beta split: option.split)

lemma good_CancelUnclaimedNodeOperation: "good_change db (snd (CancelUnclaimedNodeOperation now db i))"
  by (simp add: CancelUnclaimedNodeOperation_def Let_def good_cancel_unclaimed)

lemma validate_event_status:
  "validate_event now p = Inr e \<Longrightarrow> ev_status e \<in> {OpRunning, OpSucceeded, OpFailed, OpCancelled}"
  by (auto simp: validate_event_def validOperationEventStatus_def bind_res_Inr_iff Let_def
      split: option.splits if_splits)

lemma good_record_tx:
  assumes rec: "record_tx sha now fresh db nid tok e = Inr (r, db')"
    and st: "ev_status e \<in> {OpRunning, OpSucceeded, OpFailed, OpCancelled}"
  shows "good_change db db'"
proof -
  obtain cur where cur: "q_GetNodeOperationByID db (ev_op e) = Some cur"
    using rec by (auto simp: record_tx_def split: option.splits)
  show ?thesis
  proof (cases "q_GetNodeOperationEvent db (ev_op e) (ev_attempt e) (ev_seq e)")
    case (Some x)
    then have "db' = db" using rec cur by (auto simp: record_tx_def split: if_splits)
    then show ?thesis by simp
  next
    case None
    then obtain db1 where db1: "q_AppendNodeOperationEvent db (e\<lparr>ev_id := fresh\<rparr>) = Some db1"
      and att: "op_attempt cur = ev_attempt e"
      and sq: "ev_seq e = q_LastNodeOperationEventSequence db (ev_op e) (ev_attempt e) + 1"
      and db': "db' = fst (q_ApplyNodeOperationEvent now db1 (ev_status e) (ev_phase e) (ev_result e) (ev_error e)
                  (lease_until now) (terminalFinishedAt now (ev_status e)) (ev_op e) nid
                  (nullableString (sha tok)) (ev_attempt e))"
      using rec cur
      by (auto simp: record_tx_def Let_def case_prod_beta split: option.splits if_splits prod.splits)
    have "good_change db db1"
      by (rule good_append [OF db1]) (use sq cur att in auto)
    also have "good_change db1 db'"
      unfolding db' by (rule good_apply) (use st in \<open>auto simp: terminalFinishedAt_def\<close>)
    finally show ?thesis .
  qed
qed

lemma good_RecordNodeOperationEvent: "good_change db (snd (RecordNodeOperationEvent sha now fresh db p))"
proof -
  have "good_change db db'" if "validate_event now p = Inr e"
    "record_tx sha now fresh db nid (ep_token p) e = Inr (r, db')" for e nid r db'
    using good_record_tx [OF that(2)] validate_event_status [OF that(1)] by blast
  then show ?thesis
    by (auto simp: RecordNodeOperationEvent_def split: option.split sum.split)
qed

section \<open>Runs of the server\<close>

text \<open>
  A step is one call of a method at a time no earlier than the last, or any change of the
  rest of the database (the nodes table, its aliases, the tables of other components) that
  leaves the two operation tables alone.
\<close>

type_synonym 'a timed = "instant \<times> 'a op_db_scheme"

inductive op_step :: "(string \<Rightarrow> string) \<Rightarrow> 'a timed \<Rightarrow> 'a timed \<Rightarrow> bool" for sha where
  step_create: "t \<le> now \<Longrightarrow> op_step sha (t, db) (now, snd (CreateNodeOperation now fresh db p))"
| step_active: "t \<le> now \<Longrightarrow> op_step sha (t, db) (now, snd (GetActiveNodeOperation now db nm))"
| step_claim: "t \<le> now \<Longrightarrow> op_step sha (t, db) (now, snd (ClaimNodeOperation sha now secret db cp))"
| step_renew: "t \<le> now \<Longrightarrow> op_step sha (t, db) (now, snd (RenewNodeOperationLease sha now db nm i tok att))"
| step_cancel: "t \<le> now \<Longrightarrow> op_step sha (t, db) (now, snd (RequestNodeOperationCancel now db i))"
| step_cancel_unclaimed: "t \<le> now \<Longrightarrow> op_step sha (t, db) (now, snd (CancelUnclaimedNodeOperation now db i))"
| step_record: "t \<le> now \<Longrightarrow> op_step sha (t, db) (now, snd (RecordNodeOperationEvent sha now fresh db ep))"
| step_rest: "t \<le> now \<Longrightarrow> db_ops db' = db_ops db \<Longrightarrow> db_events db' = db_events db \<Longrightarrow> op_step sha (t, db) (now, db')"

lemma good_rest: "db_ops db' = db_ops db \<Longrightarrow> db_events db' = db_events db \<Longrightarrow> good_change db db'"
  by (simp add: good_change_def ops_inv_def ops_evolve_def ev_seqs_def q_GetNodeOperationByID_def)

lemmas good_methods = good_CreateNodeOperation good_GetActiveNodeOperation good_ClaimNodeOperation
  good_RenewNodeOperationLease good_RequestNodeOperationCancel good_CancelUnclaimedNodeOperation
  good_RecordNodeOperationEvent good_rest

lemma op_step_good:
  assumes "op_step sha s s'" and "hex_digest sha"
  shows "good_change (snd s) (snd s') \<and> fst s \<le> fst s'"
  using assms by cases (simp_all add: good_methods)

definition op_good :: "(string \<Rightarrow> string) \<Rightarrow> 'a timed \<Rightarrow> bool" where
  "op_good sha s \<longleftrightarrow> hex_digest sha \<and> ops_inv (snd s)"

interpretation ops_sys: invariant_system "op_step sha" "op_good sha" for sha
  by unfold_locales (use op_step_good in \<open>fastforce simp: op_good_def good_change_def\<close>)

end
