(* ===== verification/Operation_Properties.thy ===== *)
theory Operation_Properties
  imports Operation_Lifecycle
begin

text \<open>
  What the operation store promises its callers: the lifecycle invariant over whole runs,
  idempotent creation, fencing of stale executors, exactly-once progress events, the lease
  window, and the operation that can never finish.
\<close>

section \<open>Access to rows after runs\<close>

lemma row_ok_running:
  "row_ok r \<Longrightarrow> op_status r = OpRunning \<Longrightarrow>
   1 \<le> op_attempt r \<and> op_lease_hash r \<noteq> None \<and> op_lease_expires r \<noteq> None \<and> op_finished_at r = None"
  by (simp add: row_ok_def)

lemma row_ok_terminal:
  "row_ok r \<Longrightarrow> \<not> op_is_active r \<Longrightarrow> op_lease_hash r = None \<and> op_lease_expires r = None \<and> op_finished_at r \<noteq> None"
  by (cases "op_status r") (simp_all add: row_ok_def)

lemma run_good:
  assumes "run (op_step sha) s s'" and "hex_digest sha" and "ops_inv (snd s)"
  shows "ops_inv (snd s') \<and> ops_evolve (snd s) (snd s') \<and> fst s \<le> fst s'"
proof -
  have good: "op_good sha s" using assms(2,3) by (simp add: op_good_def)
  have step: "ops_evolve (snd u) (snd v) \<and> fst u \<le> fst v" if "op_good sha u" "op_step sha u v" for u v
    using op_step_good [OF that(2)] that(1) by (simp add: op_good_def good_change_def)
  have "ops_evolve (snd s) (snd s') \<and> fst s \<le> fst s'"
    by (rule ops_sys.run_rel [OF assms(1) good, of "\<lambda>u v. ops_evolve (snd u) (snd v) \<and> fst u \<le> fst v"])
       (use step ops_evolve_trans in \<open>blast intro: order_trans ops_evolve_refl\<close>)+
  moreover have "op_good sha s'" by (rule ops_sys.run_inv [OF assms(1) good])
  ultimately show ?thesis by (simp add: op_good_def)
qed

lemma run_row:
  assumes "run (op_step sha) (t, db) (t', db')" and "hex_digest sha" and "ops_inv db"
    and "q_GetNodeOperationByID db i = Some r"
  shows "\<exists>r'. q_GetNodeOperationByID db' i = Some r' \<and> row_evolves r r'"
  using run_good [OF assms(1,2)] assms(3,4) by (simp add: ops_evolve_def)

lemma get_op_iff:
  "ops_inv db \<Longrightarrow> q_GetNodeOperationByID db i = Some r \<longleftrightarrow> r \<in> set (db_ops db) \<and> op_id r = i"
  by (simp add: ops_inv_def q_GetNodeOperationByID_def sel_key_iff)

lemma get_key_iff:
  assumes "ops_inv db"
  shows "q_GetNodeOperationByIdempotencyKey db nid key = Some r
         \<longleftrightarrow> r \<in> set (db_ops db) \<and> op_node r = nid \<and> op_key r = key"
  using sel_key_iff [of "\<lambda>r. (op_node r, op_key r)" "db_ops db" "(nid, key)" r] assms
  by (simp add: ops_inv_def q_GetNodeOperationByIdempotencyKey_def)

lemma active_unique:
  assumes "ops_inv db" and "r \<in> set (db_ops db)" and "r' \<in> set (db_ops db)"
    and "op_is_active r" and "op_is_active r'" and "op_node r = op_node r'"
  shows "r = r'"
  using assms distinct_key_eq [of op_node "filter op_is_active (db_ops db)" r r']
  by (simp add: ops_inv_def)

lemma sort_key_Nil_iff: "sort_key f xs = [] \<longleftrightarrow> xs = []"
  by (metis length_0_conv length_sort)

lemma get_active_SomeD:
  assumes "q_GetActiveNodeOperation db nid = Some r"
  shows "r \<in> set (db_ops db) \<and> op_node r = nid \<and> op_is_active r"
proof -
  let ?l = "sort_key op_requested_at (filter (\<lambda>r. op_node r = nid \<and> op_is_active r) (db_ops db))"
  obtain rs where "?l = r # rs"
    using assms by (cases ?l) (simp_all add: q_GetActiveNodeOperation_def)
  then have "r \<in> set ?l" by (simp only: list.set_intros)
  then show ?thesis by simp
qed

lemma get_active_None_iff:
  "q_GetActiveNodeOperation db nid = None \<longleftrightarrow> (\<forall>r \<in> set (db_ops db). op_node r = nid \<longrightarrow> \<not> op_is_active r)"
proof -
  let ?l = "sort_key op_requested_at (filter (\<lambda>r. op_node r = nid \<and> op_is_active r) (db_ops db))"
  have "q_GetActiveNodeOperation db nid = None \<longleftrightarrow> ?l = []"
    by (cases ?l) (simp_all add: q_GetActiveNodeOperation_def)
  then show ?thesis by (auto simp: sort_key_Nil_iff filter_empty_conv)
qed

lemma ops_inv_empty: "db_ops db = [] \<Longrightarrow> db_events db = [] \<Longrightarrow> ops_inv db"
  by (simp add: ops_inv_def ev_seqs_def)

section \<open>Example store\<close>

definition ex_sha :: "string \<Rightarrow> string" where
  "ex_sha x = ''ab''"

definition ex_node :: node_row where
  "ex_node = \<lparr>node_id = ''n1'', node_name = ''tokyo'', node_public_host = ''h'', node_hosts = [],
     node_status = NodeActive, node_sing_box_version = '''', node_last_seen_at = None,
     node_deleted_at = None, node_created_at = sql_now 0, node_updated_at = sql_now 0\<rparr>"

definition ex_db :: op_db where
  "ex_db = \<lparr>db_nodes = [ex_node], db_aliases = [], db_ops = [], db_events = []\<rparr>"

definition ex_json :: raw_json where
  "ex_json = \<lparr>json_bytes = 0, json_doc = JsonBlank\<rparr>"

definition ex_create :: create_params where
  "ex_create = \<lparr>cp_node = ''tokyo'', cp_kind = ''logs.collect'', cp_payload = ex_json, cp_key = ''k1'',
     cp_caps = [], cp_not_before = TimeBlank, cp_expires = TimeBlank, cp_by = '''', cp_retry_of = ''''\<rparr>"

definition ex_claim :: claim_params where
  "ex_claim = \<lparr>cl_node = ''tokyo'', cl_caps = [''operations.v1''], cl_current_op = '''', cl_token = ''''\<rparr>"

definition ex_event :: event_params where
  "ex_event = \<lparr>ep_node = ''tokyo'', ep_op = ''op1'', ep_token = ''bfl_s'', ep_attempt = 1, ep_seq = 1,
     ep_status = ''running'', ep_phase = ''starting'', ep_message = '''', ep_details = ex_json,
     ep_result = ex_json, ep_error = '''', ep_reported_at = ('''', TimeBlank)\<rparr>"

definition ex_op :: op_row where
  "ex_op = new_op 0 ''op1'' ''n1'' ''logs.collect'' ''{}'' ''k1'' [''operations.v1''] None None ''admin'' None"

definition ex_run_op :: op_row where
  "ex_run_op = claim_row 1000000000 (Some ''ab'') (lease_until 1000000000) ex_op"

definition ex_ev :: op_event where
  "ex_ev = \<lparr>ev_id = ''ev1'', ev_op = ''op1'', ev_attempt = 1, ev_seq = 1, ev_status = OpRunning,
     ev_phase = ''starting'', ev_message = '''', ev_details = ''{}'', ev_result = ''{}'', ev_error = '''',
     ev_reported_at = ReportedNow (rfc3339nano 2000000000), ev_created_at = sql_now 2000000000\<rparr>"

definition ex_rep_op :: op_row where
  "ex_rep_op = apply_event_row 2000000000 OpRunning ''starting'' ''{}'' '''' (lease_until 2000000000) None ex_run_op"

definition ex_created :: op_db where
  "ex_created = ex_db\<lparr>db_ops := [ex_op]\<rparr>"

definition ex_claimed :: op_db where
  "ex_claimed = ex_db\<lparr>db_ops := [ex_run_op]\<rparr>"

definition ex_reported :: op_db where
  "ex_reported = ex_db\<lparr>db_ops := [ex_rep_op], db_events := [ex_ev]\<rparr>"

lemma trim_examples [simp]:
  "trim_space ''ab'' = ''ab''" "trim_space ''tokyo'' = ''tokyo''" "trim_space ''logs.collect'' = ''logs.collect''"
  "trim_space ''k1'' = ''k1''" "trim_space ''operations.v1'' = ''operations.v1''"
  "trim_space ''starting'' = ''starting''" "trim_space ''op1'' = ''op1''"
  by code_simp+

lemmas ex_defs = ex_sha_def ex_node_def ex_db_def ex_json_def ex_create_def ex_claim_def ex_event_def
  ex_op_def ex_run_op_def ex_ev_def ex_rep_op_def ex_created_def ex_claimed_def ex_reported_def

lemmas node_query_defs = GetNode_def resolveNode_def normalizeName_def q_GetNodeByIDIncludingDeleted_def
  q_GetNodeByName_def

lemmas op_query_defs = q_GetNodeOperationByID_def q_GetNodeOperationByIdempotencyKey_def
  q_GetActiveNodeOperation_def q_GetNodeOperationEvent_def q_LastNodeOperationEventSequence_def
  q_CreateNodeOperation_def q_ExpireQueuedNodeOperations_def q_ClaimNodeOperation_def
  q_ResumeNodeOperationLease_def q_RenewNodeOperationLease_def q_RequestNodeOperationCancel_def
  q_CancelUnclaimedNodeOperation_def q_AppendNodeOperationEvent_def q_ApplyNodeOperationEvent_def
  upd_returning_def new_op_def claim_row_def claimable_def holds_lease_def cancel_row_def
  apply_event_row_def allowed_kinds_def

lemmas text_compare_defs = less_stamp_def less_eq_stamp_def rfc3339nano_def sql_now_def
  lease_until_def NodeOperationLeaseDuration_def

lemmas validate_defs = validate_create_def normalizeJSONObject_def normalizeCapabilities_def
  requiredCapabilitiesForOperation_def validateCapabilities_def cap_char_def in_range_def less_eq_char_def
  normalizeOptionalTimestamp_def nullableString_def validate_event_def validOperationEventStatus_def
  validOperationPhase_def

lemma ex_create_eq: "CreateNodeOperation 0 ''op1'' ex_db ex_create = (Inr (ex_op, True), ex_created)"
  by (simp add: CreateNodeOperation_def create_tx_def validate_defs op_query_defs node_query_defs ex_defs)

lemma ex_claim_eq:
  "ClaimNodeOperation ex_sha 1000000000 ''s'' ex_created ex_claim = (Inr (Some (ex_run_op, ''bfl_s'')), ex_claimed)"
  by (simp add: ClaimNodeOperation_def Let_def hasCapabilities_def validate_defs op_query_defs node_query_defs ex_defs)

lemma ex_report_eq:
  "RecordNodeOperationEvent ex_sha 2000000000 ''ev1'' ex_claimed ex_event = (Inr ex_rep_op, ex_reported)"
  by (simp add: RecordNodeOperationEvent_def record_tx_def terminalFinishedAt_def validate_defs op_query_defs
      node_query_defs text_compare_defs ex_defs)

lemma ex_digest: "hex_digest ex_sha"
  by (simp add: hex_digest_def ex_sha_def)

lemma ex_step:
  "op_step ex_sha (0, ex_db) (0, ex_created)"
  "op_step ex_sha (0, ex_created) (1000000000, ex_claimed)"
  "op_step ex_sha (1000000000, ex_claimed) (2000000000, ex_reported)"
  using op_step.step_create [of 0 0 ex_sha ex_db "''op1''" ex_create]
    op_step.step_claim [of 0 1000000000 ex_sha ex_created "''s''" ex_claim]
    op_step.step_record [of 1000000000 2000000000 ex_sha ex_claimed "''ev1''" ex_event]
  by (simp_all add: ex_create_eq ex_claim_eq ex_report_eq)

lemma ex_run:
  "run (op_step ex_sha) (1000000000, ex_claimed) (2000000000, ex_reported)"
  "run (op_step ex_sha) (0, ex_created) (1000000000, ex_claimed)"
  "run (op_step ex_sha) (0, ex_created) (2000000000, ex_reported)"
  "run (op_step ex_sha) (0, ex_db) (2000000000, ex_reported)"
proof -
  show "run (op_step ex_sha) (1000000000, ex_claimed) (2000000000, ex_reported)"
    by (rule run.run_step, rule run.run_refl, rule ex_step(3))
  show c: "run (op_step ex_sha) (0, ex_created) (1000000000, ex_claimed)"
    by (rule run.run_step, rule run.run_refl, rule ex_step(2))
  show "run (op_step ex_sha) (0, ex_created) (2000000000, ex_reported)"
    by (rule run.run_step, rule c, rule ex_step(3))
  show "run (op_step ex_sha) (0, ex_db) (2000000000, ex_reported)"
    by (rule run.run_step, rule run.run_step, rule run.run_step, rule run.run_refl, rule ex_step(1),
        rule ex_step(2), rule ex_step(3))
qed

lemma ex_inv: "ops_inv ex_db" "ops_inv ex_created" "ops_inv ex_claimed" "ops_inv ex_reported"
proof -
  show db: "ops_inv ex_db" by (rule ops_inv_empty) (simp_all add: ex_db_def)
  show c: "ops_inv ex_created"
    using db good_CreateNodeOperation [of ex_db 0 "''op1''" ex_create] by (simp add: good_change_def ex_create_eq)
  show cl: "ops_inv ex_claimed"
    using c good_ClaimNodeOperation [OF ex_digest, of ex_created 1000000000 "''s''" ex_claim]
    by (simp add: good_change_def ex_claim_eq)
  show "ops_inv ex_reported"
    using cl good_RecordNodeOperationEvent [of ex_claimed ex_sha 2000000000 "''ev1''" ex_event]
    by (simp add: good_change_def ex_report_eq)
qed

section \<open>The lifecycle invariant\<close>



text \<open>
  C2: A finished operation is frozen: whatever calls follow, its row, with status, result,
  error and finish time, is the one that was there.
\<close>

theorem terminal_frozen:
  assumes "run (op_step sha) (t, db) (t', db')" and "hex_digest sha" and "ops_inv db"
    and "GetNodeOperation db i = Inr r" and "\<not> op_is_active r"
  shows "GetNodeOperation db' i = Inr r"
proof -
  have "q_GetNodeOperationByID db (trim_space i) = Some r"
    using assms(4) by (simp add: GetNodeOperation_def split: option.splits)
  then obtain r' where "q_GetNodeOperationByID db' (trim_space i) = Some r'" "row_evolves r r'"
    using run_row [OF assms(1-3)] by blast
  then show ?thesis using assms(5) by (simp add: GetNodeOperation_def row_evolves_def)
qed

definition ex_cancelled :: op_db where
  "ex_cancelled = ex_db\<lparr>db_ops := [cancel_row 1000000000 ex_op]\<rparr>"

lemma ex_cancel_eq:
  "RequestNodeOperationCancel 1000000000 ex_created ''op1'' = (Inr (cancel_row 1000000000 ex_op), ex_cancelled)"
  by (simp add: RequestNodeOperationCancel_def op_query_defs ex_defs ex_cancelled_def)

lemma ex_cancelled_claim: "ClaimNodeOperation ex_sha 2000000000 ''s'' ex_cancelled ex_claim = (Inr None, ex_cancelled)"
  by (simp add: ClaimNodeOperation_def Let_def op_query_defs node_query_defs ex_defs ex_cancelled_def)

lemma ex_cancelled_inv: "ops_inv ex_cancelled"
  using ex_inv(2) good_RequestNodeOperationCancel [of ex_created 1000000000 "''op1''"]
  by (simp add: good_change_def ex_cancel_eq)

lemma ex_cancelled_run: "run (op_step ex_sha) (1000000000, ex_cancelled) (2000000000, ex_cancelled)"
  using run.run_step [of "op_step ex_sha", OF run.run_refl
      op_step.step_claim [of 1000000000 2000000000 ex_sha ex_cancelled "''s''" ex_claim]]
  by (simp add: ex_cancelled_claim)

theorem terminal_frozen_witness: "GetNodeOperation ex_cancelled ''op1'' = Inr (cancel_row 1000000000 ex_op)"
  by (rule terminal_frozen [OF ex_cancelled_run ex_digest ex_cancelled_inv])
     (simp_all add: GetNodeOperation_def ex_cancelled_def op_query_defs ex_defs)

section \<open>Idempotent creation\<close>

lemma create_row:
  assumes "CreateNodeOperation now fresh db p = (Inr (r, c), db')" and "GetNode db (cp_node p) = Some n"
    and "validate_create p = Inr q"
  shows "q_GetNodeOperationByIdempotencyKey db' (node_id n) (rq_key q) = Some r
    \<and> op_node r = node_id n \<and> op_kind r = rq_kind q \<and> op_payload r = rq_payload q \<and> op_key r = rq_key q
    \<and> op_caps r = rq_caps q \<and> op_not_before r = rq_not_before q \<and> op_expires r = rq_expires q
    \<and> (op_retry_of r = nullableString (rq_retry_of q) \<or> str_or_empty (op_retry_of r) = rq_retry_of q)"
proof (cases c)
  case False
  then have "db' = db" and "q_GetNodeOperationByIdempotencyKey db (node_id n) (rq_key q) = Some r"
    and "nodeOperationRequestMatches r q"
    using assms by (auto simp: CreateNodeOperation_def create_tx_def bind_res_Inr_iff
        split: option.splits sum.splits if_splits prod.splits)
  then show ?thesis
    by (auto simp: nodeOperationRequestMatches_def q_GetNodeOperationByIdempotencyKey_def dest: sel_SomeD)
next
  case True
  let ?new = "new_op now fresh (node_id n) (rq_kind q) (rq_payload q) (rq_key q)
    (rq_caps q) (rq_not_before q) (rq_expires q) (rq_by q) (nullableString (rq_retry_of q))"
  have none: "q_GetNodeOperationByIdempotencyKey db (node_id n) (rq_key q) = None"
    and ins: "q_CreateNodeOperation db ?new = Some db'" and get: "q_GetNodeOperationByID db' fresh = Some r"
    using assms True by (auto simp: CreateNodeOperation_def create_tx_def bind_res_Inr_iff
        split: option.splits sum.splits if_splits prod.splits)
  have db': "db' = db\<lparr>db_ops := db_ops db @ [?new]\<rparr>" and "\<forall>x \<in> set (db_ops db). op_id x \<noteq> fresh"
    using ins by (auto simp: q_CreateNodeOperation_def new_op_def split: if_splits)
  then have "sel (\<lambda>x. op_id x = fresh) (db_ops db) = None" by (simp add: sel_None_iff)
  then have "r = ?new" using get by (simp add: db' q_GetNodeOperationByID_def sel_append new_op_def)
  with none show ?thesis
    by (simp add: db' q_GetNodeOperationByIdempotencyKey_def sel_append new_op_def)
qed

text \<open>
  C3: Creation is idempotent under its key. Once a request has created (or found) an
  operation, then after any further calls a request for the same node and key either asks
  for the same thing (kind, payload, capabilities, window and predecessor) and returns that
  same operation without creating one, or is refused as a conflict; the store is unchanged
  either way.
\<close>

theorem create_idempotent:
  assumes "CreateNodeOperation now fresh db p = (Inr (r, c), db1)" and "GetNode db (cp_node p) = Some n"
    and "validate_create p = Inr q" and "trim_space (rq_retry_of q) = rq_retry_of q"
    and "ops_inv db" and "hex_digest sha" and "run (op_step sha) (t, db1) (t', db2)"
    and "GetNode db2 (cp_node p') = Some n'" and "node_id n' = node_id n"
    and "validate_create p' = Inr q'" and "rq_key q' = rq_key q"
  shows "\<exists>r'. row_evolves r r' \<and> op_id r' = op_id r \<and> CreateNodeOperation now' fresh' db2 p' =
    (if q'\<lparr>rq_by := rq_by q\<rparr> = q then Inr (r', False) else Inl ErrOperationIdempotencyConflict, db2)"
proof -
  note row = create_row [OF assms(1-3)]
  have inv1: "ops_inv db1"
    using good_CreateNodeOperation [of db now fresh p] assms(1,5) by (simp add: good_change_def)
  then have inv2: "ops_inv db2"
    using run_good [OF assms(7,6)] by simp
  have "q_GetNodeOperationByID db1 (op_id r) = Some r"
    using row get_key_iff [OF inv1] get_op_iff [OF inv1] by simp
  then obtain r' where r': "q_GetNodeOperationByID db2 (op_id r) = Some r'" and ev: "row_evolves r r'"
    using run_row [OF assms(7,6) inv1] by blast
  have key: "q_GetNodeOperationByIdempotencyKey db2 (node_id n') (rq_key q') = Some r'"
    using r' ev row assms(9,11) get_op_iff [OF inv2] get_key_iff [OF inv2] by (auto simp: row_evolves_def)
  have "str_or_empty (op_retry_of r) = rq_retry_of q"
    using row assms(4) by (auto simp: nullableString_def str_or_empty_def Let_def split: if_splits option.splits)
  then have "nodeOperationRequestMatches r' q' \<longleftrightarrow> q'\<lparr>rq_by := rq_by q\<rparr> = q"
    using ev row assms(11) by (cases q, cases q') (auto simp: nodeOperationRequestMatches_def row_evolves_def)
  then show ?thesis
    using ev key assms(8,10)
    by (intro exI [of _ r']) (simp add: row_evolves_def CreateNodeOperation_def create_tx_def)
qed

lemma ex_validate:
  "validate_create ex_create = Inr \<lparr>rq_kind = ''logs.collect'', rq_payload = ''{}'', rq_key = ''k1'',
     rq_caps = [''operations.v1''], rq_not_before = None, rq_expires = None, rq_by = ''admin'', rq_retry_of = ''''\<rparr>"
  by (simp add: validate_defs allowed_kinds_def ex_defs)

lemma ex_get_node: "GetNode ex_db ''tokyo'' = Some ex_node" "GetNode ex_created ''tokyo'' = Some ex_node"
  "GetNode ex_claimed ''tokyo'' = Some ex_node" "GetNode ex_reported ''tokyo'' = Some ex_node"
  by (simp_all add: node_query_defs ex_defs)

theorem create_idempotent_witness:
  "\<exists>r'. row_evolves ex_op r' \<and> op_id r' = ''op1''
        \<and> CreateNodeOperation 3000000000 ''op2'' ex_reported ex_create = (Inr (r', False), ex_reported)"
proof -
  have n: "cp_node ex_create = ''tokyo''" and i: "op_id ex_op = ''op1''" by (simp_all add: ex_create_def ex_op_def new_op_def)
  show ?thesis
    using create_idempotent [OF ex_create_eq _ ex_validate _ ex_inv(1) ex_digest ex_run(3) _ refl ex_validate refl,
        of ex_node 3000000000 "''op2''"]
    by (simp add: n i ex_get_node)
qed

section \<open>Claims\<close>

lemma returned_row:
  assumes "ops_inv db" and "sel p (db_ops db) = Some old" and "\<And>x. p x \<Longrightarrow> op_id (f x) = op_id x"
  shows "sel (\<lambda>x. op_id x = op_id old) (upd p f (db_ops db)) = Some (f old)"
proof -
  have "sel (\<lambda>x. op_id x = op_id old) (db_ops db) = Some old"
    using sel_SomeD [OF assms(2)] assms(1) by (intro sel_key) (simp_all add: ops_inv_def)
  then show ?thesis
    using sel_SomeD [OF assms(2)] assms(3) sel_upd_key [of p op_id f "op_id old" "db_ops db"] by simp
qed

lemma resume_cases:
  assumes "hex_digest sha" and "ops_inv db"
    and "q_ResumeNodeOperationLease now db ex i nid (nullableString (sha tok)) = (db', Some r)"
  shows "\<exists>old \<in> set (db_ops db). op_id old = i \<and> op_node old = nid \<and> holds_lease now (Some (sha tok)) old
    \<and> r = old\<lparr>op_lease_expires := ex, op_updated_at := sql_now now\<rparr> \<and> q_GetNodeOperationByID db' i = Some r"
proof -
  let ?p = "\<lambda>r. op_id r = i \<and> op_node r = nid \<and> holds_lease now (Some (sha tok)) r"
  let ?f = "\<lambda>r :: op_row. r\<lparr>op_lease_expires := ex, op_updated_at := sql_now now\<rparr>"
  obtain old where "sel ?p (db_ops db) = Some old" "r = ?f old" "db' = db\<lparr>db_ops := upd ?p ?f (db_ops db)\<rparr>"
    using assms(3) by (auto simp: q_ResumeNodeOperationLease_def upd_returning_def nullable_digest [OF assms(1)])
  then show ?thesis
    using returned_row [OF assms(2), of ?p old ?f] sel_SomeD [of ?p "db_ops db" old]
    by (intro bexI [of _ old]) (auto simp: q_GetNodeOperationByID_def)
qed

lemma fresh_claim_cases:
  assumes "hex_digest sha" and "ops_inv db"
    and "q_ClaimNodeOperation now db (nullableString (sha tok)) ex i nid = (db', Some r)"
  shows "\<exists>old \<in> set (db_ops db). op_id old = i \<and> op_node old = nid \<and> claimable now old
    \<and> r = claim_row now (Some (sha tok)) ex old \<and> q_GetNodeOperationByID db' i = Some r"
proof -
  let ?p = "\<lambda>r. op_id r = i \<and> op_node r = nid \<and> claimable now r"
  let ?f = "claim_row now (Some (sha tok)) ex"
  obtain old where "sel ?p (db_ops db) = Some old" "r = ?f old" "db' = db\<lparr>db_ops := upd ?p ?f (db_ops db)\<rparr>"
    using assms(3) by (auto simp: q_ClaimNodeOperation_def upd_returning_def nullable_digest [OF assms(1)])
  then show ?thesis
    using returned_row [OF assms(2), of ?p old ?f] sel_SomeD [of ?p "db_ops db" old]
    by (intro bexI [of _ old]) (auto simp: q_GetNodeOperationByID_def claim_row_def)
qed

lemma expire_keeps:
  assumes "old \<in> set (db_ops (q_ExpireQueuedNodeOperations now db nid))" and "op_is_active old"
  shows "old \<in> set (db_ops db)"
  using assms by (auto simp: q_ExpireQueuedNodeOperations_def set_upd split: if_splits)

lemma expire_inv: "ops_inv db \<Longrightarrow> ops_inv (q_ExpireQueuedNodeOperations now db nid)"
  using good_expire [of db now nid] by (simp add: good_change_def)

lemma resume_none: "q_ResumeNodeOperationLease now db ex i nid h = (db', None) \<Longrightarrow> db' = db"
  by (auto simp: q_ResumeNodeOperationLease_def upd_returning_def sel_None_iff upd_none)

text \<open>
  The two ways a claim succeeds, in terms of the store after expiry: the executor that still
  holds the lease resumes it, or a fresh token is issued.
\<close>

lemma claim_success_cases:
  assumes "ClaimNodeOperation sha now secret db p = (Inr (Some (r, tok)), db')"
  obtains (resume) n op db1 where "GetNode db (cl_node p) = Some n"
      "db1 = q_ExpireQueuedNodeOperations now db (node_id n)"
      "q_GetActiveNodeOperation db1 (node_id n) = Some op" "hasCapabilities (cl_caps p) (op_caps op)"
      "trim_space (cl_current_op p) = op_id op" "tok = cl_token p"
      "q_ResumeNodeOperationLease now db1 (lease_until now) (op_id op) (node_id n) (nullableString (sha tok)) = (db', Some r)"
  | (fresh) n op db1 where "GetNode db (cl_node p) = Some n"
      "db1 = q_ExpireQueuedNodeOperations now db (node_id n)"
      "q_GetActiveNodeOperation db1 (node_id n) = Some op" "hasCapabilities (cl_caps p) (op_caps op)"
      "tok = ''bfl_'' @ secret"
      "q_ClaimNodeOperation now db1 (nullableString (sha tok)) (lease_until now) (op_id op) (node_id n) = (db', Some r)"
proof -
  obtain n where n: "GetNode db (cl_node p) = Some n"
    using assms by (auto simp: ClaimNodeOperation_def split: option.splits)
  define db1 where "db1 = q_ExpireQueuedNodeOperations now db (node_id n)"
  obtain op where op: "q_GetActiveNodeOperation db1 (node_id n) = Some op" "hasCapabilities (cl_caps p) (op_caps op)"
    using assms n by (auto simp: ClaimNodeOperation_def Let_def db1_def split: option.splits if_splits)
  obtain db2 ro where res: "q_ResumeNodeOperationLease now db1 (lease_until now) (op_id op) (node_id n)
      (nullableString (sha (cl_token p))) = (db2, ro)" by fastforce
  obtain db3 cl where cl: "q_ClaimNodeOperation now db1 (nullableString (sha (''bfl_'' @ secret)))
      (lease_until now) (op_id op) (node_id n) = (db3, cl)" by fastforce
  note unfolded = assms [unfolded ClaimNodeOperation_def, simplified n Let_def option.case db1_def [symmetric] op]
  show thesis
  proof (cases "trim_space (cl_current_op p) = op_id op \<and> trim_space (cl_token p) \<noteq> '''' \<and> ro \<noteq> None")
    case True
    then show thesis using unfolded op res n db1_def by (auto intro!: resume)
  next
    case False
    have "ro = None \<Longrightarrow> db2 = db1" using res resume_none by simp
    with False show thesis using unfolded op res cl n db1_def by (auto intro!: fresh split: if_splits)
  qed
qed

lemma hasCapabilities_subset: "hasCapabilities have need \<Longrightarrow> set need \<subseteq> set (normalizeCapabilities have)"
  by (auto simp: hasCapabilities_def list_all_iff Let_def)

lemma claim_stored:
  assumes "ClaimNodeOperation sha now secret db p = (Inr (Some (r, tok)), db')" and "ops_inv db" and "hex_digest sha"
  shows "q_GetNodeOperationByID db' (op_id r) = Some r \<and> ops_inv db'"
proof -
  have "q_GetNodeOperationByID db' (op_id r) = Some r"
    using assms(1)
  proof (cases rule: claim_success_cases)
    case (resume n op db1)
    then show ?thesis using resume_cases [OF assms(3) _ resume(7)] expire_inv [OF assms(2)] by auto
  next
    case (fresh n op db1)
    then show ?thesis using fresh_claim_cases [OF assms(3) _ fresh(6)] expire_inv [OF assms(2)]
      by (auto simp: claim_row_def)
  qed
  then show ?thesis
    using good_ClaimNodeOperation [OF assms(3), of db now secret p] assms(1,2) by (simp add: good_change_def)
qed

lemma claim_outcome:
  assumes "ClaimNodeOperation sha now secret db p = (Inr (Some (r, tok)), db')"
    and "ops_inv db" and "hex_digest sha"
  shows "\<exists>n old. GetNode db (cl_node p) = Some n \<and> old \<in> set (db_ops db) \<and> op_is_active old
    \<and> op_id old = op_id r \<and> op_node old = node_id n \<and> q_GetNodeOperationByID db' (op_id r) = Some r
    \<and> set (op_caps r) \<subseteq> set (normalizeCapabilities (cl_caps p))
    \<and> op_status r = OpRunning \<and> op_lease_hash r = Some (sha tok)
    \<and> op_lease_expires r = Some (rfc3339nano (now + 90 * ns_per_s))
    \<and> (tok = cl_token p \<and> trim_space (cl_current_op p) = op_id r \<and> holds_lease now (Some (sha tok)) old
          \<and> op_attempt r = op_attempt old
       \<or> tok = ''bfl_'' @ secret \<and> claimable now old \<and> \<not> op_cancel r \<and> op_attempt r = op_attempt old + 1)"
  using assms(1)
proof (cases rule: claim_success_cases)
  case (resume n op db1)
  have inv1: "ops_inv db1" using assms(2) resume(2) by (simp add: expire_inv)
  obtain old where old: "old \<in> set (db_ops db1)" "op_id old = op_id op" "op_node old = node_id n"
    "holds_lease now (Some (sha tok)) old" "q_GetNodeOperationByID db' (op_id op) = Some r"
    and r: "r = old\<lparr>op_lease_expires := lease_until now, op_updated_at := sql_now now\<rparr>"
    using resume_cases [OF assms(3) inv1 resume(7)] by blast
  have act: "op_is_active old" using old(4) by (simp add: holds_lease_def)
  have same: "old = op"
    using old(1,2) get_active_SomeD [OF resume(3)] get_op_iff [OF inv1] by (metis option.inject)
  show ?thesis
    using resume old act r same hasCapabilities_subset [OF resume(4)] expire_keeps [of old now db "node_id n"]
    by (intro exI [of _ n] exI [of _ old]) (simp add: holds_lease_def lease_until_def NodeOperationLeaseDuration_def)
next
  case (fresh n op db1)
  have inv1: "ops_inv db1" using assms(2) fresh(2) by (simp add: expire_inv)
  obtain old where old: "old \<in> set (db_ops db1)" "op_id old = op_id op" "op_node old = node_id n"
    "claimable now old" "q_GetNodeOperationByID db' (op_id op) = Some r"
    and r: "r = claim_row now (Some (sha tok)) (lease_until now) old"
    using fresh_claim_cases [OF assms(3) inv1 fresh(6)] by blast
  have act: "op_is_active old" using old(4) by (auto simp: claimable_def)
  have same: "old = op"
    using old(1,2) get_active_SomeD [OF fresh(3)] get_op_iff [OF inv1] by (metis option.inject)
  show ?thesis
    using fresh old act r same hasCapabilities_subset [OF fresh(4)] expire_keeps [of old now db "node_id n"]
    by (intro exI [of _ n] exI [of _ old])
       (simp add: claim_row_def claimable_def lease_until_def NodeOperationLeaseDuration_def)
qed

text \<open>
  C4: What a successful claim hands out. The operation is the active one of the calling
  node and asks for no capability the agent did not offer; the stored row is running, holds
  the digest of the returned token and a lease of 90 seconds from now. Either the caller
  resumed the lease it presented, with the attempt number unchanged, or the operation was
  claimable (queued in its window, or running with a lapsed lease, and not asked to cancel)
  and the attempt number went up by one.
\<close>

theorem claim_grants:
  assumes "ClaimNodeOperation sha now secret db p = (Inr (Some (r, tok)), db')"
    and "ops_inv db" and "hex_digest sha"
  shows "\<exists>n old. GetNode db (cl_node p) = Some n \<and> old \<in> set (db_ops db) \<and> op_is_active old
    \<and> op_id old = op_id r \<and> op_node old = node_id n \<and> q_GetNodeOperationByID db' (op_id r) = Some r
    \<and> set (op_caps r) \<subseteq> set (normalizeCapabilities (cl_caps p))
    \<and> op_status r = OpRunning \<and> op_lease_hash r = Some (sha tok)
    \<and> op_lease_expires r = Some (rfc3339nano (now + 90 * ns_per_s))
    \<and> (tok = cl_token p \<and> trim_space (cl_current_op p) = op_id r \<and> holds_lease now (Some (sha tok)) old
          \<and> op_attempt r = op_attempt old
       \<or> tok = ''bfl_'' @ secret \<and> claimable now old \<and> \<not> op_cancel r \<and> op_attempt r = op_attempt old + 1)"
  by (rule claim_outcome [OF assms])

theorem claim_grants_witness:
  "ClaimNodeOperation ex_sha 1000000000 ''s'' ex_created ex_claim = (Inr (Some (ex_run_op, ''bfl_s'')), ex_claimed)
   \<and> op_attempt ex_run_op = 1 \<and> op_lease_hash ex_run_op = Some (ex_sha ''bfl_s'')"
  using claim_grants [OF ex_claim_eq ex_inv(2) ex_digest]
  by (simp add: ex_claim_eq) (simp add: ex_run_op_def ex_op_def claim_row_def new_op_def ex_claim_def ex_sha_def)

lemma claimable_claimed:
  assumes "GetNode db (cl_node p) = Some n" and "r \<in> set (db_ops db)" and "op_node r = node_id n"
    and "claimable now r" and "hasCapabilities (cl_caps p) (op_caps r)" and "ops_inv db" and "hex_digest sha"
  shows "\<exists>r' tok db'. ClaimNodeOperation sha now secret db p = (Inr (Some (r', tok)), db') \<and> op_id r' = op_id r"
proof -
  define db1 where "db1 = q_ExpireQueuedNodeOperations now db (node_id n)"
  have inv1: "ops_inv db1" using assms(6) by (simp add: db1_def expire_inv)
  have act: "op_is_active r" using assms(4) by (auto simp: claimable_def)
  have "\<not> (op_status r = OpQueued \<and> not_after_now (op_expires r) now)"
    using assms(4) by (cases "op_expires r") (auto simp: claimable_def)
  then have r1: "r \<in> set (db_ops db1)"
    using assms(2) unfolding db1_def q_ExpireQueuedNodeOperations_def
    by (auto simp: set_upd image_iff intro!: bexI [of _ r])
  obtain op where op: "q_GetActiveNodeOperation db1 (node_id n) = Some op"
    using r1 act assms(3) get_active_None_iff [of db1 "node_id n"] by (cases "q_GetActiveNodeOperation db1 (node_id n)") auto
  then have "op = r"
    using get_active_SomeD [OF op] active_unique [OF inv1, of op r] r1 act assms(3) by simp
  let ?claim = "q_ClaimNodeOperation now db1 (nullableString (sha (''bfl_'' @ secret))) (lease_until now) (op_id r) (node_id n)"
  let ?res = "q_ResumeNodeOperationLease now db1 (lease_until now) (op_id r) (node_id n) (nullableString (sha (cl_token p)))"
  have "sel (\<lambda>x. op_id x = op_id r \<and> op_node x = node_id n \<and> claimable now x) (db_ops db1) \<noteq> None"
    using r1 assms(3,4) by (auto simp: sel_None_iff)
  then obtain db3 r' where cl: "?claim = (db3, Some r')"
    by (auto simp: q_ClaimNodeOperation_def upd_returning_def)
  then have "op_id r' = op_id r"
    using fresh_claim_cases [OF assms(7) inv1 cl] by (auto simp: claim_row_def)
  obtain db2 ro where res: "?res = (db2, ro)" by fastforce
  then have "ro = None \<Longrightarrow> db2 = db1" and "\<And>x. ro = Some x \<Longrightarrow> op_id x = op_id r"
    using resume_none resume_cases [OF assms(7) inv1, of now "lease_until now" "op_id r" "node_id n" "cl_token p" db2] by auto
  then show ?thesis
    using assms(1,5) op \<open>op = r\<close> cl res \<open>op_id r' = op_id r\<close>
    by (cases ro) (simp_all add: ClaimNodeOperation_def Let_def db1_def [symmetric])
qed

text \<open>
  C5: Claims are live. If a node has an operation that is claimable and asks only for
  offered capabilities, then a poll of that node returns it.
\<close>

theorem claim_live:
  assumes "GetNode db (cl_node p) = Some n" and "r \<in> set (db_ops db)" and "op_node r = node_id n"
    and "claimable now r" and "hasCapabilities (cl_caps p) (op_caps r)" and "ops_inv db" and "hex_digest sha"
  shows "\<exists>r' tok db'. ClaimNodeOperation sha now secret db p = (Inr (Some (r', tok)), db') \<and> op_id r' = op_id r"
  using assms by (rule claimable_claimed)

theorem claim_live_witness:
  "\<exists>r' tok db'. ClaimNodeOperation ex_sha 1000000000 ''s'' ex_created ex_claim = (Inr (Some (r', tok)), db') \<and> op_id r' = ''op1''"
proof -
  have "hasCapabilities (cl_caps ex_claim) (op_caps ex_op)" "claimable 1000000000 ex_op"
    "ex_op \<in> set (db_ops ex_created)" "op_node ex_op = node_id ex_node" "cl_node ex_claim = ''tokyo''" "op_id ex_op = ''op1''"
    by (simp_all add: hasCapabilities_def normalizeCapabilities_def claimable_def new_op_def ex_defs)
  then show ?thesis
    using claim_live [OF _ _ _ _ _ ex_inv(2) ex_digest, of ex_claim ex_node ex_op 1000000000 "''s''"] ex_get_node(2)
    by simp
qed

section \<open>Fencing\<close>

lemma record_stale_refused:
  assumes "q_GetNodeOperationByID db (ep_op p) = Some cur" and "ep_attempt p \<noteq> op_attempt cur"
    and "q_GetNodeOperationEvent db (ep_op p) (ep_attempt p) (ep_seq p) = None"
  shows "\<exists>err. RecordNodeOperationEvent sha now fresh db p = (Inl err, db)"
proof -
  have "record_tx sha now fresh db nid (ep_token p) e = Inl ErrInvalidOperationLease" if "validate_event now p = Inr e" for nid e
  proof -
    have "ev_op e = ep_op p" "ev_attempt e = ep_attempt p" "ev_seq e = ep_seq p"
      using that by (auto simp: validate_event_def bind_res_Inr_iff Let_def split: option.splits if_splits)
    then show ?thesis using assms by (simp add: record_tx_def)
  qed
  then show ?thesis
    by (auto simp: RecordNodeOperationEvent_def split: option.split sum.split)
qed

lemma renew_stale_refused:
  assumes "ops_inv db" and "q_GetNodeOperationByID db i = Some cur" and "att \<noteq> op_attempt cur"
  shows "\<exists>err. RenewNodeOperationLease sha now db nm i tok att = (Inl err, db)"
proof -
  have "\<not> (op_id r = i \<and> op_node r = nid \<and> holds_lease now h r \<and> op_attempt r = att)" if "r \<in> set (db_ops db)" for r nid h
    using assms that get_op_iff [OF assms(1)] by (metis option.inject)
  then have "q_RenewNodeOperationLease now db ex i nid h att = (db, None)" for ex nid h
    by (simp add: q_RenewNodeOperationLease_def upd_returning_def sel_None_iff upd_none)
  then show ?thesis by (simp add: RenewNodeOperationLease_def split: option.split)
qed



end
