(* ===== verification/Operation_Reports.thy ===== *)
theory Operation_Reports
  imports Operation_Properties
begin

text \<open>
  Progress reports and leases: what an accepted report does, that a repeated report does
  nothing more, how far the textual lease comparison can be off, and the operation that no
  call can ever finish.
\<close>

section \<open>Accepted reports\<close>

lemma validate_event_fields:
  "validate_event now p = Inr e \<Longrightarrow> ev_op e = ep_op p \<and> ev_attempt e = ep_attempt p \<and> ev_seq e = ep_seq p \<and> ev_phase e = ep_phase p"
  by (auto simp: validate_event_def bind_res_Inr_iff Let_def split: option.splits if_splits)

lemma record_cases:
  assumes "RecordNodeOperationEvent sha now fresh db p = (Inr r, db')"
  obtains n e where "GetNode db (ep_node p) = Some n" "validate_event now p = Inr e"
    "record_tx sha now fresh db (node_id n) (ep_token p) e = Inr (r, db')"
  using assms by (auto simp: RecordNodeOperationEvent_def split: option.splits sum.splits prod.splits)

lemma upd_one:
  assumes "distinct (map key t)" and "old \<in> set t" and "q old"
  shows "upd (\<lambda>x. key x = key old \<and> q x) f t = map (\<lambda>x. if key x = key old then f old else x) t"
  using assms distinct_key_eq [OF assms(1)] by (auto simp: upd_def)

lemma record_tx_fresh:
  assumes rec: "record_tx sha now fresh db nid tok e = Inr (r, db')" and inv: "ops_inv db" and dig: "hex_digest sha"
    and new: "q_GetNodeOperationEvent db (ev_op e) (ev_attempt e) (ev_seq e) = None"
  shows "\<exists>old. q_GetNodeOperationByID db (ev_op e) = Some old \<and> op_node old = nid \<and> op_attempt old = ev_attempt e
    \<and> holds_lease now (Some (sha tok)) old \<and> ev_seq e = int (length (ev_seqs db (ev_op e) (ev_attempt e))) + 1
    \<and> (ev_status e = OpCancelled \<longrightarrow> op_cancel old)
    \<and> r = apply_event_row now (ev_status e) (ev_phase e) (ev_result e) (ev_error e) (lease_until now)
            (terminalFinishedAt now (ev_status e)) old
    \<and> db' = db\<lparr>db_ops := map (\<lambda>x. if op_id x = ev_op e then r else x) (db_ops db),
               db_events := db_events db @ [e\<lparr>ev_id := fresh\<rparr>]\<rparr>"
proof -
  let ?p = "\<lambda>x. op_id x = ev_op e \<and> op_node x = nid \<and> holds_lease now (Some (sha tok)) x \<and> op_attempt x = ev_attempt e"
  let ?f = "apply_event_row now (ev_status e) (ev_phase e) (ev_result e) (ev_error e) (lease_until now)
            (terminalFinishedAt now (ev_status e))"
  let ?last = "q_LastNodeOperationEventSequence db (ev_op e) (ev_attempt e)"
  obtain old where old: "q_GetNodeOperationByID db (ev_op e) = Some old" "op_node old = nid"
    using rec by (auto simp: record_tx_def split: option.splits if_splits)
  obtain db1 where db1: "q_AppendNodeOperationEvent db (e\<lparr>ev_id := fresh\<rparr>) = Some db1"
    and sq: "ev_seq e = ?last + 1" and att: "op_attempt old = ev_attempt e"
    and canc: "ev_status e = OpCancelled \<longrightarrow> op_cancel old"
    and app: "q_ApplyNodeOperationEvent now db1 (ev_status e) (ev_phase e) (ev_result e) (ev_error e) (lease_until now)
            (terminalFinishedAt now (ev_status e)) (ev_op e) nid (Some (sha tok)) (ev_attempt e) = (db', Some r)"
    using rec old new
    by (auto simp: record_tx_def Let_def nullable_digest [OF dig] split: option.splits if_splits prod.splits)
  have db1': "db1 = db\<lparr>db_events := db_events db @ [e\<lparr>ev_id := fresh\<rparr>]\<rparr>"
    using db1 new by (auto simp: q_AppendNodeOperationEvent_def split: if_splits)
  obtain x where x: "sel ?p (db_ops db) = Some x" "r = ?f x" "db' = db1\<lparr>db_ops := upd ?p ?f (db_ops db)\<rparr>"
    using app by (auto simp: q_ApplyNodeOperationEvent_def upd_returning_def db1')
  have "x = old"
    using sel_SomeD [OF x(1)] old(1) get_op_iff [OF inv] by (metis option.inject)
  moreover have "upd ?p ?f (db_ops db) = map (\<lambda>x. if op_id x = ev_op e then ?f old else x) (db_ops db)"
    using upd_one [of op_id "db_ops db" old _ ?f] sel_SomeD [OF x(1)] \<open>x = old\<close> inv by (auto simp: ops_inv_def)
  moreover have "?last = int (length (ev_seqs db (ev_op e) (ev_attempt e)))"
    using inv by (intro last_seq_gapless) (simp add: ops_inv_def)
  ultimately show ?thesis
    using old att canc sq x sel_SomeD [OF x(1)] by (auto simp: db1')
qed

text \<open>
  C7: An accepted report that is not a replay came from the holder of the live lease of the
  current attempt, carries the next sequence number of that attempt, and reports a
  cancellation only when one was requested. Its whole effect is one appended event and the
  new status, phase, result and error of that one row; a progress report extends the lease
  by 90 seconds, a final one drops the lease and sets the finish time.
\<close>

theorem report_applied:
  assumes "RecordNodeOperationEvent sha now fresh db p = (Inr r, db')" and "ops_inv db" and "hex_digest sha"
    and "q_GetNodeOperationEvent db (ep_op p) (ep_attempt p) (ep_seq p) = None"
  shows "\<exists>n e old. GetNode db (ep_node p) = Some n \<and> validate_event now p = Inr e
    \<and> q_GetNodeOperationByID db (ep_op p) = Some old \<and> op_node old = node_id n \<and> op_attempt old = ep_attempt p
    \<and> holds_lease now (Some (sha (ep_token p))) old
    \<and> ep_seq p = int (length (filter (\<lambda>x. ev_op x = ep_op p \<and> ev_attempt x = ep_attempt p) (db_events db))) + 1
    \<and> (ev_status e = OpCancelled \<longrightarrow> op_cancel old)
    \<and> db' = db\<lparr>db_ops := map (\<lambda>x. if op_id x = ep_op p then r else x) (db_ops db),
               db_events := db_events db @ [e\<lparr>ev_id := fresh\<rparr>]\<rparr>
    \<and> r = old\<lparr>op_status := ev_status e, op_phase := ep_phase p, op_result := ev_result e, op_error := ev_error e,
          op_lease_hash := (if ev_status e = OpRunning then Some (sha (ep_token p)) else None),
          op_lease_expires := (if ev_status e = OpRunning then Some (rfc3339nano (now + 90 * ns_per_s)) else None),
          op_finished_at := (if ev_status e = OpRunning then None else Some (rfc3339nano now)),
          op_updated_at := sql_now now\<rparr>"
proof -
  obtain n e where n: "GetNode db (ep_node p) = Some n" and e: "validate_event now p = Inr e"
    and rec: "record_tx sha now fresh db (node_id n) (ep_token p) e = Inr (r, db')"
    using assms(1) by (rule record_cases)
  note f = validate_event_fields [OF e]
  obtain old where old: "q_GetNodeOperationByID db (ep_op p) = Some old" "op_node old = node_id n"
    "op_attempt old = ep_attempt p" "holds_lease now (Some (sha (ep_token p))) old"
    "ep_seq p = int (length (ev_seqs db (ep_op p) (ep_attempt p))) + 1"
    "ev_status e = OpCancelled \<longrightarrow> op_cancel old"
    "r = apply_event_row now (ev_status e) (ep_phase p) (ev_result e) (ev_error e) (lease_until now)
            (terminalFinishedAt now (ev_status e)) old"
    "db' = db\<lparr>db_ops := map (\<lambda>x. if op_id x = ep_op p then r else x) (db_ops db),
               db_events := db_events db @ [e\<lparr>ev_id := fresh\<rparr>]\<rparr>"
    using record_tx_fresh [OF rec assms(2,3)] assms(4) f by auto
  have "op_finished_at old = None"
    using old(1,4) assms(2) get_op_iff [OF assms(2)] row_ok_running [of old]
    by (auto simp: holds_lease_def ops_inv_def)
  then show ?thesis
    using n e old by (intro exI [of _ n] exI [of _ e] exI [of _ old])
      (simp add: apply_event_row_def holds_lease_def terminalFinishedAt_def ev_seqs_def lease_until_def NodeOperationLeaseDuration_def)
qed

theorem report_applied_witness:
  "\<exists>e. validate_event 2000000000 ex_event = Inr e \<and> db_events ex_reported = db_events ex_claimed @ [e\<lparr>ev_id := ''ev1''\<rparr>]"
proof -
  have "q_GetNodeOperationEvent ex_claimed (ep_op ex_event) (ep_attempt ex_event) (ep_seq ex_event) = None"
    by (simp add: q_GetNodeOperationEvent_def ex_defs)
  from report_applied [OF ex_report_eq ex_inv(3) ex_digest this] obtain e
    where e: "validate_event 2000000000 ex_event = Inr e"
      and d: "ex_reported = ex_claimed\<lparr>db_ops := map (\<lambda>x. if op_id x = ep_op ex_event then ex_rep_op else x) (db_ops ex_claimed),
               db_events := db_events ex_claimed @ [e\<lparr>ev_id := ''ev1''\<rparr>]\<rparr>" by blast
  show ?thesis by (rule exI [of _ e], rule conjI [OF e], subst d) simp
qed

section \<open>Replays\<close>

lemma validate_event_again:
  assumes "validate_event now p = Inr e"
  shows "\<exists>e'. validate_event now' p = Inr e' \<and> same_event_content e e'
    \<and> ev_op e' = ev_op e \<and> ev_attempt e' = ev_attempt e \<and> ev_seq e' = ev_seq e"
  using assms by (auto simp: validate_event_def bind_res_Inr_iff same_event_content_def Let_def
      split: option.splits if_splits time_arg.splits)

lemma sel_replace:
  "key r = k \<Longrightarrow> sel (\<lambda>x. key x = k) (map (\<lambda>x. if key x = k then r else x) t)
     = map_option (\<lambda>_. r) (sel (\<lambda>x. key x = k) t)"
  by (induction t) auto

lemma event_in_store:
  assumes "record_tx sha now fresh db nid tok e = Inr (r, db')" and "ops_inv db" and "hex_digest sha"
  shows "\<exists>x cur. q_GetNodeOperationEvent db' (ev_op e) (ev_attempt e) (ev_seq e) = Some x \<and> same_event_content x e
    \<and> q_GetNodeOperationByID db' (ev_op e) = Some cur \<and> op_node cur = nid"
proof (cases "q_GetNodeOperationEvent db (ev_op e) (ev_attempt e) (ev_seq e)")
  case None
  obtain old where "q_GetNodeOperationByID db (ev_op e) = Some old" "op_node old = nid" and r: "op_id r = op_id old" "op_node r = op_node old"
    and db': "db' = db\<lparr>db_ops := map (\<lambda>x. if op_id x = ev_op e then r else x) (db_ops db),
               db_events := db_events db @ [e\<lparr>ev_id := fresh\<rparr>]\<rparr>"
    using record_tx_fresh [OF assms None] by (auto simp: apply_event_row_def)
  then have "q_GetNodeOperationByID db' (ev_op e) = Some r"
    using sel_replace [of op_id r "ev_op e" "db_ops db"] by (auto simp: q_GetNodeOperationByID_def dest: sel_SomeD)
  then show ?thesis
    using None r \<open>op_node old = nid\<close> by (auto simp: db' q_GetNodeOperationEvent_def sel_append same_event_content_def)
next
  case (Some x)
  then show ?thesis using assms(1) by (auto simp: record_tx_def split: option.splits if_splits)
qed

lemma event_kept:
  assumes "ops_evolve db db'" and "q_GetNodeOperationEvent db i a s = Some x"
  shows "q_GetNodeOperationEvent db' i a s = Some x"
  using assms by (auto simp: ops_evolve_def q_GetNodeOperationEvent_def sel_append)

text \<open>
  C8: Reports are exactly-once. A report that was accepted may be sent again at any later
  time, after any other calls, under the same node: it is accepted again, returns the
  operation as it is then, and changes nothing. So an agent that did not see the answer can
  always retry.
\<close>

theorem report_replay:
  assumes "RecordNodeOperationEvent sha now fresh db p = (Inr r, db1)" and "ops_inv db" and "hex_digest sha"
    and "GetNode db (ep_node p) = Some n" and "run (op_step sha) (t, db1) (t', db2)"
    and "GetNode db2 (ep_node p) = Some n'" and "node_id n' = node_id n"
  shows "\<exists>cur. q_GetNodeOperationByID db2 (ep_op p) = Some cur
    \<and> RecordNodeOperationEvent sha now' fresh' db2 p = (Inr cur, db2)"
proof -
  obtain e where e: "validate_event now p = Inr e" and rec: "record_tx sha now fresh db (node_id n) (ep_token p) e = Inr (r, db1)"
    using record_cases [OF assms(1)] assms(4) by auto
  have inv1: "ops_inv db1"
    using good_RecordNodeOperationEvent [of db sha now fresh p] assms(1,2) by (simp add: good_change_def)
  have evo: "ops_evolve db1 db2" using run_good [OF assms(5,3)] inv1 by simp
  obtain x where x: "q_GetNodeOperationEvent db2 (ev_op e) (ev_attempt e) (ev_seq e) = Some x" "same_event_content x e"
    using event_in_store [OF rec assms(2,3)] event_kept [OF evo] by blast
  obtain cur0 where "q_GetNodeOperationByID db1 (ev_op e) = Some cur0" "op_node cur0 = node_id n"
    using event_in_store [OF rec assms(2,3)] by blast
  then obtain cur where cur: "q_GetNodeOperationByID db2 (ev_op e) = Some cur" "op_node cur = node_id n"
    using run_row [OF assms(5,3) inv1] by (metis row_evolves_def)
  obtain e' where e': "validate_event now' p = Inr e'" "same_event_content e e'"
    "ev_op e' = ev_op e" "ev_attempt e' = ev_attempt e" "ev_seq e' = ev_seq e"
    using validate_event_again [OF e] by blast
  have "same_event_content x e'" using x(2) e'(2) by (simp add: same_event_content_def)
  then show ?thesis
    using assms(6,7) x cur e' validate_event_fields [OF e]
    by (auto simp: RecordNodeOperationEvent_def record_tx_def)
qed

theorem report_replay_witness:
  "\<exists>cur. q_GetNodeOperationByID ex_reported ''op1'' = Some cur
     \<and> RecordNodeOperationEvent ex_sha 500000000000 ''ev9'' ex_reported ex_event = (Inr cur, ex_reported)"
proof -
  have "ep_node ex_event = ''tokyo''" "ep_op ex_event = ''op1''" by (simp_all add: ex_event_def)
  then show ?thesis
    using report_replay [OF ex_report_eq ex_inv(3) ex_digest _ run.run_refl, of ex_node ex_node 500000000000 "''ev9''"] ex_get_node
    by simp
qed

section \<open>The lease window\<close>

lemma claimable_running: "claimable now r \<Longrightarrow> op_status r = OpRunning \<Longrightarrow> not_after_now (op_lease_expires r) now"
  by (auto simp: claimable_def)

lemma lease_live_early:
  assumes "now \<le> t + 89 * ns_per_s"
  shows "\<not> not_after_now (lease_until t) now"
  using assms lease_text_early [of "t + NodeOperationLeaseDuration" now]
  by (auto simp: lease_until_def NodeOperationLeaseDuration_def)

lemma lease_dead_late:
  assumes "t + 91 * ns_per_s \<le> now"
  shows "\<not> after_now (lease_until t) now"
  using assms lease_text_late [of now "t + NodeOperationLeaseDuration"]
  by (auto simp: lease_until_def NodeOperationLeaseDuration_def)

lemma active_row_after_expiry:
  assumes "ops_inv db" and "q_GetNodeOperationByID db i = Some r"
    and "old \<in> set (db_ops (q_ExpireQueuedNodeOperations now db nid))" and "op_is_active old" and "op_id old = i"
  shows "old = r"
  using expire_keeps [OF assms(3,4)] assms(2,5) get_op_iff [OF assms(1)] by (metis option.inject)

lemma no_early_takeover:
  assumes "ops_inv db" and "hex_digest sha" and "q_GetNodeOperationByID db i = Some r"
    and "\<not> claimable now r" and "ClaimNodeOperation sha now secret db p = (Inr (Some (r', tok)), db')" and "op_id r' = i"
  shows "op_attempt r' = op_attempt r \<and> op_lease_hash r = Some (sha (cl_token p))"
  using assms(5)
proof (cases rule: claim_success_cases)
  case (resume n op db1)
  obtain old where old: "old \<in> set (db_ops db1)" "op_id old = op_id op" "holds_lease now (Some (sha tok)) old"
    "r' = old\<lparr>op_lease_expires := lease_until now, op_updated_at := sql_now now\<rparr>"
    using resume_cases [OF assms(2) _ resume(7)] expire_inv [OF assms(1)] resume(2) by blast
  then have "old = r"
    using active_row_after_expiry [OF assms(1,3), of old now "node_id n"] assms(6) resume(2) by (simp add: holds_lease_def)
  with old show ?thesis using resume(6) by (simp add: holds_lease_def)
next
  case (fresh n op db1)
  obtain old where "old \<in> set (db_ops db1)" "op_id old = op_id op" "claimable now old"
    "r' = claim_row now (Some (sha tok)) (lease_until now) old"
    using fresh_claim_cases [OF assms(2) _ fresh(6)] expire_inv [OF assms(1)] fresh(2) by blast
  then show ?thesis
    using active_row_after_expiry [OF assms(1,3), of old now "node_id n"] assms(4,6) fresh(2)
    by (auto simp: claimable_def claim_row_def)
qed

lemma renew_without_lease:
  assumes "ops_inv db" and "q_GetNodeOperationByID db i = Some r" and "\<And>h. \<not> holds_lease now h r"
  shows "\<exists>err. RenewNodeOperationLease sha now db nm i tok att = (Inl err, db)"
proof -
  have "\<forall>x \<in> set (db_ops db). \<not> (op_id x = i \<and> op_node x = nid \<and> holds_lease now h x \<and> op_attempt x = a)" for nid h a
    using assms get_op_iff [OF assms(1)] by (metis option.inject)
  then have "q_RenewNodeOperationLease now db ex i nid h a = (db, None)" for ex nid h a
    by (simp add: q_RenewNodeOperationLease_def upd_returning_def sel_None_iff upd_none)
  then show ?thesis by (simp add: RenewNodeOperationLease_def split: option.split)
qed

lemma record_refused_unchanged: "RecordNodeOperationEvent sha now fresh db ep = (Inl err, db') \<Longrightarrow> db' = db"
  by (auto simp: RecordNodeOperationEvent_def split: option.splits sum.splits prod.splits)

lemma record_without_lease:
  assumes "ops_inv db" and "hex_digest sha" and "q_GetNodeOperationByID db (ep_op ep) = Some r" and "\<And>h. \<not> holds_lease now h r"
    and "q_GetNodeOperationEvent db (ep_op ep) (ep_attempt ep) (ep_seq ep) = None"
  shows "\<exists>err. RecordNodeOperationEvent sha now fresh db ep = (Inl err, db)"
proof -
  obtain res db' where call: "RecordNodeOperationEvent sha now fresh db ep = (res, db')" by fastforce
  have "res \<noteq> Inr y" for y
  proof
    assume "res = Inr y"
    then have "RecordNodeOperationEvent sha now fresh db ep = (Inr y, db')" using call by simp
    then obtain n e where "GetNode db (ep_node ep) = Some n" and e: "validate_event now ep = Inr e"
      and rec: "record_tx sha now fresh db (node_id n) (ep_token ep) e = Inr (y, db')"
      by (rule record_cases)
    then have "q_GetNodeOperationEvent db (ev_op e) (ev_attempt e) (ev_seq e) = None"
      and "q_GetNodeOperationByID db (ev_op e) = Some r"
      using assms(3,5) validate_event_fields [OF e] by simp_all
    then show False using record_tx_fresh [OF rec assms(1,2)] assms(4) by fastforce
  qed
  then obtain err where "res = Inl err" by (cases res) auto
  then show ?thesis using call record_refused_unchanged [of sha now fresh db ep err db'] by auto
qed

text \<open>
  C9: The lease window, with the store's textual time comparison taken into account. A lease
  granted at time \<open>t\<close> cannot be taken over during the first 89 seconds: a claim of the node
  in that time returns the operation only to the holder, at the same attempt. From 91
  seconds on the holder can neither renew it nor report under it: the call is refused and
  the store unchanged.
\<close>

theorem lease_window:
  assumes "ops_inv db" and "hex_digest sha" and "q_GetNodeOperationByID db i = Some r"
    and "op_status r = OpRunning" and "op_lease_expires r = lease_until t"
  shows "(now \<le> t + 89 * ns_per_s \<and> ClaimNodeOperation sha now secret db p = (Inr (Some (r', tok)), db') \<and> op_id r' = i
            \<longrightarrow> op_attempt r' = op_attempt r \<and> op_lease_hash r = Some (sha (cl_token p)))
    \<and> (t + 91 * ns_per_s \<le> now
            \<longrightarrow> (\<exists>err. RenewNodeOperationLease sha now db nm i tok' att = (Inl err, db)))
    \<and> (t + 91 * ns_per_s \<le> now \<and> ep_op ep = i \<and> q_GetNodeOperationEvent db i (ep_attempt ep) (ep_seq ep) = None
            \<longrightarrow> (\<exists>err. RecordNodeOperationEvent sha now fresh db ep = (Inl err, db)))"
proof -
  have "\<not> claimable now r" if "now \<le> t + 89 * ns_per_s"
    using lease_live_early [OF that] assms(4,5) claimable_running [of now r] by auto
  moreover have "\<not> holds_lease now h r" if "t + 91 * ns_per_s \<le> now" for h
    using lease_dead_late [OF that] assms(5) by (simp add: holds_lease_def)
  ultimately show ?thesis
    using no_early_takeover [OF assms(1-3), of now secret p r' tok db'] renew_without_lease [OF assms(1,3), of now sha nm tok' att]
      record_without_lease [OF assms(1,2), of ep r now fresh] assms(3) by auto
qed

theorem lease_window_witness:
  "(\<exists>err. RenewNodeOperationLease ex_sha (92 * ns_per_s) ex_claimed ''tokyo'' ''op1'' ''bfl_s'' 1 = (Inl err, ex_claimed))
   \<and> (\<exists>err. RecordNodeOperationEvent ex_sha (92 * ns_per_s) ''ev1'' ex_claimed ex_event = (Inl err, ex_claimed))"
proof -
  have "q_GetNodeOperationByID ex_claimed ''op1'' = Some ex_run_op" "op_status ex_run_op = OpRunning"
    "op_lease_expires ex_run_op = lease_until 1000000000" "ep_op ex_event = ''op1''"
    "q_GetNodeOperationEvent ex_claimed ''op1'' (ep_attempt ex_event) (ep_seq ex_event) = None"
    by (simp_all add: op_query_defs ex_defs)
  then show ?thesis
    using lease_window [OF ex_inv(3) ex_digest, of "''op1''" ex_run_op 1000000000 "92 * ns_per_s" "''s''" ex_claim
        ex_run_op "''bfl_s''" ex_claimed "''tokyo''" "''bfl_s''" 1 ex_event "''ev1''"] by simp
qed

lemma whole_second_text: "go_tail 0 = ''Z''"
  by code_simp

text \<open>
  C10: The second of slack is real: the lease is stored with \<open>RFC3339Nano\<close>, which drops a
  zero fraction, and compared as text with SQLite's \<open>strftime\<close>, which never does, and
  \<open>'Z'\<close> sorts after \<open>'.'\<close>. A lease that ended on a whole second is still held 999
  milliseconds after its end.
\<close>

theorem lease_outlives_expiry:
  assumes "op_status r = OpRunning" and "op_lease_hash r = Some h" and "op_lease_expires r = Some (rfc3339nano (s * ns_per_s))"
  shows "holds_lease (s * ns_per_s + 999000000) (Some h) r"
proof -
  have "(s * ns_per_s + 999000000) div ns_per_s = s" "(s * ns_per_s + 999000000) mod ns_per_s = 999000000" by auto
  then show ?thesis
    using assms by (simp add: holds_lease_def sql_now_def rfc3339nano_def less_stamp_def less_eq_stamp_def
        whole_second_text less_char_def)
qed

theorem lease_outlives_expiry_witness:
  "holds_lease (91 * ns_per_s + 999000000) (Some ''ab'') ex_run_op"
  by (rule lease_outlives_expiry)
     (simp_all add: ex_run_op_def ex_op_def claim_row_def new_op_def lease_until_def NodeOperationLeaseDuration_def)

section \<open>The operation that cannot finish\<close>

text \<open>
  A running operation whose cancellation was requested and whose lease has lapsed: a claim
  excludes it because of the request, everything else needs a live lease.
\<close>

definition stranded_row :: "instant \<Rightarrow> op_row \<Rightarrow> bool" where
  "stranded_row now r \<longleftrightarrow> op_status r = OpRunning \<and> op_cancel r \<and> not_after_now (op_lease_expires r) now"

definition stranded :: "string \<Rightarrow> 'a timed \<Rightarrow> bool" where
  "stranded i s \<longleftrightarrow> (\<exists>r. q_GetNodeOperationByID (snd s) i = Some r \<and> stranded_row (fst s) r)"

lemma stranded_row_later: "stranded_row t r \<Longrightarrow> t \<le> now \<Longrightarrow> stranded_row now r"
  using sql_now_mono [of t now] by (cases "op_lease_expires r") (auto simp: stranded_row_def)

lemma stranded_no_lease: "stranded_row now r \<Longrightarrow> \<not> holds_lease now h r"
  by (cases "op_lease_expires r") (auto simp: stranded_row_def holds_lease_def)

lemma stranded_not_claimable: "stranded_row now r \<Longrightarrow> \<not> claimable now r"
  by (simp add: stranded_row_def claimable_def)

lemma stranded_upd:
  assumes "stranded i (now, db)" and "\<And>r. p r \<Longrightarrow> op_id (f r) = op_id r"
    and "\<And>r. stranded_row now r \<Longrightarrow> p r \<Longrightarrow> stranded_row now (f r)"
  shows "stranded i (now, db\<lparr>db_ops := upd p f (db_ops db)\<rparr>)"
proof -
  obtain r where "sel (\<lambda>r. op_id r = i) (db_ops db) = Some r" "stranded_row now r"
    using assms(1) by (auto simp: stranded_def q_GetNodeOperationByID_def)
  then show ?thesis
    using assms(2,3) sel_upd_key [of p op_id f i "db_ops db"]
    by (cases "p r") (auto simp: stranded_def q_GetNodeOperationByID_def)
qed

lemma stranded_statements:
  assumes "stranded i (now, db)"
  shows "stranded i (now, q_ExpireQueuedNodeOperations now db nid)"
    and "stranded i (now, fst (q_ClaimNodeOperation now db h ex j nid))"
    and "stranded i (now, fst (q_ResumeNodeOperationLease now db ex j nid h))"
    and "stranded i (now, fst (q_RenewNodeOperationLease now db ex j nid h att))"
    and "stranded i (now, fst (q_RequestNodeOperationCancel now db j))"
    and "stranded i (now, q_CancelUnclaimedNodeOperation now db j)"
    and "stranded i (now, fst (q_ApplyNodeOperationEvent now db st ph res err ex fin j nid h att))"
  unfolding q_ExpireQueuedNodeOperations_def q_ClaimNodeOperation_def q_ResumeNodeOperationLease_def
    q_RenewNodeOperationLease_def q_RequestNodeOperationCancel_def q_CancelUnclaimedNodeOperation_def
    q_ApplyNodeOperationEvent_def upd_returning_def Let_def prod.case fst_conv
  by (rule stranded_upd [OF assms]; (simp add: claim_row_def cancel_row_def apply_event_row_def)?;
      (simp add: stranded_no_lease stranded_not_claimable)?; simp add: stranded_row_def cancel_row_def)+

lemma stranded_insert: "stranded i (now, db) \<Longrightarrow> q_CreateNodeOperation db r = Some db' \<Longrightarrow> stranded i (now, db')"
  by (auto simp: stranded_def q_CreateNodeOperation_def q_GetNodeOperationByID_def sel_append split: if_splits)

lemma stranded_events: "stranded i (now, db) \<Longrightarrow> q_AppendNodeOperationEvent db e = Some db' \<Longrightarrow> stranded i (now, db')"
  by (auto simp: stranded_def q_AppendNodeOperationEvent_def q_GetNodeOperationByID_def split: if_splits)

lemma stranded_create: "stranded i (now, db) \<Longrightarrow> stranded i (now, snd (CreateNodeOperation now fresh db p))"
  by (auto simp: CreateNodeOperation_def create_tx_def bind_res_Inr_iff intro: stranded_insert
      split: option.splits sum.splits prod.splits if_splits)

lemma stranded_claim:
  assumes "stranded i (now, db)"
  shows "stranded i (now, snd (ClaimNodeOperation sha now secret db p))"
proof -
  note s = stranded_statements
  show ?thesis
    using s(1) [OF assms] s(2) [OF s(1) [OF assms]] s(3) [OF s(1) [OF assms]] s(2) [OF s(3) [OF s(1) [OF assms]]]
    by (auto simp: ClaimNodeOperation_def Let_def case_prod_beta assms split: option.split)
qed

lemma stranded_record:
  assumes "stranded i (now, db)"
  shows "stranded i (now, snd (RecordNodeOperationEvent sha now fresh db ep))"
proof -
  have "stranded i (now, db')" if rec: "record_tx sha now fresh db nid tok e = Inr (r, db')" for nid tok e r db'
  proof -
    consider "db' = db" | db1 where "q_AppendNodeOperationEvent db (e\<lparr>ev_id := fresh\<rparr>) = Some db1"
      "db' = fst (q_ApplyNodeOperationEvent now db1 (ev_status e) (ev_phase e) (ev_result e) (ev_error e)
                  (lease_until now) (terminalFinishedAt now (ev_status e)) (ev_op e) nid
                  (nullableString (sha tok)) (ev_attempt e))"
      using rec by (auto simp: record_tx_def Let_def case_prod_beta split: option.splits if_splits prod.splits)
    then show ?thesis
      by cases (simp_all add: assms stranded_statements(7) [OF stranded_events [OF assms]])
  qed
  then show ?thesis using assms by (auto simp: RecordNodeOperationEvent_def split: option.split sum.split)
qed

lemma stranded_step:
  assumes "op_step sha s s'" and "stranded i s"
  shows "stranded i s'"
proof -
  have later: "stranded i (now, db)" if "s = (t, db)" "t \<le> now" for t now db
    using assms(2) that stranded_row_later by (auto simp: stranded_def)
  note s = stranded_statements [OF later]
  show ?thesis
    using assms(1)
  proof cases
    case (step_active t now db nm)
    then show ?thesis using s(1) later by (auto simp: GetActiveNodeOperation_def Let_def split: option.split)
  next
    case (step_renew t now db nm j tok att)
    then show ?thesis using s(4) later by (auto simp: RenewNodeOperationLease_def case_prod_beta split: option.split)
  next
    case (step_cancel t now db j)
    then show ?thesis using s(5) by (auto simp: RequestNodeOperationCancel_def case_prod_beta split: option.split)
  next
    case (step_rest t now db' db)
    then show ?thesis using later by (simp add: stranded_def q_GetNodeOperationByID_def)
  qed (use s(6) later in \<open>simp_all add: stranded_create stranded_claim stranded_record CancelUnclaimedNodeOperation_def Let_def\<close>)
qed

text \<open>
  C11: A running operation whose cancellation was requested and whose lease has lapsed stays
  running for ever: no sequence of calls finishes, cancels or restarts it, and while it is
  there every request for a new operation on its node is refused as already active.
\<close>

theorem cancelled_lapsed_operation_stranded:
  assumes "run (op_step sha) (t, db) (t', db')" and "hex_digest sha" and "ops_inv db"
    and "q_GetNodeOperationByID db i = Some r" and "op_status r = OpRunning" and "op_cancel r"
    and "op_lease_expires r = Some ex" and "ex \<le> sql_now t"
  shows "(\<exists>r'. q_GetNodeOperationByID db' i = Some r' \<and> op_status r' = OpRunning \<and> op_node r' = op_node r)
    \<and> (GetNode db' (cp_node p) = Some n \<and> node_id n = op_node r \<and> validate_create p = Inr q
         \<and> q_GetNodeOperationByIdempotencyKey db' (op_node r) (rq_key q) = None
       \<longrightarrow> CreateNodeOperation now fresh db' p = (Inl ErrActiveNodeOperation, db'))"
proof -
  have "stranded i (t, db)" using assms(4-8) by (simp add: stranded_def stranded_row_def)
  then have "stranded i (t', db')"
    by (intro ops_sys.run_stable [OF assms(1), of "stranded i"]) (use assms(2,3) stranded_step in \<open>auto simp: op_good_def\<close>)
  then obtain r' where r': "q_GetNodeOperationByID db' i = Some r'" "op_status r' = OpRunning"
    by (auto simp: stranded_def stranded_row_def)
  then have "op_node r' = op_node r" using run_row [OF assms(1-4)] by (auto simp: row_evolves_def)
  moreover have "q_GetActiveNodeOperation db' (op_node r') \<noteq> None"
    using r' sel_SomeD [of "\<lambda>r. op_id r = i" "db_ops db'" r']
    by (auto simp: get_active_None_iff q_GetNodeOperationByID_def)
  ultimately show ?thesis using r' by (auto simp: CreateNodeOperation_def create_tx_def)
qed

definition ex_stranded :: op_db where
  "ex_stranded = ex_db\<lparr>db_ops := [cancel_row 2000000000 ex_run_op]\<rparr>"

lemma ex_stranded_inv: "ops_inv ex_stranded"
proof -
  have "RequestNodeOperationCancel 2000000000 ex_claimed ''op1'' = (Inr (cancel_row 2000000000 ex_run_op), ex_stranded)"
    by (simp add: RequestNodeOperationCancel_def op_query_defs ex_defs ex_stranded_def)
  then show ?thesis
    using ex_inv(3) good_RequestNodeOperationCancel [of ex_claimed 2000000000 "''op1''"] by (simp add: good_change_def)
qed

lemma ex_stranded_run: "run (op_step ex_sha) (200 * ns_per_s, ex_stranded) (300 * ns_per_s, ex_stranded)"
proof -
  have "ClaimNodeOperation ex_sha (300 * ns_per_s) ''s'' ex_stranded ex_claim = (Inr None, ex_stranded)"
    by (simp add: ClaimNodeOperation_def Let_def op_query_defs node_query_defs ex_defs ex_stranded_def)
  then show ?thesis
    using run.run_step [of "op_step ex_sha", OF run.run_refl
        op_step.step_claim [of "200 * ns_per_s" "300 * ns_per_s" ex_sha ex_stranded "''s''" ex_claim]] by simp
qed

theorem cancelled_lapsed_operation_stranded_witness:
  "CreateNodeOperation (400 * ns_per_s) ''op2'' ex_stranded (ex_create\<lparr>cp_key := ''ab''\<rparr>)
     = (Inl ErrActiveNodeOperation, ex_stranded)"
proof -
  let ?r = "cancel_row 2000000000 ex_run_op" and ?p = "ex_create\<lparr>cp_key := ''ab''\<rparr>"
  let ?q = "\<lparr>rq_kind = ''logs.collect'', rq_payload = ''{}'', rq_key = ''ab'', rq_caps = [''operations.v1''],
     rq_not_before = None, rq_expires = None, rq_by = ''admin'', rq_retry_of = ''''\<rparr>"
  have "validate_create ?p = Inr ?q"
    by (simp add: validate_defs allowed_kinds_def ex_defs)
  moreover have "q_GetNodeOperationByID ex_stranded ''op1'' = Some ?r" "op_status ?r = OpRunning" "op_cancel ?r"
    "op_lease_expires ?r = Some (rfc3339nano (91 * ns_per_s))" "op_node ?r = ''n1''"
    "GetNode ex_stranded (cp_node ?p) = Some ex_node" "node_id ex_node = ''n1''"
    "q_GetNodeOperationByIdempotencyKey ex_stranded ''n1'' (rq_key ?q) = None"
    by (simp_all add: node_query_defs op_query_defs lease_until_def NodeOperationLeaseDuration_def ex_defs ex_stranded_def)
  moreover have "rfc3339nano (91 * ns_per_s) \<le> sql_now (200 * ns_per_s)"
    by (simp add: text_compare_defs)
  ultimately show ?thesis
    using cancelled_lapsed_operation_stranded [OF ex_stranded_run ex_digest ex_stranded_inv, of "''op1''" ?r _ ?p ex_node ?q]
    by simp
qed

end
