(* ===== verification/Update_Campaigns.thy ===== *)
theory Update_Campaigns
  imports Operation_Reports
begin

text \<open>
  Update campaigns in the database: \<open>internal/server/db/node_update_campaigns.go\<close> with the
  statements of \<open>internal/server/store/sqlc/node_update_campaigns.sql.go\<close>. A campaign rolls a
  release out in batches; a member is one node of it. The tables extend the operation
  store, so that a campaign call and an operation call work on one database. The digest of
  a campaign's specification (\<open>SHA256Hex\<close> of its JSON) is an argument.
\<close>

datatype camp_status = CampQueued | CampRunning | CampPaused | CampSucceeded | CampCancelled

datatype member_status = MemPending | MemQueued | MemRunning | MemSucceeded | MemFailed | MemCancelled | MemSkipped

record camp_row =
  camp_id :: string
  camp_release :: string
  camp_components :: "string list"
  camp_status :: camp_status
  camp_key :: string
  camp_spec_hash :: string
  camp_batch_size :: int
  camp_current :: int
  camp_requested_by :: string
  camp_requested_at :: stamp
  camp_started_at :: "stamp option"
  camp_finished_at :: "stamp option"
  camp_updated_at :: stamp
  camp_error :: string

record member_row =
  mem_camp :: string
  mem_node :: string
  mem_position :: int
  mem_batch :: int
  mem_kind :: string
  mem_payload :: string
  mem_op :: "string option"
  mem_status :: member_status
  mem_error :: string
  mem_started_at :: "stamp option"
  mem_finished_at :: "stamp option"
  mem_updated_at :: stamp

record camp_db = op_db +
  db_camps :: "camp_row list"
  db_members :: "member_row list"

fun camp_active :: "camp_status \<Rightarrow> bool" where
  "camp_active CampQueued = True"
| "camp_active CampRunning = True"
| "camp_active CampPaused = True"
| "camp_active _ = False"

fun mem_done :: "member_status \<Rightarrow> bool" where
  "mem_done MemSucceeded = True"
| "mem_done MemSkipped = True"
| "mem_done _ = False"

fun mem_broken :: "member_status \<Rightarrow> bool" where
  "mem_broken MemFailed = True"
| "mem_broken MemCancelled = True"
| "mem_broken _ = False"

fun mem_in_flight :: "member_status \<Rightarrow> bool" where
  "mem_in_flight MemQueued = True"
| "mem_in_flight MemRunning = True"
| "mem_in_flight _ = False"

section \<open>Statements\<close>

definition q_GetNodeUpdateCampaign :: "'a camp_db_scheme \<Rightarrow> string \<Rightarrow> camp_row option" where
  "q_GetNodeUpdateCampaign db i = sel (\<lambda>c. camp_id c = i) (db_camps db)"

definition q_GetNodeUpdateCampaignByIdempotencyKey :: "'a camp_db_scheme \<Rightarrow> string \<Rightarrow> camp_row option" where
  "q_GetNodeUpdateCampaignByIdempotencyKey db k = sel (\<lambda>c. camp_key c = k) (db_camps db)"

definition q_GetActiveNodeUpdateCampaign :: "'a camp_db_scheme \<Rightarrow> camp_row option" where
  "q_GetActiveNodeUpdateCampaign db =
     (case rev (sort_key camp_requested_at (rev (filter (\<lambda>c. camp_active (camp_status c)) (db_camps db)))) of
        [] \<Rightarrow> None | c # _ \<Rightarrow> Some c)"

definition q_GetNodeUpdateCampaignIDByOperation :: "'a camp_db_scheme \<Rightarrow> string option \<Rightarrow> string option" where
  "q_GetNodeUpdateCampaignIDByOperation db oid =
     map_option mem_camp (sel (\<lambda>m. oid \<noteq> None \<and> mem_op m = oid) (db_members db))"

text \<open>A member row joined with the name of its node.\<close>

record camp_member = member_row +
  mem_node_name :: string

definition join_name :: "'a camp_db_scheme \<Rightarrow> member_row \<Rightarrow> camp_member list" where
  "join_name db m = map (\<lambda>n. member_row.extend m \<lparr>mem_node_name = node_name n\<rparr>)
     (filter (\<lambda>n. node_id n = mem_node m) (db_nodes db))"

definition q_ListNodeUpdateCampaignMembers :: "'a camp_db_scheme \<Rightarrow> string \<Rightarrow> camp_member list" where
  "q_ListNodeUpdateCampaignMembers db i =
     sort_key mem_position (concat (map (join_name db) (filter (\<lambda>m. mem_camp m = i) (db_members db))))"

definition new_camp ::
  "instant \<Rightarrow> string \<Rightarrow> string \<Rightarrow> string list \<Rightarrow> string \<Rightarrow> string \<Rightarrow> int \<Rightarrow> string \<Rightarrow> camp_row" where
  "new_camp now i rel comps key hash bsize by =
     \<lparr>camp_id = i, camp_release = rel, camp_components = comps, camp_status = CampQueued, camp_key = key,
      camp_spec_hash = hash, camp_batch_size = bsize, camp_current = - 1, camp_requested_by = by,
      camp_requested_at = sql_now now, camp_started_at = None, camp_finished_at = None,
      camp_updated_at = sql_now now, camp_error = ''''\<rparr>"

definition q_CreateNodeUpdateCampaign :: "'a camp_db_scheme \<Rightarrow> camp_row \<Rightarrow> 'a camp_db_scheme option" where
  "q_CreateNodeUpdateCampaign db c =
     (if (\<exists>x \<in> set (db_camps db). camp_id x = camp_id c \<or> camp_key x = camp_key c)
       \<or> (camp_active (camp_status c) \<and> (\<exists>x \<in> set (db_camps db). camp_active (camp_status x)))
       \<or> camp_batch_size c < 1 \<or> 20 < camp_batch_size c
      then None else Some (db\<lparr>db_camps := db_camps db @ [c]\<rparr>))"

definition new_member :: "instant \<Rightarrow> string \<Rightarrow> string \<Rightarrow> int \<Rightarrow> int \<Rightarrow> string \<Rightarrow> string \<Rightarrow> member_row" where
  "new_member now cid nid pos batch kind payload =
     \<lparr>mem_camp = cid, mem_node = nid, mem_position = pos, mem_batch = batch, mem_kind = kind,
      mem_payload = payload, mem_op = None, mem_status = MemPending, mem_error = '''',
      mem_started_at = None, mem_finished_at = None, mem_updated_at = sql_now now\<rparr>"

definition q_CreateNodeUpdateCampaignMember :: "'a camp_db_scheme \<Rightarrow> member_row \<Rightarrow> 'a camp_db_scheme option" where
  "q_CreateNodeUpdateCampaignMember db m =
     (if (\<exists>x \<in> set (db_members db). mem_camp x = mem_camp m \<and> (mem_node x = mem_node m \<or> mem_position x = mem_position m))
       \<or> \<not> (\<exists>c \<in> set (db_camps db). camp_id c = mem_camp m)
       \<or> \<not> (\<exists>n \<in> set (db_nodes db). node_id n = mem_node m)
       \<or> mem_batch m < 0
      then None else Some (db\<lparr>db_members := db_members db @ [m]\<rparr>))"

text \<open>
  \<open>member_status_of\<close> is the member status an operation status is stored as; \<open>expired\<close> is
  not one the schema admits.
\<close>

fun member_status_of :: "op_status \<Rightarrow> member_status option" where
  "member_status_of OpQueued = Some MemQueued"
| "member_status_of OpRunning = Some MemRunning"
| "member_status_of OpSucceeded = Some MemSucceeded"
| "member_status_of OpFailed = Some MemFailed"
| "member_status_of OpCancelled = Some MemCancelled"
| "member_status_of OpExpired = None"

text \<open>The constraints on \<open>operation_id\<close>: it references an operation and no other member has it.\<close>

definition op_ref_ok :: "'a camp_db_scheme \<Rightarrow> string option \<Rightarrow> string \<Rightarrow> string \<Rightarrow> bool" where
  "op_ref_ok db oid cid nid \<longleftrightarrow> (case oid of None \<Rightarrow> True
     | Some i \<Rightarrow> (\<exists>r \<in> set (db_ops db). op_id r = i)
         \<and> \<not> (\<exists>x \<in> set (db_members db). mem_op x = oid \<and> \<not> (mem_camp x = cid \<and> mem_node x = nid)))"

definition q_AttachNodeUpdateCampaignOperation ::
  "instant \<Rightarrow> 'a camp_db_scheme \<Rightarrow> string option \<Rightarrow> op_status \<Rightarrow> string \<Rightarrow> string \<Rightarrow> 'a camp_db_scheme option" where
  "q_AttachNodeUpdateCampaignOperation now db oid st cid nid =
     (let p = (\<lambda>m. mem_camp m = cid \<and> mem_node m = nid \<and> mem_op m = None) in
      if \<not> (\<exists>m \<in> set (db_members db). p m) then Some db
      else case member_status_of st of
        None \<Rightarrow> None
      | Some ms \<Rightarrow>
        if \<not> op_ref_ok db oid cid nid then None
        else Some (db\<lparr>db_members := upd p (\<lambda>m. m\<lparr>mem_op := oid, mem_status := ms,
                mem_started_at := Some (case mem_started_at m of Some s \<Rightarrow> s | None \<Rightarrow> sql_now now),
                mem_updated_at := sql_now now\<rparr>) (db_members db)\<rparr>))"

definition q_ReplaceNodeUpdateCampaignOperationForRetry ::
  "instant \<Rightarrow> 'a camp_db_scheme \<Rightarrow> string option \<Rightarrow> op_status \<Rightarrow> string \<Rightarrow> string \<Rightarrow> 'a camp_db_scheme option" where
  "q_ReplaceNodeUpdateCampaignOperationForRetry now db oid st cid nid =
     (let p = (\<lambda>m. mem_camp m = cid \<and> mem_node m = nid \<and> mem_broken (mem_status m)) in
      if \<not> (\<exists>m \<in> set (db_members db). p m) then Some db
      else case member_status_of st of
        None \<Rightarrow> None
      | Some ms \<Rightarrow>
        if \<not> op_ref_ok db oid cid nid then None
        else Some (db\<lparr>db_members := upd p (\<lambda>m. m\<lparr>mem_op := oid, mem_status := ms, mem_error := '''',
                mem_started_at := Some (sql_now now), mem_finished_at := None,
                mem_updated_at := sql_now now\<rparr>) (db_members db)\<rparr>))"

definition q_UpdateNodeUpdateCampaignMemberState ::
  "instant \<Rightarrow> 'a camp_db_scheme \<Rightarrow> member_status \<Rightarrow> string \<Rightarrow> stamp option \<Rightarrow> string \<Rightarrow> string \<Rightarrow> 'a camp_db_scheme" where
  "q_UpdateNodeUpdateCampaignMemberState now db st err fin cid nid =
     db\<lparr>db_members := upd (\<lambda>m. mem_camp m = cid \<and> mem_node m = nid)
        (\<lambda>m. m\<lparr>mem_status := st, mem_error := err,
               mem_finished_at := (case fin of Some f \<Rightarrow> Some f | None \<Rightarrow> mem_finished_at m),
               mem_updated_at := sql_now now\<rparr>) (db_members db)\<rparr>"

definition q_UpdateNodeUpdateCampaignState ::
  "instant \<Rightarrow> 'a camp_db_scheme \<Rightarrow> camp_status \<Rightarrow> int \<Rightarrow> string \<Rightarrow> stamp option \<Rightarrow> stamp option \<Rightarrow> string \<Rightarrow> 'a camp_db_scheme option" where
  "q_UpdateNodeUpdateCampaignState now db st cur err started fin i =
     (if camp_active st \<and> (\<exists>c \<in> set (db_camps db). camp_id c = i)
         \<and> (\<exists>c \<in> set (db_camps db). camp_id c \<noteq> i \<and> camp_active (camp_status c))
      then None
      else Some (db\<lparr>db_camps := upd (\<lambda>c. camp_id c = i)
        (\<lambda>c. c\<lparr>camp_status := st, camp_current := cur, camp_error := err,
               camp_started_at := (case started of Some s \<Rightarrow> Some s | None \<Rightarrow> camp_started_at c),
               camp_finished_at := (case fin of Some f \<Rightarrow> Some f | None \<Rightarrow> camp_finished_at c),
               camp_updated_at := sql_now now\<rparr>) (db_camps db)\<rparr>))"

section \<open>Methods\<close>

datatype camp_error =
    CampFieldsRequired | CampKeyTooLong | CampBadBatchSize | CampNoComponents | CampNoMembers
  | CampNodeMissing | CampDuplicateMember | CampBadKind | CampPayload op_error | CampCanaryCount
  | CampKeyConflict | CampConstraint | CampNoRows | CampEmptyBatch | CampOperation op_error
  | CampTerminal | CampNotPaused | CampNothingToRetry | CampNothingFailed
  | CampKeyMissing | CampRequestBatchSize | CampBadComponent
  | CampNotEligible | CampNoEligible | CampNoCanary

record camp_detail =
  det_camp :: camp_row
  det_members :: "camp_member list"

record member_params =
  mp_node :: string
  mp_position :: int
  mp_batch :: int
  mp_kind :: string
  mp_payload :: raw_json

record campaign_params =
  kp_release :: string
  kp_components :: "string list"
  kp_key :: string
  kp_batch_size :: int
  kp_by :: string
  kp_members :: "member_params list"

text \<open>A member after its node was resolved and its payload normalised.\<close>

record prepared_member =
  pm_node :: string
  pm_position :: int
  pm_batch :: int
  pm_kind :: string
  pm_payload :: string

text \<open>The specification whose digest decides whether two requests are the same.\<close>

record campaign_spec =
  spec_release :: string
  spec_components :: "string list"
  spec_batch_size :: int
  spec_members :: "prepared_member list"

definition is_component :: "string \<Rightarrow> bool" where
  "is_component s \<longleftrightarrow> s = ''agent'' \<or> s = ''sing_box''"

fun select_components :: "string list \<Rightarrow> string list \<Rightarrow> string list" where
  "select_components seen [] = []"
| "select_components seen (c # cs) =
     (let c' = trim_space c
      in if is_component c' \<and> c' \<notin> set seen then c' # select_components (c' # seen) cs
         else select_components seen cs)"

definition normalizeCampaignComponents :: "string list \<Rightarrow> string list" where
  "normalizeCampaignComponents components = sort (select_components [] components)"

definition update_kind :: "string \<Rightarrow> bool" where
  "update_kind k \<longleftrightarrow> k = ''update.agent'' \<or> k = ''update.sing_box'' \<or> k = ''update.bundle''"

text \<open>The validation loop over the members, with the sets of nodes and positions seen so far.\<close>

fun prepare_members ::
  "'a camp_db_scheme \<Rightarrow> string list \<Rightarrow> int list \<Rightarrow> member_params list \<Rightarrow> camp_error + prepared_member list" where
  "prepare_members db nodes poss [] = Inr []"
| "prepare_members db nodes poss (m # ms) =
     (case GetNode db (mp_node m) of
        None \<Rightarrow> Inl CampNodeMissing
      | Some n \<Rightarrow>
        if node_id n \<in> set nodes \<or> mp_position m \<in> set poss \<or> mp_position m < 0 \<or> mp_batch m < 0
        then Inl CampDuplicateMember else
        if \<not> update_kind (mp_kind m) then Inl CampBadKind else
        (case normalizeJSONObject (mp_payload m) of
           Inl e \<Rightarrow> Inl (CampPayload e)
         | Inr payload \<Rightarrow>
           bind_res (prepare_members db (node_id n # nodes) (mp_position m # poss) ms) (\<lambda>ps.
             Inr (\<lparr>pm_node = node_id n, pm_position = mp_position m, pm_batch = mp_batch m,
                   pm_kind = mp_kind m, pm_payload = payload\<rparr> # ps))))"

definition GetNodeUpdateCampaign :: "'a camp_db_scheme \<Rightarrow> string \<Rightarrow> camp_error + camp_detail" where
  "GetNodeUpdateCampaign db i =
     (case q_GetNodeUpdateCampaign db (trim_space i) of
        None \<Rightarrow> Inl CampNoRows
      | Some c \<Rightarrow> Inr \<lparr>det_camp = c, det_members = q_ListNodeUpdateCampaignMembers db (camp_id c)\<rparr>)"

fun insert_members :: "instant \<Rightarrow> string \<Rightarrow> prepared_member list \<Rightarrow> 'a camp_db_scheme \<Rightarrow> 'a camp_db_scheme option" where
  "insert_members now cid [] db = Some db"
| "insert_members now cid (p # ps) db =
     (case q_CreateNodeUpdateCampaignMember db
             (new_member now cid (pm_node p) (pm_position p) (pm_batch p) (pm_kind p) (pm_payload p)) of
        None \<Rightarrow> None
      | Some db' \<Rightarrow> insert_members now cid ps db')"

definition prepare_campaign ::
  "'a camp_db_scheme \<Rightarrow> campaign_params \<Rightarrow> camp_error + (string \<times> string \<times> campaign_spec)" where
  "prepare_campaign db p =
     (let rel = trim_space (kp_release p); key = trim_space (kp_key p); by = trim_space (kp_by p) in
      if rel = '''' \<or> key = '''' then Inl CampFieldsRequired else
      if length key > 128 then Inl CampKeyTooLong else
      if kp_batch_size p \<le> 0 \<or> kp_batch_size p > 20 then Inl CampBadBatchSize else
      let comps = normalizeCampaignComponents (kp_components p) in
      if comps = [] then Inl CampNoComponents else
      if kp_members p = [] then Inl CampNoMembers else
      bind_res (prepare_members db [] [] (kp_members p)) (\<lambda>ps.
      if length (filter (\<lambda>m. pm_batch m = 0) ps) \<noteq> 1 then Inl CampCanaryCount else
      Inr (key, if by = '''' then ''admin'' else by,
           \<lparr>spec_release = rel, spec_components = comps, spec_batch_size = kp_batch_size p,
            spec_members = sort_key pm_position ps\<rparr>)))"

definition CreateNodeUpdateCampaign ::
  "(campaign_spec \<Rightarrow> string) \<Rightarrow> instant \<Rightarrow> string \<Rightarrow> 'a camp_db_scheme \<Rightarrow> campaign_params
   \<Rightarrow> (camp_error + (camp_detail \<times> bool)) \<times> 'a camp_db_scheme" where
  "CreateNodeUpdateCampaign digest now fresh db p =
     (case prepare_campaign db p of
        Inl e \<Rightarrow> (Inl e, db)
      | Inr (key, by, spec) \<Rightarrow>
        (case q_GetNodeUpdateCampaignByIdempotencyKey db key of
           Some existing \<Rightarrow>
             if camp_spec_hash existing \<noteq> digest spec then (Inl CampKeyConflict, db)
             else (bind_res (GetNodeUpdateCampaign db (camp_id existing)) (\<lambda>d. Inr (d, False)), db)
         | None \<Rightarrow>
           (case q_CreateNodeUpdateCampaign db (new_camp now fresh (spec_release spec) (spec_components spec)
                    key (digest spec) (spec_batch_size spec) by) of
              None \<Rightarrow> (Inl CampConstraint, db)
            | Some db1 \<Rightarrow>
              (case insert_members now fresh (spec_members spec) db1 of
                 None \<Rightarrow> (Inl CampConstraint, db)
               | Some db2 \<Rightarrow> (bind_res (GetNodeUpdateCampaign db2 fresh) (\<lambda>d. Inr (d, True)), db2)))))"

definition GetActiveNodeUpdateCampaign :: "'a camp_db_scheme \<Rightarrow> camp_error + camp_detail option" where
  "GetActiveNodeUpdateCampaign db =
     (case q_GetActiveNodeUpdateCampaign db of
        None \<Rightarrow> Inr None
      | Some c \<Rightarrow> bind_res (GetNodeUpdateCampaign db (camp_id c)) (\<lambda>d. Inr (Some d)))"

definition AttachNodeUpdateCampaignOperation ::
  "instant \<Rightarrow> 'a camp_db_scheme \<Rightarrow> string \<Rightarrow> string \<Rightarrow> string \<Rightarrow> op_status \<Rightarrow> 'a camp_db_scheme option" where
  "AttachNodeUpdateCampaignOperation now db cid nid oid st =
     q_AttachNodeUpdateCampaignOperation now db (nullableString oid) st cid nid"

definition ReplaceNodeUpdateCampaignOperationForRetry ::
  "instant \<Rightarrow> 'a camp_db_scheme \<Rightarrow> string \<Rightarrow> string \<Rightarrow> string \<Rightarrow> op_status \<Rightarrow> 'a camp_db_scheme option" where
  "ReplaceNodeUpdateCampaignOperationForRetry now db cid nid oid st =
     q_ReplaceNodeUpdateCampaignOperationForRetry now db (nullableString oid) st cid nid"

definition terminalCampaignTime :: "instant \<Rightarrow> member_status \<Rightarrow> stamp option" where
  "terminalCampaignTime now st = (if mem_done st \<or> mem_broken st then Some (rfc3339nano now) else None)"

definition UpdateNodeUpdateCampaignMemberState ::
  "instant \<Rightarrow> 'a camp_db_scheme \<Rightarrow> string \<Rightarrow> string \<Rightarrow> member_status \<Rightarrow> string \<Rightarrow> 'a camp_db_scheme" where
  "UpdateNodeUpdateCampaignMemberState now db cid nid st msg =
     q_UpdateNodeUpdateCampaignMemberState now db st msg (terminalCampaignTime now st) cid nid"

definition UpdateNodeUpdateCampaignState ::
  "instant \<Rightarrow> 'a camp_db_scheme \<Rightarrow> string \<Rightarrow> camp_status \<Rightarrow> int \<Rightarrow> string \<Rightarrow> 'a camp_db_scheme option" where
  "UpdateNodeUpdateCampaignState now db cid st cur msg =
     q_UpdateNodeUpdateCampaignState now db st cur msg
       (if st = CampRunning then Some (rfc3339nano now) else None)
       (if st = CampSucceeded \<or> st = CampCancelled then Some (rfc3339nano now) else None) cid"

definition GetNodeUpdateCampaignIDByOperation :: "'a camp_db_scheme \<Rightarrow> string \<Rightarrow> string option" where
  "GetNodeUpdateCampaignIDByOperation db oid = q_GetNodeUpdateCampaignIDByOperation db (nullableString oid)"

end
