(* ===== verification/Campaign_Controller.thy ===== *)
theory Campaign_Controller
  imports Update_Campaigns
begin

text \<open>
  The campaign controller: \<open>internal/server/api/update_campaigns.go\<close>. \<open>reconcile\<close> and the
  admin handlers run under one mutex, so each is one step. Every store call commits on its
  own: a call that fails later in the loop leaves the earlier writes. The state is the
  database with the list of node names passed to \<open>notifier.notify\<close>. Ids of new operations
  are drawn from \<open>fresh\<close>, one per member node (a reconcile creates at most one operation
  per member).
\<close>

record controller = camp_db +
  ctl_notified :: "string list"

definition notify_node :: "string \<Rightarrow> 'a controller_scheme \<Rightarrow> 'a controller_scheme" where
  "notify_node nm s = s\<lparr>ctl_notified := ctl_notified s @ [nm]\<rparr>"

definition updateQueueTimeout :: instant where
  "updateQueueTimeout = 600 * ns_per_s"

definition campaignQueueDeadline :: "stamp \<Rightarrow> stamp" where
  "campaignQueueDeadline started = rfc3339nano (parse_stamp started + updateQueueTimeout)"

definition mem_op_id :: "camp_member \<Rightarrow> string" where
  "mem_op_id m = str_or_empty (mem_op m)"

text \<open>A payload that was stored is the canonical text of its object.\<close>

definition stored_json :: "string \<Rightarrow> raw_json" where
  "stored_json s = \<lparr>json_bytes = length s, json_doc = JsonObject s\<rparr>"

section \<open>Following the operations\<close>

text \<open>The end of the first loop's body: the operation's status becomes the member's.\<close>

definition record_status ::
  "instant \<Rightarrow> string \<Rightarrow> camp_member \<Rightarrow> op_row \<Rightarrow> 'a controller_scheme \<Rightarrow> (camp_error + unit) \<times> 'a controller_scheme" where
  "record_status now cid m op s =
     (if op_status op = OpExpired \<and> op_attempt op = 0
      then (Inr (), UpdateNodeUpdateCampaignMemberState now s cid (mem_node m) MemSkipped (op_error op))
      else
        let st = (case member_status_of (op_status op) of Some st \<Rightarrow> st | None \<Rightarrow> MemFailed) in
        if mem_status m \<noteq> st \<or> mem_error m \<noteq> op_error op
        then (Inr (), UpdateNodeUpdateCampaignMemberState now s cid (mem_node m) st (op_error op))
        else (Inr (), s))"

definition follow_operation ::
  "instant \<Rightarrow> string \<Rightarrow> camp_member \<Rightarrow> op_row \<Rightarrow> 'a controller_scheme \<Rightarrow> (camp_error + unit) \<times> 'a controller_scheme" where
  "follow_operation now cid m op s =
     (if op_status op = OpQueued \<and> now - parse_stamp (op_requested_at op) \<ge> updateQueueTimeout then
        (case CancelUnclaimedNodeOperation now s (op_id op) of
           (Inl e, s1) \<Rightarrow> (Inl (CampOperation e), s1)
         | (Inr op', s1) \<Rightarrow>
           if op_status op' = OpCancelled
           then (Inr (), UpdateNodeUpdateCampaignMemberState now s1 cid (mem_node m) MemSkipped
                           ''node did not claim the update within 10 minutes'')
           else record_status now cid m op' s1)
      else record_status now cid m op s)"

definition sync_member ::
  "instant \<Rightarrow> string \<Rightarrow> camp_member \<Rightarrow> 'a controller_scheme \<Rightarrow> (camp_error + unit) \<times> 'a controller_scheme" where
  "sync_member now cid m s =
     (if mem_done (mem_status m) then (Inr (), s) else
      case GetNode s (mem_node m) of
        None \<Rightarrow>
          let s1 = (if mem_op_id m \<noteq> '''' \<and> mem_in_flight (mem_status m)
                    then snd (RequestNodeOperationCancel now s (mem_op_id m)) else s)
          in (Inr (), UpdateNodeUpdateCampaignMemberState now s1 cid (mem_node m) MemSkipped ''node was deleted'')
      | Some n \<Rightarrow>
          if mem_op_id m = '''' then (Inr (), s) else
          (case GetNodeOperation s (mem_op_id m) of
             Inl e \<Rightarrow> (Inl (CampOperation e), s)
           | Inr op \<Rightarrow> follow_operation now cid m op s))"

fun sync_members ::
  "instant \<Rightarrow> string \<Rightarrow> camp_member list \<Rightarrow> 'a controller_scheme \<Rightarrow> (camp_error + unit) \<times> 'a controller_scheme" where
  "sync_members now cid [] s = (Inr (), s)"
| "sync_members now cid (m # ms) s = bind_st (sync_member now cid m s) (\<lambda>_. sync_members now cid ms)"

section \<open>Dispatching the current batch\<close>

definition campaign_request :: "string \<Rightarrow> stamp \<Rightarrow> camp_member \<Rightarrow> create_params" where
  "campaign_request cid updated m =
     \<lparr>cp_node = mem_node m, cp_kind = mem_kind m, cp_payload = stored_json (mem_payload m),
      cp_key = ''campaign:'' @ cid @ '':'' @ mem_node m, cp_caps = [], cp_not_before = TimeBlank,
      cp_expires = TimeAt (parse_stamp (campaignQueueDeadline updated)),
      cp_by = ''update-campaign:'' @ cid, cp_retry_of = ''''\<rparr>"

text \<open>The result is the pair of flags \<open>createdAny\<close> and \<open>waiting\<close> this member sets.\<close>

definition dispatch_member ::
  "instant \<Rightarrow> (string \<Rightarrow> string) \<Rightarrow> string \<Rightarrow> stamp \<Rightarrow> camp_member \<Rightarrow> 'a controller_scheme
   \<Rightarrow> (camp_error + bool \<times> bool) \<times> 'a controller_scheme" where
  "dispatch_member now fresh cid updated m s =
     (let skip = (\<lambda>msg. (Inr (True, False), UpdateNodeUpdateCampaignMemberState now s cid (mem_node m) MemSkipped msg)) in
      if mem_status m \<noteq> MemPending \<or> mem_op_id m \<noteq> '''' then (Inr (False, False), s) else
      if \<not> now < parse_stamp (campaignQueueDeadline updated) then skip ''update queue timed out before dispatch'' else
      case GetNode s (mem_node m) of
        None \<Rightarrow> skip ''node is deleted or disabled''
      | Some n \<Rightarrow>
        if node_status n = NodeDisabled then skip ''node is deleted or disabled'' else
        (case CreateNodeOperation now (fresh (mem_node m)) s (campaign_request cid updated m) of
           (Inl e, s1) \<Rightarrow> if e = ErrActiveNodeOperation then (Inr (False, True), s1) else (Inl (CampOperation e), s1)
         | (Inr (op, created), s1) \<Rightarrow>
           (case AttachNodeUpdateCampaignOperation now s1 cid (mem_node m) (op_id op) (op_status op) of
              None \<Rightarrow> (Inl CampConstraint, s1)
            | Some s2 \<Rightarrow> (Inr (True, False), if created then notify_node (mem_node_name m) s2 else s2))))"

fun dispatch_members ::
  "instant \<Rightarrow> (string \<Rightarrow> string) \<Rightarrow> string \<Rightarrow> stamp \<Rightarrow> camp_member list \<Rightarrow> 'a controller_scheme
   \<Rightarrow> (camp_error + bool \<times> bool) \<times> 'a controller_scheme" where
  "dispatch_members now fresh cid updated [] s = (Inr (False, False), s)"
| "dispatch_members now fresh cid updated (m # ms) s =
     bind_st (dispatch_member now fresh cid updated m s) (\<lambda>(c, w) s.
     bind_st (dispatch_members now fresh cid updated ms s) (\<lambda>(c', w') s. (Inr (c \<or> c', w \<or> w'), s)))"

section \<open>One iteration\<close>

fun dec_digits :: "nat \<Rightarrow> string" where
  "dec_digits n = (if n < 10 then [digit_char n] else dec_digits (n div 10) @ [digit_char (n mod 10)])"

declare dec_digits.simps [simp del]

definition dec_int :: "int \<Rightarrow> string" where
  "dec_int i = (if i < 0 then ''-'' @ dec_digits (nat (- i)) else dec_digits (nat i))"

definition pause_message :: "int \<Rightarrow> camp_member \<Rightarrow> string" where
  "pause_message cur m = ''batch '' @ dec_int cur @ '' paused after '' @ mem_node_name m @ '' failed: '' @ mem_error m"

definition set_campaign ::
  "instant \<Rightarrow> string \<Rightarrow> camp_status \<Rightarrow> int \<Rightarrow> string \<Rightarrow> 'a controller_scheme \<Rightarrow> (camp_error + unit) \<times> 'a controller_scheme" where
  "set_campaign now cid st cur msg s =
     (case UpdateNodeUpdateCampaignState now s cid st cur msg of
        None \<Rightarrow> (Inl CampConstraint, s) | Some s' \<Rightarrow> (Inr (), s'))"

definition read_campaign :: "string \<Rightarrow> 'a controller_scheme \<Rightarrow> (camp_error + camp_detail option) \<times> 'a controller_scheme" where
  "read_campaign cid s = (bind_res (GetNodeUpdateCampaign s cid) (\<lambda>d. Inr (Some d)), s)"

definition next_batch :: "int \<Rightarrow> camp_member list \<Rightarrow> int" where
  "next_batch cur ms =
     fold (\<lambda>m nb. if mem_status m = MemPending \<and> mem_batch m > cur \<and> (nb < 0 \<or> mem_batch m < nb)
                  then mem_batch m else nb) ms (- 1)"

text \<open>
  The end of an iteration, after the dispatch, which returned \<open>createdAny\<close> and \<open>waiting\<close>;
  \<^const>\<open>None\<close> is \<open>continue\<close>.
\<close>

definition complete_batch ::
  "instant \<Rightarrow> string \<Rightarrow> camp_detail \<Rightarrow> bool \<times> bool \<Rightarrow> 'a controller_scheme \<Rightarrow> (camp_error + camp_detail option) \<times> 'a controller_scheme" where
  "complete_batch now cid d flags s =
     (let cur = camp_current (det_camp d); ms = filter (\<lambda>m. mem_batch m = cur) (det_members d) in
      if fst flags \<or> snd flags then read_campaign cid s else
      if \<not> list_all (\<lambda>m. mem_done (mem_status m)) ms then (Inr (Some d), s) else
      let nb = next_batch cur (det_members d) in
      if nb < 0 then bind_st (set_campaign now cid CampSucceeded cur '''' s) (\<lambda>_. read_campaign cid)
      else bind_st (set_campaign now cid CampRunning nb '''' s) (\<lambda>_ s. (Inr None, s)))"

text \<open>The rest of an iteration, after the loop over the members.\<close>

definition advance ::
  "instant \<Rightarrow> (string \<Rightarrow> string) \<Rightarrow> string \<Rightarrow> 'a controller_scheme \<Rightarrow> (camp_error + camp_detail option) \<times> 'a controller_scheme" where
  "advance now fresh cid s =
     (case GetNodeUpdateCampaign s cid of
        Inl e \<Rightarrow> (Inl e, s)
      | Inr d \<Rightarrow>
        if camp_status (det_camp d) = CampQueued
        then bind_st (set_campaign now cid CampRunning 0 '''' s) (\<lambda>_ s. (Inr None, s)) else
        let cur = camp_current (det_camp d); ms = filter (\<lambda>m. mem_batch m = cur) (det_members d) in
        if ms = [] then (Inl CampEmptyBatch, s) else
        (case sel (\<lambda>m. mem_broken (mem_status m)) ms of
           Some m \<Rightarrow> bind_st (set_campaign now cid CampPaused cur (pause_message cur m) s) (\<lambda>_. read_campaign cid)
         | None \<Rightarrow> bind_st (dispatch_members now fresh cid (camp_updated_at (det_camp d)) ms s) (complete_batch now cid d)))"

definition reconcile_once ::
  "instant \<Rightarrow> (string \<Rightarrow> string) \<Rightarrow> string \<Rightarrow> 'a controller_scheme \<Rightarrow> (camp_error + camp_detail option) \<times> 'a controller_scheme" where
  "reconcile_once now fresh cid s =
     (case GetNodeUpdateCampaign s cid of
        Inl e \<Rightarrow> (Inl e, s)
      | Inr d \<Rightarrow>
        if camp_status (det_camp d) \<in> {CampPaused, CampSucceeded, CampCancelled} then (Inr (Some d), s)
        else bind_st (sync_members now cid (det_members d) s) (\<lambda>_. advance now fresh cid))"

fun reconcile_loop ::
  "nat \<Rightarrow> instant \<Rightarrow> (string \<Rightarrow> string) \<Rightarrow> string \<Rightarrow> 'a controller_scheme \<Rightarrow> (camp_error + camp_detail) \<times> 'a controller_scheme" where
  "reconcile_loop 0 now fresh cid s = (GetNodeUpdateCampaign s cid, s)"
| "reconcile_loop (Suc k) now fresh cid s =
     bind_st (reconcile_once now fresh cid s) (\<lambda>r s.
       case r of Some d \<Rightarrow> (Inr d, s) | None \<Rightarrow> reconcile_loop k now fresh cid s)"

definition reconcile ::
  "instant \<Rightarrow> (string \<Rightarrow> string) \<Rightarrow> string \<Rightarrow> 'a controller_scheme \<Rightarrow> (camp_error + camp_detail) \<times> 'a controller_scheme" where
  "reconcile now fresh cid s = reconcile_loop 4 now fresh cid s"

section \<open>Callers of reconcile\<close>

text \<open>One turn of the ticker loop of \<open>run\<close>.\<close>

definition controller_tick ::
  "instant \<Rightarrow> (string \<Rightarrow> string) \<Rightarrow> 'a controller_scheme \<Rightarrow> (camp_error + unit) \<times> 'a controller_scheme" where
  "controller_tick now fresh s =
     (case GetActiveNodeUpdateCampaign s of
        Inl e \<Rightarrow> (Inl e, s)
      | Inr None \<Rightarrow> (Inr (), s)
      | Inr (Some d) \<Rightarrow> bind_st (reconcile now fresh (camp_id (det_camp d)) s) (\<lambda>_ s. (Inr (), s)))"

definition reconcileForOperation ::
  "instant \<Rightarrow> (string \<Rightarrow> string) \<Rightarrow> string \<Rightarrow> 'a controller_scheme \<Rightarrow> 'a controller_scheme" where
  "reconcileForOperation now fresh oid s =
     (case GetNodeUpdateCampaignIDByOperation s oid of
        None \<Rightarrow> s | Some cid \<Rightarrow> snd (reconcile now fresh cid s))"

definition adminCurrentUpdateCampaign ::
  "instant \<Rightarrow> (string \<Rightarrow> string) \<Rightarrow> 'a controller_scheme \<Rightarrow> (camp_error + camp_detail option) \<times> 'a controller_scheme" where
  "adminCurrentUpdateCampaign now fresh s =
     (case GetActiveNodeUpdateCampaign s of
        Inl e \<Rightarrow> (Inl e, s)
      | Inr None \<Rightarrow> (Inr None, s)
      | Inr (Some d) \<Rightarrow> bind_st (reconcile now fresh (camp_id (det_camp d)) s) (\<lambda>d s. (Inr (Some d), s)))"

section \<open>Cancelling and resuming\<close>

fun cancel_operations :: "instant \<Rightarrow> camp_member list \<Rightarrow> 'a controller_scheme \<Rightarrow> 'a controller_scheme" where
  "cancel_operations now [] s = s"
| "cancel_operations now (m # ms) s =
     cancel_operations now ms
       (if mem_op_id m \<noteq> '''' \<and> mem_in_flight (mem_status m)
        then snd (RequestNodeOperationCancel now s (mem_op_id m)) else s)"

definition adminCancelUpdateCampaign ::
  "instant \<Rightarrow> string \<Rightarrow> 'a controller_scheme \<Rightarrow> (camp_error + camp_detail) \<times> 'a controller_scheme" where
  "adminCancelUpdateCampaign now cid s =
     (case GetNodeUpdateCampaign s cid of
        Inl e \<Rightarrow> (Inl e, s)
      | Inr d \<Rightarrow>
        let c = det_camp d in
        if camp_status c = CampSucceeded \<or> camp_status c = CampCancelled then (Inl CampTerminal, s) else
        bind_st (set_campaign now (camp_id c) CampCancelled (camp_current c) ''cancelled by admin'' s) (\<lambda>_ s.
          let s' = cancel_operations now (det_members d) s in (GetNodeUpdateCampaign s' (camp_id c), s')))"

definition retry_request :: "(string \<Rightarrow> string) \<Rightarrow> instant \<Rightarrow> string \<Rightarrow> camp_member \<Rightarrow> create_params" where
  "retry_request sha now cid m =
     \<lparr>cp_node = mem_node m, cp_kind = mem_kind m, cp_payload = stored_json (mem_payload m),
      cp_key = ''campaign-retry:'' @ sha (cid @ '':'' @ mem_node m @ '':'' @ mem_op_id m), cp_caps = [],
      cp_not_before = TimeBlank, cp_expires = TimeAt (now + updateQueueTimeout),
      cp_by = ''update-campaign:'' @ cid, cp_retry_of = mem_op_id m\<rparr>"

text \<open>The retry loop; the result is the number of members retried.\<close>

fun retry_members ::
  "(string \<Rightarrow> string) \<Rightarrow> instant \<Rightarrow> (string \<Rightarrow> string) \<Rightarrow> camp_row \<Rightarrow> camp_member list \<Rightarrow> 'a controller_scheme
   \<Rightarrow> (camp_error + nat) \<times> 'a controller_scheme" where
  "retry_members sha now fresh c [] s = (Inr 0, s)"
| "retry_members sha now fresh c (m # ms) s =
     (if mem_batch m \<noteq> camp_current c \<or> \<not> mem_broken (mem_status m) then retry_members sha now fresh c ms s else
      if mem_op_id m = '''' then (Inl CampNothingToRetry, s) else
      (case CreateNodeOperation now (fresh (mem_node m)) s (retry_request sha now (camp_id c) m) of
         (Inl e, s1) \<Rightarrow> (Inl (CampOperation e), s1)
       | (Inr (op, _), s1) \<Rightarrow>
         (case ReplaceNodeUpdateCampaignOperationForRetry now s1 (camp_id c) (mem_node m) (op_id op) (op_status op) of
            None \<Rightarrow> (Inl CampConstraint, s1)
          | Some s2 \<Rightarrow>
            bind_st (retry_members sha now fresh c ms (notify_node (mem_node_name m) s2)) (\<lambda>k s. (Inr (Suc k), s)))))"

definition adminResumeUpdateCampaign ::
  "(string \<Rightarrow> string) \<Rightarrow> instant \<Rightarrow> (string \<Rightarrow> string) \<Rightarrow> string \<Rightarrow> 'a controller_scheme
   \<Rightarrow> (camp_error + camp_detail) \<times> 'a controller_scheme" where
  "adminResumeUpdateCampaign sha now fresh cid s =
     (case GetNodeUpdateCampaign s cid of
        Inl e \<Rightarrow> (Inl e, s)
      | Inr d \<Rightarrow>
        let c = det_camp d in
        if camp_status c \<noteq> CampPaused then (Inl CampNotPaused, s) else
        bind_st (retry_members sha now fresh c (det_members d) s) (\<lambda>k s.
        if k = 0 then (Inl CampNothingFailed, s) else
        bind_st (set_campaign now (camp_id c) CampRunning (camp_current c) '''' s) (\<lambda>_ s.
          (GetNodeUpdateCampaign s (camp_id c), s))))"

section \<open>Creating a campaign\<close>

text \<open>
  What \<open>buildUpdateCampaignMembers\<close> reads: the latest status report of each node, the names
  with an active token, and the update catalogue. \<open>assets\<close> is \<open>assetsForNode\<close> (it reads the
  release files), \<open>same_version\<close> is \<open>versionsEquivalentAPI\<close>, \<open>payload_of\<close> prints the payload
  as JSON.
\<close>

record update_asset =
  as_component :: string
  as_version :: string
  as_url :: string
  as_sha256 :: string
  as_size :: int

record config_status =
  cs_node :: string
  cs_agent_version :: string
  cs_goos :: string
  cs_goarch :: string
  cs_caps :: "string list"
  cs_sing_box_version :: string
  cs_heartbeat :: time_arg

record catalog =
  cat_release :: string
  cat_assets :: "string \<Rightarrow> string \<Rightarrow> (update_asset \<times> update_asset) option"
  cat_same_version :: "string \<Rightarrow> string \<Rightarrow> bool"
  cat_payload :: "string \<Rightarrow> update_asset option \<Rightarrow> update_asset option \<Rightarrow> raw_json"

record fleet =
  fl_statuses :: "config_status list"
  fl_tokens :: "string list"

record eligible_member =
  el_node :: string
  el_kind :: string
  el_payload :: raw_json
  el_online :: bool
  el_active :: bool

definition heartbeatIsOnline :: "instant \<Rightarrow> time_arg \<Rightarrow> bool" where
  "heartbeatIsOnline now hb = (case hb of TimeAt t \<Rightarrow> now - t \<le> 180 * ns_per_s | _ \<Rightarrow> False)"

definition containsCapability :: "string list \<Rightarrow> string \<Rightarrow> bool" where
  "containsCapability caps c \<longleftrightarrow> c \<in> set caps"

text \<open>The map \<open>statusByName\<close>: a later report of the same node replaces an earlier one.\<close>

definition status_of :: "fleet \<Rightarrow> string \<Rightarrow> config_status option" where
  "status_of f nid = sel (\<lambda>st. cs_node st = nid) (rev (fl_statuses f))"

definition eligible_node :: "instant \<Rightarrow> catalog \<Rightarrow> fleet \<Rightarrow> string list \<Rightarrow> node_row \<Rightarrow> eligible_member option" where
  "eligible_node now cat f comps n =
     (case status_of f (node_id n) of
        None \<Rightarrow> None
      | Some st \<Rightarrow>
        if node_status n = NodePending \<or> node_name n \<notin> set (fl_tokens f) \<or> \<not> containsCapability (cs_caps st) ''operations.v1''
        then None else
        (case cat_assets cat (cs_goos st) (cs_goarch st) of
           None \<Rightarrow> None
         | Some (agent, sing_box) \<Rightarrow>
           let up_agent = (''agent'' \<in> set comps \<and> \<not> cat_same_version cat (cs_agent_version st) (as_version agent));
               up_box = (''sing_box'' \<in> set comps \<and> \<not> cat_same_version cat (cs_sing_box_version st) (as_version sing_box)) in
           if (\<not> up_agent \<and> \<not> up_box) \<or> (up_agent \<and> \<not> containsCapability (cs_caps st) ''update.agent.v1'')
              \<or> (up_box \<and> \<not> containsCapability (cs_caps st) ''update.sing_box.v1'')
           then None
           else Some \<lparr>el_node = node_name n,
                  el_kind = (if up_agent \<and> up_box then ''update.bundle'' else if up_box then ''update.sing_box'' else ''update.agent''),
                  el_payload = cat_payload cat (cat_release cat) (if up_agent then Some agent else None)
                                 (if up_box then Some sing_box else None),
                  el_online = heartbeatIsOnline now (cs_heartbeat st),
                  el_active = (node_status n = NodeActive)\<rparr>))"

fun first_index :: "('x \<Rightarrow> bool) \<Rightarrow> 'x list \<Rightarrow> nat option" where
  "first_index p [] = None"
| "first_index p (x # xs) = (if p x then Some 0 else map_option Suc (first_index p xs))"

definition canary_index :: "eligible_member list \<Rightarrow> nat option" where
  "canary_index es =
     (case first_index (\<lambda>e. el_online e \<and> el_active e) es of
        Some i \<Rightarrow> Some i | None \<Rightarrow> first_index el_online es)"

definition swap_front :: "nat \<Rightarrow> 'x list \<Rightarrow> 'x list" where
  "swap_front i xs = (xs[0 := xs ! i])[i := xs ! 0]"

definition batch_of :: "int \<Rightarrow> nat \<Rightarrow> int" where
  "batch_of bsize i = (if i = 0 then 0 else 1 + (int i - 1) div bsize)"

definition number_members :: "int \<Rightarrow> eligible_member list \<Rightarrow> member_params list" where
  "number_members bsize es =
     map (\<lambda>(i, e). \<lparr>mp_node = el_node e, mp_position = int i, mp_batch = batch_of bsize i,
                    mp_kind = el_kind e, mp_payload = el_payload e\<rparr>) (enumerate 0 es)"

definition buildUpdateCampaignMembers ::
  "instant \<Rightarrow> catalog \<Rightarrow> fleet \<Rightarrow> 'a node_db_scheme \<Rightarrow> string list \<Rightarrow> string list \<Rightarrow> int \<Rightarrow> camp_error + member_params list" where
  "buildUpdateCampaignMembers now cat f db requested comps bsize =
     (let req = map trim_space requested;
          chosen = filter (\<lambda>n. req = [] \<or> node_name n \<in> set req) (ListNodes db);
          eligible = List.map_filter (eligible_node now cat f comps) chosen in
      if \<not> list_all (\<lambda>nm. nm \<in> set (map el_node eligible)) req then Inl CampNotEligible else
      if eligible = [] then Inl CampNoEligible else
      let sorted_el = sort_key el_node eligible in
      (case canary_index sorted_el of
         None \<Rightarrow> Inl CampNoCanary
       | Some i \<Rightarrow> Inr (number_members bsize (swap_front i sorted_el))))"

fun check_components :: "string list \<Rightarrow> bool" where
  "check_components [] = True"
| "check_components (v # vs) = (is_component (trim_space v) \<and> check_components vs)"

definition normalizeRequestedUpdateComponents :: "string list \<Rightarrow> camp_error + string list" where
  "normalizeRequestedUpdateComponents values =
     (if values = [] then Inr [''agent'', ''sing_box'']
      else if check_components values then Inr (sort (select_components [] values))
      else Inl CampBadComponent)"

record campaign_request_body =
  rb_nodes :: "string list"
  rb_components :: "string list"
  rb_batch_size :: int
  rb_key :: string

definition adminCreateUpdateCampaign ::
  "(campaign_spec \<Rightarrow> string) \<Rightarrow> instant \<Rightarrow> string \<Rightarrow> (string \<Rightarrow> string) \<Rightarrow> catalog \<Rightarrow> fleet \<Rightarrow> string \<Rightarrow> campaign_request_body
   \<Rightarrow> 'a controller_scheme \<Rightarrow> (camp_error + (camp_detail \<times> bool)) \<times> 'a controller_scheme" where
  "adminCreateUpdateCampaign digest now cid fresh cat f header rb s =
     (let key = (if rb_key rb = '''' then trim_space header else rb_key rb);
          bsize = (if rb_batch_size rb = 0 then 2 else rb_batch_size rb) in
      if key = '''' then (Inl CampKeyMissing, s) else
      if bsize < 1 \<or> bsize > 2 then (Inl CampRequestBatchSize, s) else
      bind_st (normalizeRequestedUpdateComponents (rb_components rb), s) (\<lambda>comps s.
      bind_st (buildUpdateCampaignMembers now cat f s (rb_nodes rb) comps bsize, s) (\<lambda>ms s.
      bind_st (CreateNodeUpdateCampaign digest now cid s
                 \<lparr>kp_release = cat_release cat, kp_components = comps, kp_key = key, kp_batch_size = bsize,
                  kp_by = ''admin-api'', kp_members = ms\<rparr>) (\<lambda>(d, created) s.
      bind_st (reconcile now fresh (camp_id (det_camp d)) s) (\<lambda>d s. (Inr (d, created), s))))))"

end
