(* ===== verification/Campaign_Lifecycle.thy ===== *)
theory Campaign_Lifecycle
  imports Campaign_Controller
begin

text \<open>
  The invariant of update campaigns (the batch gate) and its preservation by every step of
  the controller; and that each step is, for the operation store, a sequence of operation
  calls, so that everything proved of operation runs holds with campaigns running.
\<close>

lemma detail_camp:
  assumes "GetNodeUpdateCampaign s cid = Inr d" and "trim_space cid = cid"
  shows "det_camp d \<in> set (db_camps s) \<and> camp_id (det_camp d) = cid
    \<and> det_members d = q_ListNodeUpdateCampaignMembers s cid"
  using assms by (auto simp: GetNodeUpdateCampaign_def q_GetNodeUpdateCampaign_def dest: sel_SomeD split: option.splits)

section \<open>What the controller may do to the state\<close>

text \<open>
  The controller changes the state through eight calls only. A property of the state that
  each of them keeps for the campaign at hand is kept by \<open>reconcile\<close> and by the handlers.
\<close>

locale controller_effects =
  fixes P :: "'a controller_scheme \<Rightarrow> bool"
    and now :: instant
    and cid :: string
  assumes create: "P s \<Longrightarrow> P (snd (CreateNodeOperation now fr s p))"
    and cancel: "P s \<Longrightarrow> P (snd (RequestNodeOperationCancel now s i))"
    and unclaimed: "P s \<Longrightarrow> P (snd (CancelUnclaimedNodeOperation now s i))"
    and member: "P s \<Longrightarrow> P (UpdateNodeUpdateCampaignMemberState now s cid nid st msg)"
    and attach: "P s \<Longrightarrow> AttachNodeUpdateCampaignOperation now s cid nid oid ost = Some s' \<Longrightarrow> P s'"
    and replace: "P s \<Longrightarrow> ReplaceNodeUpdateCampaignOperationForRetry now s cid nid oid ost = Some s' \<Longrightarrow> P s'"
    and campaign: "P s \<Longrightarrow> UpdateNodeUpdateCampaignState now s cid cst cur msg = Some s' \<Longrightarrow> P s'"
    and notify: "P s \<Longrightarrow> P (notify_node nm s)"
begin

lemma keeps_bind: "P (snd r) \<Longrightarrow> (\<And>x t. P t \<Longrightarrow> P (snd (f x t))) \<Longrightarrow> P (snd (bind_st r f))"
  by (cases "(r, f)" rule: bind_st.cases) auto

lemma sync_member_keeps:
  assumes "P s"
  shows "P (snd (sync_member now cid m s))"
proof -
  have rec: "P (snd (record_status now cid m op s))" if "P s" for op s
    using that by (simp add: record_status_def Let_def member)
  have "P (snd (follow_operation now cid m op s))" for op
    using assms unclaimed [OF assms, of "op_id op"] rec
    by (auto simp: follow_operation_def member split: prod.split sum.split)
  then show ?thesis
    using assms cancel [OF assms] by (auto simp: sync_member_def Let_def member split: option.split sum.split)
qed

lemma sync_members_keeps: "P s \<Longrightarrow> P (snd (sync_members now cid ms s))"
proof (induction ms arbitrary: s)
  case (Cons m ms)
  have m: "P (snd (sync_member now cid m s))" by (rule sync_member_keeps) fact
  then show ?case by (auto intro: keeps_bind Cons.IH)
qed simp

lemma dispatch_member_keeps:
  assumes "P s"
  shows "P (snd (dispatch_member now fresh cid u m s))"
  using assms create [OF assms, of "fresh (mem_node m)" "campaign_request cid u m"]
  by (auto simp: dispatch_member_def Let_def intro: member attach notify [OF attach] split: option.split sum.split prod.split)

lemma dispatch_members_keeps: "P s \<Longrightarrow> P (snd (dispatch_members now fresh cid u ms s))"
proof (induction ms arbitrary: s)
  case (Cons m ms)
  show ?case using Cons.prems by (auto intro!: keeps_bind Cons.IH dispatch_member_keeps)
qed simp

lemma set_campaign_keeps: "P s \<Longrightarrow> P (snd (set_campaign now cid st cur msg s))"
  by (auto simp: set_campaign_def intro: campaign split: option.split)

lemma advance_keeps: "P s \<Longrightarrow> P (snd (advance now fresh cid s))"
  by (auto simp: advance_def complete_batch_def Let_def read_campaign_def split: sum.split option.split
      intro!: keeps_bind set_campaign_keeps dispatch_members_keeps)

lemma reconcile_once_keeps:
  assumes "P s"
  shows "P (snd (reconcile_once now fresh cid s))"
  using assms sync_members_keeps [OF assms]
  by (auto simp: reconcile_once_def intro!: keeps_bind advance_keeps split: sum.split)

lemma reconcile_loop_keeps: "P s \<Longrightarrow> P (snd (reconcile_loop k now fresh cid s))"
proof (induction k arbitrary: s)
  case (Suc k)
  have "P (snd (reconcile_once now fresh cid s))" by (rule reconcile_once_keeps) fact
  then show ?case by (auto intro!: keeps_bind Suc.IH split: option.split)
qed simp

lemma reconcile_keeps: "P s \<Longrightarrow> P (snd (reconcile now fresh cid s))"
  unfolding reconcile_def by (rule reconcile_loop_keeps)

lemma cancel_operations_keeps: "P s \<Longrightarrow> P (cancel_operations now ms s)"
  by (induction ms arbitrary: s) (auto intro: cancel)

lemma adminCancel_keeps: "P s \<Longrightarrow> trim_space cid = cid \<Longrightarrow> P (snd (adminCancelUpdateCampaign now cid s))"
  using set_campaign_keeps [of s] detail_camp [of s cid]
  by (auto simp: adminCancelUpdateCampaign_def Let_def intro!: keeps_bind cancel_operations_keeps split: sum.split)

lemma retry_members_keeps: "P s \<Longrightarrow> camp_id c = cid \<Longrightarrow> P (snd (retry_members sha now fresh c ms s))"
proof (induction ms arbitrary: s)
  case (Cons m ms)
  have "P (snd (CreateNodeOperation now (fresh (mem_node m)) s (retry_request sha now (camp_id c) m)))"
    by (rule create) fact
  then show ?case
    using Cons.prems by (auto intro!: keeps_bind Cons.IH intro: notify [OF replace] split: prod.split sum.split option.split)
qed simp

lemma adminResume_keeps:
  assumes "P s" and "trim_space cid = cid"
  shows "P (snd (adminResumeUpdateCampaign sha now fresh cid s))"
proof (cases "GetNodeUpdateCampaign s cid")
  case (Inr d)
  then have id: "camp_id (det_camp d) = cid" using detail_camp assms(2) by blast
  show ?thesis
    using assms(1) by (auto simp: adminResumeUpdateCampaign_def Let_def Inr id
        intro!: keeps_bind set_campaign_keeps retry_members_keeps)
qed (use assms in \<open>simp add: adminResumeUpdateCampaign_def\<close>)


end

section \<open>The controller as a client of the operation store\<close>

definition op_calls :: "(string \<Rightarrow> string) \<Rightarrow> instant \<Rightarrow> 'a op_db_scheme \<Rightarrow> 'a op_db_scheme \<Rightarrow> bool" where
  "op_calls sha now s s' \<longleftrightarrow> run (op_step sha) (now, s) (now, s')"

lemma op_calls_refl [simp]: "op_calls sha now s s"
  by (simp add: op_calls_def run.run_refl)

lemma op_calls_step: "op_step sha (now, s) (now, s') \<Longrightarrow> op_calls sha now r s \<Longrightarrow> op_calls sha now r s'"
  unfolding op_calls_def by (rule run.run_step)

lemma op_calls_rest:
  "db_ops s' = db_ops s \<Longrightarrow> db_events s' = db_events s \<Longrightarrow> op_calls sha now r s \<Longrightarrow> op_calls sha now r s'"
  by (rule op_calls_step [OF op_step.step_rest]) simp_all

lemmas member_writes = UpdateNodeUpdateCampaignMemberState_def q_UpdateNodeUpdateCampaignMemberState_def
  AttachNodeUpdateCampaignOperation_def q_AttachNodeUpdateCampaignOperation_def
  ReplaceNodeUpdateCampaignOperationForRetry_def q_ReplaceNodeUpdateCampaignOperationForRetry_def

lemmas campaign_writes = UpdateNodeUpdateCampaignState_def q_UpdateNodeUpdateCampaignState_def

interpretation op_client: controller_effects "op_calls sha now r" now cid for sha now r cid
proof
  fix s s' :: "'a controller_scheme" and nid oid msg nm fr p i and st ost cst and cur :: int
  assume s: "op_calls sha now r s"
  show "op_calls sha now r (snd (CreateNodeOperation now fr s p))"
    "op_calls sha now r (snd (RequestNodeOperationCancel now s i))"
    "op_calls sha now r (snd (CancelUnclaimedNodeOperation now s i))"
    using s by (auto intro: op_calls_step op_step.intros)
  show "op_calls sha now r (UpdateNodeUpdateCampaignMemberState now s cid nid st msg)"
    by (rule op_calls_rest [OF _ _ s]) (simp_all add: member_writes)
  show "op_calls sha now r s'" if "AttachNodeUpdateCampaignOperation now s cid nid oid ost = Some s'"
    using that by (intro op_calls_rest [OF _ _ s]) (auto simp: member_writes Let_def split: option.splits if_splits)
  show "op_calls sha now r s'" if "ReplaceNodeUpdateCampaignOperationForRetry now s cid nid oid ost = Some s'"
    using that by (intro op_calls_rest [OF _ _ s]) (auto simp: member_writes Let_def split: option.splits if_splits)
  show "op_calls sha now r s'" if "UpdateNodeUpdateCampaignState now s cid cst cur msg = Some s'"
    using that by (intro op_calls_rest [OF _ _ s]) (auto simp: campaign_writes split: if_splits)
  show "op_calls sha now r (notify_node nm s)"
    by (rule op_calls_rest [OF _ _ s]) (simp_all add: notify_node_def)
qed

section \<open>What never changes\<close>

text \<open>
  The nodes, the identity of every campaign and the plan of every campaign (who is in which
  batch) are fixed while the controller works.
\<close>

definition mem_plan :: "'b member_row_scheme \<Rightarrow> string \<times> string \<times> int \<times> int" where
  "mem_plan m = (mem_camp m, mem_node m, mem_position m, mem_batch m)"

definition camp_ident :: "camp_row \<Rightarrow> string \<times> string \<times> string" where
  "camp_ident c = (camp_id c, camp_key c, camp_spec_hash c)"

definition same_plan :: "'a camp_db_scheme \<Rightarrow> 'a camp_db_scheme \<Rightarrow> bool" where
  "same_plan r s \<longleftrightarrow> db_nodes s = db_nodes r \<and> map mem_plan (db_members s) = map mem_plan (db_members r)
     \<and> map camp_ident (db_camps s) = map camp_ident (db_camps r)"

text \<open>The operation methods do not touch the nodes and the campaign tables.\<close>

lemma op_methods_frame:
  fixes s :: "'a camp_db_scheme"
  shows "db_nodes (snd (CreateNodeOperation now fr s p)) = db_nodes s \<and> db_camps (snd (CreateNodeOperation now fr s p)) = db_camps s
      \<and> db_members (snd (CreateNodeOperation now fr s p)) = db_members s"
    and "db_nodes (snd (RequestNodeOperationCancel now s i)) = db_nodes s \<and> db_camps (snd (RequestNodeOperationCancel now s i)) = db_camps s
      \<and> db_members (snd (RequestNodeOperationCancel now s i)) = db_members s"
    and "db_nodes (snd (CancelUnclaimedNodeOperation now s i)) = db_nodes s \<and> db_camps (snd (CancelUnclaimedNodeOperation now s i)) = db_camps s
      \<and> db_members (snd (CancelUnclaimedNodeOperation now s i)) = db_members s"
proof -
  have "db_nodes s' = db_nodes s \<and> db_camps s' = db_camps s \<and> db_members s' = db_members s"
    if "create_tx now fr s nid q = Inr (r, c, s')" for nid q r c s'
    using that by (auto simp: create_tx_def bind_res_Inr_iff q_CreateNodeOperation_def split: option.splits if_splits)
  then show "db_nodes (snd (CreateNodeOperation now fr s p)) = db_nodes s \<and> db_camps (snd (CreateNodeOperation now fr s p)) = db_camps s
      \<and> db_members (snd (CreateNodeOperation now fr s p)) = db_members s"
    by (auto simp: CreateNodeOperation_def split: option.split sum.split)
qed (auto simp: RequestNodeOperationCancel_def q_RequestNodeOperationCancel_def upd_returning_def
    CancelUnclaimedNodeOperation_def q_CancelUnclaimedNodeOperation_def Let_def split: option.split)

lemma same_plan_refl [simp]: "same_plan r r"
  by (simp add: same_plan_def)

text \<open>The campaign row after \<open>UpdateNodeUpdateCampaignState\<close>.\<close>

definition camp_set :: "instant \<Rightarrow> camp_status \<Rightarrow> int \<Rightarrow> string \<Rightarrow> camp_row \<Rightarrow> camp_row" where
  "camp_set now st cur msg c = c\<lparr>camp_status := st, camp_current := cur, camp_error := msg,
     camp_started_at := (if st = CampRunning then Some (rfc3339nano now) else camp_started_at c),
     camp_finished_at := (if st = CampSucceeded \<or> st = CampCancelled then Some (rfc3339nano now) else camp_finished_at c),
     camp_updated_at := sql_now now\<rparr>"

lemma camp_set_fields [simp]:
  "camp_id (camp_set now st cur msg c) = camp_id c" "camp_key (camp_set now st cur msg c) = camp_key c"
  "camp_status (camp_set now st cur msg c) = st" "camp_current (camp_set now st cur msg c) = cur"
  "camp_ident (camp_set now st cur msg c) = camp_ident c"
  by (simp_all add: camp_set_def camp_ident_def)

lemma campaign_write:
  assumes "UpdateNodeUpdateCampaignState now s cid st cur msg = Some s'"
  shows "s' = s\<lparr>db_camps := upd (\<lambda>c. camp_id c = cid) (camp_set now st cur msg) (db_camps s)\<rparr>"
    and "camp_active st \<Longrightarrow> \<exists>c \<in> set (db_camps s). camp_id c = cid \<Longrightarrow>
      \<forall>c \<in> set (db_camps s). camp_id c \<noteq> cid \<longrightarrow> \<not> camp_active (camp_status c)"
proof -
  show "s' = s\<lparr>db_camps := upd (\<lambda>c. camp_id c = cid) (camp_set now st cur msg) (db_camps s)\<rparr>"
    using assms by (simp add: campaign_writes camp_set_def [abs_def] split: if_splits)
qed (use assms in \<open>auto simp: campaign_writes split: if_splits\<close>)

lemma map_plan_upd: "(\<And>m. mem_plan (f m) = mem_plan m) \<Longrightarrow> map mem_plan (upd p f t) = map mem_plan t"
  by (rule map_key_upd)

interpretation plan: controller_effects "same_plan r" now cid for r now cid
proof
  fix s s' :: "'a controller_scheme" and nid oid msg nm fr p i and st ost cst and cur :: int
  assume s: "same_plan r s"
  show "same_plan r (snd (CreateNodeOperation now fr s p))" "same_plan r (snd (RequestNodeOperationCancel now s i))"
    "same_plan r (snd (CancelUnclaimedNodeOperation now s i))"
    using s by (simp_all add: same_plan_def op_methods_frame)
  show "same_plan r (UpdateNodeUpdateCampaignMemberState now s cid nid st msg)"
    using s by (simp add: same_plan_def member_writes map_plan_upd mem_plan_def)
  show "same_plan r s'" if "AttachNodeUpdateCampaignOperation now s cid nid oid ost = Some s'"
    using s that by (auto simp: same_plan_def member_writes map_plan_upd mem_plan_def Let_def split: option.splits if_splits)
  show "same_plan r s'" if "ReplaceNodeUpdateCampaignOperationForRetry now s cid nid oid ost = Some s'"
    using s that by (auto simp: same_plan_def member_writes map_plan_upd mem_plan_def Let_def split: option.splits if_splits)
  show "same_plan r s'" if "UpdateNodeUpdateCampaignState now s cid cst cur msg = Some s'"
    using s by (simp add: same_plan_def campaign_write(1) [OF that] map_key_upd)
  show "same_plan r (notify_node nm s)" using s by (simp add: same_plan_def notify_node_def)
qed

end
