(* ===== verification/Campaign_Gate.thy ===== *)
theory Campaign_Gate
  imports Campaign_Lifecycle
begin

text \<open>
  The batch gate: in every reachable state of the server, members before the current batch
  of a campaign are finished, members after it have not been touched, and a campaign that
  succeeded has no unfinished member.
\<close>

section \<open>The invariant\<close>

definition member_ok :: "camp_row \<Rightarrow> 'b member_row_scheme \<Rightarrow> bool" where
  "member_ok c m \<longleftrightarrow> 0 \<le> mem_batch m
     \<and> (mem_batch m < camp_current c \<longrightarrow> mem_done (mem_status m))
     \<and> (camp_current c < mem_batch m \<longrightarrow> mem_op m = None \<and> (mem_status m = MemPending \<or> mem_status m = MemSkipped))
     \<and> (mem_status m = MemPending \<longrightarrow> mem_op m = None)
     \<and> (camp_status c = CampSucceeded \<longrightarrow> mem_done (mem_status m))"

definition camp_ok :: "camp_row \<Rightarrow> bool" where
  "camp_ok c \<longleftrightarrow> - 1 \<le> camp_current c \<and> (camp_status c = CampQueued \<longrightarrow> camp_current c = - 1)"

definition plan_inv :: "'a camp_db_scheme \<Rightarrow> bool" where
  "plan_inv s \<longleftrightarrow> distinct (map node_id (db_nodes s)) \<and> distinct (map camp_id (db_camps s))
     \<and> distinct (map camp_key (db_camps s))
     \<and> distinct (map (\<lambda>m. (mem_camp m, mem_node m)) (db_members s))
     \<and> (\<forall>m \<in> set (db_members s). mem_camp m \<in> camp_id ` set (db_camps s) \<and> mem_node m \<in> node_id ` set (db_nodes s))"

definition gate_inv :: "'a camp_db_scheme \<Rightarrow> bool" where
  "gate_inv s \<longleftrightarrow>
     (\<forall>c \<in> set (db_camps s). \<forall>d \<in> set (db_camps s). camp_active (camp_status c) \<and> camp_active (camp_status d) \<longrightarrow> c = d)
     \<and> (\<forall>c \<in> set (db_camps s). camp_ok c)
     \<and> (\<forall>c \<in> set (db_camps s). \<forall>m \<in> set (db_members s). mem_camp m = camp_id c \<longrightarrow> member_ok c m)"

lemma plan_inv_same:
  assumes "plan_inv r" and "same_plan r s"
  shows "plan_inv s"
proof -
  have c: "map camp_id (db_camps x) = map fst (map camp_ident (db_camps x))"
    "map camp_key (db_camps x) = map (\<lambda>(_, k, _). k) (map camp_ident (db_camps x))" for x :: "'a camp_db_scheme"
    by (simp_all add: camp_ident_def)
  have m: "map (\<lambda>m. (mem_camp m, mem_node m)) (db_members x) = map (\<lambda>(a, b, _). (a, b)) (map mem_plan (db_members x))"
    for x :: "'a camp_db_scheme"
    by (simp add: mem_plan_def)
  have refs: "(\<forall>m \<in> set (db_members x). mem_camp m \<in> A \<and> mem_node m \<in> B)
      \<longleftrightarrow> (\<forall>p \<in> set (map (\<lambda>m. (mem_camp m, mem_node m)) (db_members x)). fst p \<in> A \<and> snd p \<in> B)" for A B and x :: "'a camp_db_scheme"
    by simp
  have "camp_id ` set (db_camps s) = camp_id ` set (db_camps r)"
    using assms(2) by (metis c(1) list.set_map same_plan_def)
  then show ?thesis
    using assms unfolding plan_inv_def refs m c by (simp add: same_plan_def)
qed

section \<open>Members of a detail\<close>

lemma extend_fields [simp]:
  "mem_camp (member_row.extend m e) = mem_camp m" "mem_node (member_row.extend m e) = mem_node m"
  "mem_batch (member_row.extend m e) = mem_batch m" "mem_op (member_row.extend m e) = mem_op m"
  "mem_status (member_row.extend m e) = mem_status m" "mem_position (member_row.extend m e) = mem_position m"
  by (simp_all add: member_row.defs)

lemma member_ok_extend [simp]: "member_ok c (member_row.extend m e) = member_ok c m"
  by (simp add: member_ok_def)

lemma detail_member:
  assumes "x \<in> set (q_ListNodeUpdateCampaignMembers s i)"
  obtains m and n :: node_row where "m \<in> set (db_members s)" "mem_camp m = i" "x = member_row.extend m \<lparr>mem_node_name = node_name n\<rparr>"
  using assms by (auto simp: q_ListNodeUpdateCampaignMembers_def join_name_def)

lemma detail_complete:
  assumes "plan_inv s" and "m \<in> set (db_members s)" and "mem_camp m = i"
  shows "\<exists>n :: node_row. member_row.extend m \<lparr>mem_node_name = node_name n\<rparr> \<in> set (q_ListNodeUpdateCampaignMembers s i)"
proof -
  obtain n where "n \<in> set (db_nodes s)" "node_id n = mem_node m"
    using assms by (auto simp: plan_inv_def)
  then show ?thesis
    using assms(2,3) by (intro exI [of _ n]) (auto simp: q_ListNodeUpdateCampaignMembers_def join_name_def)
qed

lemma same_camp: "plan_inv s \<Longrightarrow> c \<in> set (db_camps s) \<Longrightarrow> d \<in> set (db_camps s) \<Longrightarrow> camp_id c = camp_id d \<Longrightarrow> c = d"
  using distinct_key_eq [of camp_id "db_camps s" c d] by (simp add: plan_inv_def)

lemma same_member:
  "plan_inv s \<Longrightarrow> m \<in> set (db_members s) \<Longrightarrow> r \<in> set (db_members s) \<Longrightarrow> mem_camp m = mem_camp r \<Longrightarrow> mem_node m = mem_node r \<Longrightarrow> m = r"
  using distinct_key_eq [of "\<lambda>m. (mem_camp m, mem_node m)" "db_members s" m r] by (simp add: plan_inv_def)

section \<open>Writes that respect the gate\<close>

lemma gate_upd_members:
  assumes "gate_inv s" and "\<And>m. mem_camp (f m) = mem_camp m"
    and "\<And>c m. c \<in> set (db_camps s) \<Longrightarrow> m \<in> set (db_members s) \<Longrightarrow> mem_camp m = camp_id c \<Longrightarrow> p m \<Longrightarrow> member_ok c m \<Longrightarrow> member_ok c (f m)"
  shows "gate_inv (s\<lparr>db_members := upd p f (db_members s)\<rparr>)"
  using assms by (auto simp: gate_inv_def set_upd)

text \<open>\<open>at_current s cid nid\<close>: the member of this node is in the current batch of an unfinished campaign.\<close>

definition at_current :: "'a camp_db_scheme \<Rightarrow> string \<Rightarrow> string \<Rightarrow> bool" where
  "at_current s cid nid \<longleftrightarrow> (\<forall>c \<in> set (db_camps s). camp_id c = cid \<longrightarrow> camp_status c \<noteq> CampSucceeded
     \<and> (\<forall>r \<in> set (db_members s). mem_camp r = cid \<and> mem_node r = nid \<longrightarrow> mem_batch r = camp_current c))"

lemma same_plan_member:
  assumes "same_plan r s" and "m \<in> set (db_members s)"
  shows "\<exists>m' \<in> set (db_members r). mem_plan m' = mem_plan m"
proof -
  have "mem_plan m \<in> set (map mem_plan (db_members s))" using assms(2) by simp
  then have "mem_plan m \<in> set (map mem_plan (db_members r))" using assms(1) by (simp only: same_plan_def)
  then show ?thesis by auto
qed

lemma at_current_same:
  assumes "at_current r cid nid" and "same_plan r s" and "db_camps s = db_camps r"
  shows "at_current s cid nid"
  unfolding at_current_def
proof (intro ballI impI conjI)
  fix c
  assume c: "c \<in> set (db_camps s)" "camp_id c = cid"
  then show "camp_status c \<noteq> CampSucceeded" using assms by (auto simp: at_current_def)
  fix m
  assume m: "m \<in> set (db_members s)" "mem_camp m = cid \<and> mem_node m = nid"
  obtain m' where "m' \<in> set (db_members r)" "mem_plan m' = mem_plan m"
    using same_plan_member [OF assms(2) m(1)] by blast
  then show "mem_batch m = camp_current c"
    using assms c m(2) by (auto simp: at_current_def mem_plan_def)
qed

lemma gate_skip: "gate_inv s \<Longrightarrow> gate_inv (UpdateNodeUpdateCampaignMemberState now s cid nid MemSkipped msg)"
  unfolding member_writes by (rule gate_upd_members) (auto simp: member_ok_def)

lemma gate_status:
  assumes "gate_inv s" and "at_current s cid nid" and "st \<noteq> MemPending"
  shows "gate_inv (UpdateNodeUpdateCampaignMemberState now s cid nid st msg)"
  unfolding member_writes
proof (rule gate_upd_members [OF assms(1)])
  fix c and m :: member_row
  assume "c \<in> set (db_camps s)" "m \<in> set (db_members s)" "mem_camp m = camp_id c" "mem_camp m = cid \<and> mem_node m = nid" "member_ok c m"
  moreover from this have "mem_batch m = camp_current c" "camp_status c \<noteq> CampSucceeded"
    using assms(2) by (auto simp: at_current_def)
  ultimately show "member_ok c (m\<lparr>mem_status := st, mem_error := msg,
      mem_finished_at := case terminalCampaignTime now st of None \<Rightarrow> mem_finished_at m | Some f \<Rightarrow> Some f, mem_updated_at := sql_now now\<rparr>)"
    using assms(3) by (simp add: member_ok_def)
qed simp

lemma member_status_of_not_pending: "member_status_of st = Some ms \<Longrightarrow> ms \<noteq> MemPending"
  by (cases st) auto

lemma gate_operation:
  assumes "gate_inv s" and "at_current s cid nid"
  shows "AttachNodeUpdateCampaignOperation now s cid nid oid ost = Some s' \<Longrightarrow> gate_inv s'"
    and "ReplaceNodeUpdateCampaignOperationForRetry now s cid nid oid ost = Some s' \<Longrightarrow> gate_inv s'"
  using assms unfolding member_writes
  by (auto simp: Let_def split: option.splits if_splits intro!: gate_upd_members)
     (auto simp: member_ok_def at_current_def dest: member_status_of_not_pending)

lemma gate_frame:
  assumes "gate_inv s" and "db_camps t = db_camps s" and "db_members t = db_members s"
  shows "gate_inv t"
  using assms by (simp add: gate_inv_def)

section \<open>The loop over the members\<close>

lemmas write_frame = member_writes notify_node_def

lemma record_status_gate:
  assumes "gate_inv s" and "at_current s cid (mem_node m)"
  shows "gate_inv (snd (record_status now cid m op s)) \<and> db_camps (snd (record_status now cid m op s)) = db_camps s"
proof -
  have "(case member_status_of (op_status op) of None \<Rightarrow> MemFailed | Some st \<Rightarrow> st) \<noteq> MemPending"
    by (auto dest: member_status_of_not_pending split: option.split)
  then show ?thesis
    using assms gate_skip gate_status by (auto simp: record_status_def Let_def) (simp_all add: member_writes)
qed

lemma follow_operation_gate:
  assumes "gate_inv s" and "at_current s cid (mem_node m)"
  shows "gate_inv (snd (follow_operation now cid m op s)) \<and> db_camps (snd (follow_operation now cid m op s)) = db_camps s"
proof -
  let ?s1 = "snd (CancelUnclaimedNodeOperation now s (op_id op))"
  have f: "db_camps ?s1 = db_camps s" "db_members ?s1 = db_members s" by (simp_all add: op_methods_frame)
  then have g: "gate_inv ?s1" "at_current ?s1 cid (mem_node m)"
    using assms gate_frame by (auto simp: at_current_def)
  show ?thesis
    using record_status_gate [OF assms, of now op] record_status_gate [OF g, of now] f gate_skip [OF g(1)]
      gate_frame [OF assms(1) f]
    by (auto simp: follow_operation_def split: prod.split sum.split) (simp_all add: member_writes)
qed

lemma sync_member_gate:
  assumes "gate_inv s" and "mem_op_id m \<noteq> '''' \<and> \<not> mem_done (mem_status m) \<longrightarrow> at_current s cid (mem_node m)"
  shows "gate_inv (snd (sync_member now cid m s)) \<and> db_camps (snd (sync_member now cid m s)) = db_camps s"
proof -
  let ?s1 = "snd (RequestNodeOperationCancel now s (mem_op_id m))"
  have f: "db_camps ?s1 = db_camps s" "db_members ?s1 = db_members s" by (simp_all add: op_methods_frame)
  then have g: "gate_inv ?s1" using assms(1) gate_frame by blast
  show ?thesis
    using assms g f gate_skip [OF g] gate_skip [OF assms(1)] follow_operation_gate [OF assms(1), of cid m now]
    by (auto simp: sync_member_def Let_def split: option.split sum.split) (simp_all add: member_writes)
qed

lemma sync_members_gate:
  assumes "gate_inv s" and "\<forall>m \<in> set ms. mem_op_id m \<noteq> '''' \<and> \<not> mem_done (mem_status m) \<longrightarrow> at_current s cid (mem_node m)"
  shows "gate_inv (snd (sync_members now cid ms s)) \<and> db_camps (snd (sync_members now cid ms s)) = db_camps s"
  using assms
proof (induction ms arbitrary: s)
  case (Cons m ms)
  let ?r = "sync_member now cid m s"
  have g: "gate_inv (snd ?r)" "db_camps (snd ?r) = db_camps s"
    using sync_member_gate [of s m cid now] Cons.prems by auto
  have sp: "same_plan s (snd ?r)" by (rule plan.sync_member_keeps) simp
  have "\<forall>m \<in> set ms. mem_op_id m \<noteq> '''' \<and> \<not> mem_done (mem_status m) \<longrightarrow> at_current (snd ?r) cid (mem_node m)"
    using Cons.prems(2) at_current_same [OF _ sp g(2)] by simp
  then have "gate_inv (snd (sync_members now cid ms (snd ?r))) \<and> db_camps (snd (sync_members now cid ms (snd ?r))) = db_camps s"
    using Cons.IH [OF g(1)] g(2) by simp
  then show ?case using g by (cases ?r; cases "fst ?r") auto
qed simp

section \<open>Dispatch\<close>

lemma dispatch_member_gate:
  assumes "gate_inv s" and "at_current s cid (mem_node m)"
  shows "gate_inv (snd (dispatch_member now fresh cid u m s)) \<and> db_camps (snd (dispatch_member now fresh cid u m s)) = db_camps s"
proof -
  let ?s1 = "snd (CreateNodeOperation now (fresh (mem_node m)) s (campaign_request cid u m))"
  have f: "db_camps ?s1 = db_camps s" "db_members ?s1 = db_members s" by (simp_all add: op_methods_frame)
  then have g: "gate_inv ?s1" "at_current ?s1 cid (mem_node m)"
    using assms gate_frame by (auto simp: at_current_def)
  have att: "gate_inv s2 \<and> gate_inv (notify_node nm s2) \<and> db_camps s2 = db_camps s"
    if "AttachNodeUpdateCampaignOperation now ?s1 cid (mem_node m) oid st = Some s2" for oid st s2 nm
    using gate_operation(1) [OF g that] that f
    by (auto simp: member_writes notify_node_def Let_def gate_inv_def split: option.splits if_splits)
  show ?thesis
    using assms g(1) f att gate_skip [OF assms(1)]
    by (auto simp: dispatch_member_def Let_def split: option.split sum.split prod.split)
       (simp_all add: write_frame)
qed

lemma dispatch_members_gate:
  assumes "gate_inv s" and "\<forall>m \<in> set ms. at_current s cid (mem_node m)"
  shows "gate_inv (snd (dispatch_members now fresh cid u ms s)) \<and> db_camps (snd (dispatch_members now fresh cid u ms s)) = db_camps s"
  using assms
proof (induction ms arbitrary: s)
  case (Cons m ms)
  let ?r = "dispatch_member now fresh cid u m s"
  have g: "gate_inv (snd ?r)" "db_camps (snd ?r) = db_camps s"
    using dispatch_member_gate [of s cid m now] Cons.prems by auto
  have sp: "same_plan s (snd ?r)" by (rule plan.dispatch_member_keeps) simp
  have "\<forall>m \<in> set ms. at_current (snd ?r) cid (mem_node m)"
    using Cons.prems(2) at_current_same [OF _ sp g(2)] by simp
  then have t: "gate_inv (snd (dispatch_members now fresh cid u ms (snd ?r)))
      \<and> db_camps (snd (dispatch_members now fresh cid u ms (snd ?r))) = db_camps s"
    using Cons.IH [OF g(1)] g(2) by simp
  obtain res s1 where r: "?r = (res, s1)" by fastforce
  obtain res2 s2 where r2: "dispatch_members now fresh cid u ms s1 = (res2, s2)" by fastforce
  show ?case using g t by (cases res; cases res2) (auto simp: r r2)
qed simp

text \<open>A dispatch that set neither flag changed nothing and left no pending member.\<close>

lemma dispatch_idle:
  "dispatch_members now fresh cid u ms s = (Inr (False, False), s') \<Longrightarrow>
   s' = s \<and> (\<forall>m \<in> set ms. mem_status m \<noteq> MemPending \<or> mem_op_id m \<noteq> '''')"
proof (induction ms arbitrary: s)
  case (Cons m ms)
  obtain s1 where m: "dispatch_member now fresh cid u m s = (Inr (False, False), s1)"
    and ms: "dispatch_members now fresh cid u ms s1 = (Inr (False, False), s')"
    using Cons.prems by (auto simp: bind_st_Inr_iff)
  have "s1 = s \<and> (mem_status m \<noteq> MemPending \<or> mem_op_id m \<noteq> '''')"
    using m by (auto simp: dispatch_member_def Let_def split: option.splits sum.splits prod.splits if_splits)
  then show ?case using Cons.IH [OF ms] by auto
qed simp

section \<open>Moving the gate\<close>

lemma gate_set_campaign:
  assumes "gate_inv s" and "plan_inv s" and "c \<in> set (db_camps s)" and "camp_id c = cid"
    and "UpdateNodeUpdateCampaignState now s cid st cur msg = Some s'"
    and "- 1 \<le> cur \<and> st \<noteq> CampQueued"
    and "\<And>m. m \<in> set (db_members s) \<Longrightarrow> mem_camp m = cid \<Longrightarrow> member_ok (camp_set now st cur msg c) m"
  shows "gate_inv s'"
proof -
  have s': "s' = s\<lparr>db_camps := upd (\<lambda>c. camp_id c = cid) (camp_set now st cur msg) (db_camps s)\<rparr>"
    by (rule campaign_write(1) [OF assms(5)])
  have only: "x = c" if "x \<in> set (db_camps s)" "camp_id x = cid" for x
    using same_camp [OF assms(2) that(1) assms(3)] that(2) assms(4) by simp
  have others: "\<not> camp_active (camp_status x)" if "camp_active st" "x \<in> set (db_camps s)" "camp_id x \<noteq> cid" for x
    using campaign_write(2) [OF assms(5) that(1)] assms(3,4) that(2,3) by blast
  have one: "x = y" if xy: "x \<in> set (db_camps s')" "y \<in> set (db_camps s')" "camp_active (camp_status x)" "camp_active (camp_status y)" for x y
  proof -
    let ?f = "\<lambda>c. if camp_id c = cid then camp_set now st cur msg c else c"
    obtain x0 y0 where x0: "x0 \<in> set (db_camps s)" "x = ?f x0" and y0: "y0 \<in> set (db_camps s)" "y = ?f y0"
      using xy(1,2) by (auto simp: s' set_upd)
    show ?thesis
    proof (cases "camp_id x0 = cid \<or> camp_id y0 = cid")
      case True
      then have "camp_active st" using x0(2) y0(2) xy(3,4) by auto
      then have "camp_id x0 = cid" "camp_id y0 = cid" using others x0 y0 xy(3,4) by (auto split: if_splits)
      then show ?thesis using only x0 y0 by auto
    next
      case False
      then show ?thesis using assms(1) x0 y0 xy(3,4) by (auto simp: gate_inv_def)
    qed
  qed
  have ok: "\<forall>x \<in> set (db_camps s'). camp_ok x"
    using assms(1,6) by (auto simp: s' set_upd gate_inv_def camp_ok_def)
  have mem: "\<forall>x \<in> set (db_camps s'). \<forall>m \<in> set (db_members s'). mem_camp m = camp_id x \<longrightarrow> member_ok x m"
    using assms(1,7) only by (auto simp: s' set_upd gate_inv_def)
  show ?thesis unfolding gate_inv_def using one ok mem by simp
qed

lemma next_batch_fold:
  assumes "- 1 \<le> cur" and "acc = - 1 \<or> cur < acc"
  shows "let r = fold (\<lambda>m nb. if mem_status m = MemPending \<and> mem_batch m > cur \<and> (nb < 0 \<or> mem_batch m < nb)
                               then mem_batch m else nb) ms acc
    in (r = - 1 \<or> cur < r) \<and> (r = - 1 \<longrightarrow> acc = - 1) \<and> (acc \<noteq> - 1 \<longrightarrow> r \<le> acc)
       \<and> (\<forall>m \<in> set ms. mem_status m = MemPending \<and> cur < mem_batch m \<longrightarrow> r \<noteq> - 1 \<and> r \<le> mem_batch m)"
  using assms(2)
proof (induction ms arbitrary: acc)
  case (Cons m ms)
  let ?acc = "if mem_status m = MemPending \<and> mem_batch m > cur \<and> (acc < 0 \<or> mem_batch m < acc) then mem_batch m else acc"
  have "?acc = - 1 \<or> cur < ?acc" using Cons.prems by auto
  from Cons.IH [OF this] show ?case
    using assms(1) Cons.prems by (auto simp: Let_def split: if_splits)
qed simp

lemma next_batch_spec:
  assumes "- 1 \<le> cur"
  shows "next_batch cur ms < 0 \<Longrightarrow> m \<in> set ms \<Longrightarrow> cur < mem_batch m \<Longrightarrow> mem_status m \<noteq> MemPending"
    and "0 \<le> next_batch cur ms \<Longrightarrow> cur < next_batch cur ms"
    and "m \<in> set ms \<Longrightarrow> cur < mem_batch m \<Longrightarrow> mem_batch m < next_batch cur ms \<Longrightarrow> mem_status m \<noteq> MemPending"
  using next_batch_fold [OF assms, of "- 1" ms] assms by (fastforce simp: next_batch_def Let_def)+

lemma detail_at_current:
  assumes "plan_inv s" and "c \<in> set (db_camps s)" and "camp_id c = cid" and "camp_status c \<noteq> CampSucceeded"
    and "x \<in> set (q_ListNodeUpdateCampaignMembers s cid)" and "mem_batch x = camp_current c"
  shows "at_current s cid (mem_node x)"
proof -
  obtain m and n :: node_row where m: "m \<in> set (db_members s)" "mem_camp m = cid" "x = member_row.extend m \<lparr>mem_node_name = node_name n\<rparr>"
    using assms(5) by (rule detail_member)
  show ?thesis
    unfolding at_current_def
  proof (intro ballI impI)
    fix c'
    assume "c' \<in> set (db_camps s)" "camp_id c' = cid"
    then have "c' = c" using same_camp [OF assms(1) _ assms(2)] assms(3) by simp
    moreover have "mem_batch r = camp_current c" if "r \<in> set (db_members s)" "mem_camp r = cid" "mem_node r = mem_node x" for r
      using same_member [OF assms(1) that(1) m(1)] that m assms(6) by simp
    ultimately show "camp_status c' \<noteq> CampSucceeded \<and>
        (\<forall>r\<in>set (db_members s). mem_camp r = cid \<and> mem_node r = mem_node x \<longrightarrow> mem_batch r = camp_current c')"
      using assms(4) by simp
  qed
qed

lemma detail_all:
  assumes "plan_inv s" and "\<And>x. x \<in> set (q_ListNodeUpdateCampaignMembers s cid) \<Longrightarrow> member_ok c' x"
    and "m \<in> set (db_members s)" and "mem_camp m = cid"
  shows "member_ok c' m"
  using detail_complete [OF assms(1,3,4)] assms(2) by fastforce

lemma detail_ok:
  assumes "gate_inv s" and "c \<in> set (db_camps s)" and "camp_id c = cid"
    and "x \<in> set (q_ListNodeUpdateCampaignMembers s cid)"
  shows "member_ok c x"
  using assms(4) by (rule detail_member) (use assms(1-3) in \<open>auto simp: gate_inv_def\<close>)

lemma set_campaign_gate:
  assumes "gate_inv s" and "plan_inv s" and "c \<in> set (db_camps s)" and "camp_id c = cid"
    and "- 1 \<le> cur \<and> st \<noteq> CampQueued"
    and "\<And>x. x \<in> set (q_ListNodeUpdateCampaignMembers s cid) \<Longrightarrow> member_ok (camp_set now st cur msg c) x"
  shows "gate_inv (snd (set_campaign now cid st cur msg s))"
  using gate_set_campaign [OF assms(1-4) _ assms(5)] detail_all [OF assms(2,6)] assms(1)
  by (auto simp: set_campaign_def split: option.split)

lemma bind_gate: "gate_inv (snd r) \<Longrightarrow> (\<And>x t. r = (Inr x, t) \<Longrightarrow> gate_inv (snd (f x t))) \<Longrightarrow> gate_inv (snd (bind_st r f))"
  by (rule bind_st_keeps)

text \<open>
  The last part of an iteration: the batch is complete, so the gate moves to the next batch
  with a pending member, or the campaign has succeeded.
\<close>

lemma member_ok_moved:
  assumes ok: "member_ok c x" and cur: "- 1 \<le> camp_current c" and x: "x \<in> set ms"
    and fin: "mem_batch x = camp_current c \<Longrightarrow> mem_done (mem_status x)"
    and to: "st = CampSucceeded \<and> nb = camp_current c \<and> next_batch (camp_current c) ms < 0
      \<or> st = CampRunning \<and> nb = next_batch (camp_current c) ms \<and> 0 \<le> nb"
  shows "member_ok (camp_set now st nb msg c) x"
proof -
  have later: "mem_done (mem_status x)" if "camp_current c < mem_batch x" "mem_status x \<noteq> MemPending"
    using ok that by (auto simp: member_ok_def)
  have np: "mem_status x \<noteq> MemPending" if "camp_current c < mem_batch x" "st = CampSucceeded \<or> mem_batch x < nb"
    using to that next_batch_spec(1) [OF cur _ x, of ] next_batch_spec(3) [OF cur x] by auto
  have nb: "st = CampRunning \<Longrightarrow> camp_current c < nb" using to next_batch_spec(2) [OF cur, of ms] by auto
  consider "mem_batch x < camp_current c" | "mem_batch x = camp_current c" | "camp_current c < mem_batch x" by linarith
  then show ?thesis
  proof cases
    case 3
    then show ?thesis using ok later np nb to by (auto simp: member_ok_def)
  qed (use ok fin nb to in \<open>auto simp: member_ok_def\<close>)
qed

lemma bind_gate_pure: "gate_inv (snd r) \<Longrightarrow> (\<And>x t. snd (f x t) = t) \<Longrightarrow> gate_inv (snd (bind_st r f))"
  by (cases "(r, f)" rule: bind_st.cases) auto

lemma complete_batch_gate:
  assumes "gate_inv s" and "plan_inv s" and "trim_space cid = cid" and "GetNodeUpdateCampaign s cid = Inr d"
  shows "gate_inv (snd (complete_batch now cid d flags s))"
proof -
  define c where "c = det_camp d"
  let ?ms = "filter (\<lambda>m. mem_batch m = camp_current c) (det_members d)" and ?nb = "next_batch (camp_current c) (det_members d)"
  have c: "c \<in> set (db_camps s)" "camp_id c = cid" and dm: "det_members d = q_ListNodeUpdateCampaignMembers s cid"
    using detail_camp [OF assms(4,3)] by (simp_all add: c_def)
  have cok: "- 1 \<le> camp_current c" using assms(1) c by (auto simp: gate_inv_def camp_ok_def)
  have move: "gate_inv (snd (set_campaign now cid st nb '''' s))"
    if fin: "\<forall>m \<in> set ?ms. mem_done (mem_status m)"
      and to: "st = CampSucceeded \<and> nb = camp_current c \<and> ?nb < 0 \<or> st = CampRunning \<and> nb = ?nb \<and> 0 \<le> nb" for st nb
  proof (rule set_campaign_gate [OF assms(1,2) c])
    show "- 1 \<le> nb \<and> st \<noteq> CampQueued" using to cok by auto
    fix x assume x: "x \<in> set (q_ListNodeUpdateCampaignMembers s cid)"
    show "member_ok (camp_set now st nb '''' c) x"
      by (rule member_ok_moved [OF detail_ok [OF assms(1) c x] cok _ _ to]) (use x fin in \<open>simp_all add: dm\<close>)
  qed
  show ?thesis
    using assms(1) move [of CampSucceeded "camp_current c"] move [of CampRunning ?nb]
    by (auto simp: complete_batch_def Let_def c_def [symmetric] read_campaign_def list_all_iff intro!: bind_gate_pure)
qed

lemma advance_gate:
  assumes g: "gate_inv s" and p: "plan_inv s" and t: "trim_space cid = cid"
    and ns: "\<And>c. c \<in> set (db_camps s) \<Longrightarrow> camp_id c = cid \<Longrightarrow> camp_status c \<noteq> CampSucceeded"
  shows "gate_inv (snd (advance now fresh cid s))"
proof (cases "GetNodeUpdateCampaign s cid")
  case (Inl e)
  then show ?thesis using g by (simp add: advance_def)
next
  case (Inr d)
  define c where "c = det_camp d"
  define ms where "ms = filter (\<lambda>m. mem_batch m = camp_current c) (det_members d)"
  have c: "c \<in> set (db_camps s)" "camp_id c = cid" and dm: "det_members d = q_ListNodeUpdateCampaignMembers s cid"
    using detail_camp [OF Inr t] by (simp_all add: c_def)
  note ok = detail_ok [OF g c]
  have cok: "camp_ok c" using g c by (auto simp: gate_inv_def)
  have start: "gate_inv (snd (set_campaign now cid CampRunning 0 '''' s))" if "camp_status c = CampQueued"
    by (rule set_campaign_gate [OF g p c])
       (use ok cok that in \<open>fastforce simp: member_ok_def camp_ok_def\<close>)+
  have pause: "gate_inv (snd (set_campaign now cid CampPaused (camp_current c) msg s))" for msg
    by (rule set_campaign_gate [OF g p c]) (use ok cok in \<open>auto simp: member_ok_def camp_ok_def\<close>)
  have "\<forall>m \<in> set ms. at_current s cid (mem_node m)"
    using detail_at_current [OF p c ns [OF c]] by (simp add: dm ms_def)
  then have disp: "gate_inv (snd (dispatch_members now fresh cid u ms s))" for u
    using dispatch_members_gate [OF g] by blast
  have rest: "gate_inv (snd (complete_batch now cid d x t))" if "dispatch_members now fresh cid u ms s = (Inr x, t)" for u x t
  proof (cases "x = (False, False)")
    case True
    then show ?thesis using dispatch_idle that complete_batch_gate [OF g p \<open>trim_space cid = cid\<close> Inr] by fastforce
  next
    case False
    then show ?thesis using disp [of u] that by (cases x) (auto simp: complete_batch_def Let_def read_campaign_def)
  qed
  have "gate_inv (snd (bind_st (set_campaign now cid CampRunning 0 '''' s) (\<lambda>_ s. (Inr (None :: camp_detail option), s))))" if "camp_status c = CampQueued"
    by (rule bind_gate_pure [OF start [OF that]]) simp
  moreover have "gate_inv (snd (bind_st (set_campaign now cid CampPaused (camp_current c) msg s) (\<lambda>_. read_campaign cid)))" for msg
    by (rule bind_gate_pure [OF pause]) (simp add: read_campaign_def)
  moreover have "gate_inv (snd (bind_st (dispatch_members now fresh cid u ms s) (complete_batch now cid d)))" for u
    by (rule bind_gate [OF disp rest])
  ultimately show ?thesis
    using g by (simp add: advance_def Inr c_def [symmetric] ms_def [symmetric] Let_def split: option.split)
qed

section \<open>Reconcile and the handlers\<close>

definition camp_inv :: "'a camp_db_scheme \<Rightarrow> bool" where
  "camp_inv s \<longleftrightarrow> plan_inv s \<and> gate_inv s"

lemma reconcile_once_inv:
  assumes inv: "camp_inv s" and t: "trim_space cid = cid"
  shows "camp_inv (snd (reconcile_once now fresh cid s))"
proof -
  have g: "gate_inv s" and p: "plan_inv s" using inv by (simp_all add: camp_inv_def)
  have "same_plan s (snd (reconcile_once now fresh cid s))" by (rule plan.reconcile_once_keeps) simp
  then have "plan_inv (snd (reconcile_once now fresh cid s))" by (rule plan_inv_same [OF p])
  moreover have "gate_inv (snd (reconcile_once now fresh cid s))"
  proof (cases "GetNodeUpdateCampaign s cid")
    case (Inl e)
    then show ?thesis using g by (simp add: reconcile_once_def)
  next
    case (Inr d)
    let ?c = "det_camp d" and ?sy = "sync_members now cid (det_members d) s"
    have c: "?c \<in> set (db_camps s)" "camp_id ?c = cid" and dm: "det_members d = q_ListNodeUpdateCampaignMembers s cid"
      using detail_camp [OF Inr t] by simp_all
    show ?thesis
    proof (cases "camp_status ?c \<in> {CampPaused, CampSucceeded, CampCancelled}")
      case True
      then show ?thesis using g Inr by (auto simp: reconcile_once_def)
    next
      case False
      have "at_current s cid (mem_node m)" if "m \<in> set (det_members d)" "mem_op_id m \<noteq> ''''" "\<not> mem_done (mem_status m)" for m
        using detail_ok [OF g c, of m] detail_at_current [OF p c, of m] that False
        by (auto simp: dm member_ok_def mem_op_id_def str_or_empty_def split: option.splits)
      then have sy: "gate_inv (snd ?sy)" "db_camps (snd ?sy) = db_camps s"
        using sync_members_gate [OF g, of "det_members d" cid now] by auto
      have pl: "plan_inv (snd ?sy)"
        by (rule plan_inv_same [OF p], rule plan.sync_members_keeps) simp
      have "gate_inv (snd (bind_st ?sy (\<lambda>_. advance now fresh cid)))"
      proof (rule bind_gate [OF sy(1)])
        fix x u assume "?sy = (Inr x, u)"
        then show "gate_inv (snd (advance now fresh cid u))"
          using advance_gate [OF _ _ t, of u] sy pl same_camp [OF p _ c(1)] c(2) False by fastforce
      qed
      then show ?thesis using False Inr by (simp add: reconcile_once_def)
    qed
  qed
  ultimately show ?thesis by (simp add: camp_inv_def)
qed

lemma reconcile_inv: "camp_inv s \<Longrightarrow> trim_space cid = cid \<Longrightarrow> camp_inv (snd (reconcile now fresh cid s))"
proof -
  have "camp_inv (snd (reconcile_loop k now fresh cid s))" if "camp_inv s" "trim_space cid = cid" for k
    using that
  proof (induction k arbitrary: s)
    case (Suc k)
    show ?case
      unfolding reconcile_loop.simps
    proof (rule bind_st_keeps [of camp_inv], rule reconcile_once_inv [OF Suc.prems])
      fix x t assume "reconcile_once now fresh cid s = (Inr x, t)"
      then have "camp_inv t" using reconcile_once_inv [OF Suc.prems, of now fresh] by simp
      then show "camp_inv (snd (case x of None \<Rightarrow> reconcile_loop k now fresh cid t | Some d \<Rightarrow> (Inr d, t)))"
        using Suc.IH Suc.prems(2) by (simp split: option.split)
    qed
  qed simp
  then show "camp_inv s \<Longrightarrow> trim_space cid = cid \<Longrightarrow> camp_inv (snd (reconcile now fresh cid s))"
    by (simp add: reconcile_def)
qed

lemma cancel_operations_frame:
  "db_camps (cancel_operations now ms s) = db_camps s \<and> db_members (cancel_operations now ms s) = db_members s"
  by (induction ms arbitrary: s) (simp_all add: op_methods_frame)

lemma adminCancel_inv:
  assumes "camp_inv s" and "trim_space cid = cid"
  shows "camp_inv (snd (adminCancelUpdateCampaign now cid s))"
proof -
  have g: "gate_inv s" and p: "plan_inv s" using assms(1) by (simp_all add: camp_inv_def)
  have "same_plan s (snd (adminCancelUpdateCampaign now cid s))" by (rule plan.adminCancel_keeps) (use assms in simp_all)
  then have pl: "plan_inv (snd (adminCancelUpdateCampaign now cid s))" by (rule plan_inv_same [OF p])
  have "gate_inv (snd (adminCancelUpdateCampaign now cid s))"
  proof (cases "GetNodeUpdateCampaign s cid")
    case (Inr d)
    have c: "det_camp d \<in> set (db_camps s)" "camp_id (det_camp d) = cid" using detail_camp [OF Inr assms(2)] by simp_all
    have setc: "gate_inv (snd (set_campaign now cid CampCancelled (camp_current (det_camp d)) msg s))" for msg
      by (rule set_campaign_gate [OF g p c])
         (use detail_ok [OF g c] g c in \<open>auto simp: member_ok_def gate_inv_def camp_ok_def\<close>)
    have "gate_inv (snd (bind_st (set_campaign now cid CampCancelled (camp_current (det_camp d)) msg s)
        (\<lambda>_ s. (f s, cancel_operations now (det_members d) s))))" for msg and f :: "'a controller_scheme \<Rightarrow> camp_error + camp_detail"
      by (rule bind_gate [OF setc]) (metis cancel_operations_frame gate_frame setc snd_conv)
    then show ?thesis
      using g Inr c(2) by (simp add: adminCancelUpdateCampaign_def Let_def)
  qed (use g in \<open>simp add: adminCancelUpdateCampaign_def\<close>)
  with pl show ?thesis by (simp add: camp_inv_def)
qed

end
