(* ===== verification/Campaign_Properties.thy ===== *)
theory Campaign_Properties
  imports Campaign_Gate
begin

text \<open>
  Runs of the server with update campaigns, and what they guarantee: the batch gate, the
  pause gate, what success means, that finished campaigns stay finished, and that the
  controller is one more client of the operation store.
\<close>

section \<open>Resuming and creating\<close>

lemma retry_members_gate:
  assumes "gate_inv s" and "\<forall>m \<in> set ms. mem_batch m = camp_current c \<longrightarrow> at_current s (camp_id c) (mem_node m)"
  shows "gate_inv (snd (retry_members sha now fresh c ms s)) \<and> db_camps (snd (retry_members sha now fresh c ms s)) = db_camps s"
  using assms
proof (induction ms arbitrary: s)
  case (Cons m ms)
  let ?s1 = "snd (CreateNodeOperation now (fresh (mem_node m)) s (retry_request sha now (camp_id c) m))"
  have f: "db_camps ?s1 = db_camps s" "db_members ?s1 = db_members s" by (simp_all add: op_methods_frame)
  then have g1: "gate_inv ?s1" using Cons.prems(1) gate_frame by blast
  have step: "gate_inv (snd (retry_members sha now fresh c ms (notify_node nm s2)))
      \<and> db_camps (snd (retry_members sha now fresh c ms (notify_node nm s2))) = db_camps s"
    if batch: "mem_batch m = camp_current c"
      and rep: "ReplaceNodeUpdateCampaignOperationForRetry now ?s1 (camp_id c) (mem_node m) oid st = Some s2" for oid st s2 nm
  proof -
    let ?t = "notify_node nm s2"
    have "at_current ?s1 (camp_id c) (mem_node m)" using Cons.prems(2) batch f by (auto simp: at_current_def)
    then have "gate_inv s2" using gate_operation(2) [OF g1 _ rep] by blast
    then have g2: "gate_inv ?t" by (rule gate_frame) (simp_all add: notify_node_def)
    have cs: "db_camps ?t = db_camps s"
      using rep f by (auto simp: member_writes notify_node_def Let_def split: option.splits if_splits)
    have sp: "same_plan s ?t" by (rule plan.notify, rule plan.replace [OF _ rep], rule plan.create) simp
    have "\<forall>m \<in> set ms. mem_batch m = camp_current c \<longrightarrow> at_current ?t (camp_id c) (mem_node m)"
      using Cons.prems(2) at_current_same [OF _ sp cs] by simp
    then show ?thesis using Cons.IH [OF g2] cs by simp
  qed
  have skip: "gate_inv (snd (retry_members sha now fresh c ms s)) \<and> db_camps (snd (retry_members sha now fresh c ms s)) = db_camps s"
    using Cons.IH [OF Cons.prems(1)] Cons.prems(2) by simp
  have tail: "snd (bind_st r (\<lambda>k s. (Inr (Suc k), s))) = snd r" for r :: "(camp_error + nat) \<times> 'a controller_scheme"
    by (cases r; cases "fst r") auto
  show ?case
    using skip g1 f step Cons.prems(1) by (auto simp: tail split: option.split sum.split prod.split)
qed simp

lemma adminResume_inv:
  assumes "camp_inv s" and "trim_space cid = cid"
  shows "camp_inv (snd (adminResumeUpdateCampaign sha now fresh cid s))"
proof -
  have g: "gate_inv s" and p: "plan_inv s" using assms(1) by (simp_all add: camp_inv_def)
  have "same_plan s (snd (adminResumeUpdateCampaign sha now fresh cid s))" by (rule plan.adminResume_keeps) (use assms in simp_all)
  then have pl: "plan_inv (snd (adminResumeUpdateCampaign sha now fresh cid s))" by (rule plan_inv_same [OF p])
  have "gate_inv (snd (adminResumeUpdateCampaign sha now fresh cid s))"
  proof (cases "GetNodeUpdateCampaign s cid")
    case (Inr d)
    define c where "c = det_camp d"
    let ?r = "retry_members sha now fresh c (det_members d) s"
    have c: "c \<in> set (db_camps s)" "camp_id c = cid" and dm: "det_members d = q_ListNodeUpdateCampaignMembers s cid"
      using detail_camp [OF Inr assms(2)] by (simp_all add: c_def)
    have goal: "gate_inv (snd (bind_st ?r (\<lambda>k s. if k = 0 then (Inl CampNothingFailed, s)
        else bind_st (set_campaign now (camp_id c) CampRunning (camp_current c) '''' s) (\<lambda>_ s. (GetNodeUpdateCampaign s (camp_id c), s)))))"
      if "camp_status c = CampPaused"
    proof -
      have "\<forall>m \<in> set (det_members d). mem_batch m = camp_current c \<longrightarrow> at_current s (camp_id c) (mem_node m)"
        using detail_at_current [OF p c] that by (simp add: dm c)
      then have r: "gate_inv (snd ?r)" "db_camps (snd ?r) = db_camps s"
        using retry_members_gate [OF g] by blast+
      have pr: "plan_inv (snd ?r)" by (rule plan_inv_same [OF p], rule plan.retry_members_keeps) (use c in simp_all)
      have c': "c \<in> set (db_camps (snd ?r))" using c r by simp
      have "gate_inv (snd (set_campaign now cid CampRunning (camp_current c) '''' (snd ?r)))"
        by (rule set_campaign_gate [OF r(1) pr c' c(2)])
           (use detail_ok [OF r(1) c' c(2)] g c in \<open>auto simp: member_ok_def gate_inv_def camp_ok_def\<close>)
      then have "gate_inv (snd (bind_st (set_campaign now (camp_id c) CampRunning (camp_current c) '''' (snd ?r))
          (\<lambda>_ s. (GetNodeUpdateCampaign s (camp_id c), s))))"
        by (intro bind_gate_pure) (simp_all add: c)
      with r(1) show ?thesis by (intro bind_gate) auto
    qed
    then show ?thesis
      using g Inr by (simp add: adminResumeUpdateCampaign_def Let_def c_def [symmetric])
  qed (use g in \<open>simp add: adminResumeUpdateCampaign_def\<close>)
  with pl show ?thesis by (simp add: camp_inv_def)
qed

lemma insert_members_inv:
  assumes "camp_inv s" and "insert_members now cid ps s = Some s'"
    and "\<exists>c \<in> set (db_camps s). camp_id c = cid" and "\<forall>c \<in> set (db_camps s). camp_id c = cid \<longrightarrow> camp_status c = CampQueued"
  shows "camp_inv s'"
  using assms
proof (induction ps arbitrary: s)
  case (Cons p ps)
  let ?m = "new_member now cid (pm_node p) (pm_position p) (pm_batch p) (pm_kind p) (pm_payload p)"
  obtain s1 where s1: "q_CreateNodeUpdateCampaignMember s ?m = Some s1" and rest: "insert_members now cid ps s1 = Some s'"
    using Cons.prems(2) by (auto split: option.splits)
  have eq: "s1 = s\<lparr>db_members := db_members s @ [?m]\<rparr>"
    and key: "(mem_camp ?m, mem_node ?m) \<notin> (\<lambda>m. (mem_camp m, mem_node m)) ` set (db_members s)"
    and refs: "\<exists>n \<in> set (db_nodes s). node_id n = mem_node ?m" "0 \<le> mem_batch ?m" "mem_camp ?m = cid"
      "mem_op ?m = None" "mem_status ?m = MemPending"
    using s1 by (auto simp: q_CreateNodeUpdateCampaignMember_def new_member_def split: if_splits)
  have "plan_inv s1"
    using Cons.prems(1,3) key refs by (auto simp: camp_inv_def plan_inv_def eq) (metis image_eqI)
  moreover have "member_ok c ?m" if "c \<in> set (db_camps s)" "camp_id c = cid" for c
    using Cons.prems(1,4) that refs by (auto simp: camp_inv_def gate_inv_def camp_ok_def member_ok_def)
  then have "gate_inv s1"
    using Cons.prems(1) refs by (auto simp: camp_inv_def gate_inv_def eq)
  ultimately show ?case
    using Cons.IH [OF _ rest] Cons.prems(3,4) by (simp add: camp_inv_def eq)
qed simp

lemma create_inv:
  assumes "camp_inv s"
  shows "camp_inv (snd (CreateNodeUpdateCampaign digest now fresh s p))"
proof -
  have "camp_inv s2"
    if "q_CreateNodeUpdateCampaign s (new_camp now fresh rel comps key hash bsize by) = Some s1"
      and ins: "insert_members now fresh ps s1 = Some s2" for rel comps key hash bsize s1 ps s2 and "by"
  proof -
    let ?c = "new_camp now fresh rel comps key hash bsize by"
    have c: "camp_id ?c = fresh" "camp_status ?c = CampQueued" "camp_current ?c = - 1" "camp_key ?c = key"
      by (simp_all add: new_camp_def)
    have eq: "s1 = s\<lparr>db_camps := db_camps s @ [?c]\<rparr>" and new: "\<forall>x \<in> set (db_camps s). camp_id x \<noteq> fresh \<and> camp_key x \<noteq> key"
      and act: "\<forall>x \<in> set (db_camps s). \<not> camp_active (camp_status x)"
      using that(1) c by (auto simp: q_CreateNodeUpdateCampaign_def split: if_splits)
    have no: "\<forall>m \<in> set (db_members s). mem_camp m \<noteq> fresh"
      using assms new by (fastforce simp: camp_inv_def plan_inv_def)
    have "camp_inv s1"
      using assms new act no c by (auto simp: camp_inv_def plan_inv_def gate_inv_def eq camp_ok_def)
    then show ?thesis
      using insert_members_inv [OF _ ins] c new by (auto simp: eq)
  qed
  then show ?thesis
    using assms by (auto simp: CreateNodeUpdateCampaign_def split: option.split sum.split prod.split)
qed

section \<open>Runs of the server with campaigns\<close>

text \<open>
  A step of the server: an operation call or a change elsewhere that leaves the campaign
  tables alone and removes no node, or one call of the campaign controller. The campaign id
  in a request is one the server issued, so it carries no surrounding white space.
\<close>

inductive camp_step ::
  "(string \<Rightarrow> string) \<Rightarrow> (campaign_spec \<Rightarrow> string) \<Rightarrow> instant \<times> 'a controller_scheme \<Rightarrow> instant \<times> 'a controller_scheme \<Rightarrow> bool"
  for sha digest where
  step_operation: "op_step sha (t, s) (now, s') \<Longrightarrow> db_camps s' = db_camps s \<Longrightarrow> db_members s' = db_members s
     \<Longrightarrow> node_id ` set (db_nodes s) \<subseteq> node_id ` set (db_nodes s') \<Longrightarrow> distinct (map node_id (db_nodes s'))
     \<Longrightarrow> camp_step sha digest (t, s) (now, s')"
| step_create_campaign: "t \<le> now \<Longrightarrow> camp_step sha digest (t, s) (now, snd (CreateNodeUpdateCampaign digest now fr s p))"
| step_reconcile: "t \<le> now \<Longrightarrow> trim_space cid = cid \<Longrightarrow> camp_step sha digest (t, s) (now, snd (reconcile now fresh cid s))"
| step_cancel_campaign: "t \<le> now \<Longrightarrow> trim_space cid = cid \<Longrightarrow> camp_step sha digest (t, s) (now, snd (adminCancelUpdateCampaign now cid s))"
| step_resume_campaign: "t \<le> now \<Longrightarrow> trim_space cid = cid
     \<Longrightarrow> camp_step sha digest (t, s) (now, snd (adminResumeUpdateCampaign sha now fresh cid s))"

lemma op_step_camp_inv:
  assumes "camp_inv s" and "db_camps s' = db_camps s" and "db_members s' = db_members s"
    and "node_id ` set (db_nodes s) \<subseteq> node_id ` set (db_nodes s')" and "distinct (map node_id (db_nodes s'))"
  shows "camp_inv s'"
  using assms by (auto simp: camp_inv_def plan_inv_def gate_inv_def)

interpretation camp_sys: invariant_system "camp_step sha digest" "\<lambda>s. camp_inv (snd s)" for sha digest
proof
  fix s t :: "instant \<times> 'a controller_scheme"
  assume "camp_inv (snd s)" and "camp_step sha digest s t"
  from this(2,1) show "camp_inv (snd t)"
    by cases (auto intro: op_step_camp_inv create_inv reconcile_inv adminCancel_inv adminResume_inv)
qed

lemma run_later: "t \<le> now \<Longrightarrow> run (op_step sha) (now, s) u \<Longrightarrow> run (op_step sha) (t, s) u"
  by (rule run_append, rule run_one, rule op_step.step_rest) simp_all

lemma insert_members_frame:
  "insert_members now cid ps s = Some s' \<Longrightarrow> db_ops s' = db_ops s \<and> db_events s' = db_events s"
  by (induction ps arbitrary: s) (auto simp: q_CreateNodeUpdateCampaignMember_def split: option.splits if_splits)

lemma create_campaign_frame:
  "db_ops (snd (CreateNodeUpdateCampaign digest now fr s p)) = db_ops s \<and> db_events (snd (CreateNodeUpdateCampaign digest now fr s p)) = db_events s"
  by (auto simp: CreateNodeUpdateCampaign_def q_CreateNodeUpdateCampaign_def dest: insert_members_frame
      split: option.split sum.split prod.split if_splits)

lemma camp_step_op_run:
  assumes "camp_step sha digest s s'"
  shows "run (op_step sha) s s'"
  using assms
proof cases
  case (step_operation t s now s')
  then show ?thesis by (simp add: run_one)
next
  case (step_create_campaign t now s fr p)
  then show ?thesis by (simp add: run_one op_step.step_rest create_campaign_frame)
next
  case (step_reconcile t now cid s fresh)
  then show ?thesis using op_client.reconcile_keeps [of sha now s s fresh cid] by (simp add: op_calls_def run_later)
next
  case (step_cancel_campaign t now cid s)
  then show ?thesis using op_client.adminCancel_keeps [of sha now s s cid] by (simp add: op_calls_def run_later)
next
  case (step_resume_campaign t now cid s fresh)
  then show ?thesis using op_client.adminResume_keeps [of sha now s s cid sha fresh] by (simp add: op_calls_def run_later)
qed


section \<open>Example campaign\<close>

definition ex_fleet :: controller where
  "ex_fleet = \<lparr>db_nodes = [ex_node, ex_node\<lparr>node_id := ''n2'', node_name := ''osaka''\<rparr>], db_aliases = [],
     db_ops = [], db_events = [], db_camps = [], db_members = [], ctl_notified = []\<rparr>"

definition ex_camp_params :: campaign_params where
  "ex_camp_params = \<lparr>kp_release = ''1.2.3'', kp_components = [''agent''], kp_key = ''k1'', kp_batch_size = 2, kp_by = '''',
     kp_members = [\<lparr>mp_node = ''tokyo'', mp_position = 0, mp_batch = 0, mp_kind = ''update.agent'', mp_payload = ex_json\<rparr>,
                   \<lparr>mp_node = ''osaka'', mp_position = 1, mp_batch = 1, mp_kind = ''update.agent'', mp_payload = ex_json\<rparr>]\<rparr>"

definition ex_digest_of :: "campaign_spec \<Rightarrow> string" where
  "ex_digest_of s = ''ab''"

definition ex_camp :: camp_row where
  "ex_camp = new_camp 0 ''c1'' ''1.2.3'' [''agent''] ''k1'' ''ab'' 2 ''admin''"

definition ex_members :: "member_row list" where
  "ex_members = [new_member 0 ''c1'' ''n1'' 0 0 ''update.agent'' ''{}'', new_member 0 ''c1'' ''n2'' 1 1 ''update.agent'' ''{}'']"

definition ex_fleet1 :: controller where
  "ex_fleet1 = ex_fleet\<lparr>db_camps := [ex_camp], db_members := ex_members\<rparr>"

lemma trim_examples2 [simp]:
  "trim_space ''1.2.3'' = ''1.2.3''" "trim_space ''agent'' = ''agent''" "trim_space ''osaka'' = ''osaka''"
  "trim_space ''c1'' = ''c1''" "trim_space ''n1'' = ''n1''" "trim_space ''n2'' = ''n2''"
  by code_simp+

lemmas ex_camp_defs = ex_fleet_def ex_camp_params_def ex_digest_of_def ex_camp_def ex_members_def ex_fleet1_def ex_node_def ex_json_def

lemma ex_camp_prepare:
  "prepare_campaign ex_fleet ex_camp_params = Inr (''k1'', ''admin'', \<lparr>spec_release = ''1.2.3'', spec_components = [''agent''],
     spec_batch_size = 2, spec_members =
       [\<lparr>pm_node = ''n1'', pm_position = 0, pm_batch = 0, pm_kind = ''update.agent'', pm_payload = ''{}''\<rparr>,
        \<lparr>pm_node = ''n2'', pm_position = 1, pm_batch = 1, pm_kind = ''update.agent'', pm_payload = ''{}''\<rparr>]\<rparr>)"
  by (simp add: prepare_campaign_def Let_def normalizeCampaignComponents_def is_component_def node_query_defs
      update_kind_def normalizeJSONObject_def ex_camp_defs)

lemma ex_camp_create: "snd (CreateNodeUpdateCampaign ex_digest_of 0 ''c1'' ex_fleet ex_camp_params) = ex_fleet1"
  unfolding CreateNodeUpdateCampaign_def ex_camp_prepare
  by (simp add: q_GetNodeUpdateCampaignByIdempotencyKey_def q_CreateNodeUpdateCampaign_def q_CreateNodeUpdateCampaignMember_def new_camp_def new_member_def ex_camp_defs)

lemma ex_camp_run: "run (camp_step ex_sha ex_digest_of) (0, ex_fleet) (0, ex_fleet1)"
  using run_one [of "camp_step ex_sha ex_digest_of", OF step_create_campaign [of 0 0 ex_sha ex_digest_of ex_fleet "''c1''" ex_camp_params]]
  by (simp add: ex_camp_create)

lemma ex_fleet_empty: "db_camps ex_fleet = []" "db_members ex_fleet = []" "distinct (map node_id (db_nodes ex_fleet))" "ops_inv ex_fleet"
  by (simp_all add: ex_camp_defs ops_inv_def ev_seqs_def)


section \<open>The batch gate\<close>

lemma camp_inv_empty:
  "db_camps s = [] \<Longrightarrow> db_members s = [] \<Longrightarrow> distinct (map node_id (db_nodes s)) \<Longrightarrow> camp_inv s"
  by (simp add: camp_inv_def plan_inv_def gate_inv_def)

lemma run_member_ok:
  assumes "run (camp_step sha digest) (t, s) (t', s')" and "camp_inv s"
    and "c \<in> set (db_camps s')" and "m \<in> set (db_members s')" and "mem_camp m = camp_id c"
  shows "member_ok c m"
proof -
  have "camp_inv s'" using camp_sys.run_inv [OF assms(1)] assms(2) by simp
  then show ?thesis using assms(3-) unfolding camp_inv_def gate_inv_def by blast
qed

lemma all_equal_short: "distinct xs \<Longrightarrow> \<forall>x \<in> set xs. \<forall>y \<in> set xs. x = y \<Longrightarrow> length xs \<le> 1"
  using card_le_Suc0_iff_eq [of "set xs"] distinct_card [of xs] by simp

text \<open>
  C13: The batch gate. Starting without campaigns, after any sequence of operation calls,
  node changes and campaign calls: a node of a later batch has been given an operation only
  if every node of every earlier batch has succeeded or was skipped (so no node is touched
  before the canary is through), and an operation in flight belongs to the current batch.
\<close>

theorem batch_gate:
  assumes "run (camp_step sha digest) (t, s) (t', s')"
    and "db_camps s = []" and "db_members s = []" and "distinct (map node_id (db_nodes s))"
    and "c \<in> set (db_camps s')" and "m' \<in> set (db_members s')" and "mem_camp m' = camp_id c"
  shows "(\<forall>m \<in> set (db_members s'). mem_camp m = camp_id c \<and> mem_batch m < mem_batch m' \<and> mem_op m' \<noteq> None
            \<longrightarrow> mem_status m = MemSucceeded \<or> mem_status m = MemSkipped)
    \<and> (mem_status m' = MemQueued \<or> mem_status m' = MemRunning \<longrightarrow> mem_batch m' = camp_current c)"
proof -
  note inv = camp_inv_empty [OF assms(2-4)]
  note ok' = run_member_ok [OF assms(1) inv assms(5-7)]
  have st: "mem_done st \<longleftrightarrow> st = MemSucceeded \<or> st = MemSkipped" for st by (cases st) auto
  have "mem_done (mem_status m)" if "m \<in> set (db_members s')" "mem_camp m = camp_id c" "mem_batch m < mem_batch m'" "mem_op m' \<noteq> None" for m
  proof -
    have "mem_batch m' \<le> camp_current c" using ok' that(4) by (force simp: member_ok_def)
    then show ?thesis using run_member_ok [OF assms(1) inv assms(5) that(1,2)] that(3) by (simp add: member_ok_def)
  qed
  moreover have "mem_batch m' = camp_current c" if "mem_status m' = MemQueued \<or> mem_status m' = MemRunning"
    using ok' that by (cases "mem_batch m'" "camp_current c" rule: linorder_cases) (auto simp: member_ok_def)
  ultimately show ?thesis by (auto simp: st)
qed

theorem batch_gate_witness:
  "\<exists>m \<in> set (db_members ex_fleet1). \<exists>m' \<in> set (db_members ex_fleet1). mem_batch m < mem_batch m' \<and>
     (mem_op m' \<noteq> None \<longrightarrow> mem_status m = MemSucceeded \<or> mem_status m = MemSkipped)"
proof -
  let ?m = "new_member 0 ''c1'' ''n1'' 0 0 ''update.agent'' ''{}''" and ?m' = "new_member 0 ''c1'' ''n2'' 1 1 ''update.agent'' ''{}''"
  have "ex_camp \<in> set (db_camps ex_fleet1)" "?m \<in> set (db_members ex_fleet1)" "?m' \<in> set (db_members ex_fleet1)"
    "mem_camp ?m' = camp_id ex_camp" "mem_camp ?m = camp_id ex_camp" "mem_batch ?m < mem_batch ?m'"
    by (simp_all add: ex_fleet1_def ex_members_def ex_camp_def new_camp_def new_member_def)
  then show ?thesis
    using batch_gate [OF ex_camp_run ex_fleet_empty(1-3), of ex_camp ?m'] by (intro bexI [of _ ?m] bexI [of _ ?m']) auto
qed

text \<open>
  C14: What success means, and exclusivity. In every reachable state a campaign marked
  succeeded has no member left that is not succeeded or skipped, and at most one campaign
  is queued, running or paused.
\<close>

theorem success_is_complete:
  assumes "run (camp_step sha digest) (t, s) (t', s')"
    and "db_camps s = []" and "db_members s = []" and "distinct (map node_id (db_nodes s))"
  shows "(\<forall>c \<in> set (db_camps s'). camp_status c = CampSucceeded \<longrightarrow>
            (\<forall>m \<in> set (db_members s'). mem_camp m = camp_id c \<longrightarrow> mem_status m = MemSucceeded \<or> mem_status m = MemSkipped))
    \<and> length (filter (\<lambda>c. camp_active (camp_status c)) (db_camps s')) \<le> 1"
proof -
  note inv = camp_inv_empty [OF assms(2-4)]
  have st: "mem_done st \<longleftrightarrow> st = MemSucceeded \<or> st = MemSkipped" for st by (cases st) auto
  have inv': "camp_inv s'" using camp_sys.run_inv [OF assms(1)] inv by simp
  let ?act = "filter (\<lambda>c. camp_active (camp_status c)) (db_camps s')"
  have "distinct ?act" using inv' by (auto simp: camp_inv_def plan_inv_def distinct_map)
  moreover have "\<forall>c \<in> set ?act. \<forall>d \<in> set ?act. c = d" using inv' unfolding camp_inv_def gate_inv_def by simp
  ultimately have "length ?act \<le> 1" by (rule all_equal_short)
  moreover have "\<forall>c \<in> set (db_camps s'). camp_status c = CampSucceeded \<longrightarrow>
      (\<forall>m \<in> set (db_members s'). mem_camp m = camp_id c \<longrightarrow> mem_done (mem_status m))"
    using run_member_ok [OF assms(1) inv] by (auto simp: member_ok_def)
  ultimately show ?thesis by (simp add: st)
qed

theorem success_is_complete_witness: "length (filter (\<lambda>c. camp_active (camp_status c)) (db_camps ex_fleet1)) = 1"
  using success_is_complete [OF ex_camp_run ex_fleet_empty(1-3)] by (simp add: ex_fleet1_def ex_camp_def new_camp_def)

section \<open>The pause gate\<close>

text \<open>
  C15: The pause gate. When a member of the current batch of a running campaign has failed or
  was cancelled, the controller pauses the campaign at that batch: it creates no operation,
  wakes no node and changes no member; and while the campaign is paused, reconciling it
  changes nothing at all.
\<close>

theorem failed_member_pauses:
  assumes "GetNodeUpdateCampaign s cid = Inr d" and "trim_space cid = cid" and "camp_inv s"
    and "camp_status (det_camp d) = CampRunning" and "m \<in> set (det_members d)"
    and "mem_batch m = camp_current (det_camp d)" and "mem_status m = MemFailed \<or> mem_status m = MemCancelled"
  shows "\<exists>d' s'. advance now fresh cid s = (Inr (Some d'), s')
    \<and> camp_status (det_camp d') = CampPaused \<and> camp_current (det_camp d') = camp_current (det_camp d)
    \<and> db_ops s' = db_ops s \<and> db_members s' = db_members s \<and> ctl_notified s' = ctl_notified s
    \<and> reconcile now' fresh' cid s' = (Inr d', s')"
proof -
  define c where "c = det_camp d"
  let ?ms = "filter (\<lambda>m. mem_batch m = camp_current c) (det_members d)"
  have c: "c \<in> set (db_camps s)" "camp_id c = cid" using detail_camp [OF assms(1,2)] by (simp_all add: c_def)
  have broken: "mem_broken (mem_status m)" using assms(7) by auto
  have "sel (\<lambda>m. mem_broken (mem_status m)) ?ms \<noteq> None"
    using broken assms(5,6) by (auto simp: sel_None_iff c_def)
  then obtain b where b: "sel (\<lambda>m. mem_broken (mem_status m)) ?ms = Some b" by auto
  define msg where "msg = pause_message (camp_current c) b"
  define s' where "s' = s\<lparr>db_camps := upd (\<lambda>x. camp_id x = cid) (camp_set now CampPaused (camp_current c) msg) (db_camps s)\<rparr>"
  have "\<forall>x \<in> set (db_camps s). camp_id x \<noteq> cid \<longrightarrow> \<not> camp_active (camp_status x)"
    using assms(3,4) c unfolding camp_inv_def gate_inv_def c_def by (metis camp_active.simps(2))
  then have "UpdateNodeUpdateCampaignState now s cid CampPaused (camp_current c) msg = Some s'"
    by (auto simp: campaign_writes s'_def camp_set_def [abs_def])
  then have setc: "set_campaign now cid CampPaused (camp_current c) msg s = (Inr (), s')" by (simp add: set_campaign_def)
  have sel': "q_GetNodeUpdateCampaign s' cid = Some (camp_set now CampPaused (camp_current c) msg c)"
  proof -
    have "sel (\<lambda>x. camp_id x = cid) (db_camps s) = Some c"
      using assms(3) c sel_key_iff [of camp_id "db_camps s" cid c] by (simp add: camp_inv_def plan_inv_def)
    then show ?thesis using c by (simp add: q_GetNodeUpdateCampaign_def s'_def sel_upd_key)
  qed
  then obtain d' where d': "GetNodeUpdateCampaign s' cid = Inr d'" "det_camp d' = camp_set now CampPaused (camp_current c) msg c"
    using assms(2) by (auto simp: GetNodeUpdateCampaign_def)
  have "advance now fresh cid s = (Inr (Some d'), s')"
    using assms(1,4-6) b setc d'(1)
    by (auto simp: advance_def c_def [symmetric] Let_def read_campaign_def msg_def filter_empty_conv)
  moreover have "reconcile now' fresh' cid s' = (Inr d', s')"
    using d' by (simp add: reconcile_def numeral_eq_Suc reconcile_once_def)
  ultimately show ?thesis
    using d'(2) by (intro exI [of _ d'] exI [of _ s']) (simp add: s'_def c_def)
qed

text \<open>The example campaign with its canary failed.\<close>

definition ex_failed :: controller where
  "ex_failed = ex_fleet\<lparr>db_camps := [ex_camp\<lparr>camp_status := CampRunning, camp_current := 0\<rparr>],
     db_members := [(new_member 0 ''c1'' ''n1'' 0 0 ''update.agent'' ''{}'')\<lparr>mem_status := MemFailed\<rparr>,
                    new_member 0 ''c1'' ''n2'' 1 1 ''update.agent'' ''{}'']\<rparr>"

theorem failed_member_pauses_witness:
  "\<exists>d' s'. advance 0 (\<lambda>n. n) ''c1'' ex_failed = (Inr (Some d'), s') \<and> camp_status (det_camp d') = CampPaused \<and> db_ops s' = []
     \<and> reconcile 5 (\<lambda>n. n) ''c1'' s' = (Inr d', s')"
proof -
  let ?c = "ex_camp\<lparr>camp_status := CampRunning, camp_current := 0\<rparr>"
  let ?m = "member_row.extend ((new_member 0 ''c1'' ''n1'' 0 0 ''update.agent'' ''{}'')\<lparr>mem_status := MemFailed\<rparr>) \<lparr>mem_node_name = ''tokyo''\<rparr>"
  have d: "GetNodeUpdateCampaign ex_failed ''c1'' = Inr \<lparr>det_camp = ?c, det_members =
      [?m, member_row.extend (new_member 0 ''c1'' ''n2'' 1 1 ''update.agent'' ''{}'') \<lparr>mem_node_name = ''osaka''\<rparr>]\<rparr>"
    by (simp add: GetNodeUpdateCampaign_def q_GetNodeUpdateCampaign_def q_ListNodeUpdateCampaignMembers_def join_name_def
        ex_failed_def ex_fleet_def ex_camp_def new_camp_def new_member_def ex_node_def)
  have inv: "camp_inv ex_failed"
    by (simp add: camp_inv_def plan_inv_def gate_inv_def camp_ok_def member_ok_def ex_failed_def ex_fleet_def ex_camp_def
        new_camp_def new_member_def ex_node_def)
  have "camp_status ?c = CampRunning" "camp_current ?c = 0" "mem_batch ?m = 0" "mem_status ?m = MemFailed" "db_ops ex_failed = []"
    by (simp_all add: new_member_def ex_failed_def ex_fleet_def)
  then show ?thesis
    using failed_member_pauses [OF d _ inv, of ?m 0 "\<lambda>n. n" 5 "\<lambda>n. n"] by auto
qed

section \<open>Finished campaigns\<close>

text \<open>What one campaign's controller calls leave alone: the row and the members of every other campaign.\<close>

definition same_campaign :: "string \<Rightarrow> 'a camp_db_scheme \<Rightarrow> 'a camp_db_scheme \<Rightarrow> bool" where
  "same_campaign k r s \<longleftrightarrow> filter (\<lambda>c. camp_id c = k) (db_camps s) = filter (\<lambda>c. camp_id c = k) (db_camps r)
     \<and> filter (\<lambda>m. mem_camp m = k) (db_members s) = filter (\<lambda>m. mem_camp m = k) (db_members r)"

lemma same_campaign_refl [simp]: "same_campaign k r r"
  by (simp add: same_campaign_def)

lemma filter_upd_other: "(\<And>r. p r \<Longrightarrow> \<not> q r \<and> \<not> q (f r)) \<Longrightarrow> filter q (upd p f t) = filter q t"
  by (induction t) auto

lemma members_other:
  "k \<noteq> cid \<Longrightarrow> (\<And>m. mem_camp (f m) = mem_camp m) \<Longrightarrow>
   filter (\<lambda>m. mem_camp m = k) (upd (\<lambda>m. mem_camp m = cid \<and> q m) f t) = filter (\<lambda>m. mem_camp m = k) t"
  by (rule filter_upd_other) auto

lemma camps_other:
  "k \<noteq> cid \<Longrightarrow> filter (\<lambda>c. camp_id c = k) (upd (\<lambda>c. camp_id c = cid) (camp_set now cst cur msg) t) = filter (\<lambda>c. camp_id c = k) t"
  by (rule filter_upd_other) auto

interpretation others: controller_effects "\<lambda>s. k \<noteq> cid \<longrightarrow> same_campaign k r s" now cid for k r now cid
proof
  fix s s' :: "'a controller_scheme" and nid oid msg nm fr p i and st ost cst and cur :: int
  assume s: "k \<noteq> cid \<longrightarrow> same_campaign k r s"
  show "k \<noteq> cid \<longrightarrow> same_campaign k r (snd (CreateNodeOperation now fr s p))"
    "k \<noteq> cid \<longrightarrow> same_campaign k r (snd (RequestNodeOperationCancel now s i))"
    "k \<noteq> cid \<longrightarrow> same_campaign k r (snd (CancelUnclaimedNodeOperation now s i))"
    using s by (simp_all add: same_campaign_def op_methods_frame)
  show "k \<noteq> cid \<longrightarrow> same_campaign k r (UpdateNodeUpdateCampaignMemberState now s cid nid st msg)"
    using s by (simp add: same_campaign_def member_writes members_other)
  show "k \<noteq> cid \<longrightarrow> same_campaign k r s'" if "AttachNodeUpdateCampaignOperation now s cid nid oid ost = Some s'"
    using s that by (auto simp: same_campaign_def member_writes members_other Let_def split: option.splits if_splits)
  show "k \<noteq> cid \<longrightarrow> same_campaign k r s'" if "ReplaceNodeUpdateCampaignOperationForRetry now s cid nid oid ost = Some s'"
    using s that by (auto simp: same_campaign_def member_writes members_other Let_def split: option.splits if_splits)
  show "k \<noteq> cid \<longrightarrow> same_campaign k r s'" if "UpdateNodeUpdateCampaignState now s cid cst cur msg = Some s'"
    using s by (simp add: same_campaign_def campaign_write(1) [OF that] camps_other)
  show "k \<noteq> cid \<longrightarrow> same_campaign k r (notify_node nm s)" using s by (simp add: same_campaign_def notify_node_def)
qed

lemma insert_same_campaign: "insert_members now cid ps s = Some s' \<Longrightarrow> k \<noteq> cid \<Longrightarrow> same_campaign k s s'"
  by (induction ps arbitrary: s)
     (auto simp: q_CreateNodeUpdateCampaignMember_def new_member_def same_campaign_def split: option.splits if_splits)

lemma create_same_campaign:
  assumes "c \<in> set (db_camps s)"
  shows "same_campaign (camp_id c) s (snd (CreateNodeUpdateCampaign digest now fr s p))"
proof -
  have "same_campaign (camp_id c) s s2"
    if "q_CreateNodeUpdateCampaign s (new_camp now fr rel comps key hash bsize by) = Some s1"
      "insert_members now fr ps s1 = Some s2" for rel comps key hash bsize "by" s1 s2 ps
  proof -
    have "camp_id c \<noteq> fr" and "s1 = s\<lparr>db_camps := db_camps s @ [new_camp now fr rel comps key hash bsize by]\<rparr>"
      using that(1) assms by (auto simp: q_CreateNodeUpdateCampaign_def new_camp_def split: if_splits)
    then show ?thesis using insert_same_campaign [OF that(2), of "camp_id c"] by (simp add: same_campaign_def new_camp_def)
  qed
  then show ?thesis
    by (auto simp: CreateNodeUpdateCampaign_def split: option.split sum.split prod.split)
qed

lemma finished_detail:
  assumes "camp_inv s" and "c \<in> set (db_camps s)" and "trim_space (camp_id c) = camp_id c"
  shows "\<exists>d. GetNodeUpdateCampaign s (camp_id c) = Inr d \<and> det_camp d = c"
  using assms sel_key [of camp_id "db_camps s" c]
  by (auto simp: GetNodeUpdateCampaign_def q_GetNodeUpdateCampaign_def camp_inv_def plan_inv_def)

lemma finished_step:
  assumes "camp_step sha digest u v" and "camp_inv (snd u)" and "c \<in> set (db_camps (snd u))"
    and "\<not> camp_active (camp_status c)"
  shows "same_campaign (camp_id c) (snd u) (snd v)"
  using assms(1)
proof cases
  case (step_create_campaign t now s fr p)
  then show ?thesis using create_same_campaign assms(3) by simp
next
  case (step_reconcile t now cid s fresh)
  show ?thesis
  proof (cases "camp_id c = cid")
    case True
    then have "reconcile now fresh cid s = (GetNodeUpdateCampaign s cid, s)"
      using finished_detail [of s c] assms(2-4) step_reconcile
      by (cases "camp_status c") (auto simp: reconcile_def numeral_eq_Suc reconcile_once_def)
    then show ?thesis using step_reconcile by simp
  qed (use step_reconcile others.reconcile_keeps [of "camp_id c" cid s s now fresh] in simp)
next
  case (step_cancel_campaign t now cid s)
  show ?thesis
  proof (cases "camp_id c = cid")
    case True
    then have "adminCancelUpdateCampaign now cid s = (Inl CampTerminal, s)"
      using finished_detail [of s c] assms(2-4) step_cancel_campaign
      by (cases "camp_status c") (auto simp: adminCancelUpdateCampaign_def Let_def)
    then show ?thesis using step_cancel_campaign by simp
  qed (use step_cancel_campaign others.adminCancel_keeps [of "camp_id c" cid s s now] in simp)
next
  case (step_resume_campaign t now cid s fresh)
  show ?thesis
  proof (cases "camp_id c = cid")
    case True
    then have "adminResumeUpdateCampaign sha now fresh cid s = (Inl CampNotPaused, s)"
      using finished_detail [of s c] assms(2-4) step_resume_campaign
      by (cases "camp_status c") (auto simp: adminResumeUpdateCampaign_def Let_def)
    then show ?thesis using step_resume_campaign by simp
  qed (use step_resume_campaign others.adminResume_keeps [of "camp_id c" cid s s sha now fresh] in simp)
qed (simp add: same_campaign_def)

lemma same_campaign_trans: "same_campaign k a b \<Longrightarrow> same_campaign k b c \<Longrightarrow> same_campaign k a c"
  by (simp add: same_campaign_def)

lemma same_campaign_row: "same_campaign (camp_id c) a b \<Longrightarrow> c \<in> set (db_camps a) \<Longrightarrow> c \<in> set (db_camps b)"
  unfolding same_campaign_def by (metis (mono_tags, lifting) mem_Collect_eq set_filter)

text \<open>
  A campaign that succeeded or was cancelled is over: no later call, on it or on another
  campaign, changes its row or any of its members, and none restarts it.
\<close>

theorem finished_campaign_frozen:
  assumes "run (camp_step sha digest) (t, s) (t', s')" and "camp_inv s" and "c \<in> set (db_camps s)"
    and "camp_status c = CampSucceeded \<or> camp_status c = CampCancelled"
  shows "c \<in> set (db_camps s')
    \<and> filter (\<lambda>m. mem_camp m = camp_id c) (db_members s') = filter (\<lambda>m. mem_camp m = camp_id c) (db_members s)"
proof -
  have fin: "\<not> camp_active (camp_status c)" using assms(4) by auto
  have "same_campaign (camp_id c) s (snd (t', s'))"
    by (rule camp_sys.run_stable [OF assms(1), of "\<lambda>u. same_campaign (camp_id c) s (snd u)"])
       (use assms(2,3) finished_step [OF _ _ _ fin] same_campaign_trans same_campaign_row in \<open>auto, blast\<close>)
  then show ?thesis using same_campaign_row assms(3) by (simp add: same_campaign_def)
qed

text \<open>The example campaign, cancelled.\<close>

definition ex_over :: controller where
  "ex_over = ex_fleet\<lparr>db_camps := [ex_camp\<lparr>camp_status := CampCancelled\<rparr>], db_members := ex_members\<rparr>"

lemma ex_over_inv: "camp_inv ex_over"
  by (simp add: camp_inv_def plan_inv_def gate_inv_def camp_ok_def member_ok_def ex_over_def ex_fleet_def ex_camp_def
      ex_members_def new_camp_def new_member_def ex_node_def)

theorem finished_campaign_frozen_witness:
  "ex_camp\<lparr>camp_status := CampCancelled\<rparr> \<in> set (db_camps (snd (reconcile 7 (\<lambda>n. n) ''c1'' ex_over)))"
proof -
  let ?s = "snd (reconcile 7 (\<lambda>n. n) ''c1'' ex_over)"
  have "run (camp_step ex_sha ex_digest_of) (0, ex_over) (7, ?s)"
    by (rule run_one, rule step_reconcile) simp_all
  moreover have "ex_camp\<lparr>camp_status := CampCancelled\<rparr> \<in> set (db_camps ex_over)" by (simp add: ex_over_def)
  ultimately show ?thesis
    using finished_campaign_frozen [OF _ ex_over_inv, of ex_sha ex_digest_of 0 7 ?s] by simp
qed

end
