(* ===== verification/Campaign_Planning.thy ===== *)
theory Campaign_Planning
  imports Campaign_Properties
begin

text \<open>
  How a campaign is planned and started: the batches that \<open>buildUpdateCampaignMembers\<close> lays
  out, and the idempotent creation of the campaign.
\<close>

section \<open>Batches\<close>

lemma first_index_Some: "first_index p xs = Some i \<Longrightarrow> i < length xs \<and> p (xs ! i)"
  by (induction xs arbitrary: i) (auto split: if_splits)

lemma canary_index_Some: "canary_index es = Some i \<Longrightarrow> i < length es \<and> el_online (es ! i)"
  by (auto simp: canary_index_def dest: first_index_Some split: option.splits)

lemma swap_front: "i < length xs \<Longrightarrow> length (swap_front i xs) = length xs \<and> set (swap_front i xs) = set xs \<and> swap_front i xs ! 0 = xs ! i"
proof -
  assume i: "i < length xs"
  then have "0 < length xs" by linarith
  then show ?thesis using set_swap [of 0 xs i] i by (cases "i = 0") (simp_all add: swap_front_def)
qed

lemma number_members_nth:
  "i < length es \<Longrightarrow> number_members bsize es ! i = \<lparr>mp_node = el_node (es ! i), mp_position = int i, mp_batch = batch_of bsize i,
     mp_kind = el_kind (es ! i), mp_payload = el_payload (es ! i)\<rparr>"
  by (simp add: number_members_def nth_enumerate_eq)

lemma length_number_members [simp]: "length (number_members bsize es) = length es"
  by (simp add: number_members_def)

lemma batch_of_range:
  assumes "0 < bsize" and "batch_of bsize i = b" and "1 \<le> b"
  shows "int i \<in> {(b - 1) * bsize + 1 .. b * bsize}"
proof -
  have "0 < i" and b: "b = 1 + (int i - 1) div bsize" using assms(2,3) by (auto simp: batch_of_def split: if_splits)
  define q m where "q = (int i - 1) div bsize" and "m = (int i - 1) mod bsize"
  have "int i - 1 = q * bsize + m" by (simp add: q_def m_def)
  moreover have "0 \<le> m" "m < bsize" using assms(1) by (simp_all add: m_def)
  ultimately show ?thesis using b by (simp add: q_def [symmetric] algebra_simps)
qed

lemma batch_of_0_iff:
  assumes "0 < bsize"
  shows "batch_of bsize i = 0 \<longleftrightarrow> i = 0"
proof -
  have "0 \<le> (int i - 1) div bsize" if "0 < i" using assms that by (simp add: pos_imp_zdiv_nonneg_iff)
  then show ?thesis by (auto simp: batch_of_def)
qed

lemma batch_size_bound:
  assumes "0 < bsize" and "1 \<le> b"
  shows "length (filter (\<lambda>m. mp_batch m = b) (number_members bsize es)) \<le> nat bsize"
proof -
  let ?I = "{i. i < length es \<and> batch_of bsize i = b}"
  have "length (filter (\<lambda>m. mp_batch m = b) (number_members bsize es)) = card ?I"
    by (auto simp: length_filter_conv_card number_members_nth intro: arg_cong [of _ _ card])
  also have "\<dots> = card (int ` ?I)" by (simp add: card_image)
  also have "\<dots> \<le> card {(b - 1) * bsize + 1 .. b * bsize}"
    using batch_of_range [OF assms(1) _ assms(2)] by (intro card_mono) auto
  also have "\<dots> = nat bsize" using assms(1) by (simp add: algebra_simps)
  finally show ?thesis .
qed

lemma eligible_name: "eligible_node now cat f comps n = Some e \<Longrightarrow> el_node e = node_name n"
  by (auto simp: eligible_node_def Let_def split: option.splits if_splits prod.splits)

text \<open>
  C17: The plan of a campaign. Positions count up from 0; batch 0 is exactly the first
  member, the canary, and that node was online; every later batch has at most the requested
  number of members; and every node that was asked for by name is in the plan.
\<close>

theorem campaign_plan:
  assumes "buildUpdateCampaignMembers now cat f db requested comps bsize = Inr ms" and "0 < bsize"
  shows "ms \<noteq> [] \<and> map mp_position ms = map int [0..<length ms]
    \<and> (\<forall>i < length ms. mp_batch (ms ! i) = 0 \<longleftrightarrow> i = 0)
    \<and> (\<forall>b \<ge> 1. length (filter (\<lambda>m. mp_batch m = b) ms) \<le> nat bsize)
    \<and> (\<exists>n e. n \<in> set (ListNodes db) \<and> node_name n = mp_node (ms ! 0)
         \<and> eligible_node now cat f comps n = Some e \<and> el_online e)
    \<and> (\<forall>nm \<in> set requested. trim_space nm \<in> mp_node ` set ms)"
proof -
  define el where "el = List.map_filter (eligible_node now cat f comps)
    (filter (\<lambda>n. map trim_space requested = [] \<or> node_name n \<in> set (map trim_space requested)) (ListNodes db))"
  obtain i where i: "canary_index (sort_key el_node el) = Some i" and ne: "el \<noteq> []"
    and req: "list_all (\<lambda>nm. nm \<in> set (map el_node el)) (map trim_space requested)"
    and ms: "ms = number_members bsize (swap_front i (sort_key el_node el))"
    using assms(1) by (auto simp: buildUpdateCampaignMembers_def Let_def el_def split: if_splits option.splits)
  define es where "es = swap_front i (sort_key el_node el)"
  have i': "i < length (sort_key el_node el)" "el_online (sort_key el_node el ! i)" using canary_index_Some [OF i] by simp_all
  have es: "length es = length el" "set es = set el" "es ! 0 = sort_key el_node el ! i"
    using swap_front [OF i'(1)] by (simp_all add: es_def)
  have "es ! 0 \<in> set el" using i'(1) by (simp add: es(3)) (metis nth_mem set_sort length_sort)
  then obtain n where n: "n \<in> set (ListNodes db)" "eligible_node now cat f comps n = Some (es ! 0)"
    by (auto simp: el_def List.map_filter_def)
  then have name: "el_node (es ! 0) = node_name n"
    using eligible_name by blast
  have len: "length ms = length el" "0 < length el" using ne by (simp_all add: ms es_def [symmetric] es)
  have nth: "ms ! j = \<lparr>mp_node = el_node (es ! j), mp_position = int j, mp_batch = batch_of bsize j,
      mp_kind = el_kind (es ! j), mp_payload = el_payload (es ! j)\<rparr>" if "j < length ms" for j
    using that len es(1) by (simp add: ms es_def [symmetric] number_members_nth)
  have pos: "map mp_position ms = map int [0..<length ms]" by (rule nth_equalityI) (simp_all add: nth)
  have canary: "\<forall>j < length ms. mp_batch (ms ! j) = 0 \<longleftrightarrow> j = 0"
    using batch_of_0_iff [OF assms(2)] by (simp add: nth)
  have "map mp_node ms = map el_node es" by (rule nth_equalityI) (simp_all add: nth len es(1))
  then have names: "mp_node ` set ms = el_node ` set el" by (metis es(2) list.set_map)
  have "\<exists>n e. n \<in> set (ListNodes db) \<and> node_name n = mp_node (ms ! 0) \<and> eligible_node now cat f comps n = Some e \<and> el_online e"
    using n name i'(2) es(3) nth [of 0] len by (intro exI [of _ n] exI [of _ "es ! 0"]) simp
  moreover have "\<forall>nm \<in> set requested. trim_space nm \<in> mp_node ` set ms" using req by (simp add: names list_all_iff)
  moreover have "\<forall>b \<ge> 1. length (filter (\<lambda>m. mp_batch m = b) ms) \<le> nat bsize" using batch_size_bound [OF assms(2)] by (simp add: ms)
  moreover have "ms \<noteq> []" using len by auto
  ultimately show ?thesis using pos canary by blast
qed

text \<open>Two nodes, the first of them offline; both run an old agent.\<close>

definition ex_asset :: update_asset where
  "ex_asset = \<lparr>as_component = ''agent'', as_version = ''2'', as_url = '''', as_sha256 = '''', as_size = 1\<rparr>"

definition ex_catalog :: catalog where
  "ex_catalog = \<lparr>cat_release = ''2'', cat_assets = (\<lambda>os arch. Some (ex_asset, ex_asset)),
     cat_same_version = (=), cat_payload = (\<lambda>r a b. ex_json)\<rparr>"

definition ex_status :: "string \<Rightarrow> time_arg \<Rightarrow> config_status" where
  "ex_status nid hb = \<lparr>cs_node = nid, cs_agent_version = ''1'', cs_goos = ''linux'', cs_goarch = ''amd64'',
     cs_caps = [''operations.v1'', ''update.agent.v1''], cs_sing_box_version = ''1'', cs_heartbeat = hb\<rparr>"

definition ex_reports :: fleet where
  "ex_reports = \<lparr>fl_statuses = [ex_status ''n1'' TimeBlank, ex_status ''n2'' (TimeAt 0)], fl_tokens = [''osaka'', ''tokyo'']\<rparr>"

lemma ex_plan:
  "buildUpdateCampaignMembers 0 ex_catalog ex_reports ex_fleet [] [''agent''] 2 = Inr
     [\<lparr>mp_node = ''osaka'', mp_position = 0, mp_batch = 0, mp_kind = ''update.agent'', mp_payload = ex_json\<rparr>,
      \<lparr>mp_node = ''tokyo'', mp_position = 1, mp_batch = 1, mp_kind = ''update.agent'', mp_payload = ex_json\<rparr>]"
  by (simp add: buildUpdateCampaignMembers_def ListNodes_def q_ListNodes_def eligible_node_def status_of_def containsCapability_def
      heartbeatIsOnline_def canary_index_def swap_front_def number_members_def batch_of_def List.map_filter_def
      ex_catalog_def ex_reports_def ex_status_def ex_asset_def ex_fleet_def ex_node_def)

theorem campaign_plan_witness:
  "\<exists>n e. n \<in> set (ListNodes ex_fleet) \<and> node_name n = ''osaka'' \<and> eligible_node 0 ex_catalog ex_reports [''agent''] n = Some e \<and> el_online e"
  using campaign_plan [OF ex_plan] by simp

section \<open>Idempotent creation\<close>

lemma same_plan_ident:
  assumes "same_plan r s" and "c \<in> set (db_camps r)"
  shows "\<exists>c' \<in> set (db_camps s). camp_ident c' = camp_ident c"
proof -
  have "camp_ident c \<in> set (map camp_ident (db_camps r))" using assms(2) by simp
  then have "camp_ident c \<in> set (map camp_ident (db_camps s))" using assms(1) by (simp only: same_plan_def)
  then show ?thesis by (metis imageE list.set_map)
qed

lemma create_camps_grow:
  "set (db_camps s) \<subseteq> set (db_camps (snd (CreateNodeUpdateCampaign digest now fr s p)))"
proof -
  have "db_camps s' = db_camps s" if "insert_members now cid ps s = Some s'" for cid ps s' and s :: "'a camp_db_scheme"
    using that by (induction ps arbitrary: s)
      (auto simp: q_CreateNodeUpdateCampaignMember_def split: option.splits if_splits)
  then show ?thesis
    by (auto simp: CreateNodeUpdateCampaign_def q_CreateNodeUpdateCampaign_def split: option.splits sum.splits prod.splits if_splits)
qed

lemma ident_step:
  assumes "camp_step sha digest u v" and "c \<in> set (db_camps (snd u))"
  shows "\<exists>c' \<in> set (db_camps (snd v)). camp_ident c' = camp_ident c"
  using assms
proof cases
  case (step_create_campaign t now s fr p)
  then show ?thesis using create_camps_grow [of s digest now fr p] assms(2) by auto
next
  case (step_reconcile t now cid s fresh)
  then show ?thesis using same_plan_ident [OF plan.reconcile_keeps [of s s now fresh cid]] assms(2) by simp
next
  case (step_cancel_campaign t now cid s)
  then show ?thesis using same_plan_ident [OF plan.adminCancel_keeps [of s s cid now]] assms(2) by simp
next
  case (step_resume_campaign t now cid s fresh)
  then show ?thesis using same_plan_ident [OF plan.adminResume_keeps [of s s cid sha now fresh]] assms(2) by simp
qed auto

lemma ident_run:
  assumes "run (camp_step sha digest) u v" and "camp_inv (snd u)" and "c \<in> set (db_camps (snd u))"
  shows "\<exists>c' \<in> set (db_camps (snd v)). camp_ident c' = camp_ident c"
  using assms(1)
proof (rule camp_sys.run_stable [where Q = "\<lambda>w. \<exists>c' \<in> set (db_camps (snd w)). camp_ident c' = camp_ident c"])
  show "camp_inv (snd u)" by fact
  show "\<exists>c' \<in> set (db_camps (snd u)). camp_ident c' = camp_ident c" using assms(3) by blast
  fix a b
  assume "\<exists>c' \<in> set (db_camps (snd a)). camp_ident c' = camp_ident c" "camp_step sha digest a b"
  then show "\<exists>c' \<in> set (db_camps (snd b)). camp_ident c' = camp_ident c" using ident_step by metis
qed

text \<open>
  Creating a campaign is idempotent under its key. Once a campaign exists, then after any
  further calls a request with its key returns that campaign when it specifies the same
  rollout (the digest agrees) and is refused as a conflict otherwise; it never creates a
  second campaign, and the database is unchanged.
\<close>

theorem create_campaign_idempotent:
  assumes "run (camp_step sha digest) (t, s) (t', s')" and "camp_inv s" and "c \<in> set (db_camps s)"
    and "trim_space (camp_id c) = camp_id c" and "prepare_campaign s' p = Inr (camp_key c, by, spec)"
  shows "if digest spec = camp_spec_hash c
    then \<exists>d. CreateNodeUpdateCampaign digest now fr s' p = (Inr (d, False), s') \<and> camp_id (det_camp d) = camp_id c
    else CreateNodeUpdateCampaign digest now fr s' p = (Inl CampKeyConflict, s')"
proof -
  obtain c' where c': "c' \<in> set (db_camps s')" "camp_id c' = camp_id c" "camp_key c' = camp_key c" "camp_spec_hash c' = camp_spec_hash c"
    using ident_run [OF assms(1), of c] assms(2,3) by (auto simp: camp_ident_def)
  have inv': "camp_inv s'" using camp_sys.run_inv [OF assms(1)] assms(2) by simp
  have "q_GetNodeUpdateCampaignByIdempotencyKey s' (camp_key c) = Some c'"
    using inv' c' sel_key [of camp_key "db_camps s'" c'] by (simp add: q_GetNodeUpdateCampaignByIdempotencyKey_def camp_inv_def plan_inv_def)
  moreover obtain d where "GetNodeUpdateCampaign s' (camp_id c') = Inr d" "det_camp d = c'"
    using finished_detail [OF inv' c'(1)] c'(2) assms(4) by auto
  ultimately show ?thesis
    using assms(5) c' by (simp add: CreateNodeUpdateCampaign_def)
qed

theorem create_campaign_idempotent_witness:
  "\<exists>d. CreateNodeUpdateCampaign ex_digest_of 9 ''c2'' ex_fleet1 ex_camp_params = (Inr (d, False), ex_fleet1) \<and> camp_id (det_camp d) = ''c1''"
proof -
  have c: "ex_camp \<in> set (db_camps ex_fleet1)" "camp_id ex_camp = ''c1''" "camp_key ex_camp = ''k1''" "camp_spec_hash ex_camp = ''ab''"
    by (simp_all add: ex_fleet1_def ex_camp_def new_camp_def)
  have inv: "camp_inv ex_fleet1"
    using camp_sys.run_inv [OF ex_camp_run] camp_inv_empty [OF ex_fleet_empty(1-3)] by simp
  obtain spec where "prepare_campaign ex_fleet1 ex_camp_params = Inr (''k1'', ''admin'', spec)"
    by (simp add: prepare_campaign_def Let_def normalizeCampaignComponents_def is_component_def node_query_defs
      update_kind_def normalizeJSONObject_def ex_camp_defs)
  then show ?thesis
    using create_campaign_idempotent [OF run.run_refl inv c(1), of ex_camp_params "''admin''" spec ex_digest_of 9 "''c2''"] c
    by (simp add: ex_digest_of_def)
qed

end
