(* ===== verification/Node_Registry.thy ===== *)
theory Node_Registry
  imports Nodes
begin

text \<open>
  Node identity: \<open>renameNodeTx\<close> and \<open>RenameNode\<close> of \<open>internal/server/db/nodes.go\<close>, which
  keep a node's earlier names as aliases, and the host list of a node (\<open>normalizeNodeHosts\<close>,
  \<open>ensureNodeHostIDs\<close>), whose entries keep their identity when the list is edited.
\<close>

section \<open>Queries\<close>

definition alias_owner :: "'a node_db_scheme \<Rightarrow> string \<Rightarrow> string option" where
  "alias_owner db nm = map_option snd (sel (\<lambda>a. fst a = nm) (db_aliases db))"

definition q_GetNodeIDByNameOrAlias :: "'a node_db_scheme \<Rightarrow> string \<Rightarrow> string option" where
  "q_GetNodeIDByNameOrAlias db nm =
     map_option node_id
       (sel (\<lambda>n. (node_id n = nm \<or> node_name n = nm \<or> Some (node_id n) = alias_owner db nm)
                 \<and> node_deleted_at n = None) (db_nodes db))"

definition q_DeleteNodeNameAlias :: "'a node_db_scheme \<Rightarrow> string \<Rightarrow> string \<Rightarrow> 'a node_db_scheme" where
  "q_DeleteNodeNameAlias db al i =
     db\<lparr>db_aliases := filter (\<lambda>a. \<not> (fst a = al \<and> snd a = i)) (db_aliases db)\<rparr>"

text \<open>The alias is the primary key, and its node must exist.\<close>

definition q_CreateNodeNameAlias :: "'a node_db_scheme \<Rightarrow> string \<Rightarrow> string \<Rightarrow> 'a node_db_scheme option" where
  "q_CreateNodeNameAlias db al i =
     (if al \<in> fst ` set (db_aliases db) \<or> i \<notin> node_id ` set (db_nodes db) then None
      else Some (db\<lparr>db_aliases := db_aliases db @ [(al, i)]\<rparr>))"

text \<open>Names of live nodes are unique (\<open>idx_nodes_active_name\<close>).\<close>

definition q_RenameNodeByID ::
  "instant \<Rightarrow> 'a node_db_scheme \<Rightarrow> string \<Rightarrow> string \<Rightarrow> ('a node_db_scheme \<times> nat) option" where
  "q_RenameNodeByID now db nm i =
     (let rows = filter (\<lambda>n. node_id n = i) (db_nodes db) in
      if list_ex (\<lambda>n. node_deleted_at n = None) rows
         \<and> list_ex (\<lambda>n. node_id n \<noteq> i \<and> node_deleted_at n = None \<and> node_name n = nm) (db_nodes db)
      then None
      else Some (db\<lparr>db_nodes := upd (\<lambda>n. node_id n = i)
                      (\<lambda>n. n\<lparr>node_name := nm, node_updated_at := sql_now now\<rparr>) (db_nodes db)\<rparr>, length rows))"

section \<open>Renaming\<close>

datatype node_error =
    NodeNameRequired | NewNameRequired | NameForbidden | NodeNotFound | NameInUse | NodeConstraint
  | UnexpectedRecord

fun contains :: "string \<Rightarrow> string \<Rightarrow> bool" where
  "contains [] p = has_prefix [] p"
| "contains (c # cs) p = (has_prefix (c # cs) p \<or> contains cs p)"

definition validateNameForAuth :: "string \<Rightarrow> bool" where
  "validateNameForAuth nm \<longleftrightarrow> \<not> contains nm ''@'' \<and> \<not> contains nm ''>>>''"

definition renameNodeTx ::
  "instant \<Rightarrow> 'a node_db_scheme \<Rightarrow> string \<Rightarrow> string \<Rightarrow> string \<Rightarrow> node_error + 'a node_db_scheme" where
  "renameNodeTx now db i cur new =
     (if cur = new then Inr db else
      bind_res (case q_GetNodeIDByNameOrAlias db new of
                  None \<Rightarrow> Inr db
                | Some owner \<Rightarrow> if owner \<noteq> i then Inl NameInUse else Inr (q_DeleteNodeNameAlias db new i)) (\<lambda>db1.
      case q_CreateNodeNameAlias db1 cur i of
        None \<Rightarrow> Inl NodeConstraint
      | Some db2 \<Rightarrow>
        (case q_RenameNodeByID now db2 new i of
           None \<Rightarrow> Inl NodeConstraint
         | Some (db3, affected) \<Rightarrow> if affected = 0 then Inl NodeNotFound else Inr db3)))"

text \<open>The transaction rolls back on an error; the checks after it run on the committed state.\<close>

definition RenameNode ::
  "instant \<Rightarrow> 'a node_db_scheme \<Rightarrow> string \<Rightarrow> string \<Rightarrow> (node_error + node_row) \<times> 'a node_db_scheme" where
  "RenameNode now db old_name new_name =
     (let old = normalizeName old_name; new = normalizeName new_name in
      if old = '''' then (Inl NodeNameRequired, db) else
      if new = '''' then (Inl NewNameRequired, db) else
      if \<not> validateNameForAuth new then (Inl NameForbidden, db) else
      case resolveNode db old of
        None \<Rightarrow> (Inl NodeNotFound, db)
      | Some n \<Rightarrow>
        (case (if node_name n = new then Inr db else renameNodeTx now db (node_id n) (node_name n) new) of
           Inl e \<Rightarrow> (Inl e, db)
         | Inr db' \<Rightarrow>
           (case GetNode db' new of
              None \<Rightarrow> (Inl NodeNotFound, db')
            | Some m \<Rightarrow> if node_id m \<noteq> node_id n then (Inl UnexpectedRecord, db') else (Inr m, db'))))"

section \<open>Hosts\<close>

datatype host_error = HostRequired | HostIdDuplicated

fun norm_hosts :: "string list \<Rightarrow> node_host list \<Rightarrow> node_host list" where
  "norm_hosts seen [] = []"
| "norm_hosts seen (h # hs) =
     (let host = trim_space (host_addr h) in
      if host = '''' \<or> host \<in> set seen then norm_hosts seen hs
      else \<lparr>host_id = trim_space (host_id h), host_addr = host, host_tag = trim_space (host_tag h),
            host_selected = host_selected h\<rparr> # norm_hosts (host # seen) hs)"

definition normalizeNodeHosts :: "node_host list \<Rightarrow> host_error + node_host list" where
  "normalizeNodeHosts hosts =
     (case norm_hosts [] hosts of
        [] \<Rightarrow> Inl HostRequired
      | h # hs \<Rightarrow> Inr (if list_ex host_selected (h # hs) then h # hs else h\<lparr>host_selected := True\<rparr> # hs))"

text \<open>\<open>existingByHost\<close>: the last entry of an address wins; a missing key reads as the empty string.\<close>

fun existing_by_host :: "node_host list \<Rightarrow> string \<Rightarrow> string" where
  "existing_by_host [] = (\<lambda>_. '''')"
| "existing_by_host (h # hs) =
     (\<lambda>a. let later = existing_by_host hs a in
          if later \<noteq> '''' then later else if host_addr h = a then host_id h else '''')"

text \<open>The first loop: explicit ids and exact address matches.\<close>

fun match_hosts :: "(string \<Rightarrow> string) \<Rightarrow> string list \<Rightarrow> node_host list \<Rightarrow> host_error + (node_host list \<times> string list)" where
  "match_hosts ids seen [] = Inr ([], seen)"
| "match_hosts ids seen (h # hs) =
     (let h' = (if host_id h = '''' then h\<lparr>host_id := ids (host_addr h)\<rparr> else h) in
      if host_id h' = '''' then bind_res (match_hosts ids seen hs) (\<lambda>(r, s). Inr (h' # r, s))
      else if host_id h' \<in> set seen then Inl HostIdDuplicated
      else bind_res (match_hosts ids (host_id h' # seen) hs) (\<lambda>(r, s). Inr (h' # r, s)))"

text \<open>
  The second loop: an id by position in the old list, or a new one. \<open>fresh\<close> gives the id
  that \<open>id.New\<close> returns for the host at a position.
\<close>

fun fill_hosts :: "(nat \<Rightarrow> string) \<Rightarrow> node_host list \<Rightarrow> nat \<Rightarrow> string list \<Rightarrow> node_host list \<Rightarrow> node_host list" where
  "fill_hosts fresh old i seen [] = []"
| "fill_hosts fresh old i seen (h # hs) =
     (if host_id h \<noteq> '''' then h # fill_hosts fresh old (Suc i) seen hs
      else
        let pos = (if i < length old \<and> host_id (old ! i) \<notin> set seen then host_id (old ! i) else '''');
            new = (if pos = '''' then fresh i else pos)
        in h\<lparr>host_id := new\<rparr> # fill_hosts fresh old (Suc i) (new # seen) hs)"

definition ensureNodeHostIDs :: "(nat \<Rightarrow> string) \<Rightarrow> node_host list \<Rightarrow> node_host list \<Rightarrow> host_error + node_host list" where
  "ensureNodeHostIDs fresh hosts old =
     bind_res (match_hosts (existing_by_host old) [] hosts) (\<lambda>(hs, seen).
       Inr (fill_hosts fresh old 0 seen hs))"

section \<open>References\<close>

text \<open>
  A reference denotes a live node through its id, its name or an alias. The registry is well
  formed when ids and aliases are keys and no reference denotes two live nodes.
\<close>

definition denotes :: "'a node_db_scheme \<Rightarrow> string \<Rightarrow> string \<Rightarrow> bool" where
  "denotes db r i \<longleftrightarrow> (\<exists>n \<in> set (db_nodes db). node_id n = i \<and> node_deleted_at n = None
     \<and> (i = r \<or> node_name n = r \<or> alias_owner db r = Some i))"

definition registry_ok :: "'a node_db_scheme \<Rightarrow> bool" where
  "registry_ok db \<longleftrightarrow> distinct (map node_id (db_nodes db)) \<and> distinct (map fst (db_aliases db))
     \<and> (\<forall>r i j. denotes db r i \<and> denotes db r j \<longrightarrow> i = j)"

lemma registry_ok_cong:
  assumes "db_nodes db' = db_nodes db" and "db_aliases db' = db_aliases db"
  shows "registry_ok db' \<longleftrightarrow> registry_ok db"
  unfolding registry_ok_def denotes_def alias_owner_def assms ..

lemma alias_owner_iff:
  "distinct (map fst (db_aliases db)) \<Longrightarrow> alias_owner db r = Some i \<longleftrightarrow> (r, i) \<in> set (db_aliases db)"
  using sel_key [of fst "db_aliases db" "(r, i)"]
  by (auto simp: alias_owner_def dest!: sel_SomeD)

lemma id_row_unique:
  "registry_ok db \<Longrightarrow> n \<in> set (db_nodes db) \<Longrightarrow> m \<in> set (db_nodes db) \<Longrightarrow> node_id n = node_id m \<Longrightarrow> n = m"
  by (auto simp: registry_ok_def distinct_map dest: inj_onD)

lemma get_by_name:
  "q_GetNodeByName db nm =
     sel (\<lambda>n. node_deleted_at n = None \<and> (node_name n = nm \<or> alias_owner db nm = Some (node_id n))) (db_nodes db)"
  by (simp add: q_GetNodeByName_def alias_owner_def eq_commute [of "Some _"])

text \<open>Resolution finds what a reference denotes, unless a deleted row has the reference as its id.\<close>

lemma GetNode_denotes:
  assumes "GetNode db r = Some n"
  shows "denotes db (normalizeName r) (node_id n) \<and> n \<in> set (db_nodes db) \<and> node_deleted_at n = None"
proof -
  have "n \<in> set (db_nodes db)" "node_deleted_at n = None" using GetNode_SomeD [OF assms] by auto
  moreover have "node_id n = normalizeName r \<or> node_name n = normalizeName r \<or> alias_owner db (normalizeName r) = Some (node_id n)"
    using assms
    by (auto simp: GetNode_def resolveNode_def q_GetNodeByIDIncludingDeleted_def get_by_name Let_def
        dest!: sel_SomeD split: option.splits if_splits)
  ultimately show ?thesis by (auto simp: denotes_def)
qed

lemma denotes_GetNode:
  assumes "registry_ok db" and "denotes db (normalizeName r) i"
    and "\<forall>m \<in> set (db_nodes db). node_id m = normalizeName r \<longrightarrow> node_deleted_at m = None"
  shows "\<exists>n. GetNode db r = Some n \<and> node_id n = i"
proof -
  have ex: "\<exists>m. GetNode db r = Some m"
  proof (cases "q_GetNodeByIDIncludingDeleted db (normalizeName r)")
    case (Some m)
    then have "node_deleted_at m = None"
      using assms(3) by (auto simp: q_GetNodeByIDIncludingDeleted_def dest!: sel_SomeD)
    then show ?thesis using Some by (simp add: GetNode_def resolveNode_def)
  next
    case None
    then have "q_GetNodeByName db (normalizeName r) \<noteq> None"
      using assms(2)
      by (auto simp: q_GetNodeByIDIncludingDeleted_def get_by_name denotes_def sel_None_iff)
    then show ?thesis using None by (auto simp: GetNode_def resolveNode_def)
  qed
  then show ?thesis using GetNode_denotes assms(1,2) unfolding registry_ok_def by blast
qed

lemma GetNode_ids:
  assumes "GetNode db r = Some n" and "registry_ok db" and "m \<in> set (db_nodes db)" and "node_id m = normalizeName r"
  shows "node_deleted_at m = None"
proof (rule ccontr)
  assume "node_deleted_at m \<noteq> None"
  moreover have "q_GetNodeByIDIncludingDeleted db (normalizeName r) = Some m"
    using assms(2-4) sel_key [of node_id "db_nodes db" m]
    by (simp add: q_GetNodeByIDIncludingDeleted_def registry_ok_def)
  ultimately show False using assms(1) by (simp add: GetNode_def resolveNode_def)
qed

section \<open>The effect of a rename\<close>

lemma owner_denotes: "q_GetNodeIDByNameOrAlias db nm = Some i \<Longrightarrow> denotes db nm i"
  by (auto simp: q_GetNodeIDByNameOrAlias_def denotes_def dest!: sel_SomeD)

lemma no_owner: "q_GetNodeIDByNameOrAlias db nm = None \<Longrightarrow> \<not> denotes db nm i"
  by (auto simp: q_GetNodeIDByNameOrAlias_def denotes_def sel_None_iff)


lemma rename_effect:
  assumes "renameNodeTx now db i cur new = Inr db'" and "registry_ok db"
    and "n \<in> set (db_nodes db)" and "node_id n = i" and "node_deleted_at n = None" and "node_name n = cur"
  shows "denotes db' r k \<longleftrightarrow> denotes db r k \<or> (r = new \<and> k = i)"
    and "distinct (map fst (db_aliases db'))"
    and "map node_id (db_nodes db') = map node_id (db_nodes db)"
    and "\<forall>m' \<in> set (db_nodes db'). \<exists>m \<in> set (db_nodes db). node_id m' = node_id m \<and> node_deleted_at m' = node_deleted_at m"
    and "cur \<noteq> new \<Longrightarrow> \<exists>m' \<in> set (db_nodes db'). node_id m' = i \<and> node_name m' = new \<and> node_deleted_at m' = None"
proof -
  have keys: "distinct (map fst (db_aliases db))" and ids: "distinct (map node_id (db_nodes db))"
    using assms(2) by (simp_all add: registry_ok_def)
  have cur: "denotes db cur i" using assms(3-6) by (auto simp: denotes_def)
  let ?al = "filter (\<lambda>a. \<not> (fst a = new \<and> snd a = i)) (db_aliases db)"
  let ?ns = "upd (\<lambda>n. node_id n = i) (\<lambda>n. n\<lparr>node_name := new, node_updated_at := sql_now now\<rparr>) (db_nodes db)"
  have main: "cur = new \<and> db' = db \<or> cur \<noteq> new \<and> db_nodes db' = ?ns \<and> db_aliases db' = ?al @ [(cur, i)]
      \<and> cur \<notin> fst ` set ?al \<and> (\<forall>k. denotes db new k \<longrightarrow> k = i)"
  proof (cases "cur = new")
    case False
    have free: "\<forall>k. denotes db new k \<longrightarrow> k = i"
      using False assms(1,2) owner_denotes [of db new] no_owner [of db new]
      unfolding renameNodeTx_def registry_ok_def
      by (cases "q_GetNodeIDByNameOrAlias db new") (auto split: if_splits)
    have "?al = db_aliases db" if "q_GetNodeIDByNameOrAlias db new = None"
    proof -
      have "alias_owner db new \<noteq> Some i" using no_owner [OF that, of i] assms(3-5) by (auto simp: denotes_def)
      then show ?thesis using alias_owner_iff [OF keys, of new i] by (auto intro!: filter_True)
    qed
    then show ?thesis
      using False free assms(1)
      by (auto simp: renameNodeTx_def q_DeleteNodeNameAlias_def q_CreateNodeNameAlias_def q_RenameNodeByID_def Let_def
          split: option.splits if_splits)
  qed (use assms(1) in \<open>simp add: renameNodeTx_def\<close>)
  show 2: "distinct (map fst (db_aliases db'))"
    using main keys by (auto simp: distinct_map_filter)
  show "map node_id (db_nodes db') = map node_id (db_nodes db)"
    using main by (auto simp: upd_def)
  show "\<forall>m' \<in> set (db_nodes db'). \<exists>m \<in> set (db_nodes db). node_id m' = node_id m \<and> node_deleted_at m' = node_deleted_at m"
    using main by (fastforce simp: set_upd)
  show "\<exists>m' \<in> set (db_nodes db'). node_id m' = i \<and> node_name m' = new \<and> node_deleted_at m' = None" if "cur \<noteq> new"
    using main that assms(3-5)
    by (auto simp: upd_def intro!: bexI [of _ "n\<lparr>node_name := new, node_updated_at := sql_now now\<rparr>"] image_eqI [of _ _ n])
  show "denotes db' r k \<longleftrightarrow> denotes db r k \<or> (r = new \<and> k = i)"
  proof (cases "cur = new")
    case True
    then show ?thesis using main cur by auto
  next
    case False
    then have ns: "db_nodes db' = ?ns" and al: "db_aliases db' = ?al @ [(cur, i)]"      using main by auto
    have own: "alias_owner db' r = Some k \<longleftrightarrow>
        (r, k) \<in> set (db_aliases db) \<and> (r, k) \<noteq> (new, i) \<or> (r, k) = (cur, i)" for k
      using alias_owner_iff [OF 2] by (auto simp: al)
    have live: "denotes db' r k \<longleftrightarrow> (\<exists>m \<in> set (db_nodes db). node_id m = k \<and> node_deleted_at m = None
        \<and> (k = r \<or> (if k = i then new else node_name m) = r \<or> alias_owner db' r = Some k))" for k
      unfolding denotes_def ns set_upd bex_simps by (rule bex_cong [OF refl]) auto
    show ?thesis
    proof (cases "k = i")
      case True
      have row: "(\<exists>m \<in> set (db_nodes db). node_id m = i \<and> Q m) \<longleftrightarrow> Q n" for Q
        using distinct_key_eq [OF ids _ assms(3)] assms(3) unfolding assms(4) [symmetric] by (auto 4 3)
      have "denotes db r i \<longleftrightarrow> i = r \<or> cur = r \<or> (r, i) \<in> set (db_aliases db)"
        unfolding denotes_def row alias_owner_iff [OF keys] using assms(5,6) by simp
      moreover have "denotes db' r i \<longleftrightarrow> i = r \<or> new = r \<or> alias_owner db' r = Some i"
        unfolding live row using assms(5) by simp
      ultimately show ?thesis unfolding True own by auto
    next
      case other: False
      then have "alias_owner db' r = Some k \<longleftrightarrow> alias_owner db r = Some k"
        unfolding own alias_owner_iff [OF keys] by simp
      then show ?thesis unfolding live using other by (simp add: denotes_def)
    qed
  qed
qed


lemma rename_registry_ok:
  assumes "renameNodeTx now db i cur new = Inr db'" and "registry_ok db"
    and "n \<in> set (db_nodes db)" and "node_id n = i" and "node_deleted_at n = None" and "node_name n = cur"
  shows "registry_ok db'"
proof -
  note eff = rename_effect [OF assms]
  have only: "k = i" if "denotes db new k" for k
  proof (cases "cur = new")
    case True
    then have "denotes db new i" using assms(3-6) by (auto simp: denotes_def)
    then show ?thesis using that assms(2) by (auto simp: registry_ok_def)
  next
    case False
    then show ?thesis
      using assms(1,2) that owner_denotes [of db new] no_owner [of db new]
      unfolding renameNodeTx_def registry_ok_def
      by (cases "q_GetNodeIDByNameOrAlias db new") (auto split: if_splits)
  qed
  then show ?thesis
    using assms(2) unfolding registry_ok_def eff(1,3) using eff(2) by blast
qed


lemma RenameNode_cases:
  "snd (RenameNode now db old new) = db
   \<or> (\<exists>n db'. GetNode db (normalizeName old) = Some n
        \<and> renameNodeTx now db (node_id n) (node_name n) (normalizeName new) = Inr db' \<and> snd (RenameNode now db old new) = db')"
  by (auto simp: RenameNode_def GetNode_def Let_def split: sum.split option.split)

lemma RenameNode_ok: "registry_ok db \<Longrightarrow> registry_ok (snd (RenameNode now db old new))"
  using RenameNode_cases [of now db old new] rename_registry_ok [of now db] GetNode_denotes by metis

lemma renameNodeTx_frame: "renameNodeTx now db i cur new = Inr db' \<Longrightarrow> \<exists>ns al. db' = db\<lparr>db_nodes := ns, db_aliases := al\<rparr>"
  by (auto simp: renameNodeTx_def q_DeleteNodeNameAlias_def q_CreateNodeNameAlias_def q_RenameNodeByID_def Let_def
      split: if_splits option.splits intro!: exI [of _ "db_nodes db'"] exI [of _ "db_aliases db'"])

lemma RenameNode_frame: "\<exists>ns al. snd (RenameNode now db old new) = db\<lparr>db_nodes := ns, db_aliases := al\<rparr>"
proof -
  have "db = db\<lparr>db_nodes := db_nodes db, db_aliases := db_aliases db\<rparr>" by simp
  then show ?thesis using RenameNode_cases [of now db old new] renameNodeTx_frame by metis
qed

text \<open>
  C19: A rename keeps every reference. Whatever its outcome, in a well-formed registry every
  id, name or alias that resolved to a node still resolves to that node afterwards, so agents
  and operators may go on using old names; the registry stays well formed; a success returns
  the node that the old reference denoted, under the new name; and the final check for an
  unexpected record never fires.
\<close>

theorem rename_keeps_references:
  assumes "RenameNode now db old new = (res, db')" and "registry_ok db"
  shows "registry_ok db'
    \<and> (\<forall>r m. GetNode db r = Some m \<longrightarrow> (\<exists>m'. GetNode db' r = Some m' \<and> node_id m' = node_id m))
    \<and> res \<noteq> Inl UnexpectedRecord
    \<and> (\<forall>n. res = Inr n \<longrightarrow> GetNode db' (normalizeName new) = Some n \<and> node_name n = normalizeName new
          \<and> map_option node_id (GetNode db (normalizeName old)) = Some (node_id n))"
proof (cases "db' = db \<and> (\<forall>n. res \<noteq> Inr n) \<and> res \<noteq> Inl UnexpectedRecord")
  case True
  then show ?thesis using assms(2) by auto
next
  case False
  then obtain n where n: "resolveNode db (normalizeName old) = Some n"
    and tx: "renameNodeTx now db (node_id n) (node_name n) (normalizeName new) = Inr db'"
    and res: "res = (case GetNode db' (normalizeName new) of None \<Rightarrow> Inl NodeNotFound
                     | Some m \<Rightarrow> if node_id m \<noteq> node_id n then Inl UnexpectedRecord else Inr m)"
    using assms(1)
    by (auto simp: RenameNode_def Let_def renameNodeTx_def split: if_splits option.splits sum.splits)
  have get: "GetNode db (normalizeName old) = Some n" using n by (simp add: GetNode_def)
  then have live: "n \<in> set (db_nodes db)" "node_deleted_at n = None" using GetNode_denotes by blast+
  note eff = rename_effect [OF tx assms(2) live(1) refl live(2) refl]
  have ok: "registry_ok db'" by (rule rename_registry_ok [OF tx assms(2) live(1) refl live(2) refl])
  have keep: "\<exists>m'. GetNode db' r = Some m' \<and> node_id m' = node_id m" if "GetNode db r = Some m" for r m
  proof (rule denotes_GetNode [OF ok])
    show "denotes db' (normalizeName r) (node_id m)"
      using GetNode_denotes [OF that] by (simp add: eff(1))
    show "\<forall>m \<in> set (db_nodes db'). node_id m = normalizeName r \<longrightarrow> node_deleted_at m = None"
      using eff(4) GetNode_ids [OF that assms(2)] by fastforce
  qed
  have new: "node_id m = node_id n \<and> node_name m = normalizeName new" if m: "GetNode db' (normalizeName new) = Some m" for m
  proof -
    have tr: "normalizeName (normalizeName new) = normalizeName new" by (simp add: normalizeName_def trim_space_idem)
    then have "denotes db' (normalizeName new) (node_id m)" using GetNode_denotes [OF m] by simp
    moreover have "denotes db' (normalizeName new) (node_id n)" using eff(1) by blast
    ultimately have id: "node_id m = node_id n" using ok unfolding registry_ok_def by blast
    have "\<exists>m' \<in> set (db_nodes db'). node_id m' = node_id n \<and> node_name m' = normalizeName new"
    proof (cases "node_name n = normalizeName new")
      case True
      then have "db' = db" using tx by (simp add: renameNodeTx_def)
      then show ?thesis using True live(1) by auto
    next
      case False
      then show ?thesis using eff(5) by blast
    qed
    then show ?thesis using id id_row_unique [OF ok] GetNode_denotes [OF m] by metis
  qed
  have "res \<noteq> Inl UnexpectedRecord \<and> (\<forall>m. res = Inr m \<longrightarrow> GetNode db' (normalizeName new) = Some m)"
    unfolding res by (cases "GetNode db' (normalizeName new)") (auto dest: new)
  moreover have "map_option node_id (GetNode db (normalizeName old)) = Some (node_id n)" by (simp add: get)
  ultimately show ?thesis using ok keep new by metis
qed


section \<open>Host identities\<close>

lemma norm_hosts_addrs:
  "distinct (map host_addr (norm_hosts seen hs)) \<and> '''' \<notin> host_addr ` set (norm_hosts seen hs)
   \<and> set seen \<inter> host_addr ` set (norm_hosts seen hs) = {}"
  by (induction seen hs rule: norm_hosts.induct) (auto simp: Let_def)

lemma normalizeNodeHosts_ok:
  assumes "normalizeNodeHosts input = Inr hosts"
  shows "hosts \<noteq> [] \<and> distinct (map host_addr hosts) \<and> '''' \<notin> host_addr ` set hosts \<and> list_ex host_selected hosts"
proof (cases "norm_hosts [] input")
  case (Cons h hs)
  then have "hosts = (if list_ex host_selected (h # hs) then h # hs else h\<lparr>host_selected := True\<rparr> # hs)"
    using assms by (simp add: normalizeNodeHosts_def)
  then show ?thesis using norm_hosts_addrs [of "[]" input] unfolding Cons by auto
qed (use assms in \<open>simp add: normalizeNodeHosts_def\<close>)

definition matched :: "(string \<Rightarrow> string) \<Rightarrow> node_host \<Rightarrow> node_host" where
  "matched ids h = (if host_id h = '''' then h\<lparr>host_id := ids (host_addr h)\<rparr> else h)"

abbreviation set_ids :: "node_host list \<Rightarrow> string list" where
  "set_ids hs \<equiv> filter (\<lambda>x. x \<noteq> '''') (map host_id hs)"

lemma match_hosts_Cons:
  "match_hosts ids seen (h # hs) =
     (if host_id (matched ids h) = '''' then bind_res (match_hosts ids seen hs) (\<lambda>(r, s). Inr (matched ids h # r, s))
      else if host_id (matched ids h) \<in> set seen then Inl HostIdDuplicated
      else bind_res (match_hosts ids (host_id (matched ids h) # seen) hs) (\<lambda>(r, s). Inr (matched ids h # r, s)))"
  by (simp add: matched_def Let_def)

lemma match_hosts_ok:
  assumes "match_hosts ids seen hs = Inr (r, s)"
  shows "r = map (matched ids) hs \<and> distinct (set_ids r) \<and> (\<forall>x \<in> set (set_ids r). x \<notin> set seen)
    \<and> set s = set (set_ids r) \<union> set seen"
  using assms
proof (induction hs arbitrary: seen r s)
  case (Cons h hs)
  let ?i = "host_id (matched ids h)"
  let ?seen = "if ?i = '''' then seen else ?i # seen"
  obtain r' where r': "match_hosts ids ?seen hs = Inr (r', s)" "r = matched ids h # r'" and new: "?i = '''' \<or> ?i \<notin> set seen"
    using Cons.prems unfolding match_hosts_Cons by (auto simp: bind_res_Inr_iff split: if_splits)
  note IH = Cons.IH [OF r'(1)]
  have seen': "\<forall>x \<in> set (set_ids r'). x \<notin> set ?seen" using IH by blast
  have "?i = '''' \<or> ?i \<notin> set (set_ids r')"
  proof (cases "?i = ''''")
    case False
    then have "?i \<in> set ?seen" by simp
    then show ?thesis using seen' by blast
  qed simp
  moreover have "\<forall>x \<in> set (set_ids r'). x \<notin> set seen" using seen' by (simp split: if_splits)
  moreover have "set s = set (set_ids r) \<union> set seen" using IH unfolding r'(2) by auto
  ultimately show ?case using IH new unfolding r'(2) by auto
qed simp

lemma fill_hosts_frame:
  "length (fill_hosts fresh old i seen hs) = length hs
   \<and> map host_addr (fill_hosts fresh old i seen hs) = map host_addr hs
   \<and> map host_selected (fill_hosts fresh old i seen hs) = map host_selected hs
   \<and> (\<forall>j < length hs. host_id (hs ! j) \<noteq> '''' \<longrightarrow> host_id (fill_hosts fresh old i seen hs ! j) = host_id (hs ! j))"
  by (induction fresh old i seen hs rule: fill_hosts.induct) (auto simp: Let_def less_Suc_eq_0_disj)

text \<open>What the id generator promises: new ids are not empty, distinct and not in use.\<close>

definition fresh_ids :: "(nat \<Rightarrow> string) \<Rightarrow> string set \<Rightarrow> nat set \<Rightarrow> bool" where
  "fresh_ids fresh used js \<longleftrightarrow> inj_on fresh js \<and> (\<forall>j \<in> js. fresh j \<noteq> '''' \<and> fresh j \<notin> used)"

lemma fill_hosts_distinct:
  assumes "distinct (set_ids hs)" and "set (set_ids hs) \<subseteq> set seen"
    and "fresh_ids fresh (set seen \<union> host_id ` set old) {i..<i + length hs}"
  shows "distinct (map host_id (fill_hosts fresh old i seen hs))
    \<and> '''' \<notin> host_id ` set (fill_hosts fresh old i seen hs)
    \<and> (\<forall>x \<in> set (fill_hosts fresh old i seen hs). host_id x \<in> set seen \<longrightarrow> host_id x \<in> set (set_ids hs))"
  using assms
proof (induction fresh old i seen hs rule: fill_hosts.induct)
  case (2 fresh old i seen h hs)
  have sub: "inj_on fresh {Suc i..<Suc i + length hs}"
    using "2.prems"(3) unfolding fresh_ids_def by (auto intro: inj_on_subset)
  show ?case
  proof (cases "host_id h = ''''")
    case False
    have "fresh_ids fresh (set seen \<union> host_id ` set old) {Suc i..<Suc i + length hs}"
      using "2.prems"(3) sub by (auto simp: fresh_ids_def)
    moreover have "distinct (set_ids hs)" "set (set_ids hs) \<subseteq> set seen" using "2.prems"(1,2) False by auto
    ultimately show ?thesis using "2.IH"(1) [OF False] "2.prems"(1,2) False by auto
  next
    case True
    define pos where "pos = (if i < length old \<and> host_id (old ! i) \<notin> set seen then host_id (old ! i) else '''')"
    define new where "new = (if pos = '''' then fresh i else pos)"
    have eq: "fill_hosts fresh old i seen (h # hs) = h\<lparr>host_id := new\<rparr> # fill_hosts fresh old (Suc i) (new # seen) hs"
      using True by (simp add: pos_def new_def Let_def)
    have fi: "fresh i \<noteq> ''''" "fresh i \<notin> set seen" using "2.prems"(3) by (auto simp: fresh_ids_def)
    have new: "new \<noteq> ''''" "new \<notin> set seen" using fi by (auto simp: new_def pos_def split: if_splits)
    have "new = fresh i \<or> new \<in> host_id ` set old" by (auto simp: new_def pos_def)
    then have "fresh_ids fresh (set (new # seen) \<union> host_id ` set old) {Suc i..<Suc i + length hs}"
      using "2.prems"(3) sub unfolding fresh_ids_def inj_on_def by fastforce
    moreover have "distinct (set_ids hs)" "set (set_ids hs) \<subseteq> set (new # seen)" using "2.prems"(1,2) True by auto
    ultimately have IH: "distinct (map host_id (fill_hosts fresh old (Suc i) (new # seen) hs))
        \<and> '''' \<notin> host_id ` set (fill_hosts fresh old (Suc i) (new # seen) hs)
        \<and> (\<forall>x \<in> set (fill_hosts fresh old (Suc i) (new # seen) hs). host_id x \<in> set (new # seen) \<longrightarrow> host_id x \<in> set (set_ids hs))"
      using True by (intro "2.IH"(2) [OF _ pos_def new_def]) simp_all
    have "set (set_ids hs) \<subseteq> set seen" using "2.prems"(2) True by auto
    then have "new \<notin> host_id ` set (fill_hosts fresh old (Suc i) (new # seen) hs)" using IH new(2) by fastforce
    then show ?thesis using IH new True unfolding eq by auto
  qed
qed simp


lemma existing_by_host_match:
  assumes "distinct (map host_addr old)" and "x \<in> set old"
  shows "existing_by_host old (host_addr x) = host_id x"
proof -
  have none: "existing_by_host hs a = ''''" if "a \<notin> host_addr ` set hs" for hs a
    using that by (induction hs) (auto simp: Let_def)
  show ?thesis using assms by (induction old) (auto simp: none Let_def)
qed


text \<open>
  Host identity. When a node's host list is replaced, the stored list has the
  normalized addresses in order, all distinct and not empty, with at least one selected; every
  entry has an id and no two share one; an entry sent with an id keeps it, and an entry sent
  without one whose address was already known keeps the id that address had.
\<close>

theorem host_identities:
  assumes "normalizeNodeHosts input = Inr hosts" and "ensureNodeHostIDs fresh hosts old = Inr hs"
    and "fresh_ids fresh (host_id ` set hosts \<union> host_id ` set old) {0..<length hosts}"
  shows "map host_addr hs = map host_addr hosts \<and> distinct (map host_addr hs) \<and> '''' \<notin> host_addr ` set hs
    \<and> (\<exists>h \<in> set hs. host_selected h)
    \<and> distinct (map host_id hs) \<and> '''' \<notin> host_id ` set hs
    \<and> (\<forall>j < length hosts. host_id (hosts ! j) \<noteq> '''' \<longrightarrow> host_id (hs ! j) = host_id (hosts ! j))
    \<and> (\<forall>j < length hosts. \<forall>x \<in> set old. distinct (map host_addr old) \<and> host_id (hosts ! j) = ''''
          \<and> host_addr x = host_addr (hosts ! j) \<and> host_id x \<noteq> '''' \<longrightarrow> host_id (hs ! j) = host_id x)"
proof -
  let ?ids = "existing_by_host old"
  obtain r seen where mt: "match_hosts ?ids [] hosts = Inr (r, seen)" and hs: "hs = fill_hosts fresh old 0 seen r"
    using assms(2) by (auto simp: ensureNodeHostIDs_def bind_res_Inr_iff)
  note m = match_hosts_ok [OF mt]
  have r: "r = map (matched ?ids) hosts" using m by simp
  note fr = fill_hosts_frame [of fresh old 0 seen r]
  have ids: "existing_by_host hs' a = '''' \<or> existing_by_host hs' a \<in> host_id ` set hs'" for hs' a
    by (induction hs') (auto simp: Let_def)
  have "set seen \<subseteq> host_id ` set hosts \<union> host_id ` set old"
    using m ids [of old] unfolding r by (fastforce simp: matched_def split: if_splits)
  then have fi: "fresh_ids fresh (set seen \<union> host_id ` set old) {0..<0 + length r}"
    using assms(3) m unfolding fresh_ids_def by auto
  have d: "distinct (map host_id hs) \<and> '''' \<notin> host_id ` set hs"
  proof -
    have "distinct (set_ids r)" "set (set_ids r) \<subseteq> set seen" using m by blast+
    then show ?thesis using fill_hosts_distinct [OF _ _ fi] unfolding hs by blast
  qed
  have addr: "map host_addr hs = map host_addr hosts" "map host_selected hs = map host_selected hosts"
    using fr unfolding hs r by (simp_all add: matched_def comp_def if_distrib cong: if_cong)
  have sel: "\<exists>h \<in> set hs. host_selected h"
    using normalizeNodeHosts_ok [OF assms(1)] arg_cong [OF addr(2), of "list_ex (\<lambda>x. x)"]
    by (simp add: list_ex_iff)
  have addr_ok: "distinct (map host_addr hs)" "'''' \<notin> host_addr ` set hs"
    using normalizeNodeHosts_ok [OF assms(1)] addr(1) by (simp_all flip: set_map)
  have keep: "host_id (hs ! j) = host_id (matched ?ids (hosts ! j))"
    if "j < length hosts" "host_id (matched ?ids (hosts ! j)) \<noteq> ''''" for j
    using fr that unfolding hs r by simp
  show ?thesis
  proof (intro conjI allI impI ballI)
    fix j x
    assume "j < length hosts" "x \<in> set old" and
      *: "distinct (map host_addr old) \<and> host_id (hosts ! j) = '''' \<and> host_addr x = host_addr (hosts ! j) \<and> host_id x \<noteq> ''''"
    moreover have "?ids (host_addr (hosts ! j)) = host_id x"
      using existing_by_host_match [of old x] * \<open>x \<in> set old\<close> by simp
    ultimately show "host_id (hs ! j) = host_id x" using keep [of j] by (simp add: matched_def)
  next
    fix j
    assume "j < length hosts" "host_id (hosts ! j) \<noteq> ''''"
    then show "host_id (hs ! j) = host_id (hosts ! j)" using keep [of j] by (simp add: matched_def)
  qed (use addr addr_ok sel d in blast)+
qed


section \<open>Examples\<close>

definition reg_node :: node_row where
  "reg_node = \<lparr>node_id = ''n1'', node_name = ''tokyo'', node_public_host = ''h'', node_hosts = [],
     node_status = NodeActive, node_sing_box_version = '''', node_last_seen_at = None,
     node_deleted_at = None, node_created_at = sql_now 0, node_updated_at = sql_now 0\<rparr>"

definition reg_db :: node_db where
  "reg_db = \<lparr>db_nodes = [reg_node, reg_node\<lparr>node_id := ''n2'', node_name := ''paris''\<rparr>], db_aliases = []\<rparr>"

definition reg_old :: "node_host list" where
  "reg_old = [\<lparr>host_id = ''a'', host_addr = ''x'', host_tag = '''', host_selected = True\<rparr>]"

definition reg_new :: "node_host list" where
  "reg_new = [\<lparr>host_id = '''', host_addr = ''y'', host_tag = '''', host_selected = False\<rparr>,
              \<lparr>host_id = '''', host_addr = ''x'', host_tag = '''', host_selected = True\<rparr>]"

definition reg_fresh :: "nat \<Rightarrow> string" where
  "reg_fresh j = ''host'' @ replicate j CHR ''0''"

lemma reg_db_ok: "registry_ok reg_db"
  by (auto simp: registry_ok_def reg_db_def reg_node_def denotes_def alias_owner_def)

lemma reg_trim:
  "trim_space ''tokyo'' = ''tokyo''" "trim_space ''osaka'' = ''osaka''" "trim_space ''x'' = ''x''" "trim_space ''y'' = ''y''"
  by code_simp+

lemmas reg_simps = reg_trim reg_db_def reg_node_def reg_new_def reg_old_def RenameNode_def renameNodeTx_def GetNode_def
  resolveNode_def normalizeName_def validateNameForAuth_def q_GetNodeByIDIncludingDeleted_def q_GetNodeByName_def
  q_GetNodeIDByNameOrAlias_def q_CreateNodeNameAlias_def q_DeleteNodeNameAlias_def q_RenameNodeByID_def alias_owner_def
  normalizeNodeHosts_def ensureNodeHostIDs_def

lemma reg_eval:
  "map_sum id node_name (fst (RenameNode 0 reg_db ''tokyo'' ''osaka'')) = Inr ''osaka''"
  "map_option node_id (GetNode reg_db ''tokyo'') = Some ''n1''"
  "normalizeNodeHosts reg_new = Inr reg_new"
  "map_sum id (map host_id) (ensureNodeHostIDs reg_fresh reg_new reg_old) = Inr [''host'', ''a'']"
  by (simp_all add: reg_simps reg_fresh_def Let_def)

theorem rename_keeps_references_witness:
  "\<exists>n db'. RenameNode 0 reg_db ''tokyo'' ''osaka'' = (Inr n, db') \<and> registry_ok db'
     \<and> map_option node_id (GetNode db' ''tokyo'') = Some ''n1'' \<and> node_name n = normalizeName ''osaka''"
proof -
  obtain res db' where eq: "RenameNode 0 reg_db ''tokyo'' ''osaka'' = (res, db')" by force
  then obtain n where n: "res = Inr n" using reg_eval(1) by (cases res) auto
  obtain m where m: "GetNode reg_db ''tokyo'' = Some m" "node_id m = ''n1''" using reg_eval(2) by auto
  then obtain m' where "GetNode db' ''tokyo'' = Some m'" "node_id m' = ''n1''"
    using rename_keeps_references [OF eq reg_db_ok] by metis
  then show ?thesis using rename_keeps_references [OF eq reg_db_ok] eq n by simp
qed

theorem host_identities_witness:
  "\<exists>hs. ensureNodeHostIDs reg_fresh reg_new reg_old = Inr hs \<and> host_id (hs ! 1) = ''a'' \<and> distinct (map host_id hs)"
proof -
  obtain hs where hs: "ensureNodeHostIDs reg_fresh reg_new reg_old = Inr hs" using reg_eval(4)
    by (cases "ensureNodeHostIDs reg_fresh reg_new reg_old") auto
  have "fresh_ids reg_fresh (host_id ` set reg_new \<union> host_id ` set reg_old) {0..<length reg_new}"
    by (auto simp: fresh_ids_def reg_fresh_def reg_new_def reg_old_def inj_on_def)
  note c = host_identities [OF reg_eval(3) hs this]
  have "host_id (hs ! 1) = ''a''" using c by (simp add: reg_new_def reg_old_def)
  then show ?thesis using hs c by blast
qed

end
