(* ===== verification/Node_Tokens.thy ===== *)
theory Node_Tokens
  imports Campaign_Controller Node_Registry
begin

text \<open>
  The bearer tokens of the agents: \<open>internal/server/db/node_tokens.go\<close>,
  \<open>internal/token/token.go\<close> and \<open>authenticateNode\<close> of \<open>internal/server/api/router.go\<close>.
  SHA-256 (\<open>sha\<close>, in hex) and the bcrypt comparison (\<open>verify\<close>) are parameters; a fresh
  token, its bcrypt hash and its row id are inputs of the issuing step.
\<close>

record token_row =
  tok_id :: string
  tok_node :: string
  tok_hash :: string
  tok_digest :: "string option"
  tok_created_at :: stamp
  tok_last_used_at :: "stamp option"
  tok_revoked_at :: "stamp option"

record server = controller +
  db_tokens :: "token_row list"

section \<open>Queries\<close>

text \<open>The join of a live token with the node a reference selects.\<close>

definition ref_selects :: "'a node_db_scheme \<Rightarrow> string \<Rightarrow> node_row \<Rightarrow> bool" where
  "ref_selects db nm n \<longleftrightarrow> node_id n = nm \<or> node_name n = nm \<and> node_deleted_at n = None
     \<or> Some (node_id n) = alias_owner db nm"

definition active_tokens :: "'a server_scheme \<Rightarrow> string \<Rightarrow> (token_row \<times> string) list" where
  "active_tokens db nm =
     concat (map (\<lambda>t. map (\<lambda>n. (t, node_name n))
       (filter (\<lambda>n. node_id n = tok_node t \<and> ref_selects db nm n \<and> tok_revoked_at t = None) (db_nodes db)))
       (db_tokens db))"

definition q_GetActiveNodeTokenByDigest :: "'a server_scheme \<Rightarrow> string \<Rightarrow> string \<Rightarrow> (token_row \<times> string) option" where
  "q_GetActiveNodeTokenByDigest db nm dg = sel (\<lambda>(t, n). tok_digest t = Some dg) (active_tokens db nm)"

text \<open>Newest first.\<close>

definition q_ListActiveNodeTokensByNodeName :: "'a server_scheme \<Rightarrow> string \<Rightarrow> (token_row \<times> string) list" where
  "q_ListActiveNodeTokensByNodeName db nm = rev (sort_key (\<lambda>(t, n). tok_created_at t) (rev (active_tokens db nm)))"

definition q_ListNodeNamesWithActiveTokens :: "'a server_scheme \<Rightarrow> string list" where
  "q_ListNodeNamesWithActiveTokens db =
     remdups (map node_name (filter (\<lambda>n. list_ex (\<lambda>t. tok_node t = node_id n \<and> tok_revoked_at t = None) (db_tokens db))
       (db_nodes db)))"

definition q_CreateNodeToken :: "'a server_scheme \<Rightarrow> token_row \<Rightarrow> 'a server_scheme option" where
  "q_CreateNodeToken db t =
     (if list_ex (\<lambda>x. tok_id x = tok_id t \<or> tok_hash x = tok_hash t
                     \<or> tok_digest t \<noteq> None \<and> tok_digest x = tok_digest t) (db_tokens db)
         \<or> tok_node t \<notin> node_id ` set (db_nodes db)
      then None else Some (db\<lparr>db_tokens := db_tokens db @ [t]\<rparr>))"

definition q_MarkNodeTokenUsed :: "instant \<Rightarrow> 'a server_scheme \<Rightarrow> string \<Rightarrow> 'a server_scheme" where
  "q_MarkNodeTokenUsed now db i =
     db\<lparr>db_tokens := upd (\<lambda>t. tok_id t = i) (\<lambda>t. t\<lparr>tok_last_used_at := Some (sql_now now)\<rparr>) (db_tokens db)\<rparr>"

definition q_RevokeNodeTokensByNodeID :: "instant \<Rightarrow> 'a server_scheme \<Rightarrow> string \<Rightarrow> 'a server_scheme" where
  "q_RevokeNodeTokensByNodeID now db i =
     db\<lparr>db_tokens := upd (\<lambda>t. tok_node t = i \<and> tok_revoked_at t = None)
          (\<lambda>t. t\<lparr>tok_revoked_at := Some (sql_now now)\<rparr>) (db_tokens db)\<rparr>"

section \<open>Methods\<close>

definition token_prefix :: string where
  "token_prefix = ''bfnt_''"

definition Digest :: "(string \<Rightarrow> string) \<Rightarrow> string \<Rightarrow> string option" where
  "Digest sha v = (if has_prefix v token_prefix then Some (sha v) else None)"

datatype token_error = TokenNodeNotFound | TokenNodeDisabled | TokenConstraint

definition ListNodeNamesWithActiveTokens :: "'a server_scheme \<Rightarrow> string list" where
  "ListNodeNamesWithActiveTokens db = q_ListNodeNamesWithActiveTokens db"

definition NodeHasActiveToken :: "'a server_scheme \<Rightarrow> string \<Rightarrow> bool" where
  "NodeHasActiveToken db nm = (q_ListActiveNodeTokensByNodeName db (normalizeName nm) \<noteq> [])"

text \<open>\<open>token.New\<close> returns the prefix and 32 random bytes; \<open>secret\<close> is their encoding.\<close>

definition New :: "string \<Rightarrow> string" where
  "New secret = token_prefix @ secret"

definition IssueNodeToken ::
  "(string \<Rightarrow> string) \<Rightarrow> instant \<Rightarrow> string \<Rightarrow> string \<Rightarrow> string \<Rightarrow> 'a server_scheme \<Rightarrow> string
   \<Rightarrow> (token_error + (string \<times> string)) \<times> 'a server_scheme" where
  "IssueNodeToken sha now secret hashed tid db nm =
     (case GetNode db nm of
        None \<Rightarrow> (Inl TokenNodeNotFound, db)
      | Some node \<Rightarrow>
        if node_status node = NodeDisabled then (Inl TokenNodeDisabled, db) else
        let raw = New secret in
        (case q_CreateNodeToken db \<lparr>tok_id = tid, tok_node = node_id node, tok_hash = hashed,
                tok_digest = Digest sha raw, tok_created_at = sql_now now,
                tok_last_used_at = None, tok_revoked_at = None\<rparr> of
           None \<Rightarrow> (Inl TokenConstraint, db)
         | Some db' \<Rightarrow> (Inr (node_name node, raw), db')))"

definition legacyNodeTokenVerifyLimit :: nat where
  "legacyNodeTokenVerifyLimit = 3"

text \<open>The loop over tokens without a digest: at most \<open>budget\<close> bcrypt comparisons.\<close>

fun verify_legacy :: "(string \<Rightarrow> string \<Rightarrow> bool) \<Rightarrow> nat \<Rightarrow> (token_row \<times> string) list \<Rightarrow> string \<Rightarrow> (token_row \<times> string) option" where
  "verify_legacy verify budget [] raw = None"
| "verify_legacy verify budget ((t, n) # rows) raw =
     (if tok_digest t \<noteq> None then verify_legacy verify budget rows raw
      else if budget = 0 then None
      else if verify (tok_hash t) raw then Some (t, n)
      else verify_legacy verify (budget - 1) rows raw)"

definition AuthenticateNodeToken ::
  "(string \<Rightarrow> string) \<Rightarrow> (string \<Rightarrow> string \<Rightarrow> bool) \<Rightarrow> instant \<Rightarrow> 'a server_scheme \<Rightarrow> string \<Rightarrow> string
   \<Rightarrow> string option \<times> 'a server_scheme" where
  "AuthenticateNodeToken sha verify now db nm raw =
     (let found =
        (case Digest sha raw of
           Some dg \<Rightarrow>
             (case q_GetActiveNodeTokenByDigest db (normalizeName nm) dg of
                None \<Rightarrow> None
              | Some (t, n) \<Rightarrow> if verify (tok_hash t) raw then Some (t, n) else None)
         | None \<Rightarrow> verify_legacy verify legacyNodeTokenVerifyLimit
                     (q_ListActiveNodeTokensByNodeName db (normalizeName nm)) raw)
      in case found of None \<Rightarrow> (None, db) | Some (t, n) \<Rightarrow> (Some n, q_MarkNodeTokenUsed now db (tok_id t)))"

definition VerifyNodeToken ::
  "(string \<Rightarrow> string) \<Rightarrow> (string \<Rightarrow> string \<Rightarrow> bool) \<Rightarrow> instant \<Rightarrow> 'a server_scheme \<Rightarrow> string \<Rightarrow> string
   \<Rightarrow> bool \<times> 'a server_scheme" where
  "VerifyNodeToken sha verify now db nm raw =
     (case AuthenticateNodeToken sha verify now db nm raw of (r, db') \<Rightarrow> (r \<noteq> None, db'))"

definition RevokeNodeTokens ::
  "instant \<Rightarrow> 'a server_scheme \<Rightarrow> string \<Rightarrow> (token_error + unit) \<times> 'a server_scheme" where
  "RevokeNodeTokens now db nm =
     (case GetNode db nm of
        None \<Rightarrow> (Inl TokenNodeNotFound, db)
      | Some node \<Rightarrow> (Inr (), q_RevokeNodeTokensByNodeID now db (node_id node)))"

section \<open>The HTTP check\<close>

datatype auth_failure = MissingNodeName | MissingBearer | InvalidBearer

definition bearerToken :: "string \<Rightarrow> string" where
  "bearerToken header =
     (if has_prefix header ''Bearer '' then trim_space (drop (length ''Bearer '') header) else '''')"

record auth_request =
  rq_node_header :: string
  rq_node_query :: string
  rq_authorization :: string

definition authenticateNode ::
  "(string \<Rightarrow> string) \<Rightarrow> (string \<Rightarrow> string \<Rightarrow> bool) \<Rightarrow> instant \<Rightarrow> 'a server_scheme \<Rightarrow> auth_request
   \<Rightarrow> (auth_failure + string) \<times> 'a server_scheme" where
  "authenticateNode sha verify now db r =
     (let h = trim_space (rq_node_header r); nm = (if h = '''' then trim_space (rq_node_query r) else h) in
      if nm = '''' then (Inl MissingNodeName, db) else
      let raw = bearerToken (rq_authorization r) in
      if raw = '''' then (Inl MissingBearer, db) else
      (case AuthenticateNodeToken sha verify now db nm raw of
         (None, db') \<Rightarrow> (Inl InvalidBearer, db')
       | (Some n, db') \<Rightarrow> (Inr n, db')))"

section \<open>Soundness\<close>

lemma active_tokens_iff:
  "(t, nm') \<in> set (active_tokens db nm) \<longleftrightarrow> t \<in> set (db_tokens db) \<and> tok_revoked_at t = None
     \<and> (\<exists>n \<in> set (db_nodes db). node_id n = tok_node t \<and> ref_selects db nm n \<and> nm' = node_name n)"
  by (auto simp: active_tokens_def)

lemma verify_legacy_SomeD:
  "verify_legacy verify budget rows raw = Some (t, n) \<Longrightarrow> (t, n) \<in> set rows \<and> verify (tok_hash t) raw \<and> tok_digest t = None"
  by (induction verify budget rows raw rule: verify_legacy.induct) (auto split: if_splits)

lemma authenticate_SomeD:
  assumes "AuthenticateNodeToken sha verify now db nm raw = (Some nm', db')"
  shows "\<exists>t. (t, nm') \<in> set (active_tokens db (normalizeName nm)) \<and> verify (tok_hash t) raw
    \<and> tok_digest t = Digest sha raw \<and> db' = q_MarkNodeTokenUsed now db (tok_id t)"
  using assms
  by (auto simp: AuthenticateNodeToken_def Let_def q_GetActiveNodeTokenByDigest_def q_ListActiveNodeTokensByNodeName_def
      dest!: verify_legacy_SomeD sel_SomeD split: option.splits if_splits prod.splits)

lemma authenticate_NoneD: "AuthenticateNodeToken sha verify now db nm raw = (None, db') \<Longrightarrow> db' = db"
  by (auto simp: AuthenticateNodeToken_def Let_def split: option.splits if_splits prod.splits)


lemma ref_selects_GetNode: "GetNode db r = Some n \<Longrightarrow> ref_selects db (normalizeName r) n"
  using GetNode_denotes [of db r n] unfolding GetNode_def resolveNode_def ref_selects_def
  by (auto simp: q_GetNodeByIDIncludingDeleted_def get_by_name Let_def dest!: sel_SomeD split: option.splits if_splits)

lemma create_token_SomeD:
  assumes "q_CreateNodeToken db t = Some db'"
  shows "db' = db\<lparr>db_tokens := db_tokens db @ [t]\<rparr> \<and> (tok_digest t = Some dg \<longrightarrow> (\<forall>x \<in> set (db_tokens db). tok_digest x \<noteq> Some dg))"
  using assms by (auto simp: q_CreateNodeToken_def list_ex_iff split: if_splits)

lemma New_digest: "Digest sha (New s) = Some (sha (New s))"
  by (simp add: Digest_def New_def token_prefix_def)


section \<open>Revocation\<close>

text \<open>The calls that touch tokens, apart from issuing one for the node in question.\<close>

inductive token_step ::
  "(string \<Rightarrow> string) \<Rightarrow> (string \<Rightarrow> string \<Rightarrow> bool) \<Rightarrow> string \<Rightarrow> 'a server_scheme \<Rightarrow> 'a server_scheme \<Rightarrow> bool"
  for sha verify i where
  tok_auth: "token_step sha verify i db (snd (authenticateNode sha verify now db rq))"
| tok_revoke: "token_step sha verify i db (snd (RevokeNodeTokens now db nm))"
| tok_issue: "map_option node_id (GetNode db nm) \<noteq> Some i
     \<Longrightarrow> token_step sha verify i db (snd (IssueNodeToken sha now secret hashed tid db nm))"
| tok_rename: "token_step sha verify i db (snd (RenameNode now db old new))"
| tok_rest: "db_tokens db' = db_tokens db \<Longrightarrow> token_step sha verify i db db'"

definition locked_out :: "string \<Rightarrow> 'a server_scheme \<Rightarrow> bool" where
  "locked_out i db \<longleftrightarrow> (\<forall>t \<in> set (db_tokens db). tok_node t = i \<longrightarrow> tok_revoked_at t \<noteq> None)"

lemma locked_out_mark: "locked_out i db \<Longrightarrow> locked_out i (q_MarkNodeTokenUsed now db j)"
  by (auto simp: locked_out_def q_MarkNodeTokenUsed_def set_upd)

lemma locked_out_authenticate: "locked_out i db \<Longrightarrow> locked_out i (snd (AuthenticateNodeToken sha verify now db nm raw))"
  by (cases "AuthenticateNodeToken sha verify now db nm raw"; cases "fst (AuthenticateNodeToken sha verify now db nm raw)")
     (auto dest!: authenticate_SomeD authenticate_NoneD intro: locked_out_mark)

interpretation tok_sys: invariant_system "token_step sha verify i" "locked_out i" for sha verify i
proof
  fix s t :: "'a server_scheme"
  assume "locked_out i s" and "token_step sha verify i s t"
  from this(2,1) show "locked_out i t"
  proof cases
    case (tok_auth now rq)
    then show ?thesis
      using \<open>locked_out i s\<close> locked_out_authenticate [of i s sha verify now]
      by (auto simp: authenticateNode_def Let_def split: prod.split option.split) (metis snd_conv)+
  next
    case (tok_revoke now nm)
    then show ?thesis
      using \<open>locked_out i s\<close>
      by (auto simp: locked_out_def RevokeNodeTokens_def q_RevokeNodeTokensByNodeID_def set_upd split: option.split)
  next
    case (tok_issue nm now secret hashed tid)
    then show ?thesis
      using \<open>locked_out i s\<close>
      by (auto simp: locked_out_def IssueNodeToken_def q_CreateNodeToken_def Let_def split: option.split)
  next
    case (tok_rename now old new)
    then show ?thesis
      using \<open>locked_out i s\<close> RenameNode_frame [of now s old new] by (auto simp: locked_out_def)
  next
    case tok_rest
    then show ?thesis using \<open>locked_out i s\<close> by (simp add: locked_out_def)
  qed
qed



section \<open>Examples\<close>

definition tok_server :: server where
  "tok_server = \<lparr>db_nodes = db_nodes reg_db, db_aliases = [], db_ops = [], db_events = [], db_camps = [], db_members = [],
     ctl_notified = [], db_tokens = []\<rparr>"

definition tok_request :: auth_request where
  "tok_request = \<lparr>rq_node_header = ''tokyo'', rq_node_query = '''', rq_authorization = ''Bearer bfnt_s''\<rparr>"

definition tok_verify :: "string \<Rightarrow> string \<Rightarrow> bool" where
  "tok_verify h v \<longleftrightarrow> h = ''#'' @ v"

definition tok_issued :: server where
  "tok_issued = snd (IssueNodeToken id 0 ''s'' ''#bfnt_s'' ''t1'' tok_server ''tokyo'')"

definition tok_renamed :: server where
  "tok_renamed = snd (RenameNode 0 tok_issued ''tokyo'' ''osaka'')"

lemmas tok_simps = reg_simps tok_server_def tok_request_def tok_verify_def tok_issued_def tok_renamed_def
  IssueNodeToken_def q_CreateNodeToken_def New_def Digest_def token_prefix_def RevokeNodeTokens_def
  q_RevokeNodeTokensByNodeID_def authenticateNode_def AuthenticateNodeToken_def q_GetActiveNodeTokenByDigest_def
  active_tokens_def ref_selects_def bearerToken_def q_MarkNodeTokenUsed_def Let_def

lemma tok_trim: "trim_space ''bfnt_s'' = ''bfnt_s''" "trim_space ''paris'' = ''paris''"
  by code_simp+

lemma tok_eval:
  "fst (IssueNodeToken id 0 ''s'' ''#bfnt_s'' ''t1'' tok_server ''tokyo'') = Inr (''tokyo'', ''bfnt_s'')"
  "map_option node_id (GetNode tok_server ''tokyo'') = Some ''n1''"
  "map_option (\<lambda>n. (node_id n, node_name n)) (GetNode tok_renamed ''tokyo'') = Some (''n1'', ''osaka'')"
  by (simp_all add: tok_simps tok_trim)


text \<open>The other node keeps its access when the tokens of the first are revoked.\<close>

definition tok_two :: server where
  "tok_two = snd (IssueNodeToken id 0 ''s'' ''#bfnt_s'' ''t1'' (snd (IssueNodeToken id 0 ''a'' ''#bfnt_a'' ''t2'' tok_server ''tokyo'')) ''paris'')"

definition tok_revoked :: server where
  "tok_revoked = snd (RevokeNodeTokens 0 tok_two ''tokyo'')"

lemma tok_revoked_eval:
  "fst (RevokeNodeTokens 0 tok_two ''tokyo'') = Inr ()" "map_option node_id (GetNode tok_two ''tokyo'') = Some ''n1''"
  "fst (authenticateNode id tok_verify 0 tok_revoked (tok_request\<lparr>rq_node_header := ''paris''\<rparr>)) = Inr ''paris''"
  by (simp_all add: tok_simps tok_two_def tok_revoked_def tok_trim)


end
