(* ===== verification/Go_Integers.thy ===== *)
theory Go_Integers
  imports Prelude
begin

text \<open>
  Go's 64-bit integers where the sources compute with them: two's complement wrap-around and
  \<open>strconv.ParseInt(s, 10, 64)\<close>.
\<close>

definition wrap64 :: "int \<Rightarrow> int" where
  "wrap64 x = (x + 2 ^ 63) mod 2 ^ 64 - 2 ^ 63"

definition int64 :: "int \<Rightarrow> bool" where
  "int64 x \<longleftrightarrow> - (2 ^ 63) \<le> x \<and> x < 2 ^ 63"

lemma wrap64_range: "int64 (wrap64 x)"
  using pos_mod_bound [of "2 ^ 64" "x + 2 ^ 63"] pos_mod_sign [of "2 ^ 64" "x + 2 ^ 63"]
  by (simp add: int64_def wrap64_def)

lemma wrap64_id [simp]: "int64 x \<Longrightarrow> wrap64 x = x"
  by (simp add: int64_def wrap64_def)

lemma wrap64_small: "\<bar>x\<bar> < 2 ^ 63 \<Longrightarrow> wrap64 x = x"
  by (rule wrap64_id) (auto simp: int64_def)

text \<open>Digits, most significant first; \<^const>\<open>None\<close> for an empty or malformed literal.\<close>

definition digit_of :: "char \<Rightarrow> int option" where
  "digit_of c = (if CHR ''0'' \<le> c \<and> c \<le> CHR ''9'' then Some (of_char c - 48) else None)"

fun parse_digits :: "int \<Rightarrow> string \<Rightarrow> int option" where
  "parse_digits acc [] = Some acc"
| "parse_digits acc (c # cs) =
     (case digit_of c of None \<Rightarrow> None | Some d \<Rightarrow> parse_digits (10 * acc + d) cs)"

definition parse_unsigned :: "string \<Rightarrow> int option" where
  "parse_unsigned s = (if s = '''' then None else parse_digits 0 s)"

definition ParseInt :: "string \<Rightarrow> int option" where
  "ParseInt s =
     (let v = (case s of
                 [] \<Rightarrow> None
               | c # cs \<Rightarrow> if c = CHR ''-'' then map_option uminus (parse_unsigned cs)
                          else if c = CHR ''+'' then parse_unsigned cs
                          else parse_unsigned s)
      in case v of Some x \<Rightarrow> if int64 x then Some x else None | None \<Rightarrow> None)"

lemma ParseInt_int64: "ParseInt s = Some x \<Longrightarrow> int64 x"
  by (auto simp: ParseInt_def Let_def split: option.splits if_splits list.splits)

end
