(* ===== verification/Operation_Api.thy ===== *)
theory Operation_Api
  imports Node_Tokens Go_Integers Campaign_Properties
begin

text \<open>
  The HTTP surface of node operations: \<open>internal/server/api/node_operations.go\<close> and the
  notifier that wakes long polls, \<open>internal/server/api/node_operation_notifier.go\<close>. A
  request is its authentication headers, its URL parameters and its decoded body
  (\<^const>\<open>None\<close> where \<open>decodeBoundedJSON\<close> refuses it); a response is a value of \<open>reply\<close>
  with its status code.
\<close>

section \<open>The notifier\<close>

text \<open>
  Channels are numbered in the order they are made; \<open>nt_closed\<close> lists the closed ones.
\<close>

record notifier =
  nt_waiters :: "string \<rightharpoonup> nat"
  nt_closed :: "nat list"
  nt_next :: nat

definition newNodeOperationNotifier :: notifier where
  "newNodeOperationNotifier = \<lparr>nt_waiters = Map.empty, nt_closed = [], nt_next = 0\<rparr>"

definition subscribe :: "string \<Rightarrow> notifier \<Rightarrow> nat \<times> notifier" where
  "subscribe nm n =
     (case nt_waiters n nm of
        Some ch \<Rightarrow> (ch, n)
      | None \<Rightarrow> (nt_next n, n\<lparr>nt_waiters := (nt_waiters n)(nm \<mapsto> nt_next n), nt_next := Suc (nt_next n)\<rparr>))"

definition notify :: "string \<Rightarrow> notifier \<Rightarrow> notifier" where
  "notify nm n =
     n\<lparr>nt_closed := (case nt_waiters n nm of Some ch \<Rightarrow> ch # nt_closed n | None \<Rightarrow> nt_closed n),
       nt_waiters := (nt_waiters n)(nm \<mapsto> nt_next n), nt_next := Suc (nt_next n)\<rparr>"

text \<open>Go panics when a channel is closed twice.\<close>

definition close_panics :: "string \<Rightarrow> notifier \<Rightarrow> bool" where
  "close_panics nm n \<longleftrightarrow> (\<exists>ch. nt_waiters n nm = Some ch \<and> ch \<in> set (nt_closed n))"

record api =
  api_db :: server
  api_notifier :: notifier

text \<open>What the campaign controller asked to notify reaches the notifier.\<close>

definition from_controller :: "server \<Rightarrow> api \<Rightarrow> api" where
  "from_controller db s =
     s\<lparr>api_db := db\<lparr>ctl_notified := []\<rparr>, api_notifier := fold notify (ctl_notified db) (api_notifier s)\<rparr>"

section \<open>Replies\<close>

record assignment =
  asg_id :: string
  asg_kind :: string
  asg_payload :: string
  asg_attempt :: int
  asg_token :: string
  asg_lease_expires :: "stamp option"
  asg_cancel :: bool

datatype reply =
    Status nat
  | AssignmentReply assignment
  | LeaseReply stamp bool
  | OperationReply op_row bool
  | PageReply "op_row list" nat int int
  | DetailReply op_row "op_event list"

fun reply_code :: "reply \<Rightarrow> nat" where
  "reply_code (Status c) = c"
| "reply_code (OperationReply op created) = (if created then 201 else 200)"
| "reply_code _ = 200"

definition auth_reply :: "auth_failure \<Rightarrow> reply" where
  "auth_reply f = (case f of MissingNodeName \<Rightarrow> Status 400 | MissingBearer \<Rightarrow> Status 401 | InvalidBearer \<Rightarrow> Status 401)"

definition writeNodeOperationAssignment :: "op_row \<Rightarrow> string \<Rightarrow> reply" where
  "writeNodeOperationAssignment op token =
     AssignmentReply \<lparr>asg_id = op_id op, asg_kind = op_kind op, asg_payload = op_payload op,
       asg_attempt = op_attempt op, asg_token = token, asg_lease_expires = op_lease_expires op,
       asg_cancel = op_cancel op\<rparr>"

definition writeNodeOperationError :: "op_error \<Rightarrow> reply" where
  "writeNodeOperationError e = (if e = ErrInvalidOperationLease then Status 409 else Status 422)"

section \<open>Claiming with a long poll\<close>

record claim_body =
  cb_caps :: "string list"
  cb_current_op :: string
  cb_token :: string
  cb_wait_seconds :: int

definition maxNodeOperationLongPoll :: int where
  "maxNodeOperationLongPoll = 45 * ns_per_s"

text \<open>\<open>time.Duration(WaitSeconds) * time.Second\<close> wraps before it is clamped.\<close>

definition poll_wait :: "int \<Rightarrow> int" where
  "poll_wait secs =
     (let w = wrap64 (secs * ns_per_s); w = (if w < 0 then 0 else w)
      in if w > maxNodeOperationLongPoll then maxNodeOperationLongPoll else w)"

definition claim_of :: "string \<Rightarrow> claim_body \<Rightarrow> claim_params" where
  "claim_of nm b = \<lparr>cl_node = nm, cl_caps = cb_caps b, cl_current_op = cb_current_op b, cl_token = cb_token b\<rparr>"

text \<open>One call of the closure \<open>claim\<close> and what the handler answers: \<^const>\<open>None\<close> when nothing was found.\<close>

definition try_claim ::
  "(string \<Rightarrow> string) \<Rightarrow> instant \<Rightarrow> string \<Rightarrow> string \<Rightarrow> claim_body \<Rightarrow> api \<Rightarrow> reply option \<times> api" where
  "try_claim sha now secret nm b s =
     (case ClaimNodeOperation sha now secret (api_db s) (claim_of nm b) of
        (Inl e, db) \<Rightarrow> (Some (writeNodeOperationError e), s\<lparr>api_db := db\<rparr>)
      | (Inr (Some (op, token)), db) \<Rightarrow> (Some (writeNodeOperationAssignment op token), s\<lparr>api_db := db\<rparr>)
      | (Inr None, db) \<Rightarrow> (None, s\<lparr>api_db := db\<rparr>))"

text \<open>
  The handler runs in three parts, with other requests in between: the first claim; the
  subscription with the second claim; and, once woken or timed out, the third claim.
\<close>

datatype poll = Answered reply | Subscribing string claim_body int | Waiting string claim_body nat int

definition claim_first ::
  "(string \<Rightarrow> string) \<Rightarrow> (string \<Rightarrow> string \<Rightarrow> bool) \<Rightarrow> instant \<Rightarrow> string \<Rightarrow> auth_request \<Rightarrow> claim_body option \<Rightarrow> api \<Rightarrow> poll \<times> api" where
  "claim_first sha verify now secret rq body s =
     (case authenticateNode sha verify now (api_db s) rq of
        (Inl f, db) \<Rightarrow> (Answered (auth_reply f), s\<lparr>api_db := db\<rparr>)
      | (Inr nm, db) \<Rightarrow>
        let s1 = s\<lparr>api_db := db\<rparr> in
        (case body of
           None \<Rightarrow> (Answered (Status 400), s1)
         | Some b \<Rightarrow>
           if length (cb_caps b) > 128 then (Answered (Status 422), s1) else
           (case try_claim sha now secret nm b s1 of
              (Some r, s2) \<Rightarrow> (Answered r, s2)
            | (None, s2) \<Rightarrow>
              if cb_current_op b \<noteq> '''' then (Answered (Status 409), s2)
              else if poll_wait (cb_wait_seconds b) = 0 then (Answered (Status 204), s2)
              else (Subscribing nm b (poll_wait (cb_wait_seconds b)), s2))))"

definition claim_subscribe :: "string \<Rightarrow> api \<Rightarrow> nat \<times> api" where
  "claim_subscribe nm s = (case subscribe nm (api_notifier s) of (ch, n) \<Rightarrow> (ch, s\<lparr>api_notifier := n\<rparr>))"

definition claim_second ::
  "(string \<Rightarrow> string) \<Rightarrow> instant \<Rightarrow> string \<Rightarrow> string \<Rightarrow> claim_body \<Rightarrow> nat \<Rightarrow> int \<Rightarrow> api \<Rightarrow> poll \<times> api" where
  "claim_second sha now secret nm b ch wait s =
     (case try_claim sha now secret nm b s of
        (Some r, s1) \<Rightarrow> (Answered r, s1)
      | (None, s1) \<Rightarrow> (Waiting nm b ch wait, s1))"

definition claim_third ::
  "(string \<Rightarrow> string) \<Rightarrow> instant \<Rightarrow> string \<Rightarrow> string \<Rightarrow> claim_body \<Rightarrow> api \<Rightarrow> reply \<times> api" where
  "claim_third sha now secret nm b s =
     (case try_claim sha now secret nm b s of (Some r, s1) \<Rightarrow> (r, s1) | (None, s1) \<Rightarrow> (Status 204, s1))"

section \<open>Leases and events\<close>

definition nodeOperationLease ::
  "(string \<Rightarrow> string) \<Rightarrow> (string \<Rightarrow> string \<Rightarrow> bool) \<Rightarrow> instant \<Rightarrow> auth_request \<Rightarrow> string \<Rightarrow> (string \<times> int) option \<Rightarrow> api \<Rightarrow> reply \<times> api" where
  "nodeOperationLease sha verify now rq i body s =
     (case authenticateNode sha verify now (api_db s) rq of
        (Inl f, db) \<Rightarrow> (auth_reply f, s\<lparr>api_db := db\<rparr>)
      | (Inr nm, db) \<Rightarrow>
        (case body of
           None \<Rightarrow> (Status 400, s\<lparr>api_db := db\<rparr>)
         | Some (token, att) \<Rightarrow>
           (case RenewNodeOperationLease sha now db nm i token att of
              (Inl e, db1) \<Rightarrow> (writeNodeOperationError e, s\<lparr>api_db := db1\<rparr>)
            | (Inr c, db1) \<Rightarrow> (LeaseReply (rfc3339nano (now + NodeOperationLeaseDuration)) c, s\<lparr>api_db := db1\<rparr>))))"

definition nodeOperationEvent ::
  "(string \<Rightarrow> string) \<Rightarrow> (string \<Rightarrow> string \<Rightarrow> bool) \<Rightarrow> instant \<Rightarrow> string \<Rightarrow> (string \<Rightarrow> string) \<Rightarrow> auth_request \<Rightarrow> string
   \<Rightarrow> event_params option \<Rightarrow> api \<Rightarrow> reply \<times> api" where
  "nodeOperationEvent sha verify now fresh fresh_ops rq i body s =
     (case authenticateNode sha verify now (api_db s) rq of
        (Inl f, db) \<Rightarrow> (auth_reply f, s\<lparr>api_db := db\<rparr>)
      | (Inr nm, db) \<Rightarrow>
        (case body of
           None \<Rightarrow> (Status 400, s\<lparr>api_db := db\<rparr>)
         | Some report \<Rightarrow>
           (case RecordNodeOperationEvent sha now fresh db (report\<lparr>ep_node := nm, ep_op := i\<rparr>) of
              (Inl e, db1) \<Rightarrow> (writeNodeOperationError e, s\<lparr>api_db := db1\<rparr>)
            | (Inr op, db1) \<Rightarrow>
              (OperationReply op False, from_controller (reconcileForOperation now fresh_ops (op_id op) db1) s))))"

section \<open>Admin requests\<close>

definition notify_ref :: "string \<Rightarrow> api \<Rightarrow> api" where
  "notify_ref node_ref s =
     (case GetNode (api_db s) node_ref of
        None \<Rightarrow> s
      | Some n \<Rightarrow> s\<lparr>api_notifier := notify (node_name n) (api_notifier s)\<rparr>)"

definition create_reply :: "op_error + (op_row \<times> bool) \<Rightarrow> reply" where
  "create_reply r =
     (case r of Inl e \<Rightarrow> if e = ErrActiveNodeOperation then Status 409 else Status 422
      | Inr (op, created) \<Rightarrow> OperationReply op created)"

definition created_op :: "op_error + (op_row \<times> bool) \<Rightarrow> bool" where
  "created_op r = (case r of Inl _ \<Rightarrow> False | Inr (_, created) \<Rightarrow> created)"

definition adminCreateNodeOperation ::
  "instant \<Rightarrow> string \<Rightarrow> string \<Rightarrow> string \<Rightarrow> create_params option \<Rightarrow> api \<Rightarrow> reply \<times> api" where
  "adminCreateNodeOperation now fresh node_ref header body s =
     (case body of
        None \<Rightarrow> (Status 400, s)
      | Some p \<Rightarrow>
        let key = (if cp_key p = '''' then trim_space header else cp_key p) in
        if has_prefix (trim_space (cp_kind p)) ''update.'' then (Status 422, s) else
        (case CreateNodeOperation now fresh (api_db s) (p\<lparr>cp_node := node_ref, cp_key := key, cp_by := ''admin-api''\<rparr>) of
           (r, db) \<Rightarrow>
           let s1 = s\<lparr>api_db := db\<rparr> in
           (create_reply r, if created_op r then notify_ref node_ref s1 else s1)))"

text \<open>
  The components of a manual update: those asked for, or by default those that are behind;
  the pair says whether the agent and whether sing-box is selected.
\<close>

datatype select_error = UnsupportedComponent | AlreadyAtTarget | NoSelfUpdate | NoSingBoxUpdate

definition selectUpdateComponents ::
  "(string \<Rightarrow> string \<Rightarrow> bool) \<Rightarrow> string list \<Rightarrow> config_status \<Rightarrow> update_asset \<Rightarrow> update_asset \<Rightarrow> select_error + (bool \<times> bool)" where
  "selectUpdateComponents same_version components st agent sing_box =
     (let comps = map trim_space components in
      if \<not> list_all (\<lambda>c. c = ''agent'' \<or> c = ''sing_box'') comps then Inl UnsupportedComponent else
      let explicit = (''agent'' \<in> set comps, ''sing_box'' \<in> set comps);
          (a, b) = (if comps = [] then (\<not> same_version (cs_agent_version st) (as_version agent),
                                        \<not> same_version (cs_sing_box_version st) (as_version sing_box))
                    else explicit) in
      if \<not> a \<and> \<not> b then Inl AlreadyAtTarget else
      if a \<and> \<not> containsCapability (cs_caps st) ''update.agent.v1'' then Inl NoSelfUpdate else
      if b \<and> \<not> containsCapability (cs_caps st) ''update.sing_box.v1'' then Inl NoSingBoxUpdate else
      Inr (a, b))"

definition update_kind_of :: "bool \<times> bool \<Rightarrow> string" where
  "update_kind_of chosen = (if chosen = (True, True) then ''update.bundle'' else if snd chosen then ''update.sing_box'' else ''update.agent'')"

text \<open>\<open>status\<close> is the outcome of \<open>GetNodeConfigStatus\<close>: the node's canonical name and its last report.\<close>

definition adminCreateNodeUpdate ::
  "instant \<Rightarrow> string \<Rightarrow> catalog \<Rightarrow> (string \<times> config_status) option \<Rightarrow> string \<Rightarrow> (string list \<times> string) option \<Rightarrow> api \<Rightarrow> reply \<times> api" where
  "adminCreateNodeUpdate now fresh cat status header body s =
     (case body of
        None \<Rightarrow> (Status 400, s)
      | Some (components, body_key) \<Rightarrow>
        let key = (if body_key = '''' then trim_space header else body_key) in
        if key = '''' then (Status 422, s) else
        (case status of
           None \<Rightarrow> (Status 422, s)
         | Some (nm, st) \<Rightarrow>
           if \<not> containsCapability (cs_caps st) ''operations.v1'' then (Status 422, s) else
           (case cat_assets cat (cs_goos st) (cs_goarch st) of
              None \<Rightarrow> (Status 422, s)
            | Some (agent, sing_box) \<Rightarrow>
              (case selectUpdateComponents (cat_same_version cat) components st agent sing_box of
                 Inl _ \<Rightarrow> (Status 422, s)
               | Inr (a, b) \<Rightarrow>
                 (case CreateNodeOperation now fresh (api_db s)
                         \<lparr>cp_node = nm, cp_kind = update_kind_of (a, b),
                          cp_payload = cat_payload cat (cat_release cat) (if a then Some agent else None) (if b then Some sing_box else None),
                          cp_key = key, cp_caps = [], cp_not_before = TimeBlank, cp_expires = TimeBlank,
                          cp_by = ''admin-api'', cp_retry_of = ''''\<rparr> of
                    (r, db) \<Rightarrow>
                    let s1 = s\<lparr>api_db := db\<rparr> in
                    (create_reply r,
                     if created_op r then s1\<lparr>api_notifier := notify nm (api_notifier s1)\<rparr> else s1))))))"

text \<open>Page parameters: absent or blank means the default.\<close>

definition page_param :: "string \<Rightarrow> int \<Rightarrow> int option" where
  "page_param raw fallback = (let r = trim_space raw in if r = '''' then Some fallback else ParseInt r)"

definition operationPageParams :: "string \<Rightarrow> string \<Rightarrow> (int \<times> int) option" where
  "operationPageParams raw_limit raw_offset =
     (case page_param raw_limit 50 of
        None \<Rightarrow> None
      | Some lim \<Rightarrow>
        if lim \<le> 0 \<or> lim > 200 then None else
        (case page_param raw_offset 0 of
           None \<Rightarrow> None
         | Some off \<Rightarrow> if off < 0 then None else Some (lim, off)))"

definition adminListNodeOperations :: "string \<Rightarrow> string \<Rightarrow> string \<Rightarrow> api \<Rightarrow> reply" where
  "adminListNodeOperations node_ref raw_limit raw_offset s =
     (case operationPageParams raw_limit raw_offset of
        None \<Rightarrow> Status 422
      | Some (lim, off) \<Rightarrow>
        (case ListNodeOperations (api_db s) node_ref lim off of
           Inl _ \<Rightarrow> Status 422
         | Inr (ops, count) \<Rightarrow> PageReply ops count lim off))"

definition adminCurrentNodeOperation :: "instant \<Rightarrow> string \<Rightarrow> api \<Rightarrow> reply \<times> api" where
  "adminCurrentNodeOperation now node_ref s =
     (case GetActiveNodeOperation now (api_db s) node_ref of
        (Inl _, db) \<Rightarrow> (Status 422, s\<lparr>api_db := db\<rparr>)
      | (Inr None, db) \<Rightarrow> (Status 204, s\<lparr>api_db := db\<rparr>)
      | (Inr (Some op), db) \<Rightarrow> (OperationReply op False, s\<lparr>api_db := db\<rparr>))"

definition adminOperationForNode :: "string \<Rightarrow> string \<Rightarrow> api \<Rightarrow> reply + op_row" where
  "adminOperationForNode node_ref i s =
     (case GetNode (api_db s) node_ref of
        None \<Rightarrow> Inl (Status 422)
      | Some n \<Rightarrow>
        (case GetNodeOperation (api_db s) i of
           Inl _ \<Rightarrow> Inl (Status 404)
         | Inr op \<Rightarrow> if op_node op \<noteq> node_id n then Inl (Status 404) else Inr op))"

definition adminNodeOperationDetail :: "string \<Rightarrow> string \<Rightarrow> api \<Rightarrow> reply" where
  "adminNodeOperationDetail node_ref i s =
     (case adminOperationForNode node_ref i s of
        Inl r \<Rightarrow> r | Inr op \<Rightarrow> DetailReply op (ListNodeOperationEvents (api_db s) (op_id op)))"

definition adminCancelNodeOperation :: "instant \<Rightarrow> string \<Rightarrow> string \<Rightarrow> api \<Rightarrow> reply \<times> api" where
  "adminCancelNodeOperation now node_ref i s =
     (case adminOperationForNode node_ref i s of
        Inl r \<Rightarrow> (r, s)
      | Inr op \<Rightarrow>
        (case RequestNodeOperationCancel now (api_db s) (op_id op) of
           (Inl e, db) \<Rightarrow> (if e = OpNoRows then Status 409 else Status 422, s\<lparr>api_db := db\<rparr>)
         | (Inr op', db) \<Rightarrow> (OperationReply op' False, notify_ref node_ref (s\<lparr>api_db := db\<rparr>))))"


section \<open>Wake-ups\<close>

text \<open>
  What a long poll relies on: a channel obtained for a key fires exactly when that key is
  notified, however subscriptions and notifications of any key are interleaved.
\<close>

datatype 'k latch_call = Subscribe 'k | Notify 'k

fun latch_run :: "('k \<Rightarrow> 's \<Rightarrow> 'c \<times> 's) \<Rightarrow> ('k \<Rightarrow> 's \<Rightarrow> 's) \<Rightarrow> 'k latch_call list \<Rightarrow> 's \<Rightarrow> 's" where
  "latch_run sub ntf [] s = s"
| "latch_run sub ntf (Subscribe k # cs) s = latch_run sub ntf cs (snd (sub k s))"
| "latch_run sub ntf (Notify k # cs) s = latch_run sub ntf cs (ntf k s)"

locale latch =
  fixes sub :: "'k \<Rightarrow> 's \<Rightarrow> 'c \<times> 's" and ntf :: "'k \<Rightarrow> 's \<Rightarrow> 's"
    and fired :: "'s \<Rightarrow> 'c \<Rightarrow> bool" and armed :: "'s \<Rightarrow> 'k \<Rightarrow> 'c \<Rightarrow> bool" and ok :: "'s \<Rightarrow> bool"
  assumes ok_sub: "ok s \<Longrightarrow> ok (snd (sub k s))"
    and ok_ntf: "ok s \<Longrightarrow> ok (ntf k s)"
    and sub_arms: "ok s \<Longrightarrow> armed (snd (sub k s)) k (fst (sub k s))"
    and armed_open: "ok s \<Longrightarrow> armed s k c \<Longrightarrow> \<not> fired s c"
    and armed_sub: "ok s \<Longrightarrow> armed s k c \<Longrightarrow> armed (snd (sub j s)) k c"
    and armed_ntf: "ok s \<Longrightarrow> armed s k c \<Longrightarrow> j \<noteq> k \<Longrightarrow> armed (ntf j s) k c"
    and ntf_fires: "ok s \<Longrightarrow> armed s k c \<Longrightarrow> fired (ntf k s) c"
    and fired_sub: "fired s c \<Longrightarrow> fired (snd (sub j s)) c"
    and fired_ntf: "fired s c \<Longrightarrow> fired (ntf j s) c"
begin

lemma run_ok: "ok s \<Longrightarrow> ok (latch_run sub ntf cs s)"
proof (induction cs arbitrary: s)
  case (Cons x cs)
  then show ?case by (cases x) (simp_all add: ok_sub ok_ntf)
qed simp

lemma run_fired: "fired s c \<Longrightarrow> fired (latch_run sub ntf cs s) c"
proof (induction cs arbitrary: s)
  case (Cons x cs)
  then show ?case by (cases x) (simp_all add: fired_sub fired_ntf)
qed simp

lemma armed_run: "ok s \<Longrightarrow> armed s k c \<Longrightarrow> fired (latch_run sub ntf cs s) c \<longleftrightarrow> Notify k \<in> set cs"
proof (induction cs arbitrary: s)
  case Nil
  then show ?case using armed_open by simp
next
  case (Cons x cs)
  show ?case
  proof (cases x)
    case (Subscribe j)
    then show ?thesis using Cons.IH [OF ok_sub armed_sub] Cons.prems by simp
  next
    case (Notify j)
    show ?thesis
    proof (cases "j = k")
      case True
      then show ?thesis using Notify run_fired [OF ntf_fires] Cons.prems by simp
    next
      case False
      then show ?thesis using Notify Cons.IH [OF ok_ntf armed_ntf] Cons.prems by simp
    qed
  qed
qed

lemma subscribed_fires_iff:
  "ok s \<Longrightarrow> sub k s = (c, s') \<Longrightarrow> fired (latch_run sub ntf cs s') c \<longleftrightarrow> Notify k \<in> set cs"
  using armed_run [of "snd (sub k s)" k "fst (sub k s)" cs] ok_sub [of s k] sub_arms [of s k] by simp

end

text \<open>Waiting channels are open, distinct and already made.\<close>

definition notifier_ok :: "notifier \<Rightarrow> bool" where
  "notifier_ok n \<longleftrightarrow> (\<forall>k ch. nt_waiters n k = Some ch \<longrightarrow> ch < nt_next n \<and> ch \<notin> set (nt_closed n))
     \<and> (\<forall>k j ch. nt_waiters n k = Some ch \<and> nt_waiters n j = Some ch \<longrightarrow> k = j)
     \<and> (\<forall>ch \<in> set (nt_closed n). ch < nt_next n)"

interpretation waiters: latch subscribe notify "\<lambda>n ch. ch \<in> set (nt_closed n)" "\<lambda>n k ch. nt_waiters n k = Some ch" notifier_ok
proof
  fix s k j ch
  show "notifier_ok s \<Longrightarrow> notifier_ok (snd (subscribe k s))"
    by (auto simp: notifier_ok_def subscribe_def less_Suc_eq split: option.split if_splits)
  show "notifier_ok s \<Longrightarrow> notifier_ok (notify k s)"
    by (auto simp: notifier_ok_def notify_def less_Suc_eq split: option.split if_splits)
  show "notifier_ok s \<Longrightarrow> nt_waiters (snd (subscribe k s)) k = Some (fst (subscribe k s))"
    by (auto simp: subscribe_def split: option.split)
  show "notifier_ok s \<Longrightarrow> nt_waiters s k = Some ch \<Longrightarrow> ch \<notin> set (nt_closed s)"
    by (auto simp: notifier_ok_def)
qed (auto simp: subscribe_def notify_def split: option.split)

end
