(* ===== verification/Api_Properties.thy ===== *)
theory Api_Properties
  imports Operation_Api
begin

text \<open>
  Runs of the server seen from HTTP: every request is a sequence of store calls and notifier
  calls, so the guarantees of the stores hold behind the API, and a long poll is woken by
  every operation created for its node.
\<close>

section \<open>Steps\<close>

text \<open>
  One step is one part of a request, or a change elsewhere in the database (nodes, tokens,
  telemetry) that leaves the operation tables alone. Campaign ids in requests are ids the
  server issued.
\<close>

inductive api_step ::
  "(string \<Rightarrow> string) \<Rightarrow> (string \<Rightarrow> string \<Rightarrow> bool) \<Rightarrow> (campaign_spec \<Rightarrow> string) \<Rightarrow> instant \<times> api \<Rightarrow> instant \<times> api \<Rightarrow> bool"
  for sha verify digest where
  api_first: "t \<le> now \<Longrightarrow> api_step sha verify digest (t, s) (now, snd (claim_first sha verify now secret rq body s))"
| api_subscribe: "t \<le> now \<Longrightarrow> api_step sha verify digest (t, s) (now, snd (claim_subscribe nm s))"
| api_second: "t \<le> now \<Longrightarrow> api_step sha verify digest (t, s) (now, snd (claim_second sha now secret nm b ch wait s))"
| api_third: "t \<le> now \<Longrightarrow> api_step sha verify digest (t, s) (now, snd (claim_third sha now secret nm b s))"
| api_lease: "t \<le> now \<Longrightarrow> api_step sha verify digest (t, s) (now, snd (nodeOperationLease sha verify now rq i lb s))"
| api_event: "t \<le> now \<Longrightarrow> api_step sha verify digest (t, s) (now, snd (nodeOperationEvent sha verify now fr fops rq i eb s))"
| api_create: "t \<le> now \<Longrightarrow> api_step sha verify digest (t, s) (now, snd (adminCreateNodeOperation now fr nm hdr cb s))"
| api_update: "t \<le> now \<Longrightarrow> api_step sha verify digest (t, s) (now, snd (adminCreateNodeUpdate now fr cat status hdr ub s))"
| api_current: "t \<le> now \<Longrightarrow> api_step sha verify digest (t, s) (now, snd (adminCurrentNodeOperation now nm s))"
| api_cancel: "t \<le> now \<Longrightarrow> api_step sha verify digest (t, s) (now, snd (adminCancelNodeOperation now nm i s))"
| api_tick: "t \<le> now \<Longrightarrow> api_step sha verify digest (t, s) (now, from_controller (snd (controller_tick now fops (api_db s))) s)"
| api_current_campaign: "t \<le> now
     \<Longrightarrow> api_step sha verify digest (t, s) (now, from_controller (snd (adminCurrentUpdateCampaign now fops (api_db s))) s)"
| api_create_campaign: "t \<le> now
     \<Longrightarrow> api_step sha verify digest (t, s) (now, from_controller (snd (adminCreateUpdateCampaign digest now cid fops cat fl hdr rb (api_db s))) s)"
| api_cancel_campaign: "t \<le> now \<Longrightarrow> trim_space cid = cid
     \<Longrightarrow> api_step sha verify digest (t, s) (now, from_controller (snd (adminCancelUpdateCampaign now cid (api_db s))) s)"
| api_resume_campaign: "t \<le> now \<Longrightarrow> trim_space cid = cid
     \<Longrightarrow> api_step sha verify digest (t, s) (now, from_controller (snd (adminResumeUpdateCampaign sha now fops cid (api_db s))) s)"
| api_rest: "t \<le> now \<Longrightarrow> db_ops (api_db s') = db_ops (api_db s) \<Longrightarrow> db_events (api_db s') = db_events (api_db s)
     \<Longrightarrow> api_notifier s' = api_notifier s \<Longrightarrow> api_step sha verify digest (t, s) (now, s')"

section \<open>The store behind the API\<close>

lemma authenticate_frame:
  "db_ops (snd (authenticateNode sha verify now db rq)) = db_ops db
   \<and> db_events (snd (authenticateNode sha verify now db rq)) = db_events db
   \<and> db_nodes (snd (authenticateNode sha verify now db rq)) = db_nodes db
   \<and> db_aliases (snd (authenticateNode sha verify now db rq)) = db_aliases db"
  by (auto simp: authenticateNode_def Let_def q_MarkNodeTokenUsed_def AuthenticateNodeToken_def split: prod.split option.split)

lemma calls_authenticate: "op_calls sha' now r s \<Longrightarrow> op_calls sha' now r (snd (authenticateNode sha verify now s rq))"
  by (rule op_calls_rest) (simp_all add: authenticate_frame)

lemma calls_claim: "op_calls sha now r (api_db s) \<Longrightarrow> op_calls sha now r (api_db (snd (try_claim sha now secret nm b s)))"
  using op_calls_step [OF op_step.step_claim [of now now sha "api_db s" secret "claim_of nm b"], of r]
  by (auto simp: try_claim_def split: prod.split sum.split option.split)

lemma calls_notified: "op_calls sha now r s \<Longrightarrow> op_calls sha now r (s\<lparr>ctl_notified := x\<rparr>)"
  by (rule op_calls_rest) simp_all

lemma calls_from_controller [simp]:
  "op_calls sha now r db \<Longrightarrow> op_calls sha now r (api_db (from_controller db s))"
  by (simp add: from_controller_def calls_notified)

lemma calls_notify_ref [simp]: "api_db (notify_ref nm s) = api_db s"
  by (simp add: notify_ref_def split: option.split)



lemma calls_authD: "authenticateNode sha verify now s rq = (x, s') \<Longrightarrow> op_calls sha' now r s \<Longrightarrow> op_calls sha' now r s'"
  using calls_authenticate [of sha' now r s sha verify rq] by simp

lemma calls_claimD: "try_claim sha now secret nm b s = (x, s') \<Longrightarrow> op_calls sha now r (api_db s) \<Longrightarrow> op_calls sha now r (api_db s')"
  using calls_claim [of sha now r s secret nm b] by simp

lemma calls_renewD: "RenewNodeOperationLease sha now s nm i tok att = (x, s') \<Longrightarrow> op_calls sha now r s \<Longrightarrow> op_calls sha now r s'"
  using op_calls_step [OF op_step.step_renew [of now now sha s nm i tok att], of r] by simp

lemma calls_recordD: "RecordNodeOperationEvent sha now fr s ep = (x, s') \<Longrightarrow> op_calls sha now r s \<Longrightarrow> op_calls sha now r s'"
  using op_calls_step [OF op_step.step_record [of now now sha s fr ep], of r] by simp

lemma calls_createD: "CreateNodeOperation now fr s p = (x, s') \<Longrightarrow> op_calls sha now r s \<Longrightarrow> op_calls sha now r s'"
  using op_calls_step [OF op_step.step_create [of now now sha s fr p], of r] by simp

lemma calls_activeD: "GetActiveNodeOperation now s nm = (x, s') \<Longrightarrow> op_calls sha now r s \<Longrightarrow> op_calls sha now r s'"
  using op_calls_step [OF op_step.step_active [of now now sha s nm], of r] by simp

lemma calls_cancelD: "RequestNodeOperationCancel now s i = (x, s') \<Longrightarrow> op_calls sha now r s \<Longrightarrow> op_calls sha now r s'"
  using op_calls_step [OF op_step.step_cancel [of now now sha s i], of r] by simp

lemmas calls_dests = calls_authD calls_claimD calls_renewD calls_recordD calls_createD calls_activeD calls_cancelD

lemma calls_first: "op_calls sha now r (api_db s) \<Longrightarrow> op_calls sha now r (api_db (snd (claim_first sha verify now secret rq body s)))"
  by (auto simp: claim_first_def Let_def dest: calls_authD split: prod.splits sum.splits option.splits)
     (auto dest!: calls_authD dest: calls_claimD)

lemma calls_reconcileForOperation: "op_calls sha now r s \<Longrightarrow> op_calls sha now r (reconcileForOperation now fops i s)"
  by (auto simp: reconcileForOperation_def intro: op_client.reconcile_keeps split: option.split)


lemma calls_second: "op_calls sha now r (api_db s) \<Longrightarrow> op_calls sha now r (api_db (snd (claim_second sha now secret nm b ch wait s)))"
  by (auto simp: claim_second_def dest: calls_claimD split: prod.splits option.splits)

lemma calls_third: "op_calls sha now r (api_db s) \<Longrightarrow> op_calls sha now r (api_db (snd (claim_third sha now secret nm b s)))"
  by (auto simp: claim_third_def dest: calls_claimD split: prod.splits option.splits)

lemma calls_lease: "op_calls sha now r (api_db s) \<Longrightarrow> op_calls sha now r (api_db (snd (nodeOperationLease sha verify now rq i lb s)))"
  by (auto simp: nodeOperationLease_def split: prod.splits sum.splits option.splits)
     (auto dest!: calls_authD dest: calls_renewD)

lemma calls_event: "op_calls sha now r (api_db s) \<Longrightarrow> op_calls sha now r (api_db (snd (nodeOperationEvent sha verify now fr fops rq i eb s)))"
  by (auto simp: nodeOperationEvent_def split: prod.splits sum.splits option.splits)
     (auto dest!: calls_authD dest: calls_recordD intro!: calls_from_controller calls_reconcileForOperation)

lemma calls_create: "op_calls sha now r (api_db s) \<Longrightarrow> op_calls sha now r (api_db (snd (adminCreateNodeOperation now fr nm hdr cb s)))"
  by (auto simp: adminCreateNodeOperation_def Let_def dest: calls_createD split: prod.splits option.splits)

lemma calls_update: "op_calls sha now r (api_db s) \<Longrightarrow> op_calls sha now r (api_db (snd (adminCreateNodeUpdate now fr cat status hdr ub s)))"
  by (auto simp: adminCreateNodeUpdate_def Let_def dest: calls_createD split: prod.splits option.splits sum.splits)

lemma calls_current: "op_calls sha now r (api_db s) \<Longrightarrow> op_calls sha now r (api_db (snd (adminCurrentNodeOperation now nm s)))"
  by (auto simp: adminCurrentNodeOperation_def dest: calls_activeD split: prod.splits option.splits sum.splits)

lemma calls_cancel: "op_calls sha now r (api_db s) \<Longrightarrow> op_calls sha now r (api_db (snd (adminCancelNodeOperation now nm i s)))"
  by (auto simp: adminCancelNodeOperation_def dest: calls_cancelD split: prod.splits sum.splits)

lemma calls_bind: "op_calls sha now r (snd x) \<Longrightarrow> (\<And>y s. x = (Inr y, s) \<Longrightarrow> op_calls sha now r (snd (f y s))) \<Longrightarrow> op_calls sha now r (snd (bind_st x f))"
  by (rule bind_st_keeps)

lemma calls_reconcile:
  assumes "op_calls sha now r s"
  shows "op_calls sha now r (snd (bind_st (reconcile now fops c s) (\<lambda>d s. (Inr (g d), s))))"
proof (rule calls_bind)
  show *: "op_calls sha now r (snd (reconcile now fops c s))" by (rule op_client.reconcile_keeps) fact
  show "op_calls sha now r (snd (Inr (g y), s'))" if "reconcile now fops c s = (Inr y, s')" for y s'
    using * that by simp
qed

lemma calls_tick: "op_calls sha now r s \<Longrightarrow> op_calls sha now r (snd (controller_tick now fops s))"
  by (auto simp: controller_tick_def calls_reconcile split: sum.split option.split)

lemma calls_current_campaign: "op_calls sha now r s \<Longrightarrow> op_calls sha now r (snd (adminCurrentUpdateCampaign now fops s))"
  by (auto simp: adminCurrentUpdateCampaign_def calls_reconcile split: sum.split option.split)

lemma calls_create_campaign:
  assumes "op_calls sha now r s"
  shows "op_calls sha now r (snd (adminCreateUpdateCampaign digest now cid fops cat fl hdr rb s))"
proof -
  have made: "op_calls sha now r (snd (CreateNodeUpdateCampaign digest now cid s p))" for p
    by (rule op_calls_rest [OF _ _ assms]) (simp_all add: create_campaign_frame)
  have "op_calls sha now r s'" if "CreateNodeUpdateCampaign digest now cid s p = (x, s')" for p x s'
    using made [of p] that by simp
  then show ?thesis
    using assms made
    by (auto simp: adminCreateUpdateCampaign_def Let_def intro!: calls_bind calls_reconcile split: prod.splits)
qed

lemma api_step_calls:
  assumes "api_step sha verify digest (t, s) (now, s')"
  shows "op_calls sha now (api_db s) (api_db s') \<and> t \<le> now"
  using assms
proof cases
  case api_subscribe
  then show ?thesis by (simp add: claim_subscribe_def split: prod.split)
next
  case api_rest
  then show ?thesis using op_calls_rest [of "api_db s'" "api_db s"] by simp
qed (simp_all add: calls_first calls_second calls_third calls_lease calls_event calls_create calls_update calls_current
    calls_cancel calls_tick calls_current_campaign calls_create_campaign op_client.adminCancel_keeps op_client.adminResume_keeps)




section \<open>The notifier behind the API\<close>

definition latched :: "notifier \<Rightarrow> notifier \<Rightarrow> bool" where
  "latched n n' \<longleftrightarrow> (\<exists>cs. n' = latch_run subscribe notify cs n)"

lemma latch_run_append: "latch_run sub ntf (cs @ ds) s = latch_run sub ntf ds (latch_run sub ntf cs s)"
proof (induction cs arbitrary: s)
  case (Cons c cs)
  then show ?case by (cases c) simp_all
qed simp

lemma latched_refl [simp]: "latched n n"
  unfolding latched_def by (rule exI [of _ "[]"]) simp

lemma latched_trans: "latched n m \<Longrightarrow> latched m k \<Longrightarrow> latched n k"
  unfolding latched_def by (metis latch_run_append)

lemma latched_notify [simp]: "latched n (notify k n)"
  unfolding latched_def by (rule exI [of _ "[Notify k]"]) simp

lemma latched_subscribe: "latched n (snd (subscribe k n))"
  unfolding latched_def by (rule exI [of _ "[Subscribe k]"]) simp

lemma latched_fold [simp]: "latched n (fold notify ks n)"
proof (induction ks arbitrary: n)
  case (Cons k ks)
  then show ?case using latched_trans [OF latched_notify [of n k]] by (simp del: latched_notify)
qed simp

lemma latched_from_controller [simp]: "latched (api_notifier s) (api_notifier (from_controller db s))"
  by (simp add: from_controller_def)

lemma latched_notify_ref: "latched (api_notifier s) (api_notifier (notify_ref nm s))"
  by (simp add: notify_ref_def split: option.split)

lemma notifier_claim: "api_notifier (snd (try_claim sha now secret nm b s)) = api_notifier s"
  by (auto simp: try_claim_def split: prod.split sum.split option.split)

lemma notifier_claimD: "try_claim sha now secret nm b s = (x, s') \<Longrightarrow> api_notifier s' = api_notifier s"
  using notifier_claim [of sha now secret nm b s] by simp

lemma notify_ref_upd: "latched (api_notifier s) (api_notifier (notify_ref nm (s\<lparr>api_db := db\<rparr>)))"
  using latched_notify_ref [of "s\<lparr>api_db := db\<rparr>"] by simp

lemma latched_update: "latched (api_notifier s) (api_notifier (snd (adminCreateNodeUpdate now fr cat status hdr ub s)))"
  unfolding adminCreateNodeUpdate_def Let_def by (simp split: option.split prod.split sum.split)

lemma api_step_latched:
  assumes "api_step sha verify digest (t, s) (now, s')"
  shows "latched (api_notifier s) (api_notifier s')"
  using assms
proof cases
  case (api_first secret rq body)
  then show ?thesis
    by (auto simp: claim_first_def Let_def dest!: notifier_claimD split: prod.split sum.split option.split)
next
  case (api_subscribe nm)
  then show ?thesis using latched_subscribe [of "api_notifier s" nm] by (simp add: claim_subscribe_def split_beta)
next
  case (api_second secret nm b ch wait)
  then show ?thesis by (auto simp: claim_second_def dest!: notifier_claimD split: prod.split option.split)
next
  case (api_third secret nm b)
  then show ?thesis by (auto simp: claim_third_def dest!: notifier_claimD split: prod.split option.split)
next
  case (api_lease rq i lb)
  then show ?thesis by (auto simp: nodeOperationLease_def split: prod.split sum.split option.split)
next
  case (api_event fr fops rq i eb)
  then show ?thesis by (auto simp: nodeOperationEvent_def split: prod.split sum.split option.split)
next
  case (api_create fr nm hdr cb)
  then show ?thesis
    by (auto simp: adminCreateNodeOperation_def Let_def notify_ref_upd split: prod.split option.split)
next
  case (api_update fr cat status hdr ub)
  then show ?thesis using latched_update by simp
next
  case (api_current nm)
  then show ?thesis by (auto simp: adminCurrentNodeOperation_def split: prod.split option.split sum.split)
next
  case (api_cancel nm i)
  then show ?thesis by (auto simp: adminCancelNodeOperation_def notify_ref_upd split: prod.split sum.split)
qed simp_all

lemma api_run_latched: "run (api_step sha verify digest) u v \<Longrightarrow> latched (api_notifier (snd u)) (api_notifier (snd v))"
proof (induction rule: run.induct)
  case (run_step s t u)
  then show ?case using api_step_latched latched_trans by (metis prod.collapse)
qed simp



section \<open>Examples\<close>

definition ex_api :: api where
  "ex_api = \<lparr>api_db = tok_server, api_notifier = newNodeOperationNotifier\<rparr>"

definition ex_subscribed :: api where
  "ex_subscribed = snd (claim_subscribe ''tokyo'' ex_api)"

definition ex_aop :: op_row where
  "ex_aop = new_op 0 ''op1'' ''n1'' ''logs.collect'' ''{}'' ''k1'' [''operations.v1''] None None ''admin-api'' None"

definition ex_woken :: api where
  "ex_woken = \<lparr>api_db = tok_server\<lparr>db_ops := [ex_aop]\<rparr>, api_notifier = notify ''tokyo'' (api_notifier ex_subscribed)\<rparr>"

lemma admin_trim: "trim_space ''admin-api'' = ''admin-api''"
  by code_simp

lemma ex_api_validate:
  "validate_create (ex_create\<lparr>cp_node := ''tokyo'', cp_key := ''k1'', cp_by := ''admin-api''\<rparr>) =
     Inr \<lparr>rq_kind = ''logs.collect'', rq_payload = ''{}'', rq_key = ''k1'', rq_caps = [''operations.v1''],
          rq_not_before = None, rq_expires = None, rq_by = ''admin-api'', rq_retry_of = ''''\<rparr>"
  by (simp add: validate_defs allowed_kinds_def ex_defs admin_trim)

lemma ex_api_node: "GetNode (tok_server\<lparr>db_ops := x\<rparr>) ''tokyo'' = Some reg_node" "GetNode tok_server ''tokyo'' = Some reg_node"
  by (simp_all add: reg_simps tok_server_def)

lemma ex_api_store:
  "CreateNodeOperation 0 ''op1'' tok_server (ex_create\<lparr>cp_node := ''tokyo'', cp_key := ''k1'', cp_by := ''admin-api''\<rparr>)
     = (Inr (ex_aop, True), tok_server\<lparr>db_ops := [ex_aop]\<rparr>)"
proof -
  have "db_ops tok_server = []" "node_id reg_node = ''n1''" "reg_node \<in> set (db_nodes tok_server)"
    by (simp_all add: tok_server_def reg_node_def reg_db_def)
  then show ?thesis
    by (auto simp: CreateNodeOperation_def ex_api_validate ex_api_node create_tx_def op_query_defs ex_aop_def nullableString_def image_iff)
qed

lemma ex_api_created:
  "adminCreateNodeOperation 0 ''op1'' ''tokyo'' '''' (Some ex_create) ex_subscribed = (OperationReply ex_aop True, ex_woken)"
proof -
  have "api_db ex_subscribed = tok_server" by (simp add: ex_subscribed_def ex_api_def claim_subscribe_def split: prod.split)
  moreover have "cp_key ex_create = ''k1''" "cp_kind ex_create = ''logs.collect''" by (simp_all add: ex_create_def)
  moreover have "node_name reg_node = ''tokyo''" by (simp add: reg_node_def)
  ultimately show ?thesis
    by (simp add: adminCreateNodeOperation_def Let_def ex_api_store create_reply_def created_op_def notify_ref_def
        ex_api_node ex_woken_def)
qed

lemma ex_api_inv: "ops_inv tok_server" "ops_inv (api_db ex_woken)"
proof -
  show "ops_inv tok_server" by (rule ops_inv_empty) (simp_all add: tok_server_def)
  then show "ops_inv (api_db ex_woken)"
    using good_CreateNodeOperation [of tok_server 0 "''op1''" "ex_create\<lparr>cp_node := ''tokyo'', cp_key := ''k1'', cp_by := ''admin-api''\<rparr>"]
    by (simp add: good_change_def ex_api_store ex_woken_def)
qed



end
