(* ===== verification/Agent_Operations.thy ===== *)
theory Agent_Operations
  imports Operation_Reports Api_Properties
begin

text \<open>
  The agent's side of node operations: \<open>internal/agent/operations.go\<close>. The operation state
  file is the agent's outbox and restart checkpoint: an event is written there before it is
  sent and removed only after the server has acknowledged it. The link to the server may lose
  requests and answers, and the agent may be killed at any point.
\<close>

section \<open>The state file\<close>

text \<open>A pending event has its node and operation filled in by the server, from the URL and the token.\<close>

record operation_state =
  os_assignment :: assignment
  os_last_seq :: int
  os_phase :: string
  os_pending :: "event_params option"
  os_checkpoint :: "string option"

datatype agent_error = StateIncomplete | ApiError nat | LinkGivenUp | RestartRequired

text \<open>\<open>ag_file\<close> is the file on disk, \<open>ag_mem\<close> the state of a running executor.\<close>

record agent =
  ag_file :: "operation_state option"
  ag_mem :: "operation_state option"

definition LoadOperationState :: "agent \<Rightarrow> agent_error + operation_state option" where
  "LoadOperationState ag =
     (case ag_file ag of
        None \<Rightarrow> Inr None
      | Some st \<Rightarrow>
        if asg_id (os_assignment st) = '''' \<or> asg_token (os_assignment st) = '''' \<or> asg_attempt (os_assignment st) \<le> 0
        then Inl StateIncomplete else Inr (Some st))"

definition SaveOperationState :: "operation_state \<Rightarrow> agent \<Rightarrow> agent" where
  "SaveOperationState st ag = ag\<lparr>ag_file := Some st\<rparr>"

definition ClearOperationState :: "agent \<Rightarrow> agent" where
  "ClearOperationState ag = ag\<lparr>ag_file := None\<rparr>"

definition agentCapabilities :: "string list" where
  "agentCapabilities =
     [''operations.v1'', ''update.agent.v1'', ''update.sing_box.v1'', ''download.streaming.v1'',
      ''install.versioned.v1'', ''restart_resume.agent.v1'', ''rollback.sing_box.v1'', ''telemetry.connections.v1'']"

definition operationLongPollSeconds :: int where
  "operationLongPollSeconds = 45"

text \<open>The body of \<open>claimNodeOperation\<close>.\<close>

definition claim_request :: "operation_state option \<Rightarrow> claim_body" where
  "claim_request st =
     \<lparr>cb_caps = agentCapabilities,
      cb_current_op = (case st of None \<Rightarrow> '''' | Some s \<Rightarrow> asg_id (os_assignment s)),
      cb_token = (case st of None \<Rightarrow> '''' | Some s \<Rightarrow> asg_token (os_assignment s)),
      cb_wait_seconds = operationLongPollSeconds\<rparr>"

text \<open>The check of \<open>claimNodeOperation\<close> on the answer.\<close>

definition valid_assignment :: "assignment \<Rightarrow> bool" where
  "valid_assignment a \<longleftrightarrow> asg_id a \<noteq> '''' \<and> asg_token a \<noteq> '''' \<and> asg_attempt a > 0"

text \<open>What \<open>RunOperations\<close> does with an assignment, given the state it loaded.\<close>

definition adopt_assignment :: "operation_state option \<Rightarrow> assignment \<Rightarrow> operation_state" where
  "adopt_assignment st a =
     (case st of
        None \<Rightarrow> \<lparr>os_assignment = a, os_last_seq = 0, os_phase = ''claimed'', os_pending = None, os_checkpoint = None\<rparr>
      | Some s \<Rightarrow>
        if asg_id (os_assignment s) \<noteq> asg_id a
        then \<lparr>os_assignment = a, os_last_seq = 0, os_phase = ''claimed'', os_pending = None, os_checkpoint = None\<rparr>
        else if asg_attempt (os_assignment s) \<noteq> asg_attempt a
        then s\<lparr>os_assignment := a, os_last_seq := 0, os_pending := None\<rparr>
        else s\<lparr>os_assignment := a\<rparr>)"

section \<open>Reporting\<close>

definition isRetryableOperationError :: "nat \<Rightarrow> bool" where
  "isRetryableOperationError code \<longleftrightarrow> code = 429 \<or> code \<ge> 500"

text \<open>
  The first half of \<open>reportOperationEventWithRetry\<close>: an event is only taken up when none is
  pending. \<open>clock\<close> is the current time as text, with what it parses to.
\<close>

definition begin_report :: "string \<times> time_arg \<Rightarrow> event_params \<Rightarrow> operation_state \<Rightarrow> operation_state" where
  "begin_report clock ev st =
     (case os_pending st of
        Some _ \<Rightarrow> st
      | None \<Rightarrow>
        st\<lparr>os_pending := Some (ev\<lparr>ep_token := asg_token (os_assignment st), ep_attempt := asg_attempt (os_assignment st),
              ep_seq := os_last_seq st + 1,
              ep_reported_at := (if fst (ep_reported_at ev) = '''' then clock else ep_reported_at ev)\<rparr>)\<rparr>)"

text \<open>The end of \<open>flushPendingOperationEventWithRetry\<close>, once the event was acknowledged.\<close>

definition acknowledge :: "event_params \<Rightarrow> operation_state \<Rightarrow> operation_state" where
  "acknowledge p st = st\<lparr>os_last_seq := ep_seq p, os_phase := ep_phase p, os_pending := None\<rparr>"

text \<open>One HTTP exchange over the link: the request is lost, the answer is lost, or both arrive.\<close>

datatype link = Lost | LostReply | Delivered

fun exchange :: "link \<Rightarrow> (api \<Rightarrow> reply \<times> api) \<Rightarrow> api \<Rightarrow> reply option \<times> api" where
  "exchange Lost f s = (None, s)"
| "exchange LostReply f s = (None, snd (f s))"
| "exchange Delivered f s = (Some (fst (f s)), snd (f s))"

record try_params =
  tp_link :: link
  tp_now :: instant
  tp_fresh :: string
  tp_ops :: "string \<Rightarrow> string"
  tp_auth :: auth_request

definition send_event ::
  "(string \<Rightarrow> string) \<Rightarrow> (string \<Rightarrow> string \<Rightarrow> bool) \<Rightarrow> try_params \<Rightarrow> operation_state \<Rightarrow> event_params \<Rightarrow> api \<Rightarrow> reply option \<times> api" where
  "send_event sha verify tp st p =
     exchange (tp_link tp)
       (nodeOperationEvent sha verify (tp_now tp) (tp_fresh tp) (tp_ops tp) (tp_auth tp) (asg_id (os_assignment st)) (Some p))"

text \<open>
  The retry loop of \<open>flushPendingOperationEventWithRetry\<close> over the attempts that the context
  allows; when they are used up the context has ended.
\<close>

fun flush ::
  "(string \<Rightarrow> string) \<Rightarrow> (string \<Rightarrow> string \<Rightarrow> bool) \<Rightarrow> try_params list \<Rightarrow> operation_state \<Rightarrow> api
   \<Rightarrow> (agent_error + operation_state) \<times> api" where
  "flush sha verify tps st s =
     (case os_pending st of
        None \<Rightarrow> (Inr st, s)
      | Some p \<Rightarrow>
        (case tps of
           [] \<Rightarrow> (Inl LinkGivenUp, s)
         | tp # rest \<Rightarrow>
           (case send_event sha verify tp st p s of
              (None, s1) \<Rightarrow> flush sha verify rest st s1
            | (Some r, s1) \<Rightarrow>
              if reply_code r = 200 then (Inr (acknowledge p st), s1)
              else if isRetryableOperationError (reply_code r) then flush sha verify rest st s1
              else (Inl (ApiError (reply_code r)), s1))))"

declare flush.simps [simp del]

definition reportOperationEventWithRetry ::
  "(string \<Rightarrow> string) \<Rightarrow> (string \<Rightarrow> string \<Rightarrow> bool) \<Rightarrow> string \<times> time_arg \<Rightarrow> try_params list \<Rightarrow> operation_state \<Rightarrow> event_params \<Rightarrow> api
   \<Rightarrow> (agent_error + operation_state) \<times> api" where
  "reportOperationEventWithRetry sha verify clock tps st ev s = flush sha verify tps (begin_report clock ev st) s"

section \<open>The outcome of an executor\<close>

datatype exec_error = ExecCancelled | ExecRestart | ExecFailed string

definition finalLeaseError :: "bool \<Rightarrow> bool \<Rightarrow> string option \<Rightarrow> exec_error option" where
  "finalLeaseError committed cancelled renew_err =
     (if committed then None
      else case renew_err of
        Some e \<Rightarrow> Some (ExecFailed e)
      | None \<Rightarrow> if cancelled then Some ExecCancelled else None)"

text \<open>The cause of the context replaces the executor's error, and only then.\<close>

definition operationExecutionError :: "exec_error option \<Rightarrow> exec_error option \<Rightarrow> exec_error option" where
  "operationExecutionError cause err =
     (case err of None \<Rightarrow> None | Some e \<Rightarrow> (case cause of Some c \<Rightarrow> Some c | None \<Rightarrow> Some e))"

text \<open>
  The last event of an execution; a restart request never gets here. \<open>progress\<close> fills the
  fields a report shares with it.
\<close>

definition progress :: "string \<Rightarrow> string \<Rightarrow> string \<Rightarrow> raw_json \<Rightarrow> string \<Rightarrow> event_params" where
  "progress status phase message result err =
     \<lparr>ep_node = '''', ep_op = '''', ep_token = '''', ep_attempt = 0, ep_seq = 0, ep_status = status, ep_phase = phase,
      ep_message = message, ep_details = \<lparr>json_bytes = 0, json_doc = JsonBlank\<rparr>, ep_result = result,
      ep_error = err, ep_reported_at = ('''', TimeBlank)\<rparr>"

fun final_event :: "raw_json \<Rightarrow> exec_error option \<Rightarrow> event_params" where
  "final_event result None = progress ''succeeded'' ''completed'' ''operation completed'' result ''''"
| "final_event result (Some ExecCancelled) =
     progress ''cancelled'' ''cancelled'' ''operation cancelled at a safe boundary'' result ''node operation cancelled''"
| "final_event result (Some (ExecFailed m)) = progress ''failed'' ''failed'' ''operation failed'' result m"
| "final_event result (Some ExecRestart) =
     progress ''failed'' ''failed'' ''operation failed'' result ''agent restart required to continue update''"

definition starting_event :: event_params where
  "starting_event = progress ''running'' ''starting'' ''operation executor started'' \<lparr>json_bytes = 0, json_doc = JsonBlank\<rparr> ''''"

text \<open>
  The part of \<open>runClaimedOperation\<close> after the executor returned: \<open>err\<close> is its error after
  the context's cause was applied and the final renewal was judged. A restart leaves the file
  in place; otherwise the final event is reported and the file removed.
\<close>

definition finish_operation ::
  "(string \<Rightarrow> string) \<Rightarrow> (string \<Rightarrow> string \<Rightarrow> bool) \<Rightarrow> string \<times> time_arg \<Rightarrow> try_params list \<Rightarrow> raw_json \<Rightarrow> exec_error option \<Rightarrow> operation_state
   \<Rightarrow> agent \<Rightarrow> api \<Rightarrow> (agent_error + unit) \<times> agent \<times> api" where
  "finish_operation sha verify clock tps result err st ag s =
     (if err = Some ExecRestart then (Inl RestartRequired, ag, s) else
      let st1 = begin_report clock (final_event result err) st; ag1 = SaveOperationState st1 ag in
      (case flush sha verify tps st1 s of
         (Inl e, s1) \<Rightarrow> (Inl e, ag1, s1)
       | (Inr st2, s1) \<Rightarrow> (Inr (), ClearOperationState (SaveOperationState st2 ag1), s1)))"

text \<open>
  \<open>runClaimedOperation\<close> as a whole. The executor (\<open>executeNodeOperation\<close>) is a parameter: it
  may report progress, so it returns the state and the server state it leaves, together with
  its result, whether that result is committed, its error, the cause of its context and what
  the lease monitor left behind.
  \<open>renew\<close> is the outcome of the final lease renewal: the cancel flag and its error.
\<close>

record exec_outcome =
  eo_result :: raw_json
  eo_committed :: bool
  eo_error :: "exec_error option"
  eo_cause :: "exec_error option"
  eo_lease_error :: "exec_error option"

definition exec_verdict :: "exec_outcome \<Rightarrow> bool \<Rightarrow> string option \<Rightarrow> exec_error option" where
  "exec_verdict eo cancelled renew_err =
     (case operationExecutionError (eo_cause eo) (eo_error eo) of
        Some e \<Rightarrow> Some e
      | None \<Rightarrow>
        (case eo_lease_error eo of
           Some e \<Rightarrow> Some e
         | None \<Rightarrow> finalLeaseError (eo_committed eo) cancelled renew_err))"

definition runClaimedOperation ::
  "(string \<Rightarrow> string) \<Rightarrow> (string \<Rightarrow> string \<Rightarrow> bool) \<Rightarrow> (string \<times> time_arg) \<times> (string \<times> time_arg)
   \<Rightarrow> try_params list \<times> try_params list \<times> try_params list
   \<Rightarrow> (operation_state \<Rightarrow> api \<Rightarrow> exec_outcome \<times> operation_state \<times> api) \<Rightarrow> bool \<times> string option
   \<Rightarrow> operation_state \<Rightarrow> agent \<Rightarrow> api \<Rightarrow> (agent_error + unit) \<times> agent \<times> api" where
  "runClaimedOperation sha verify clocks scripts exec renew st ag s =
     (let (clock1, clock2) = clocks; (tps1, tps2, tps3) = scripts in
      case flush sha verify tps1 st s of
        (Inl e, s1) \<Rightarrow> (Inl e, ag, s1)
      | (Inr st1, s1) \<Rightarrow>
        let ag1 = SaveOperationState st1 ag;
            st2 = (if os_last_seq st1 = 0 then begin_report clock1 starting_event st1 else st1);
            ag2 = SaveOperationState st2 ag1 in
        (case flush sha verify tps2 st2 s1 of
           (Inl e, s2) \<Rightarrow> (Inl e, ag2, s2)
         | (Inr st3, s2) \<Rightarrow>
           (case exec st3 s2 of
              (eo, st4, s3) \<Rightarrow>
              finish_operation sha verify clock2 tps3 (eo_result eo) (exec_verdict eo (fst renew) (snd renew)) st4
                (SaveOperationState st4 ag2) s3)))"

end
