(* ===== verification/Agent_Outbox.thy ===== *)
theory Agent_Outbox
  imports Agent_Operations
begin

text \<open>
  The agent and the server together, over a link that loses requests and answers, with the
  agent killed and restarted at any point: every event the agent reports is stored exactly
  once, in order, and the agent always knows it.
\<close>

section \<open>The event log of an attempt\<close>

definition logged :: "'a op_db_scheme \<Rightarrow> string \<Rightarrow> int \<Rightarrow> op_event list" where
  "logged db i att = filter (\<lambda>e. ev_op e = i \<and> ev_attempt e = att) (db_events db)"

text \<open>A stored event carries a report when a resend of the report would be taken for a replay of it.\<close>

definition carries :: "op_event \<Rightarrow> event_params \<Rightarrow> bool" where
  "carries x p \<longleftrightarrow> (\<exists>now e. validate_event now p = Inr e \<and> same_event_content x e)"

lemma validate_route:
  "validate_event now (p\<lparr>ep_node := a, ep_op := b\<rparr>) = map_sum id (\<lambda>e. e\<lparr>ev_op := b\<rparr>) (validate_event now p)"
  by (cases "normalizeJSONObject (ep_details p)"; cases "normalizeJSONObject (ep_result p)"; cases "snd (ep_reported_at p)")
     (simp_all add: validate_event_def Let_def split: option.split)

lemma carries_route: "carries x (p\<lparr>ep_node := a, ep_op := b\<rparr>) \<longleftrightarrow> carries x p"
proof -
  have "(\<exists>e. validate_event now (p\<lparr>ep_node := a, ep_op := b\<rparr>) = Inr e \<and> same_event_content x e)
      \<longleftrightarrow> (\<exists>e. validate_event now p = Inr e \<and> same_event_content x e)" for now
    unfolding validate_route by (cases "validate_event now p") (simp_all add: same_event_content_def)
  then show ?thesis by (simp add: carries_def)
qed

lemma carries_now:
  assumes "carries x p" and "validate_event now p = Inr e"
  shows "same_event_content x e"
proof -
  obtain t e0 where "validate_event t p = Inr e0" "same_event_content x e0" using assms(1) by (auto simp: carries_def)
  moreover from this(1) obtain e' where "validate_event now p = Inr e'" "same_event_content e0 e'"
    using validate_event_again by blast
  ultimately show ?thesis using assms(2) by (simp add: same_event_content_def)
qed

lemma ev_seqs_logged: "ev_seqs db i att = map ev_seq (logged db i att)"
  by (simp add: ev_seqs_def logged_def)

lemma logged_nth:
  assumes "ops_inv db" and "q_GetNodeOperationEvent db i att (int k + 1) = Some x"
  shows "k < length (logged db i att) \<and> logged db i att ! k = x"
proof -
  have gap: "map ev_seq (logged db i att) = map int [1..<Suc (length (logged db i att))]"
    using assms(1) by (auto simp: ops_inv_def gapless_def ev_seqs_logged simp del: upt_Suc)
  have x: "x \<in> set (logged db i att)" "ev_seq x = int k + 1"
    using assms(2) by (auto simp: q_GetNodeOperationEvent_def logged_def dest!: sel_SomeD)
  then obtain j where j: "j < length (logged db i att)" "logged db i att ! j = x" by (auto simp: in_set_conv_nth)
  then have "ev_seq x = map int [1..<Suc (length (logged db i att))] ! j" by (simp only: gap [symmetric] nth_map)
  also have "\<dots> = int j + 1" using j(1) by (simp del: upt_Suc)
  finally show ?thesis using x(2) j by simp
qed

lemma logged_missing:
  assumes "ops_inv db"
  shows "q_GetNodeOperationEvent db i att sq = None \<longleftrightarrow> \<not> (1 \<le> sq \<and> sq \<le> int (length (logged db i att)))"
  using event_present_iff [of db i att sq] assms by (auto simp: ops_inv_def ev_seqs_logged)

section \<open>What the server does to the log\<close>

lemma events_create_tx: "create_tx now fr s nid q = Inr (r, c, s') \<Longrightarrow> db_events s' = db_events s"
  by (auto simp: create_tx_def q_CreateNodeOperation_def bind_res_Inr_iff split: option.splits if_splits)

lemma events_create: "db_events (snd (CreateNodeOperation now fr s p)) = db_events s"
  by (auto simp: CreateNodeOperation_def dest: events_create_tx split: option.split sum.split prod.split)

lemma events_cancel: "db_events (snd (RequestNodeOperationCancel now s i)) = db_events s"
  by (simp add: RequestNodeOperationCancel_def q_RequestNodeOperationCancel_def upd_returning_def split: option.split)

lemma events_cancel_unclaimed: "db_events (snd (CancelUnclaimedNodeOperation now s i)) = db_events s"
  by (simp add: CancelUnclaimedNodeOperation_def q_CancelUnclaimedNodeOperation_def Let_def)

lemma events_claim: "db_events (snd (ClaimNodeOperation sha now secret s cp)) = db_events s"
  by (simp add: ClaimNodeOperation_def q_ExpireQueuedNodeOperations_def q_ResumeNodeOperationLease_def q_ClaimNodeOperation_def
      upd_returning_def Let_def split: option.split prod.split)

interpretation event_log: controller_effects "\<lambda>s. db_events s = es" now cid for es now cid
  by unfold_locales
     (auto simp: events_create events_cancel events_cancel_unclaimed member_writes campaign_writes notify_node_def Let_def
       split: option.splits if_splits)

lemma reconcileForOperation_events: "db_events (reconcileForOperation now fops i s) = db_events s"
  by (auto simp: reconcileForOperation_def intro: event_log.reconcile_keeps split: option.split)

text \<open>The event handler: refused without a trace, recognised as a replay, or appended.\<close>

lemma event_handler_log:
  assumes "nodeOperationEvent sha verify now fr fops rq i (Some p) s = (r, s')" and "ops_inv (api_db s)" and "hex_digest sha"
  shows "db_events (api_db s') = db_events (api_db s) \<and> reply_code r \<noteq> 200
    \<or> reply_code r = 200 \<and>
       (db_events (api_db s') = db_events (api_db s)
          \<and> (\<exists>x. q_GetNodeOperationEvent (api_db s) i (ep_attempt p) (ep_seq p) = Some x \<and> carries x p)
        \<or> (\<exists>x. db_events (api_db s') = db_events (api_db s) @ [x] \<and> carries x p \<and> ev_op x = i \<and> ev_attempt x = ep_attempt p
            \<and> ep_seq p = int (length (logged (api_db s) i (ep_attempt p))) + 1))"
proof -
  obtain au db where au: "authenticateNode sha verify now (api_db s) rq = (au, db)" by force
  have fr: "db_ops db = db_ops (api_db s)" "db_events db = db_events (api_db s)"
    using authenticate_frame [of sha verify now "api_db s" rq] au by simp_all
  have inv: "ops_inv db" using good_rest [OF fr] assms(2) by (simp add: good_change_def)
  show ?thesis
  proof (cases au)
    case (Inl f)
    then show ?thesis using assms(1) au fr by (cases f) (auto simp: nodeOperationEvent_def auth_reply_def)
  next
    case (Inr nm)
    define p' where "p' = p\<lparr>ep_node := nm, ep_op := i\<rparr>"
    obtain res db1 where rec: "RecordNodeOperationEvent sha now fr db p' = (res, db1)" by force
    show ?thesis
    proof (cases res)
      case (Inl e)
      then have "db1 = db" using rec record_refused_unchanged by blast
      then show ?thesis
        using assms(1) au fr Inr Inl rec by (auto simp: nodeOperationEvent_def p'_def writeNodeOperationError_def split: if_splits)
    next
      case res: (Inr op)
      have r: "r = OperationReply op False" and s': "db_events (api_db s') = db_events db1"
        using assms(1) unfolding nodeOperationEvent_def au Inr rec [unfolded p'_def] res
        by (auto simp: from_controller_def reconcileForOperation_events rec [unfolded p'_def] res)
      obtain n e where "GetNode db (ep_node p') = Some n" and e: "validate_event now p' = Inr e" and tx: "record_tx sha now fr db (node_id n) (ep_token p') e = Inr (op, db1)"
        using rec [unfolded res] by (rule record_cases)
      have f: "ev_op e = i" "ev_attempt e = ep_attempt p" "ev_seq e = ep_seq p"
        using validate_event_fields [OF e] by (simp_all add: p'_def)
      have car: "carries x p" if "same_event_content x e" for x
        using that e carries_route [of x i nm p] unfolding p'_def carries_def by blast
      have log: "q_GetNodeOperationEvent db = q_GetNodeOperationEvent (api_db s)" "logged db = logged (api_db s)"
        using fr by (simp_all add: q_GetNodeOperationEvent_def logged_def fun_eq_iff)
      show ?thesis
      proof (cases "q_GetNodeOperationEvent db (ev_op e) (ev_attempt e) (ev_seq e)")
        case None
        then have "ep_seq p = int (length (logged (api_db s) i (ep_attempt p))) + 1"
          and "db_events db1 = db_events db @ [e\<lparr>ev_id := fr\<rparr>]"
          using record_tx_fresh [OF tx inv assms(3)] f by (auto simp: ev_seqs_logged log)
        moreover have "carries (e\<lparr>ev_id := fr\<rparr>) p" by (rule car) (simp add: same_event_content_def)
        ultimately show ?thesis using r s' fr f by auto
      next
        case (Some x)
        then have "db1 = db" "same_event_content x e"
          using tx by (auto simp: record_tx_def split: option.splits if_splits)
        then show ?thesis using r s' fr f Some car log by auto
      qed
    qed
  qed
qed


section \<open>Runs of the agent against the server\<close>

text \<open>
  \<open>ob_acked\<close> is history, not a part of the program: the reports of the current attempt that
  the agent knows to be stored.
\<close>

record outbox =
  ob_api :: api
  ob_agent :: agent
  ob_acked :: "event_params list"

definition file_log :: "api \<Rightarrow> operation_state \<Rightarrow> op_event list" where
  "file_log s st = logged (api_db s) (asg_id (os_assignment st)) (asg_attempt (os_assignment st))"

definition continues :: "operation_state option \<Rightarrow> assignment \<Rightarrow> bool" where
  "continues fo a \<longleftrightarrow> (\<exists>st. fo = Some st \<and> asg_id (os_assignment st) = asg_id a \<and> asg_attempt (os_assignment st) = asg_attempt a)"

text \<open>Lease tokens are 256 random bits: the token an agent holds was issued for one attempt only.\<close>

definition token_unique :: "operation_state option \<Rightarrow> assignment \<Rightarrow> bool" where
  "token_unique fo a \<longleftrightarrow> (\<forall>st. fo = Some st \<and> asg_id (os_assignment st) = asg_id a \<and> asg_token (os_assignment st) = asg_token a
     \<longrightarrow> asg_attempt (os_assignment st) = asg_attempt a)"

definition running :: "operation_state \<Rightarrow> agent" where
  "running st = \<lparr>ag_file = Some st, ag_mem = Some st\<rparr>"

definition after_send :: "reply option \<Rightarrow> event_params \<Rightarrow> operation_state \<Rightarrow> outbox \<Rightarrow> outbox" where
  "after_send ro p st ob =
     (case ro of
        None \<Rightarrow> ob
      | Some r \<Rightarrow>
        if reply_code r = 200 then ob\<lparr>ob_agent := running (acknowledge p st), ob_acked := ob_acked ob @ [p]\<rparr>
        else if isRetryableOperationError (reply_code r) then ob
        else ob\<lparr>ob_agent := (ob_agent ob)\<lparr>ag_mem := None\<rparr>\<rparr>)"

text \<open>
  \<open>world\<close> is any other request: it does not hold the agent's lease token, so it does not
  add to the log of the agent's attempt. \<open>send\<close> is one pass of the retry loop. A kill
  between the answer and the write of the file is a lost answer followed by \<open>crash\<close>.
  Operation ids are UUIDs of the server, so trimming does not change them.
\<close>

inductive outbox_step ::
  "(string \<Rightarrow> string) \<Rightarrow> (string \<Rightarrow> string \<Rightarrow> bool) \<Rightarrow> (campaign_spec \<Rightarrow> string) \<Rightarrow> instant \<times> outbox \<Rightarrow> instant \<times> outbox \<Rightarrow> bool"
  for sha verify digest where
  world: "api_step sha verify digest (t, ob_api ob) (now, s') \<Longrightarrow> (\<And>st. ag_file (ob_agent ob) = Some st \<Longrightarrow> file_log s' st = file_log (ob_api ob) st)
     \<Longrightarrow> outbox_step sha verify digest (t, ob) (now, ob\<lparr>ob_api := s'\<rparr>)"
| claim: "t \<le> now \<Longrightarrow> ag_mem (ob_agent ob) = None \<Longrightarrow> LoadOperationState (ob_agent ob) = Inr fo
     \<Longrightarrow> try_claim sha now secret nm (claim_request fo) (ob_api ob) = (Some (AssignmentReply a), s') \<Longrightarrow> valid_assignment a \<Longrightarrow> token_unique fo a
     \<Longrightarrow> trim_space (asg_id a) = asg_id a
     \<Longrightarrow> outbox_step sha verify digest (t, ob)
          (now, \<lparr>ob_api = s', ob_agent = running (adopt_assignment fo a), ob_acked = (if continues fo a then ob_acked ob else [])\<rparr>)"
| conflict: "t \<le> now \<Longrightarrow> ag_mem (ob_agent ob) = None \<Longrightarrow> LoadOperationState (ob_agent ob) = Inr (Some st)
     \<Longrightarrow> claim_first sha verify now secret rq (Some (claim_request (Some st))) (ob_api ob) = (Answered (Status 409), s')
     \<Longrightarrow> outbox_step sha verify digest (t, ob) (now, \<lparr>ob_api = s', ob_agent = ClearOperationState (ob_agent ob), ob_acked = []\<rparr>)"
| report: "ag_mem (ob_agent ob) = Some st
     \<Longrightarrow> outbox_step sha verify digest (t, ob) (t, ob\<lparr>ob_agent := running (begin_report clock ev st)\<rparr>)"
| send: "t \<le> tp_now tp \<Longrightarrow> ag_mem (ob_agent ob) = Some st \<Longrightarrow> os_pending st = Some p
     \<Longrightarrow> send_event sha verify tp st p (ob_api ob) = (ro, s')
     \<Longrightarrow> outbox_step sha verify digest (t, ob) (tp_now tp, after_send ro p st (ob\<lparr>ob_api := s'\<rparr>))"
| finish: "ag_mem (ob_agent ob) = Some st \<Longrightarrow> os_pending st = None
     \<Longrightarrow> outbox_step sha verify digest (t, ob) (t, ob\<lparr>ob_agent := \<lparr>ag_file = None, ag_mem = None\<rparr>, ob_acked := []\<rparr>)"
| crash: "outbox_step sha verify digest (t, ob) (t, ob\<lparr>ob_agent := (ob_agent ob)\<lparr>ag_mem := None\<rparr>\<rparr>)"

definition outbox_ok :: "api \<Rightarrow> event_params list \<Rightarrow> operation_state \<Rightarrow> bool" where
  "outbox_ok s h st \<longleftrightarrow>
     trim_space (asg_id (os_assignment st)) = asg_id (os_assignment st)
     \<and> (\<exists>r. q_GetNodeOperationByID (api_db s) (asg_id (os_assignment st)) = Some r \<and> asg_attempt (os_assignment st) \<le> op_attempt r)
     \<and> os_last_seq st = int (length h)
     \<and> (case os_pending st of
          None \<Rightarrow> list_all2 carries (file_log s st) h
        | Some p \<Rightarrow> ep_seq p = os_last_seq st + 1 \<and> ep_attempt p = asg_attempt (os_assignment st)
                    \<and> (list_all2 carries (file_log s st) h \<or> list_all2 carries (file_log s st) (h @ [p])))"

definition outbox_inv :: "outbox \<Rightarrow> bool" where
  "outbox_inv ob \<longleftrightarrow> ops_inv (api_db (ob_api ob)) \<and> (ag_mem (ob_agent ob) = None \<or> ag_mem (ob_agent ob) = ag_file (ob_agent ob))
     \<and> (\<forall>st. ag_file (ob_agent ob) = Some st \<longrightarrow> outbox_ok (ob_api ob) (ob_acked ob) st)"

lemma api_step_good:
  assumes "api_step sha verify digest (t, s) (now, s')" and "hex_digest sha"
  shows "good_change (api_db s) (api_db s')"
proof -
  have "run (op_step sha) (now, api_db s) (now, api_db s')"
    using api_step_calls [OF assms(1)] by (simp add: op_calls_def)
  then show ?thesis using run_good [of sha "(now, api_db s)" "(now, api_db s')"] assms(2) by (simp add: good_change_def)
qed

lemma claim_good:
  assumes "try_claim sha now secret nm b s = (x, s')" and "hex_digest sha"
  shows "good_change (api_db s) (api_db s')"
proof -
  have "snd (claim_third sha now secret nm b s) = s'" using assms(1) by (simp add: claim_third_def split: option.split)
  then show ?thesis using api_step_good [OF api_step.api_third [of now now sha verify digest s secret nm b]] assms(2) by simp
qed

lemma outbox_ok_frame:
  assumes "outbox_ok s h st" and "ops_evolve (api_db s) (api_db s')"
    and "file_log s' st = file_log s st \<or> (\<exists>p. os_pending st = Some p \<and> list_all2 carries (file_log s' st) (h @ [p]))"
  shows "outbox_ok s' h st"
proof -
  obtain r where r: "q_GetNodeOperationByID (api_db s) (asg_id (os_assignment st)) = Some r" "asg_attempt (os_assignment st) \<le> op_attempt r"
    using assms(1) by (auto simp: outbox_ok_def)
  then obtain r' where "q_GetNodeOperationByID (api_db s') (asg_id (os_assignment st)) = Some r'" "op_attempt r \<le> op_attempt r'"
    using assms(2) by (auto simp: ops_evolve_def row_evolves_def)
  moreover from this(2) r(2) have "asg_attempt (os_assignment st) \<le> op_attempt r'" by simp
  ultimately show ?thesis using assms(1,3) by (auto simp add: outbox_ok_def split: option.splits)
qed


text \<open>What an answered claim says of the attempt it hands out: it is the row's, and if it is not the caller's own its log is empty.\<close>

lemma claim_attempt:
  assumes "try_claim sha now secret nm (claim_request fo) s = (Some (AssignmentReply a), s')" and "ops_inv (api_db s)" and "hex_digest sha"
    and "valid_assignment a"
  shows "(\<exists>r. q_GetNodeOperationByID (api_db s') (asg_id a) = Some r \<and> asg_attempt a = op_attempt r)
    \<and> db_events (api_db s') = db_events (api_db s)
    \<and> ((\<exists>st. fo = Some st \<and> asg_token a = asg_token (os_assignment st) \<and> trim_space (asg_id (os_assignment st)) = asg_id a)
       \<or> (\<exists>old. q_GetNodeOperationByID (api_db s) (asg_id a) = Some old \<and> asg_attempt a = op_attempt old + 1))"
proof -
  obtain r tok db' where c: "ClaimNodeOperation sha now secret (api_db s) (claim_of nm (claim_request fo)) = (Inr (Some (r, tok)), db')"
    and a: "asg_id a = op_id r" "asg_attempt a = op_attempt r" "asg_token a = tok" and s': "s' = s\<lparr>api_db := db'\<rparr>"
    using assms(1)
    by (auto simp: try_claim_def writeNodeOperationAssignment_def writeNodeOperationError_def split: prod.splits sum.splits option.splits if_splits)
  have ev: "db_events db' = db_events (api_db s)"
    using events_claim [of sha now secret "api_db s" "claim_of nm (claim_request fo)"] c by simp
  have own: "\<exists>st. fo = Some st \<and> tok = asg_token (os_assignment st) \<and> trim_space (asg_id (os_assignment st)) = op_id r"
    if "tok = cl_token (claim_of nm (claim_request fo))" "trim_space (cl_current_op (claim_of nm (claim_request fo))) = op_id r" "op_id r \<noteq> ''''"
    using that by (cases fo) (auto simp: claim_of_def claim_request_def trim_space_def)
  show ?thesis
    using claim_outcome [OF c assms(2,3)] get_op_iff [OF assms(2)] a s' ev own assms(4)
    by (auto simp: valid_assignment_def)
qed


lemma fresh_attempt_empty:
  assumes "ops_inv db" and "q_GetNodeOperationByID db i = Some old" and "op_attempt old < att"
  shows "logged db i att = []"
proof -
  have "\<not> (ev_op e = i \<and> ev_attempt e = att)" if e: "e \<in> set (db_events db)" for e
  proof
    assume eq: "ev_op e = i \<and> ev_attempt e = att"
    obtain r where "r \<in> set (db_ops db)" "op_id r = ev_op e" "ev_attempt e \<le> op_attempt r"
      using assms(1) e unfolding ops_inv_def by blast
    moreover from this(1,2) have "q_GetNodeOperationByID db i = Some r" using get_op_iff [OF assms(1)] eq by simp
    ultimately show False using assms(2,3) eq by simp
  qed
  then show ?thesis by (auto simp: logged_def filter_empty_conv)
qed

lemma claim_outbox:
  assumes "outbox_inv ob" and "LoadOperationState (ob_agent ob) = Inr fo" and "hex_digest sha"
    and "try_claim sha now secret nm (claim_request fo) (ob_api ob) = (Some (AssignmentReply a), s')"
    and "valid_assignment a" and "token_unique fo a" and "trim_space (asg_id a) = asg_id a"
  shows "outbox_ok s' (if continues fo a then ob_acked ob else []) (adopt_assignment fo a)"
proof -
  have inv: "ops_inv (api_db (ob_api ob))" using assms(1) by (simp add: outbox_inv_def)
  have fo: "fo = ag_file (ob_agent ob)" using assms(2) by (auto simp: LoadOperationState_def split: option.splits if_splits)
  have ok: "outbox_ok (ob_api ob) (ob_acked ob) st" if "fo = Some st" for st using assms(1) that fo by (simp add: outbox_inv_def)
  note c = claim_attempt [OF assms(4) inv assms(3,5)]
  have log: "logged (api_db s') = logged (api_db (ob_api ob))" using c by (simp add: logged_def fun_eq_iff)
  from c consider (own) st where "fo = Some st" "asg_token a = asg_token (os_assignment st)" "trim_space (asg_id (os_assignment st)) = asg_id a"
    | (new) old where "q_GetNodeOperationByID (api_db (ob_api ob)) (asg_id a) = Some old" "asg_attempt a = op_attempt old + 1"
    by blast
  then show ?thesis
  proof cases
    case own
    then have id: "asg_id (os_assignment st) = asg_id a" using ok [OF own(1)] by (simp add: outbox_ok_def)
    then have att: "asg_attempt (os_assignment st) = asg_attempt a" using assms(6) own by (simp add: token_unique_def)
    show ?thesis
      using ok [OF own(1)] c assms(7) id att log
      by (auto simp: outbox_ok_def adopt_assignment_def own(1) continues_def file_log_def split: option.splits)
  next
    case new
    have diff: "asg_attempt (os_assignment st) \<noteq> asg_attempt a" if "fo = Some st" "asg_id (os_assignment st) = asg_id a" for st
      using ok [OF that(1)] that new by (auto simp: outbox_ok_def)
    have "logged (api_db (ob_api ob)) (asg_id a) (asg_attempt a) = []"
      by (rule fresh_attempt_empty [OF inv new(1)]) (simp add: new(2))
    then show ?thesis
      using diff c assms(7) by (auto simp: outbox_ok_def adopt_assignment_def continues_def file_log_def log split: option.split)
  qed
qed

text \<open>However a send ends, the server has stored nothing, or it holds the acknowledged reports followed by the pending one.\<close>

lemma send_outbox:
  assumes "outbox_ok s h st" and "os_pending st = Some p" and "send_event sha verify tp st p s = (ro, s')"
    and "ops_inv (api_db s)" and "hex_digest sha"
  shows "good_change (api_db s) (api_db s')
    \<and> (file_log s' st = file_log s st \<and> (\<forall>r. ro = Some r \<longrightarrow> reply_code r \<noteq> 200) \<or> list_all2 carries (file_log s' st) (h @ [p]))"
proof (cases "tp_link tp = Lost")
  case True
  then show ?thesis using assms(3) by (auto simp: send_event_def good_change_def)
next
  case False
  let ?i = "asg_id (os_assignment st)"
  obtain r where call: "nodeOperationEvent sha verify (tp_now tp) (tp_fresh tp) (tp_ops tp) (tp_auth tp) ?i (Some p) s = (r, s')"
    and ro: "ro = None \<or> ro = Some r"
  proof -
    obtain r0 s0 where "nodeOperationEvent sha verify (tp_now tp) (tp_fresh tp) (tp_ops tp) (tp_auth tp) ?i (Some p) s = (r0, s0)" by force
    then show thesis using that [of r0] assms(3) False unfolding send_event_def by (cases "tp_link tp") auto
  qed
  have good: "good_change (api_db s) (api_db s')"
    using api_step_good [OF api_step.api_event [of "tp_now tp" "tp_now tp" sha verify digest s "tp_fresh tp" "tp_ops tp" "tp_auth tp" ?i "Some p"]]
      assms(5) call by simp
  have p: "ep_seq p = int (length h) + 1" "ep_attempt p = asg_attempt (os_assignment st)"
    and L: "list_all2 carries (file_log s st) h \<or> list_all2 carries (file_log s st) (h @ [p])"
    using assms(1,2) by (auto simp: outbox_ok_def)
  from event_handler_log [OF call assms(4,5)]
  consider (refused) "db_events (api_db s') = db_events (api_db s)" "reply_code r \<noteq> 200"
    | (replay) x where "db_events (api_db s') = db_events (api_db s)" "carries x p"
        "q_GetNodeOperationEvent (api_db s) ?i (ep_attempt p) (int (length h) + 1) = Some x"
    | (stored) x where "db_events (api_db s') = db_events (api_db s) @ [x]" "carries x p" "ev_op x = ?i" "ev_attempt x = ep_attempt p"
        "ep_seq p = int (length (file_log s st)) + 1"
    unfolding p file_log_def by metis
  then show ?thesis
  proof cases
    case refused
    then show ?thesis using good ro by (auto simp: file_log_def logged_def)
  next
    case replay
    then have "length h < length (file_log s st)" "file_log s' st = file_log s st"
      using logged_nth [OF assms(4)] p(2) by (auto simp: file_log_def logged_def)
    then show ?thesis using good L list_all2_lengthD by fastforce
  next
    case stored
    then have "length (file_log s st) = length h" using p(1) by simp
    then have "list_all2 carries (file_log s st) h" using L list_all2_lengthD by fastforce
    moreover have "file_log s' st = file_log s st @ [x]" using stored p(2) by (simp add: file_log_def logged_def)
    ultimately show ?thesis using good stored(2) by (simp add: list_all2_appendI)
  qed
qed


lemma begin_report_ok: "outbox_ok s h st \<Longrightarrow> outbox_ok s h (begin_report clock ev st)"
  by (auto simp: outbox_ok_def begin_report_def file_log_def split: option.splits)

lemma outbox_step_inv:
  assumes "outbox_step sha verify digest (t, ob) (t', ob')" and "hex_digest sha" and "outbox_inv ob"
  shows "outbox_inv ob'"
  using assms(1)
proof cases
  case (world s')
  then have good: "good_change (api_db (ob_api ob)) (api_db s')" using api_step_good assms(2) by blast
  then show ?thesis
    using world assms(3) outbox_ok_frame [of "ob_api ob" _ _ s'] by (auto simp: outbox_inv_def good_change_def)
next
  case (claim fo secret nm a s')
  have "good_change (api_db (ob_api ob)) (api_db s')" by (rule claim_good [OF claim(5) assms(2)])
  then show ?thesis
    using claim(1) claim_outbox [OF assms(3) claim(4) assms(2) claim(5-8)] assms(3)
    by (auto simp: outbox_inv_def running_def good_change_def)
next
  case (conflict st secret rq s')
  have "snd (claim_first sha verify t' secret rq (Some (claim_request (Some st))) (ob_api ob)) = s'" using conflict by simp
  then have "good_change (api_db (ob_api ob)) (api_db s')"
    using api_step_good [OF api_step.api_first [of t' t' sha verify digest "ob_api ob" secret rq "Some (claim_request (Some st))"] assms(2)]
    by simp
  then show ?thesis using conflict(1,3) assms(3) by (auto simp: outbox_inv_def ClearOperationState_def good_change_def)
next
  case (report st clock ev)
  then show ?thesis using assms(3) begin_report_ok by (auto simp: outbox_inv_def running_def)
next
  case (send tp st p ro s')
  have st: "ag_file (ob_agent ob) = Some st" "outbox_ok (ob_api ob) (ob_acked ob) st" "ops_inv (api_db (ob_api ob))"
    using assms(3) send by (auto simp: outbox_inv_def)
  note out = send_outbox [OF st(2) send(5,6) st(3) assms(2)]
  then have inv: "ops_inv (api_db s')" and evo: "ops_evolve (api_db (ob_api ob)) (api_db s')" using st(3) by (auto simp: good_change_def)
  have keep: "outbox_ok s' (ob_acked ob) st" by (rule outbox_ok_frame [OF st(2) evo]) (use out send(5) in auto)
  have ack: "outbox_ok s' (ob_acked ob @ [p]) (acknowledge p st)" if "ro = Some r" "reply_code r = 200" for r
    using out keep that send(5) by (auto simp: outbox_ok_def acknowledge_def file_log_def)
  have ob': "ob' = after_send ro p st (ob\<lparr>ob_api := s'\<rparr>)" using send by simp
  show ?thesis
  proof (cases ro)
    case None
    then show ?thesis using ob' inv keep st(1) send(4) by (simp add: outbox_inv_def after_send_def)
  next
    case (Some r)
    then show ?thesis
      using ob' inv keep ack [OF Some] st(1) send(4) by (auto simp: outbox_inv_def after_send_def running_def)
  qed
next
  case finish
  then show ?thesis using assms(3) by (simp add: outbox_inv_def)
next
  case crash
  then show ?thesis using assms(3) by (simp add: outbox_inv_def)
qed


lemma outbox_run_inv:
  assumes "run (outbox_step sha verify digest) u v" and "hex_digest sha" and "outbox_inv (snd u)"
  shows "outbox_inv (snd v)"
  using assms
proof (induction rule: run.induct)
  case (run_step u v w)
  then show ?case using outbox_step_inv [of sha verify digest "fst v" "snd v" "fst w" "snd w"] by simp
qed simp

lemma validate_event_errors:
  assumes "validate_event now q = Inl err"
  shows "err \<notin> {SequenceReused, SequenceExists, SequenceGap}"
proof -
  have json: "normalizeJSONObject j \<noteq> Inl e" if "e \<in> {SequenceReused, SequenceExists, SequenceGap}" for j e
    using that by (auto simp: normalizeJSONObject_def split: json_doc.split)
  show ?thesis
    using assms json [of err "ep_details q"] json [of err "ep_result q"]
    by (cases "normalizeJSONObject (ep_details q)"; cases "normalizeJSONObject (ep_result q)")
       (auto simp: validate_event_def Let_def split: if_splits option.splits time_arg.splits)
qed

lemma pending_in_order:
  assumes "ops_inv db" and "L = logged db i att" and "list_all2 carries L h \<or> list_all2 carries L (h @ [p])"
    and "ep_seq p = int (length h) + 1" and "ep_attempt p = att"
  shows "fst (RecordNodeOperationEvent sha now fr db (p\<lparr>ep_node := nm, ep_op := i\<rparr>)) \<notin> {Inl SequenceReused, Inl SequenceExists, Inl SequenceGap}"
proof -
  let ?q = "p\<lparr>ep_node := nm, ep_op := i\<rparr>"
  have len: "length L = length h \<or> length L = Suc (length h)" using assms(3) list_all2_lengthD by fastforce
  have last: "q_LastNodeOperationEventSequence db i att = int (length L)"
    using assms(1,2) last_seq_gapless [of db i att] by (simp add: ops_inv_def ev_seqs_logged)
  have tx: "record_tx sha now fr db nid tok e \<notin> {Inl SequenceReused, Inl SequenceExists, Inl SequenceGap}"
    if e: "validate_event now ?q = Inr e" for nid tok e
  proof -
    have f: "ev_op e = i" "ev_attempt e = att" "ev_seq e = int (length h) + 1"
      using validate_event_fields [OF e] assms(4,5) by simp_all
    show ?thesis
    proof (cases "q_GetNodeOperationEvent db i att (int (length h) + 1)")
      case None
      then have "length L = length h" using logged_missing [OF assms(1), of i att "int (length h) + 1"] len assms(2) by auto
      then show ?thesis using None f last by (auto simp: record_tx_def Let_def split: option.splits if_splits prod.splits)
    next
      case (Some x)
      then have x: "length h < length L" "L ! length h = x" using logged_nth [OF assms(1)] assms(2) by blast+
      then have "list_all2 carries L (h @ [p])" using assms(3) list_all2_lengthD by fastforce
      then have "carries x p" using list_all2_nthD [of carries L "h @ [p]" "length h"] x by simp
      then have "same_event_content x e" using carries_now [of x ?q now e] e carries_route [of x i nm p] by simp
      then show ?thesis using Some f by (auto simp: record_tx_def split: option.splits)
    qed
  qed
  show ?thesis
  proof (cases "GetNode db nm")
    case (Some n)
    show ?thesis
    proof (cases "validate_event now ?q")
      case (Inl err)
      moreover have "err \<notin> {SequenceReused, SequenceExists, SequenceGap}"
        using Inl by (rule validate_event_errors)
      ultimately show ?thesis using Some by (auto simp: RecordNodeOperationEvent_def)
    next
      case (Inr e)
      then show ?thesis using Some tx [OF Inr, of "node_id n" "ep_token p"]
        by (auto simp: RecordNodeOperationEvent_def split: sum.split prod.split)
    qed
  qed (simp add: RecordNodeOperationEvent_def)
qed

text \<open>
  C25: The operation state file is an outbox that delivers exactly once. Start an agent with no
  state file against any server, lose any requests and answers, kill the agent at any point
  and let other requests interleave: while the agent works on an attempt, the server's log of
  that attempt is the list of reports the agent made, each once and in order, numbered 1, 2,
  3, ...; at most the pending report at its end may not be there yet, and the agent's sequence
  counter is the number of acknowledged ones. A resend of the pending report is never refused
  as a reused, passed or skipped sequence number.
\<close>

theorem outbox_exactly_once:
  assumes "run (outbox_step sha verify digest) (t, ob) (t', ob')" and "hex_digest sha" and "ops_inv (api_db (ob_api ob))"
    and "ob_agent ob = \<lparr>ag_file = None, ag_mem = None\<rparr>" and "ag_file (ob_agent ob') = Some st"
  shows "(\<exists>sent. (sent = ob_acked ob' \<or> (\<exists>p. os_pending st = Some p \<and> sent = ob_acked ob' @ [p]))
      \<and> list_all2 carries (file_log (ob_api ob') st) sent
      \<and> map ev_seq (file_log (ob_api ob') st) = map int [1..<Suc (length sent)])
    \<and> os_last_seq st = int (length (ob_acked ob'))
    \<and> (\<forall>p nm now fr. os_pending st = Some p \<longrightarrow>
         fst (RecordNodeOperationEvent sha now fr (api_db (ob_api ob')) (p\<lparr>ep_node := nm, ep_op := asg_id (os_assignment st)\<rparr>))
           \<notin> {Inl SequenceReused, Inl SequenceExists, Inl SequenceGap})"
proof -
  have "outbox_inv ob" using assms(3,4) by (simp add: outbox_inv_def)
  then have inv: "outbox_inv ob'" using outbox_run_inv [OF assms(1,2)] by simp
  then have ok: "outbox_ok (ob_api ob') (ob_acked ob') st" and db: "ops_inv (api_db (ob_api ob'))"
    using assms(5) by (simp_all add: outbox_inv_def)
  obtain sent where sent: "sent = ob_acked ob' \<or> (\<exists>p. os_pending st = Some p \<and> sent = ob_acked ob' @ [p])"
    "list_all2 carries (file_log (ob_api ob') st) sent"
    using ok by (auto simp: outbox_ok_def split: option.splits)
  have "map ev_seq (file_log (ob_api ob') st) = map int [1..<Suc (length (file_log (ob_api ob') st))]"
    using db by (auto simp: ops_inv_def gapless_def ev_seqs_logged file_log_def simp del: upt_Suc)
  then have seqs: "map ev_seq (file_log (ob_api ob') st) = map int [1..<Suc (length sent)]"
    using list_all2_lengthD [OF sent(2)] by simp
  have "fst (RecordNodeOperationEvent sha now fr (api_db (ob_api ob')) (p\<lparr>ep_node := nm, ep_op := asg_id (os_assignment st)\<rparr>))
       \<notin> {Inl SequenceReused, Inl SequenceExists, Inl SequenceGap}" if "os_pending st = Some p" for p nm now fr
    using pending_in_order [OF db file_log_def, where h = "ob_acked ob'" and p = p] ok that by (simp add: outbox_ok_def)
  then show ?thesis using sent seqs ok unfolding outbox_ok_def by blast
qed

text \<open>
  C26: A pending report swallows the one after it. When an execution ends while an earlier report is
  still pending (a progress report whose sending was interrupted by a cancellation or a lost
  lease), the final report is never made, whatever the outcome of the execution was: the pending
  report is sent in its place, the state file is removed, and the server's log of the attempt
  is the acknowledged reports followed by that one.
\<close>

theorem terminal_report_dropped:
  assumes "os_pending st = Some p" and "err \<noteq> Some ExecRestart"
    and "send_event sha verify tp st p s = (Some r, s1)" and "reply_code r = 200"
    and "outbox_ok s h st" and "ops_inv (api_db s)" and "hex_digest sha"
  shows "finish_operation sha verify clock (tp # tps) result err st ag s = (Inr (), ag\<lparr>ag_file := None\<rparr>, s1)
    \<and> list_all2 carries (file_log s1 st) (h @ [p])"
proof -
  have "begin_report clock ev st = st" for ev using assms(1) by (simp add: begin_report_def)
  then have "finish_operation sha verify clock (tp # tps) result err st ag s = (Inr (), ag\<lparr>ag_file := None\<rparr>, s1)"
    using assms(1-4)
    by (simp add: finish_operation_def Let_def flush.simps SaveOperationState_def ClearOperationState_def)
  moreover have "list_all2 carries (file_log s1 st) (h @ [p])"
    using send_outbox [OF assms(5,1,3,6,7)] assms(4) by blast
  ultimately show ?thesis by blast
qed



section \<open>Examples\<close>

definition ag_token :: token_row where
  "ag_token = \<lparr>tok_id = ''t1'', tok_node = ''n1'', tok_hash = ''#bfnt_s'', tok_digest = Some ''ab'', tok_created_at = sql_now 0,
     tok_last_used_at = None, tok_revoked_at = None\<rparr>"

definition ag_api :: "op_row list \<Rightarrow> op_event list \<Rightarrow> stamp option \<Rightarrow> api" where
  "ag_api ops es used = \<lparr>api_db = tok_server\<lparr>db_ops := ops, db_events := es, db_tokens := [ag_token\<lparr>tok_last_used_at := used\<rparr>]\<rparr>,
     api_notifier = newNodeOperationNotifier\<rparr>"

definition ag_run_op :: op_row where
  "ag_run_op = claim_row 0 (Some ''ab'') (lease_until 0) ex_aop"

definition ag_assignment :: assignment where
  "ag_assignment = \<lparr>asg_id = ''op1'', asg_kind = ''logs.collect'', asg_payload = ''{}'', asg_attempt = 1, asg_token = ''bfl_s'',
     asg_lease_expires = lease_until 0, asg_cancel = False\<rparr>"

definition ag_event :: event_params where
  "ag_event = starting_event\<lparr>ep_token := ''bfl_s'', ep_attempt := 1, ep_seq := 1, ep_reported_at := (''now'', TimeAt 0)\<rparr>"

definition ag_state :: operation_state where
  "ag_state = \<lparr>os_assignment = ag_assignment, os_last_seq = 0, os_phase = ''claimed'', os_pending = Some ag_event, os_checkpoint = None\<rparr>"

definition ag_try :: "link \<Rightarrow> try_params" where
  "ag_try l = \<lparr>tp_link = l, tp_now = 1000000000, tp_fresh = ''ev1'', tp_ops = (\<lambda>x. x), tp_auth = tok_request\<rparr>"

lemma ag_node: "GetNode (api_db (ag_api ops es used)) ''tokyo'' = Some reg_node"
  by (simp add: reg_simps tok_server_def ag_api_def)

lemmas ag_defs = ag_api_def ag_run_op_def ag_assignment_def ag_event_def ag_state_def ag_try_def ag_token_def

lemma ag_trim: "trim_space ''update.agent.v1'' = ''update.agent.v1''" "trim_space ''update.sing_box.v1'' = ''update.sing_box.v1''"
  "trim_space ''download.streaming.v1'' = ''download.streaming.v1''" "trim_space ''install.versioned.v1'' = ''install.versioned.v1''"
  "trim_space ''restart_resume.agent.v1'' = ''restart_resume.agent.v1''" "trim_space ''rollback.sing_box.v1'' = ''rollback.sing_box.v1''"
  "trim_space ''telemetry.connections.v1'' = ''telemetry.connections.v1''"
  "trim_space ''operation executor started'' = ''operation executor started''"
  by code_simp+

lemma ag_claim:
  "try_claim ex_sha 0 ''s'' ''tokyo'' (claim_request None) (ag_api [ex_aop] [] used) = (Some (AssignmentReply ag_assignment), ag_api [ag_run_op] [] used)"
proof -
  have caps: "hasCapabilities agentCapabilities (op_caps ex_aop)"
    by (simp add: hasCapabilities_def normalizeCapabilities_def agentCapabilities_def ag_trim ex_aop_def new_op_def)
  have "ClaimNodeOperation ex_sha 0 ''s'' (api_db (ag_api [ex_aop] [] used)) (claim_of ''tokyo'' (claim_request None))
     = (Inr (Some (ag_run_op, ''bfl_s'')), api_db (ag_api [ag_run_op] [] used))"
    using caps
    by (simp add: ClaimNodeOperation_def reg_simps tok_server_def Let_def claim_of_def claim_request_def op_query_defs ex_aop_def ag_defs
      nullableString_def ex_sha_def)
  then show ?thesis
    by (simp add: try_claim_def writeNodeOperationAssignment_def) (simp add: ag_defs claim_row_def ex_aop_def new_op_def)
qed

definition ag_log :: op_event where
  "ag_log = \<lparr>ev_id = ''ev1'', ev_op = ''op1'', ev_attempt = 1, ev_seq = 1, ev_status = OpRunning,
     ev_phase = ''starting'', ev_message = ''operation executor started'', ev_details = ''{}'', ev_result = ''{}'', ev_error = '''',
     ev_reported_at = ReportedText ''now'', ev_created_at = sql_now 1000000000\<rparr>"

definition ag_rep_op :: op_row where
  "ag_rep_op = apply_event_row 1000000000 OpRunning ''starting'' ''{}'' '''' (lease_until 1000000000) None ag_run_op"

lemma ag_send:
  "send_event ex_sha tok_verify (ag_try Delivered) ag_state ag_event (ag_api [ag_run_op] [] None)
   = (Some (OperationReply ag_rep_op False), ag_api [ag_rep_op] [ag_log] (Some (sql_now 1000000000)))"
proof -
  have auth: "authenticateNode ex_sha tok_verify 1000000000 (api_db (ag_api [ag_run_op] [] None)) tok_request
      = (Inr ''tokyo'', api_db (ag_api [ag_run_op] [] (Some (sql_now 1000000000))))"
    by (simp add: tok_simps tok_trim ag_defs ex_sha_def)
  have rec: "RecordNodeOperationEvent ex_sha 1000000000 ''ev1'' (api_db (ag_api [ag_run_op] [] u)) (ag_event\<lparr>ep_node := ''tokyo'', ep_op := ''op1''\<rparr>)
      = (Inr ag_rep_op, api_db (ag_api [ag_rep_op] [ag_log] u))" for u
    by (simp add: RecordNodeOperationEvent_def reg_simps record_tx_def terminalFinishedAt_def validate_defs op_query_defs ag_trim
        text_compare_defs ag_defs ag_rep_op_def ag_log_def starting_event_def progress_def reg_node_def tok_server_def ex_aop_def ex_sha_def)
  have camp: "reconcileForOperation now fops i (api_db (ag_api ops es u)) = api_db (ag_api ops es u)" for now fops i ops es u
    by (simp add: reconcileForOperation_def GetNodeUpdateCampaignIDByOperation_def q_GetNodeUpdateCampaignIDByOperation_def ag_api_def tok_server_def)
  have fc: "from_controller (api_db (ag_api ops es u)) (ag_api ops' es' u') = ag_api ops es u" for ops es u ops' es' u'
    by (simp add: from_controller_def ag_api_def tok_server_def)
  have "nodeOperationEvent ex_sha tok_verify 1000000000 ''ev1'' (\<lambda>x. x) tok_request ''op1'' (Some ag_event) (ag_api [ag_run_op] [] None)
      = (OperationReply ag_rep_op False, ag_api [ag_rep_op] [ag_log] (Some (sql_now 1000000000)))"
    unfolding nodeOperationEvent_def auth by (simp add: rec camp fc)
  moreover have "asg_id (os_assignment ag_state) = ''op1''" by (simp add: ag_defs)
  ultimately show ?thesis by (simp add: send_event_def ag_try_def)
qed

lemma ag_inv: "ops_inv (api_db (ag_api [ex_aop] [] None))" "ops_inv (api_db (ag_api [ag_run_op] [] None))"
proof -
  show q: "ops_inv (api_db (ag_api [ex_aop] [] None))"
    using good_rest [of "api_db (ag_api [ex_aop] [] None)" "api_db ex_woken"] ex_api_inv(2)
    by (simp add: good_change_def ag_api_def ex_woken_def tok_server_def)
  show "ops_inv (api_db (ag_api [ag_run_op] [] None))"
    using claim_good [OF ag_claim ex_digest, of None] q by (simp add: good_change_def)
qed

definition ag_box :: "api \<Rightarrow> operation_state option \<Rightarrow> outbox" where
  "ag_box s f = \<lparr>ob_api = s, ob_agent = \<lparr>ag_file = f, ag_mem = f\<rparr>, ob_acked = []\<rparr>"

text \<open>A claim, the first report, and a send whose answer is lost: the report is stored and still pending.\<close>

lemma ag_run:
  "run (outbox_step ex_sha tok_verify ex_digest_of) (0, ag_box (ag_api [ex_aop] [] None) None)
     (1000000000, ag_box (ag_api [ag_rep_op] [ag_log] (Some (sql_now 1000000000))) (Some ag_state))"
proof -
  let ?st = "adopt_assignment None ag_assignment" and ?now = "(''now'', TimeAt 0)"
  have st: "begin_report ?now starting_event ?st = ag_state"
    by (simp add: begin_report_def adopt_assignment_def ag_state_def ag_event_def starting_event_def progress_def ag_assignment_def)
  have one: "outbox_step ex_sha tok_verify ex_digest_of (0, ag_box (ag_api [ex_aop] [] None) None) (0, ag_box (ag_api [ag_run_op] [] None) (Some ?st))"
    using outbox_step.claim [of 0 0 "ag_box (ag_api [ex_aop] [] None) None" None ex_sha "''s''" "''tokyo''" ag_assignment _ tok_verify ex_digest_of] ag_claim
    by (simp add: ag_box_def LoadOperationState_def running_def continues_def valid_assignment_def token_unique_def ag_assignment_def)
  have two: "outbox_step ex_sha tok_verify ex_digest_of (0, ag_box (ag_api [ag_run_op] [] None) (Some ?st)) (0, ag_box (ag_api [ag_run_op] [] None) (Some ag_state))"
    using outbox_step.report [of "ag_box (ag_api [ag_run_op] [] None) (Some ?st)" ?st ex_sha tok_verify ex_digest_of 0 ?now starting_event] st
    by (simp add: ag_box_def running_def)
  have "send_event ex_sha tok_verify (ag_try LostReply) ag_state ag_event (ag_api [ag_run_op] [] None)
      = (None, ag_api [ag_rep_op] [ag_log] (Some (sql_now 1000000000)))"
    using ag_send by (simp add: send_event_def ag_try_def)
  then have three: "outbox_step ex_sha tok_verify ex_digest_of (0, ag_box (ag_api [ag_run_op] [] None) (Some ag_state))
     (1000000000, ag_box (ag_api [ag_rep_op] [ag_log] (Some (sql_now 1000000000))) (Some ag_state))"
    using outbox_step.send [of 0 "ag_try LostReply" "ag_box (ag_api [ag_run_op] [] None) (Some ag_state)" ag_state ag_event ex_sha tok_verify _ _ ex_digest_of]
    by (simp add: ag_box_def ag_state_def after_send_def ag_try_def)
  show ?thesis by (rule run.run_step, rule run.run_step, rule run.run_step, rule run.run_refl, rule one, rule two, rule three)
qed

theorem outbox_exactly_once_witness:
  "list_all2 carries (file_log (ag_api [ag_rep_op] [ag_log] (Some (sql_now 1000000000))) ag_state) [ag_event]
   \<and> map ev_seq (file_log (ag_api [ag_rep_op] [ag_log] (Some (sql_now 1000000000))) ag_state) = [1]"
proof -
  have log: "file_log (ag_api [ag_rep_op] [ag_log] (Some (sql_now 1000000000))) ag_state = [ag_log]"
    by (simp add: file_log_def logged_def ag_defs ag_log_def)
  have pend: "os_pending ag_state = Some ag_event" by (simp add: ag_state_def)
  show ?thesis
    using outbox_exactly_once [OF ag_run ex_digest, of ag_state] ag_inv(1) log pend by (auto simp: ag_box_def ag_log_def)
qed

theorem terminal_report_dropped_witness:
  "finish_operation ex_sha tok_verify (''end'', TimeAt 0) [ag_try Delivered] ex_json (Some ExecCancelled) ag_state
      \<lparr>ag_file = Some ag_state, ag_mem = None\<rparr> (ag_api [ag_run_op] [] None)
    = (Inr (), \<lparr>ag_file = None, ag_mem = None\<rparr>, ag_api [ag_rep_op] [ag_log] (Some (sql_now 1000000000)))
   \<and> op_status ag_rep_op = OpRunning"
proof -
  have ok: "outbox_ok (ag_api [ag_run_op] [] None) [] ag_state"
    by (simp add: outbox_ok_def file_log_def logged_def ag_defs claim_row_def ex_aop_def new_op_def q_GetNodeOperationByID_def)
  have pend: "os_pending ag_state = Some ag_event" by (simp add: ag_state_def)
  show ?thesis
    using terminal_report_dropped [OF pend _ ag_send _ ok ag_inv(2) ex_digest, of "Some ExecCancelled" "(''end'', TimeAt 0)" "[]" ex_json
        "\<lparr>ag_file = Some ag_state, ag_mem = None\<rparr>"]
    by (simp add: ag_rep_op_def apply_event_row_def)
qed

end
