(* ===== verification/Go_Strings.thy ===== *)
theory Go_Strings
  imports Prelude
begin

text \<open>
  The parts of Go's \<open>strings\<close> and \<open>path/filepath\<close> packages that the sources call beyond trimming.
  Letters are lowered in ASCII only, which is what host names and digests use.
\<close>

section \<open>Strings\<close>

definition to_lower_char :: "char \<Rightarrow> char" where
  "to_lower_char c = (if CHR ''A'' \<le> c \<and> c \<le> CHR ''Z'' then char_of (of_char c + 32 :: nat) else c)"

definition ToLower :: "string \<Rightarrow> string" where
  "ToLower s = map to_lower_char s"

text \<open>\<open>strings.Trim(s, ".")\<close>, \<open>strings.TrimRight(s, "\r")\<close>, \<open>strings.Split\<close> on one byte and \<open>strings.Cut\<close>.\<close>

definition trim_dots :: "string \<Rightarrow> string" where
  "trim_dots s = rev (dropWhile (\<lambda>c. c = CHR ''.'') (rev (dropWhile (\<lambda>c. c = CHR ''.'') s)))"

definition trim_cr :: "string \<Rightarrow> string" where
  "trim_cr s = rev (dropWhile (\<lambda>c. c = CHR 0x0D) (rev s))"

fun split_on :: "char \<Rightarrow> string \<Rightarrow> string list" where
  "split_on c [] = [[]]"
| "split_on c (x # xs) =
     (if x = c then [] # split_on c xs
      else case split_on c xs of [] \<Rightarrow> [[x]] | y # ys \<Rightarrow> (x # y) # ys)"

fun Cut :: "char \<Rightarrow> string \<Rightarrow> (string \<times> string) option" where
  "Cut c [] = None"
| "Cut c (x # xs) = (if x = c then Some ([], xs) else map_option (\<lambda>(b, r). (x # b, r)) (Cut c xs))"

lemma Cut_SomeD: "Cut c s = Some (b, r) \<Longrightarrow> s = b @ c # r \<and> c \<notin> set b"
  by (induction s arbitrary: b) (auto split: if_splits)

lemma Cut_length [termination_simp]: "Cut c s = Some (b, r) \<Longrightarrow> length r < length s"
  by (auto dest: Cut_SomeD)

lemma Cut_None_iff: "Cut c s = None \<longleftrightarrow> c \<notin> set s"
  by (induction s) auto

lemma Cut_append: "c \<notin> set b \<Longrightarrow> Cut c (b @ c # r) = Some (b, r)"
  by (induction b) auto

lemma split_on_none: "c \<notin> set s \<Longrightarrow> split_on c s = [s]"
  by (induction s) auto

lemma split_on_append: "c \<notin> set s \<Longrightarrow> split_on c (s @ c # t) = s # split_on c t"
  by (induction s) auto

lemma split_on_lines: "list_all (\<lambda>l. c \<notin> set l) ls \<Longrightarrow> split_on c (concat (map (\<lambda>l. l @ [c]) ls)) = ls @ [[]]"
  by (induction ls) (auto simp: split_on_append)

section \<open>File paths\<close>

text \<open>
  \<open>path/filepath\<close> on Unix. \<open>Clean\<close> drops empty and \<open>.\<close> elements and lets \<open>..\<close> remove the
  element before it; \<open>Abs cwd\<close> puts a relative path under the working directory.
\<close>

fun clean_segs :: "bool \<Rightarrow> string list \<Rightarrow> string list \<Rightarrow> string list" where
  "clean_segs r acc [] = rev acc"
| "clean_segs r acc (s # ss) =
     (if s = '''' \<or> s = ''.'' then clean_segs r acc ss
      else if s = ''..'' then
        (case acc of
           [] \<Rightarrow> clean_segs r (if r then [] else [s]) ss
         | x # xs \<Rightarrow> if x = ''..'' then clean_segs r (s # acc) ss else clean_segs r xs ss)
      else clean_segs r (s # acc) ss)"

fun join_slash :: "string list \<Rightarrow> string" where
  "join_slash [] = ''''"
| "join_slash [s] = s"
| "join_slash (s # ss) = s @ CHR ''/'' # join_slash ss"

definition rooted :: "string \<Rightarrow> bool" where
  "rooted p \<longleftrightarrow> has_prefix p ''/''"

definition Clean :: "string \<Rightarrow> string" where
  "Clean p =
     (let segs = clean_segs (rooted p) [] (split_on (CHR ''/'') p) in
      if rooted p then CHR ''/'' # join_slash segs else if segs = [] then ''.'' else join_slash segs)"

definition Join :: "string list \<Rightarrow> string" where
  "Join ps = (let qs = filter (\<lambda>p. p \<noteq> '''') ps in if qs = [] then '''' else Clean (join_slash qs))"

definition Abs :: "string \<Rightarrow> string \<Rightarrow> string" where
  "Abs cwd p = (if rooted p then Clean p else Join [cwd, p])"

definition Dir :: "string \<Rightarrow> string" where
  "Dir p = Clean (rev (dropWhile (\<lambda>c. c \<noteq> CHR ''/'') (rev p)))"

text \<open>The elements of an absolute path.\<close>

definition segments :: "string \<Rightarrow> string list" where
  "segments p = clean_segs True [] (split_on (CHR ''/'') p)"

definition plain_seg :: "string \<Rightarrow> bool" where
  "plain_seg s \<longleftrightarrow> s \<noteq> '''' \<and> s \<noteq> ''.'' \<and> s \<noteq> ''..'' \<and> CHR ''/'' \<notin> set s"

lemma split_on_parts: "l \<in> set (split_on c s) \<Longrightarrow> c \<notin> set l"
  by (induction s arbitrary: l) (auto split: if_splits list.splits)

lemma clean_segs_plain:
  "list_all plain_seg acc \<Longrightarrow> list_all (\<lambda>s. CHR ''/'' \<notin> set s) ss \<Longrightarrow> list_all plain_seg (clean_segs True acc ss)"
proof (induction ss arbitrary: acc)
  case (Cons s ss)
  note IH = Cons.IH [of "[]"] Cons.IH [of "tl acc"] Cons.IH [of acc] Cons.IH [of "s # acc"]
  have "s = ''..'' \<Longrightarrow> clean_segs True acc (s # ss) = clean_segs True (tl acc) ss"
    using Cons.prems(1) by (cases acc) (auto simp: plain_seg_def)
  moreover have "list_all plain_seg (tl acc)" using Cons.prems(1) by (cases acc) auto
  ultimately show ?case using Cons.prems IH
    by (cases "s = ''..''") (auto simp: plain_seg_def [of s])
qed simp

lemma segments_plain: "list_all plain_seg (segments p)"
  unfolding segments_def
  by (rule clean_segs_plain) (auto simp: list_all_iff split_on_parts)

lemma clean_segs_id: "list_all plain_seg ss \<Longrightarrow> clean_segs r acc ss = rev acc @ ss"
  by (induction ss arbitrary: acc) (auto simp: plain_seg_def)

lemma split_join: "ss \<noteq> [] \<Longrightarrow> list_all (\<lambda>s. CHR ''/'' \<notin> set s) ss \<Longrightarrow> split_on (CHR ''/'') (join_slash ss) = ss"
  by (induction ss rule: join_slash.induct) (auto simp: split_on_none split_on_append)

lemma split_join_append:
  "ss \<noteq> [] \<Longrightarrow> list_all (\<lambda>s. CHR ''/'' \<notin> set s) ss
   \<Longrightarrow> split_on (CHR ''/'') (join_slash ss @ CHR ''/'' # t) = ss @ split_on (CHR ''/'') t"
  by (induction ss rule: join_slash.induct) (auto simp: split_on_append)

lemma join_slash_append:
  "ss \<noteq> [] \<Longrightarrow> ts \<noteq> [] \<Longrightarrow> join_slash (ss @ ts) = join_slash ss @ CHR ''/'' # join_slash ts"
proof (induction ss rule: join_slash.induct)
  case (2 s)
  then show ?case by (cases ts) auto
qed auto

lemma plain_no_slash: "list_all plain_seg ss \<Longrightarrow> list_all (\<lambda>s. CHR ''/'' \<notin> set s) ss"
  by (auto simp: plain_seg_def list_all_iff)

lemma has_prefix_iff: "has_prefix s p \<longleftrightarrow> (\<exists>t. s = p @ t)"
  by (induction s p rule: has_prefix.induct) auto

lemma Clean_rooted: "rooted p \<Longrightarrow> Clean p = CHR ''/'' # join_slash (segments p)"
  by (simp add: Clean_def segments_def)

lemma segments_rooted_join: "list_all plain_seg ss \<Longrightarrow> segments (CHR ''/'' # join_slash ss) = ss"
proof (cases "ss = []")
  case False
  assume "list_all plain_seg ss"
  then show ?thesis
    using False by (simp add: segments_def split_join plain_no_slash clean_segs_id)
qed (simp add: segments_def)

lemma segments_Clean: "rooted p \<Longrightarrow> segments (Clean p) = segments p"
  by (simp add: Clean_rooted segments_rooted_join segments_plain)

lemma rooted_Clean: "rooted p \<Longrightarrow> rooted (Clean p)"
  by (simp add: Clean_rooted) (simp add: rooted_def)

lemma rooted_append: "rooted p \<Longrightarrow> rooted (p @ q)"
  by (simp add: rooted_def has_prefix_append)

lemma Abs_Clean: "rooted cwd \<Longrightarrow> \<exists>q. rooted q \<and> Abs cwd p = Clean q"
proof -
  assume c: "rooted cwd"
  then have "cwd \<noteq> ''''" by (auto simp: rooted_def)
  then show ?thesis
    using c rooted_append [OF c, of "CHR ''/'' # p"] by (auto simp: Abs_def Join_def)
qed

lemma Abs_segments: "rooted cwd \<Longrightarrow> Abs cwd p = CHR ''/'' # join_slash (segments (Abs cwd p))"
  using Abs_Clean [of cwd p] Clean_rooted segments_Clean by metis

text \<open>
  A textual prefix test with the separator appended is a prefix test on the elements, so what
  it accepts lies below the directory.
\<close>

lemma below_segments:
  assumes "rooted cwd" and "segments (Abs cwd r) \<noteq> []"
  shows "Abs cwd p = Abs cwd r \<or> has_prefix (Abs cwd p) (Abs cwd r @ ''/'')
    \<longleftrightarrow> (\<exists>rest. segments (Abs cwd p) = segments (Abs cwd r) @ rest)"
    (is "?lhs \<longleftrightarrow> (\<exists>rest. ?sp = ?sr @ rest)")
proof
  note abs = Abs_segments [OF assms(1), of p] Abs_segments [OF assms(1), of r]
  note plain = plain_no_slash [OF segments_plain]
  assume ?lhs
  then consider "Abs cwd p = Abs cwd r" | t where "Abs cwd p = Abs cwd r @ CHR ''/'' # t"
    by (auto simp: has_prefix_iff)
  then show "\<exists>rest. ?sp = ?sr @ rest"
  proof cases
    case (2 t)
    then have j: "join_slash ?sp = join_slash ?sr @ CHR ''/'' # t" using abs by (metis append_Cons list.inject)
    then have "?sp \<noteq> []" by (cases ?sp) auto
    then show ?thesis using split_join [OF _ plain] split_join_append [OF assms(2) plain] j by metis
  qed simp
next
  assume "\<exists>rest. ?sp = ?sr @ rest"
  then obtain rest where rest: "?sp = ?sr @ rest" by blast
  show ?lhs
  proof (cases "rest = []")
    case True
    then show ?thesis using rest Abs_segments [OF assms(1)] by (metis append_Nil2)
  next
    case False
    then have "Abs cwd p = Abs cwd r @ CHR ''/'' # join_slash rest"
      using rest Abs_segments [OF assms(1)] join_slash_append [OF assms(2)] by (metis append_Cons)
    then show ?thesis by (simp add: has_prefix_iff)
  qed
qed

lemma split_on_app: "split_on c (s @ c # t) = split_on c s @ split_on c t"
proof (induction s)
  case (Cons x s)
  have "split_on c s \<noteq> []" by (cases s) (auto split: list.splits)
  then obtain y ys where "split_on c s = y # ys" by (cases "split_on c s") auto
  then show ?case using Cons by simp
qed simp

lemma clean_segs_app: "clean_segs r acc (xs @ ys) = clean_segs r (rev (clean_segs r acc xs)) ys"
  by (induction xs arbitrary: acc) (auto split: list.splits)

text \<open>Joining plain elements to an absolute directory appends them.\<close>

lemma segments_Join:
  assumes "rooted d" and "list_all plain_seg ss"
  shows "rooted (Join (d # ss))" and "segments (Join (d # ss)) = segments d @ ss"
proof -
  have "d \<noteq> ''''" using assms(1) by (auto simp: rooted_def)
  moreover have "filter (\<lambda>p. p \<noteq> '''') ss = ss"
    using assms(2) by (auto simp: plain_seg_def list_all_iff filter_id_conv)
  ultimately have j: "Join (d # ss) = Clean (join_slash (d # ss))" by (simp add: Join_def)
  have r: "rooted (join_slash (d # ss))"
    using assms(1) by (cases ss) (auto intro: rooted_append)
  have "segments (join_slash (d # ss)) = segments d @ ss"
  proof (cases ss)
    case (Cons x xs)
    have "split_on (CHR ''/'') (join_slash ss) = ss"
      using split_join [of ss] plain_no_slash [OF assms(2)] Cons by simp
    then show ?thesis
      using Cons clean_segs_id [OF assms(2)] by (simp add: segments_def split_on_app clean_segs_app)
  qed simp
  then show "rooted (Join (d # ss))" and "segments (Join (d # ss)) = segments d @ ss"
    using r by (simp_all add: j rooted_Clean segments_Clean)
qed

lemma segments_Abs: "rooted p \<Longrightarrow> segments (Abs cwd p) = segments p"
  by (simp add: Abs_def segments_Clean)

end
