(* ===== verification/Service_Catalog.thy ===== *)
theory Service_Catalog
  imports Go_Strings
begin

text \<open>
  The classification of a target host as a service: \<open>internal/servicecatalog/catalog.go\<close>.
  Go maps are association lists whose newest binding comes first; \<^const>\<open>map_of\<close> reads them.
  \<open>net.ParseIP\<close> with \<open>IP.String\<close> and \<open>publicsuffix.EffectiveTLDPlusOne\<close> are the parameters
  \<open>parse_ip\<close> and \<open>etld1\<close>.
\<close>

section \<open>The catalog\<close>

record entry =
  en_service :: string
  en_label :: string
  en_category :: string

record classified =
  kl_service :: string
  kl_label :: string
  kl_category :: string
  kl_source :: string

record override =
  ov_suffix :: string
  ov_service :: string
  ov_label :: string
  ov_category :: string

record catalog_tables =
  sc_version :: string
  sc_source :: string
  sc_suffixes :: "(string \<times> entry) list"
  sc_exacts :: "(string \<times> entry) list"
  sc_overrides :: "(string \<times> entry) list"

definition normalizeHost :: "string \<Rightarrow> string" where
  "normalizeHost host =
     (let nm = trim_space host;
          nm = (if length nm > 1 \<and> hd nm = CHR ''['' \<and> last nm = CHR '']'' then tl (butlast nm) else nm)
      in ToLower (trim_dots nm))"

text \<open>\<open>candidate[idx+1:]\<close>, or the end of the walk when there is no dot left.\<close>

fun lookupSuffix :: "(string \<times> 'e) list \<Rightarrow> string \<Rightarrow> 'e option" where
  "lookupSuffix rules nm =
     (if nm = [] then None
      else case map_of rules nm of
        Some e \<Rightarrow> Some e
      | None \<Rightarrow> (case Cut (CHR ''.'') nm of None \<Rightarrow> None | Some (_, rest) \<Rightarrow> lookupSuffix rules rest))"

definition override_entry :: "override \<Rightarrow> (string \<times> entry) option" where
  "override_entry ov =
     (let suffix = normalizeHost (ov_suffix ov); service = trim_space (ov_service ov);
          label = trim_space (ov_label ov); category = trim_space (ov_category ov) in
      if suffix = '''' \<or> service = '''' then None
      else Some (suffix, \<lparr>en_service = service, en_label = (if label = '''' then service else label),
                          en_category = (if category = '''' then ''custom'' else category)\<rparr>))"

definition WithOverrides :: "catalog_tables \<Rightarrow> override list \<Rightarrow> catalog_tables" where
  "WithOverrides c overrides =
     (let rules = rev (List.map_filter override_entry overrides)
      in if rules = [] then c else c\<lparr>sc_overrides := rules\<rparr>)"

definition classification :: "entry \<Rightarrow> string \<Rightarrow> classified" where
  "classification e source =
     \<lparr>kl_service = en_service e, kl_label = en_label e, kl_category = en_category e, kl_source = source\<rparr>"

definition plain_class :: "string \<Rightarrow> string \<Rightarrow> string \<Rightarrow> classified" where
  "plain_class nm category source = \<lparr>kl_service = nm, kl_label = nm, kl_category = category, kl_source = source\<rparr>"

definition Classify :: "(string \<Rightarrow> string option) \<Rightarrow> (string \<Rightarrow> string option) \<Rightarrow> catalog_tables \<Rightarrow> string \<Rightarrow> classified" where
  "Classify parse_ip etld1 c host =
     (let nm = normalizeHost host in
      if nm = '''' then \<lparr>kl_service = ''unknown'', kl_label = ''Unknown'', kl_category = ''unknown'', kl_source = ''unknown''\<rparr>
      else case parse_ip nm of
        Some ip \<Rightarrow> plain_class ip ''direct-ip'' ''ip''
      | None \<Rightarrow>
        (case lookupSuffix (sc_overrides c) nm of
           Some e \<Rightarrow> classification e ''override''
         | None \<Rightarrow>
           (case map_of (sc_exacts c) nm of
              Some e \<Rightarrow> classification e ''catalog''
            | None \<Rightarrow>
              (case lookupSuffix (sc_suffixes c) nm of
                 Some e \<Rightarrow> classification e ''catalog''
               | None \<Rightarrow>
                 (case etld1 nm of
                    Some d \<Rightarrow> if d \<noteq> '''' then plain_class d ''unclassified'' ''publicsuffix''
                               else plain_class nm ''unclassified'' ''unknown''
                  | None \<Rightarrow> plain_class nm ''unclassified'' ''unknown'')))))"

section \<open>Reading the dataset\<close>

datatype parse_error =
    MissingTab nat
  | MalformedService nat
  | RuleBeforeService nat
  | EmptyDomain nat
  | UnknownRecord nat string
  | MissingVersion
  | NoRules

definition parse_header :: "string \<Rightarrow> catalog_tables \<Rightarrow> catalog_tables" where
  "parse_header line c =
     (case Cut (CHR 0x09) line of
        None \<Rightarrow> if line = ''version'' then c\<lparr>sc_version := ''''\<rparr> else if line = ''source'' then c\<lparr>sc_source := ''''\<rparr> else c
      | Some (key, v) \<Rightarrow>
        if key = ''version'' then c\<lparr>sc_version := v\<rparr> else if key = ''source'' then c\<lparr>sc_source := v\<rparr> else c)"

text \<open>One line of \<open>parse\<close>; the state is the service of the current block and the catalog so far.\<close>

definition parse_line :: "nat \<Rightarrow> string \<Rightarrow> entry option \<times> catalog_tables \<Rightarrow> parse_error + entry option \<times> catalog_tables" where
  "parse_line n raw st =
     (let line = trim_cr raw; (current, c) = st in
      if line = [] \<or> has_prefix line ''#'' then Inr st
      else if has_prefix line ''!'' then Inr (current, parse_header (tl line) c)
      else case Cut (CHR 0x09) line of
        None \<Rightarrow> Inl (MissingTab n)
      | Some (kind, rest) \<Rightarrow>
        if kind = ''S'' then
          (case split_on (CHR 0x09) rest of
             [k, l, g] \<Rightarrow> if k = [] then Inl (MalformedService n)
                          else Inr (Some \<lparr>en_service = k, en_label = l, en_category = g\<rparr>, c)
           | _ \<Rightarrow> Inl (MalformedService n))
        else if kind = ''D'' \<or> kind = ''F'' then
          (case current of
             None \<Rightarrow> Inl (RuleBeforeService n)
           | Some e \<Rightarrow>
             if rest = [] then Inl (EmptyDomain n)
             else if kind = ''D'' then Inr (current, c\<lparr>sc_suffixes := (rest, e) # sc_suffixes c\<rparr>)
             else Inr (current, c\<lparr>sc_exacts := (rest, e) # sc_exacts c\<rparr>))
        else Inl (UnknownRecord n kind))"

fun parse_lines :: "nat \<Rightarrow> string list \<Rightarrow> entry option \<times> catalog_tables \<Rightarrow> parse_error + entry option \<times> catalog_tables" where
  "parse_lines n [] st = Inr st"
| "parse_lines n (l # ls) st = bind_res (parse_line n l st) (parse_lines (Suc n) ls)"

definition parse :: "string \<Rightarrow> parse_error + catalog_tables" where
  "parse text =
     bind_res (parse_lines 1 (split_on (CHR 0x0A) text)
                (None, \<lparr>sc_version = '''', sc_source = '''', sc_suffixes = [], sc_exacts = [], sc_overrides = []\<rparr>))
       (\<lambda>(_, c). if sc_version c = '''' then Inl MissingVersion
                 else if sc_suffixes c = [] \<and> sc_exacts c = [] then Inl NoRules else Inr c)"

section \<open>Strings: laws\<close>

lemma trim_cr_none: "CHR 0x0D \<notin> set s \<Longrightarrow> trim_cr s = s"
proof -
  assume "CHR 0x0D \<notin> set s"
  then have "dropWhile (\<lambda>c. c = CHR 0x0D) (rev s) = rev s" by (cases "rev s") (auto simp flip: set_rev [of s])
  then show ?thesis by (simp add: trim_cr_def)
qed

section \<open>The longest suffix wins\<close>

text \<open>A rule covers its own host and the hosts below it, on label boundaries.\<close>

definition covers :: "string \<Rightarrow> string \<Rightarrow> bool" where
  "covers k nm \<longleftrightarrow> k \<noteq> [] \<and> (nm = k \<or> (\<exists>p. nm = p @ CHR ''.'' # k))"

lemma covers_self [simp]: "covers nm nm \<longleftrightarrow> nm \<noteq> []"
  by (simp add: covers_def)

lemma covers_length: "covers k nm \<Longrightarrow> length k \<le> length nm \<and> (length k = length nm \<longrightarrow> k = nm)"
  by (auto simp: covers_def)

lemma covers_cut:
  assumes "Cut (CHR ''.'') nm = Some (b, rest)"
  shows "covers k nm \<longleftrightarrow> nm \<noteq> [] \<and> k = nm \<or> covers k rest"
proof -
  have nm: "nm = b @ CHR ''.'' # rest" "CHR ''.'' \<notin> set b" using Cut_SomeD [OF assms] by simp_all
  have "(\<exists>p. nm = p @ CHR ''.'' # k) \<longleftrightarrow> k = rest \<or> (\<exists>p. rest = p @ CHR ''.'' # k)"
  proof
    assume "\<exists>p. nm = p @ CHR ''.'' # k"
    then obtain p where p: "b @ CHR ''.'' # rest = p @ CHR ''.'' # k" using nm(1) by auto
    show "k = rest \<or> (\<exists>p. rest = p @ CHR ''.'' # k)"
      using p nm(2) by (auto simp: append_eq_append_conv2 Cons_eq_append_conv append_eq_Cons_conv)
  next
    assume "k = rest \<or> (\<exists>p. rest = p @ CHR ''.'' # k)"
    then show "\<exists>p. nm = p @ CHR ''.'' # k" using nm(1) by (metis append.assoc append_Cons)
  qed
  then show ?thesis using nm(1) by (auto simp: covers_def)
qed

declare lookupSuffix.simps [simp del]

lemma lookup_spec:
  "case lookupSuffix rules nm of
     None \<Rightarrow> \<forall>k. covers k nm \<longrightarrow> map_of rules k = None
   | Some e \<Rightarrow> \<exists>k. covers k nm \<and> map_of rules k = Some e \<and> (\<forall>k'. covers k' nm \<and> map_of rules k' \<noteq> None \<longrightarrow> length k' \<le> length k)"
proof (induction rules nm rule: lookupSuffix.induct)
  case (1 rules nm)
  show ?case
  proof (cases "nm = [] \<or> map_of rules nm \<noteq> None \<or> Cut (CHR ''.'') nm = None")
    case True
    have low: "length k' \<le> length nm" if "covers k' nm" for k' using covers_length [OF that] by simp
    have top: "covers k nm \<longleftrightarrow> k = nm" if "nm \<noteq> []" "Cut (CHR ''.'') nm = None" for k
      using that by (auto simp: covers_def Cut_None_iff)
    show ?thesis
    proof (cases "nm \<noteq> [] \<and> map_of rules nm \<noteq> None")
      case True
      then show ?thesis using low by (auto simp: lookupSuffix.simps [of rules nm] intro!: exI [of _ nm])
    next
      case False
      then have "lookupSuffix rules nm = None" using True by (auto simp: lookupSuffix.simps [of rules nm])
      moreover have "map_of rules k = None" if "covers k nm" for k
      proof (cases "nm = []")
        case True
        then show ?thesis using that by (auto simp: covers_def)
      next
        case nm: False
        then show ?thesis using top [of k] that False True by auto
      qed
      ultimately show ?thesis by simp
    qed
  next
    case False
    then obtain b rest where cut: "Cut (CHR ''.'') nm = Some (b, rest)" and nm: "nm \<noteq> []" "map_of rules nm = None" by auto
    then have eq: "lookupSuffix rules nm = lookupSuffix rules rest" by (simp add: lookupSuffix.simps [of rules nm])
    have "case lookupSuffix rules rest of
        None \<Rightarrow> \<forall>k. covers k rest \<longrightarrow> map_of rules k = None
      | Some e \<Rightarrow> \<exists>k. covers k rest \<and> map_of rules k = Some e \<and> (\<forall>k'. covers k' rest \<and> map_of rules k' \<noteq> None \<longrightarrow> length k' \<le> length k)"
      using "1" nm cut by simp
    then show ?thesis using nm(2) covers_cut [OF cut] unfolding eq by (auto split: option.splits)
  qed
qed

fun longest_of :: "string list \<Rightarrow> string option" where
  "longest_of [] = None"
| "longest_of (k # ks) =
     (case longest_of ks of None \<Rightarrow> Some k | Some k' \<Rightarrow> Some (if length k' \<le> length k then k else k'))"

text \<open>The reference: scan all rules for the longest one that covers the host.\<close>

definition longest_rule :: "(string \<times> 'e) list \<Rightarrow> string \<Rightarrow> 'e option" where
  "longest_rule rules nm =
     (case longest_of (filter (\<lambda>k. covers k nm) (map fst rules)) of None \<Rightarrow> None | Some k \<Rightarrow> map_of rules k)"

lemma longest_of_spec:
  "case longest_of ks of None \<Rightarrow> ks = [] | Some k \<Rightarrow> k \<in> set ks \<and> (\<forall>k' \<in> set ks. length k' \<le> length k)"
  by (induction ks) (auto split: option.splits)

lemma covers_drop: "covers k nm \<Longrightarrow> drop (length nm - length k) nm = k"
  by (auto simp: covers_def)

lemma covers_unique: "covers k nm \<Longrightarrow> covers k' nm \<Longrightarrow> length k = length k' \<Longrightarrow> k = k'"
  by (metis covers_drop)

text \<open>
  C27: The walk from label to label over the host name is the longest-suffix match: it gives,
  in as many table lookups as the name has labels, the rule that a scan of all rules for the
  longest one covering the host gives, and nothing when no rule covers it. A rule covers its own
  name and names below it on label boundaries, so \<open>notyoutube.com\<close> is not covered by
  \<open>youtube.com\<close>.
\<close>

theorem longest_suffix: "lookupSuffix rules nm = longest_rule rules nm"
proof -
  let ?ks = "filter (\<lambda>k. covers k nm) (map fst rules)"
  have mem: "k \<in> set ?ks \<longleftrightarrow> covers k nm \<and> map_of rules k \<noteq> None" for k
    by (auto simp: map_of_eq_None_iff)
  show ?thesis
  proof (cases "longest_of ?ks")
    case None
    then have "?ks = []" using longest_of_spec [of ?ks] by simp
    then have none: "map_of rules k = None" if "covers k nm" for k using mem [of k] that by auto
    then have "lookupSuffix rules nm = None" using lookup_spec [of nm rules] none by (auto split: option.splits)
    then show ?thesis using None by (simp add: longest_rule_def)
  next
    case (Some k)
    then have k: "covers k nm" "map_of rules k \<noteq> None" "\<And>k'. k' \<in> set ?ks \<Longrightarrow> length k' \<le> length k"
      using longest_of_spec [of ?ks] mem [of k] by (auto simp del: set_filter filter_is_subset)
    then obtain e where e: "lookupSuffix rules nm = Some e" using lookup_spec [of nm rules] by (auto split: option.splits)
    then obtain k0 where k0: "covers k0 nm" "map_of rules k0 = Some e" "length k \<le> length k0"
      using lookup_spec [of nm rules] k by (auto split: option.splits)
    moreover have "length k0 \<le> length k" using k(3) [of k0] mem [of k0] k0 by simp
    ultimately have "k0 = k" using covers_unique [OF k0(1) k(1)] by simp
    then show ?thesis using Some e k0(2) by (simp add: longest_rule_def)
  qed
qed

end
