(* ===== verification/Catalog_Generator.thy ===== *)
theory Catalog_Generator
  imports Service_Catalog
begin

text \<open>
  The generator of the service dataset: \<open>internal/servicecatalog/gen/main.go\<close>. It expands
  the upstream lists of an allowlist, gives each domain to the first service that names it,
  drops rules that a broader rule of the same service makes redundant, and writes the file that
  \<open>servicecatalog.parse\<close> reads. The downloaded lists and the allowlist are data.
\<close>

section \<open>Rules of an upstream list\<close>

datatype gen_rule = Include string | SuffixRule string | ExactRule string

text \<open>\<open>strings.Fields(line)[0]\<close> of a trimmed line.\<close>

fun first_field :: "string \<Rightarrow> string" where
  "first_field [] = []"
| "first_field (c # s) = (if space_at space_runes (c # s) > 0 then [] else c # first_field s)"

definition label_char :: "char \<Rightarrow> bool" where
  "label_char c \<longleftrightarrow> CHR ''a'' \<le> c \<and> c \<le> CHR ''z'' \<or> CHR ''0'' \<le> c \<and> c \<le> CHR ''9'' \<or> c = CHR ''-'' \<or> c = CHR ''_''"

definition validDomain :: "string \<Rightarrow> bool" where
  "validDomain d \<longleftrightarrow> d \<noteq> [] \<and> CHR ''.'' \<in> set d \<and> list_all (\<lambda>l. l \<noteq> [] \<and> list_all label_char l) (split_on (CHR ''.'') d)"

definition parseRule :: "string \<Rightarrow> gen_rule option" where
  "parseRule raw =
     (let line = trim_space (case Cut (CHR ''#'') raw of None \<Rightarrow> raw | Some (b, _) \<Rightarrow> b) in
      if line = [] then None else
      let v = first_field line;
          domain = (\<lambda>k v. let d = ToLower (trim_dots v) in if validDomain d then Some (k d) else None)
      in case Cut (CHR '':'') v of
           None \<Rightarrow> domain SuffixRule v
         | Some (prefix, rest) \<Rightarrow>
           if prefix = ''include'' then (if rest \<noteq> [] then Some (Include rest) else None)
           else if prefix = ''full'' then domain ExactRule rest
           else if prefix = ''domain'' then domain SuffixRule rest
           else None)"

section \<open>Expanding includes\<close>

text \<open>
  \<open>walk\<close> as one loop: the lines of an included list are put before the lines that are left,
  which is the order in which the recursive calls read them. A list that was visited is not
  read again.
\<close>

record expansion =
  ex_visited :: "string list"
  ex_suffixes :: "string list"
  ex_exacts :: "string list"

type_synonym upstream = "(string \<times> string list) list"

datatype gen_error = ListNotFound string | DuplicateKey string | NoContribution

definition unvisited :: "upstream \<Rightarrow> string list \<Rightarrow> nat" where
  "unvisited ups vis = card (fst ` set ups - set vis)"

lemma unvisited_less:
  assumes "map_of ups l = Some ls" and "l \<notin> set vis"
  shows "unvisited ups (l # vis) < unvisited ups vis"
  unfolding unvisited_def
proof (rule psubset_card_mono)
  show "finite (fst ` set ups - set vis)" by simp
  have "l \<in> fst ` set ups" using assms(1) by (metis map_of_eq_None_iff option.distinct(1))
  then show "fst ` set ups - set (l # vis) \<subset> fst ` set ups - set vis" using assms(2) by auto
qed

function walk_lines :: "upstream \<Rightarrow> string list \<Rightarrow> expansion \<Rightarrow> gen_error + expansion" where
  "walk_lines ups [] st = Inr st"
| "walk_lines ups (line # rest) st =
     (case parseRule line of
        None \<Rightarrow> walk_lines ups rest st
      | Some (SuffixRule d) \<Rightarrow> walk_lines ups rest (st\<lparr>ex_suffixes := ex_suffixes st @ [d]\<rparr>)
      | Some (ExactRule d) \<Rightarrow> walk_lines ups rest (st\<lparr>ex_exacts := ex_exacts st @ [d]\<rparr>)
      | Some (Include l) \<Rightarrow>
        if l \<in> set (ex_visited st) then walk_lines ups rest st
        else case map_of ups l of
          None \<Rightarrow> Inl (ListNotFound l)
        | Some ls \<Rightarrow> walk_lines ups (ls @ rest) (st\<lparr>ex_visited := l # ex_visited st\<rparr>))"
  by pat_completeness auto
termination
  by (relation "measures [\<lambda>(ups, ls, st). unvisited ups (ex_visited st), \<lambda>(ups, ls, st). length ls]")
     (auto simp: unvisited_less)

definition expand :: "upstream \<Rightarrow> string \<Rightarrow> gen_error + string list \<times> string list" where
  "expand ups nm =
     (case map_of ups nm of
        None \<Rightarrow> Inl (ListNotFound nm)
      | Some ls \<Rightarrow>
        bind_res (walk_lines ups ls \<lparr>ex_visited = [nm], ex_suffixes = [], ex_exacts = []\<rparr>)
          (\<lambda>st. Inr (ex_suffixes st, ex_exacts st)))"

section \<open>Building the services\<close>

record service_spec =
  sp_list :: string
  sp_key :: string
  sp_label :: string
  sp_category :: string

record service = service_spec +
  sv_suffixes :: "string list"
  sv_exacts :: "string list"

type_synonym owners = "(string \<times> string) list"

fun claim_domains :: "string \<Rightarrow> string list \<Rightarrow> owners \<Rightarrow> string list \<times> owners" where
  "claim_domains k [] ow = ([], ow)"
| "claim_domains k (d # ds) ow =
     (if map_of ow d \<noteq> None then claim_domains k ds ow
      else case claim_domains k ds ((d, k) # ow) of (r, ow') \<Rightarrow> (d # r, ow'))"

fun collect :: "upstream \<Rightarrow> service_spec list \<Rightarrow> string list \<Rightarrow> owners \<Rightarrow> owners \<Rightarrow> gen_error + service list \<times> owners" where
  "collect ups [] seen sow eow = Inr ([], sow)"
| "collect ups (sp # sps) seen sow eow =
     (if sp_key sp \<in> set seen then Inl (DuplicateKey (sp_key sp)) else
      bind_res (expand ups (sp_list sp)) (\<lambda>(sx, ex).
        case claim_domains (sp_key sp) sx sow of (sx', sow') \<Rightarrow>
        case claim_domains (sp_key sp) ex eow of (ex', eow') \<Rightarrow>
        bind_res (collect ups sps (sp_key sp # seen) sow' eow') (\<lambda>(rest, ow).
          Inr (service_spec.extend sp \<lparr>sv_suffixes = sx', sv_exacts = ex'\<rparr> # rest, ow))))"

definition parent :: "string \<Rightarrow> string" where
  "parent d = (case Cut (CHR ''.'') d of None \<Rightarrow> [] | Some (_, r) \<Rightarrow> r)"

lemma parent_less [termination_simp]: "d \<noteq> [] \<Longrightarrow> length (parent d) < length d"
  by (auto simp: parent_def dest: Cut_length split: option.split)

fun nearestOwner :: "string \<Rightarrow> owners \<Rightarrow> string" where
  "nearestOwner d ow = (if d = [] then [] else case map_of ow d of Some k \<Rightarrow> k | None \<Rightarrow> nearestOwner (parent d) ow)"

declare nearestOwner.simps [simp del]

definition pruneSuffixes :: "string \<Rightarrow> string list \<Rightarrow> owners \<Rightarrow> string list" where
  "pruneSuffixes k ds ow = filter (\<lambda>d. nearestOwner (parent d) ow \<noteq> k) ds"

definition pruneExacts :: "string \<Rightarrow> string list \<Rightarrow> owners \<Rightarrow> string list" where
  "pruneExacts k ds ow = filter (\<lambda>d. nearestOwner d ow \<noteq> k) ds"

definition prune_service :: "owners \<Rightarrow> service \<Rightarrow> service" where
  "prune_service ow s =
     s\<lparr>sv_suffixes := sort (pruneSuffixes (sp_key s) (sv_suffixes s) ow),
       sv_exacts := sort (pruneExacts (sp_key s) (sv_exacts s) ow)\<rparr>"

definition build :: "service_spec list \<Rightarrow> upstream \<Rightarrow> gen_error + service list" where
  "build allowlist ups =
     bind_res (collect ups allowlist [] [] []) (\<lambda>(svcs, ow).
       let pruned = map (prune_service ow) svcs in
       if list_ex (\<lambda>s. sv_suffixes s = [] \<and> sv_exacts s = []) pruned then Inl NoContribution else Inr pruned)"

section \<open>Writing the dataset\<close>

fun show_nat :: "nat \<Rightarrow> string" where
  "show_nat n = (if n < 10 then [''0123456789'' ! n] else show_nat (n div 10) @ [''0123456789'' ! (n mod 10)])"

declare show_nat.simps [simp del]

definition tab :: string where
  "tab = [CHR 0x09]"

definition tagged :: "string \<Rightarrow> string \<Rightarrow> string" where
  "tagged k r = k @ tab @ r"

definition banner :: "string list" where
  "banner =
     [''# BoxFleet service catalog. Generated by internal/servicecatalog/gen '' @ [CHR 0xE2, CHR 0x80, CHR 0x94] @ '' do not edit by hand.'',
      ''# Upstream data is MIT licensed; see gen/README.md for the regeneration procedure.'',
      ''# S<TAB>key<TAB>label<TAB>category starts a service block; D suffix rules and F exact'',
      ''# rules that follow belong to it.'']"

definition service_lines :: "service \<Rightarrow> string list" where
  "service_lines s =
     tagged ''S'' (sp_key s @ tab @ sp_label s @ tab @ sp_category s)
     # map (tagged ''D'') (sv_suffixes s) @ map (tagged ''F'') (sv_exacts s)"

definition write_lines :: "string \<Rightarrow> string \<Rightarrow> service list \<Rightarrow> string list" where
  "write_lines version origin catalog =
     banner
     @ [tagged ''!version'' version, tagged ''!source'' origin, tagged ''!services'' (show_nat (length catalog)),
        tagged ''!rules'' (show_nat (sum_list (map (\<lambda>s. length (sv_suffixes s) + length (sv_exacts s)) catalog)))]
     @ concat (map service_lines catalog)"

definition write_text :: "string \<Rightarrow> string \<Rightarrow> service list \<Rightarrow> string" where
  "write_text version origin catalog = concat (map (\<lambda>l. l @ [CHR 0x0A]) (write_lines version origin catalog))"


section \<open>Expansion reads every included list once\<close>

definition list_rule :: "upstream \<Rightarrow> string \<Rightarrow> gen_rule \<Rightarrow> bool" where
  "list_rule ups l r \<longleftrightarrow> (\<exists>ls line. map_of ups l = Some ls \<and> line \<in> set ls \<and> parseRule line = Some r)"

definition included :: "upstream \<Rightarrow> string \<Rightarrow> string \<Rightarrow> bool" where
  "included ups nm = (\<lambda>l l'. list_rule ups l (Include l'))\<^sup>*\<^sup>* nm"

definition handled :: "expansion \<Rightarrow> string \<Rightarrow> bool" where
  "handled st line \<longleftrightarrow>
     (case parseRule line of
        None \<Rightarrow> True
      | Some (SuffixRule d) \<Rightarrow> d \<in> set (ex_suffixes st)
      | Some (ExactRule d) \<Rightarrow> d \<in> set (ex_exacts st)
      | Some (Include l) \<Rightarrow> l \<in> set (ex_visited st))"

text \<open>Every line that is left belongs to a visited list; every line of a visited list is left or handled.\<close>

definition walk_inv :: "upstream \<Rightarrow> string \<Rightarrow> string list \<Rightarrow> expansion \<Rightarrow> bool" where
  "walk_inv ups nm left st \<longleftrightarrow>
     nm \<in> set (ex_visited st)
     \<and> (\<forall>line \<in> set left. \<exists>l \<in> set (ex_visited st). \<exists>ls. map_of ups l = Some ls \<and> line \<in> set ls)
     \<and> (\<forall>l \<in> set (ex_visited st). included ups nm l \<and> (\<exists>ls. map_of ups l = Some ls \<and> (\<forall>line \<in> set ls. line \<in> set left \<or> handled st line)))
     \<and> (\<forall>d \<in> set (ex_suffixes st). \<exists>l \<in> set (ex_visited st). list_rule ups l (SuffixRule d))
     \<and> (\<forall>d \<in> set (ex_exacts st). \<exists>l \<in> set (ex_visited st). list_rule ups l (ExactRule d))"

lemma handled_mono:
  "handled st line \<Longrightarrow> set (ex_visited st) \<subseteq> set (ex_visited st') \<Longrightarrow> set (ex_suffixes st) \<subseteq> set (ex_suffixes st')
   \<Longrightarrow> set (ex_exacts st) \<subseteq> set (ex_exacts st') \<Longrightarrow> handled st' line"
  by (auto simp: handled_def split: option.splits gen_rule.splits)

lemma included_step: "included ups nm l \<Longrightarrow> list_rule ups l (Include l') \<Longrightarrow> included ups nm l'"
  unfolding included_def by (rule rtranclp.rtrancl_into_rtrancl)

text \<open>A line was dealt with: the state has grown so that the line is handled.\<close>

lemma walk_inv_drop:
  assumes "walk_inv ups nm (line # rest) st" and "handled st' line"
    and "set (ex_visited st') = set (ex_visited st)" and "set (ex_suffixes st) \<subseteq> set (ex_suffixes st')" and "set (ex_exacts st) \<subseteq> set (ex_exacts st')"
    and "\<forall>d \<in> set (ex_suffixes st') - set (ex_suffixes st). parseRule line = Some (SuffixRule d)"
    and "\<forall>d \<in> set (ex_exacts st') - set (ex_exacts st). parseRule line = Some (ExactRule d)"
  shows "walk_inv ups nm rest st'"
proof -
  obtain l ls where l: "l \<in> set (ex_visited st)" "map_of ups l = Some ls" "line \<in> set ls"
    using assms(1) by (auto simp: walk_inv_def)
  have keep: "handled st' x" if "handled st x" for x using handled_mono [OF that] assms(3-5) by simp
  have "\<exists>l \<in> set (ex_visited st). list_rule ups l (SuffixRule d)" if "d \<in> set (ex_suffixes st')" for d
    using that assms(1,6) l by (cases "d \<in> set (ex_suffixes st)") (auto simp: walk_inv_def list_rule_def)
  moreover have "\<exists>l \<in> set (ex_visited st). list_rule ups l (ExactRule d)" if "d \<in> set (ex_exacts st')" for d
    using that assms(1,7) l by (cases "d \<in> set (ex_exacts st)") (auto simp: walk_inv_def list_rule_def)
  moreover have "\<exists>ls. map_of ups l = Some ls \<and> (\<forall>x \<in> set ls. x \<in> set rest \<or> handled st' x)" if "l \<in> set (ex_visited st)" for l
  proof -
    obtain ls where "map_of ups l = Some ls" "\<forall>x \<in> set ls. x \<in> set (line # rest) \<or> handled st x"
      using assms(1) \<open>l \<in> set (ex_visited st)\<close> by (auto simp: walk_inv_def)
    then show ?thesis using keep assms(2) by (intro exI [of _ ls]) auto
  qed
  ultimately show ?thesis using assms(1,3) by (simp add: walk_inv_def)
qed

lemma walk_inv_include:
  assumes "walk_inv ups nm (line # rest) st" and "parseRule line = Some (Include l)" and "map_of ups l = Some ls"
  shows "walk_inv ups nm (ls @ rest) (st\<lparr>ex_visited := l # ex_visited st\<rparr>)"
proof -
  let ?st' = "st\<lparr>ex_visited := l # ex_visited st\<rparr>"
  obtain l0 ls0 where l0: "l0 \<in> set (ex_visited st)" "map_of ups l0 = Some ls0" "line \<in> set ls0"
    using assms(1) by (auto simp: walk_inv_def)
  have reach: "included ups nm l"
    using included_step [of ups nm l0 l] l0 assms(1,2) by (auto simp: walk_inv_def list_rule_def)
  have keep: "handled ?st' x" if "handled st x" for x using handled_mono [OF that, of ?st'] by auto
  have "handled ?st' line" using assms(2) by (simp add: handled_def)
  then have "\<exists>xs. map_of ups l' = Some xs \<and> (\<forall>x \<in> set xs. x \<in> set (ls @ rest) \<or> handled ?st' x)" if "l' \<in> set (l # ex_visited st)" for l'
  proof (cases "l' = l")
    case False
    then have "l' \<in> set (ex_visited st)" using that by simp
    then obtain xs where "map_of ups l' = Some xs" "\<forall>x \<in> set xs. x \<in> set (line # rest) \<or> handled st x"
      using assms(1) unfolding walk_inv_def by blast
    then show ?thesis using keep \<open>handled ?st' line\<close> by (intro exI [of _ xs]) auto
  qed (use assms(3) in auto)
  then show ?thesis using assms(1,3) reach by (auto simp: walk_inv_def)
qed

lemma walk_lines_inv:
  "walk_inv ups nm left st \<Longrightarrow>
     (case walk_lines ups left st of
        Inl e \<Rightarrow> \<exists>l. e = ListNotFound l \<and> included ups nm l \<and> map_of ups l = None
      | Inr st' \<Rightarrow> walk_inv ups nm [] st')"
proof (induction ups left st rule: walk_lines.induct)
  case (2 ups line rest st)
  show ?case
  proof (cases "parseRule line")
    case None
    then have "handled st line" by (simp add: handled_def)
    then show ?thesis using walk_inv_drop [OF 2(6), of st] 2(1) None by simp
  next
    case (Some r)
    show ?thesis
    proof (cases r)
      case (SuffixRule d)
      then have "walk_inv ups nm rest (st\<lparr>ex_suffixes := ex_suffixes st @ [d]\<rparr>)"
        using walk_inv_drop [OF 2(6), of "st\<lparr>ex_suffixes := ex_suffixes st @ [d]\<rparr>"] Some by (auto simp: handled_def)
      then show ?thesis using 2(4) [OF Some] SuffixRule Some by simp
    next
      case (ExactRule d)
      then have "walk_inv ups nm rest (st\<lparr>ex_exacts := ex_exacts st @ [d]\<rparr>)"
        using walk_inv_drop [OF 2(6), of "st\<lparr>ex_exacts := ex_exacts st @ [d]\<rparr>"] Some by (auto simp: handled_def)
      then show ?thesis using 2(5) [OF Some] ExactRule Some by simp
    next
      case (Include l)
      show ?thesis
      proof (cases "l \<in> set (ex_visited st)")
        case True
        then have "walk_inv ups nm rest st" using walk_inv_drop [OF 2(6), of st] Some Include by (simp add: handled_def)
        then show ?thesis using 2(2) [OF Some] Include True Some by simp
      next
        case new: False
        show ?thesis
        proof (cases "map_of ups l")
          case None
          obtain l0 ls0 where "l0 \<in> set (ex_visited st)" "map_of ups l0 = Some ls0" "line \<in> set ls0"
            using 2(6) by (auto simp: walk_inv_def)
          then have "included ups nm l" using included_step [of ups nm l0 l] 2(6) Some Include by (auto simp: walk_inv_def list_rule_def)
          then show ?thesis using None new Some Include by simp
        next
          case ls: (Some ls)
          then have "walk_inv ups nm (ls @ rest) (st\<lparr>ex_visited := l # ex_visited st\<rparr>)"
            using walk_inv_include [OF 2(6)] Some Include by simp
          then show ?thesis using 2(3) [OF Some _ new ls] Include new ls Some by simp
        qed
      qed
    qed
  qed
qed simp


lemma walk_inv_done:
  assumes "walk_inv ups nm [] st"
  shows "included ups nm l \<longleftrightarrow> l \<in> set (ex_visited st)"
proof
  assume "included ups nm l"
  then have "(\<lambda>l l'. list_rule ups l (Include l'))\<^sup>*\<^sup>* nm l" by (simp add: included_def)
  then show "l \<in> set (ex_visited st)"
  proof (induction rule: rtranclp_induct)
    case (step l l')
    then obtain ls line where "map_of ups l = Some ls" "line \<in> set ls" "parseRule line = Some (Include l')" "handled st line"
      using assms by (fastforce simp: walk_inv_def list_rule_def)
    then show ?case by (simp add: handled_def)
  qed (use assms in \<open>simp add: walk_inv_def\<close>)
qed (use assms in \<open>simp add: walk_inv_def\<close>)

lemma walk_inv_suffixes:
  assumes "walk_inv ups nm [] st"
  shows "d \<in> set (ex_suffixes st) \<longleftrightarrow> (\<exists>l. included ups nm l \<and> list_rule ups l (SuffixRule d))"
    and "d \<in> set (ex_exacts st) \<longleftrightarrow> (\<exists>l. included ups nm l \<and> list_rule ups l (ExactRule d))"
proof -
  have all: "handled st line" if "included ups nm l" "map_of ups l = Some ls" "line \<in> set ls" for l ls line
    using that assms walk_inv_done [OF assms, of l] by (fastforce simp: walk_inv_def)
  show "d \<in> set (ex_suffixes st) \<longleftrightarrow> (\<exists>l. included ups nm l \<and> list_rule ups l (SuffixRule d))"
  proof
    show "\<exists>l. included ups nm l \<and> list_rule ups l (SuffixRule d)" if "d \<in> set (ex_suffixes st)"
      using that assms unfolding walk_inv_def by blast
    show "d \<in> set (ex_suffixes st)" if "\<exists>l. included ups nm l \<and> list_rule ups l (SuffixRule d)"
      using that all by (fastforce simp: list_rule_def handled_def)
  qed
  show "d \<in> set (ex_exacts st) \<longleftrightarrow> (\<exists>l. included ups nm l \<and> list_rule ups l (ExactRule d))"
  proof
    show "\<exists>l. included ups nm l \<and> list_rule ups l (ExactRule d)" if "d \<in> set (ex_exacts st)"
      using that assms unfolding walk_inv_def by blast
    show "d \<in> set (ex_exacts st)" if "\<exists>l. included ups nm l \<and> list_rule ups l (ExactRule d)"
      using that all by (fastforce simp: list_rule_def handled_def)
  qed
qed

lemma expand_outcome:
  "case expand ups nm of
     Inl e \<Rightarrow> \<exists>l. e = ListNotFound l \<and> included ups nm l \<and> map_of ups l = None
   | Inr (sx, ex) \<Rightarrow> (\<forall>l. included ups nm l \<longrightarrow> map_of ups l \<noteq> None)
       \<and> set sx = {d. \<exists>l. included ups nm l \<and> list_rule ups l (SuffixRule d)}
       \<and> set ex = {d. \<exists>l. included ups nm l \<and> list_rule ups l (ExactRule d)}"
proof (cases "map_of ups nm")
  case None
  then show ?thesis by (auto simp: expand_def included_def)
next
  case (Some ls)
  let ?st = "\<lparr>ex_visited = [nm], ex_suffixes = [], ex_exacts = []\<rparr>"
  have inv: "walk_inv ups nm ls ?st" using Some by (simp add: walk_inv_def included_def)
  show ?thesis
  proof (cases "walk_lines ups ls ?st")
    case (Inl e)
    then show ?thesis using walk_lines_inv [OF inv] Some by (simp add: expand_def)
  next
    case (Inr st)
    then have fin: "walk_inv ups nm [] st" using walk_lines_inv [OF inv] by simp
    have "map_of ups l \<noteq> None" if "included ups nm l" for l
      using that fin walk_inv_done [OF fin, of l] by (auto simp: walk_inv_def)
    then show ?thesis using Some Inr walk_inv_suffixes [OF fin] by (auto simp: expand_def)
  qed
qed

text \<open>
  C30: Expanding a list always ends, also when lists include each other in a circle. Either it
  fails on a list that is included, directly or through others, and does not exist; or every
  included list exists and the suffix and exact rules returned are exactly the rules of the
  lists that are included.
\<close>

theorem expand_complete:
  "case expand ups nm of
     Inl e \<Rightarrow> \<exists>l. e = ListNotFound l \<and> included ups nm l \<and> map_of ups l = None
   | Inr (sx, ex) \<Rightarrow> {l. included ups nm l} \<subseteq> fst ` set ups
       \<and> set sx = {d. \<exists>l. included ups nm l \<and> list_rule ups l (SuffixRule d)}
       \<and> set ex = {d. \<exists>l. included ups nm l \<and> list_rule ups l (ExactRule d)}"
  using expand_outcome [of ups nm] by (auto simp: map_of_eq_None_iff split: sum.split prod.split)

section \<open>Pruning does not change any lookup\<close>

definition entry_of :: "'a service_spec_scheme \<Rightarrow> entry" where
  "entry_of s = \<lparr>en_service = sp_key s, en_label = sp_label s, en_category = sp_category s\<rparr>"

definition suffix_table :: "service list \<Rightarrow> (string \<times> entry) list" where
  "suffix_table svcs = concat (map (\<lambda>s. map (\<lambda>d. (d, entry_of s)) (sv_suffixes s)) svcs)"

definition exact_table :: "service list \<Rightarrow> (string \<times> entry) list" where
  "exact_table svcs = concat (map (\<lambda>s. map (\<lambda>d. (d, entry_of s)) (sv_exacts s)) svcs)"

text \<open>The part of \<^const>\<open>Classify\<close> that reads the dataset.\<close>

definition catalog_lookup :: "(string \<times> entry) list \<Rightarrow> (string \<times> entry) list \<Rightarrow> string \<Rightarrow> entry option" where
  "catalog_lookup exacts suffixes nm = (case map_of exacts nm of Some e \<Rightarrow> Some e | None \<Rightarrow> lookupSuffix suffixes nm)"

lemma map_of_table: "map_of (concat (map (\<lambda>s. map (\<lambda>d. (d, f s)) (g s)) svcs)) d = map_option f (find (\<lambda>s. d \<in> set (g s)) svcs)"
proof (induction svcs)
  case (Cons s svcs)
  have "map_of (map (\<lambda>d. (d, f s)) xs) d = (if d \<in> set xs then Some (f s) else None)" for xs by (induction xs) auto
  then show ?case using Cons by (auto simp: map_add_def split: option.split)
qed simp

lemma claim_domains_spec:
  "claim_domains k ds ow = (r, ow') \<Longrightarrow>
     distinct r \<and> set r = {d \<in> set ds. map_of ow d = None} \<and> (\<forall>d. map_of ow' d = (if d \<in> set r then Some k else map_of ow d))"
proof (induction ds arbitrary: ow r)
  case (Cons d ds)
  show ?case
  proof (cases "map_of ow d")
    case (Some x)
    then show ?thesis using Cons by auto
  next
    case None
    then obtain r1 where r1: "claim_domains k ds ((d, k) # ow) = (r1, ow')" "r = d # r1"
      using Cons.prems by (auto split: prod.splits)
    show ?thesis using Cons.IH [OF r1(1)] r1(2) None by auto
  qed
qed simp

text \<open>
  What an owner map knows after the first loop of \<open>build\<close>: it adds to what it knew before exactly
  the domains of the services, and no two services share a domain.
\<close>

definition owned :: "(service \<Rightarrow> string list) \<Rightarrow> owners \<Rightarrow> owners \<Rightarrow> service list \<Rightarrow> bool" where
  "owned g ow0 ow svcs \<longleftrightarrow>
     (\<forall>d. map_of ow d = (case find (\<lambda>s. d \<in> set (g s)) svcs of Some s \<Rightarrow> Some (sp_key s) | None \<Rightarrow> map_of ow0 d))
     \<and> (\<forall>s \<in> set svcs. \<forall>d \<in> set (g s). map_of ow0 d = None \<and> find (\<lambda>s. d \<in> set (g s)) svcs = Some s)"

lemma find_mem: "find p xs = Some x \<Longrightarrow> x \<in> set xs \<and> p x"
  by (auto simp: find_Some_iff)

lemma owned_Cons:
  assumes "\<And>d. map_of ow1 d = (if d \<in> set (g s) then Some (sp_key s) else map_of ow0 d)"
    and "\<And>d. d \<in> set (g s) \<Longrightarrow> map_of ow0 d = None" and "owned g ow1 ow rest"
  shows "owned g ow0 ow (s # rest)"
proof -
  have rest: "find (\<lambda>s. d \<in> set (g s)) rest = None" if "d \<in> set (g s)" for d
  proof (rule ccontr)
    assume "find (\<lambda>s. d \<in> set (g s)) rest \<noteq> None"
    then obtain s' where "s' \<in> set rest" "d \<in> set (g s')" using find_mem by fastforce
    then have "map_of ow1 d = None" using assms(3) by (simp add: owned_def)
    then show False using assms(1) that by simp
  qed
  have "map_of ow0 d = None \<and> d \<notin> set (g s)" if "s' \<in> set rest" "d \<in> set (g s')" for s' d
    using assms(1) [of d] assms(3) that by (auto simp: owned_def split: if_splits)
  then show ?thesis using assms rest by (auto simp: owned_def split: option.split)
qed

lemma collect_spec:
  assumes "collect ups sps seen sow eow = Inr (svcs, ow)"
  shows "map sp_key svcs = map sp_key sps \<and> distinct (map sp_key svcs) \<and> set (map sp_key svcs) \<inter> set seen = {}
    \<and> owned sv_suffixes sow ow svcs \<and> (\<exists>eow'. owned sv_exacts eow eow' svcs)"
  using assms
proof (induction sps arbitrary: seen sow eow svcs)
  case (Cons sp sps)
  obtain sx ex where ex: "expand ups (sp_list sp) = Inr (sx, ex)" and new: "sp_key sp \<notin> set seen"
    using Cons.prems by (auto simp: bind_res_Inr_iff split: if_splits)
  obtain sx' sow' ex' eow' where cl: "claim_domains (sp_key sp) sx sow = (sx', sow')" "claim_domains (sp_key sp) ex eow = (ex', eow')"
    by fastforce
  let ?s = "service_spec.extend sp \<lparr>sv_suffixes = sx', sv_exacts = ex'\<rparr>"
  obtain rest where rest: "collect ups sps (sp_key sp # seen) sow' eow' = Inr (rest, ow)" and svcs: "svcs = ?s # rest"
    using Cons.prems ex new cl by (auto simp: bind_res_Inr_iff)
  have flds: "sp_key ?s = sp_key sp" "sv_suffixes ?s = sx'" "sv_exacts ?s = ex'" by (simp_all add: service_spec.defs)
  obtain eow2 where IH: "map sp_key rest = map sp_key sps" "distinct (map sp_key rest)"
    "set (map sp_key rest) \<inter> set (sp_key sp # seen) = {}" "owned sv_suffixes sow' ow rest" "owned sv_exacts eow' eow2 rest"
    using Cons.IH [OF rest] by blast
  have "owned sv_suffixes sow ow (?s # rest)"
    by (rule owned_Cons [OF _ _ IH(4)]) (use claim_domains_spec [OF cl(1)] flds in auto)
  moreover have "owned sv_exacts eow eow2 (?s # rest)"
    by (rule owned_Cons [OF _ _ IH(5)]) (use claim_domains_spec [OF cl(2)] flds in auto)
  ultimately show ?case using IH new flds svcs by auto
qed (auto simp: owned_def)


lemma lookupSuffix_parent:
  "lookupSuffix rules nm = (if nm = [] then None else case map_of rules nm of Some e \<Rightarrow> Some e | None \<Rightarrow> lookupSuffix rules (parent nm))"
  by (simp add: lookupSuffix.simps [of rules nm] lookupSuffix.simps [of rules "[]"] parent_def split: option.split)

lemma find_narrow:
  assumes "\<And>s. s \<in> set xs \<Longrightarrow> p s \<Longrightarrow> find p xs = Some s"
  shows "find (\<lambda>s. p s \<and> q s) xs = (case find p xs of Some s \<Rightarrow> if q s then Some s else None | None \<Rightarrow> None)"
proof (cases "find (\<lambda>s. p s \<and> q s) xs")
  case None
  have "\<not> q s" if "find p xs = Some s" for s using None find_mem [OF that] by (auto simp: find_None_iff)
  then show ?thesis using None by (auto split: option.split)
next
  case (Some s)
  then have "s \<in> set xs" "p s" "q s" using find_mem [OF Some] by simp_all
  then show ?thesis using Some assms by simp
qed

lemma prune_fields [simp]:
  "entry_of (prune_service ow s) = entry_of s"
  "set (sv_suffixes (prune_service ow s)) = {d \<in> set (sv_suffixes s). nearestOwner (parent d) ow \<noteq> sp_key s}"
  "set (sv_exacts (prune_service ow s)) = {d \<in> set (sv_exacts s). nearestOwner d ow \<noteq> sp_key s}"
  by (auto simp: prune_service_def entry_of_def pruneSuffixes_def pruneExacts_def)

lemma table_pruned:
  assumes "owned g ow0 ow1 svcs" and "\<And>s. set (g (prune_service ow s)) = {d \<in> set (g s). near d \<noteq> sp_key s}"
  shows "map_of (concat (map (\<lambda>s. map (\<lambda>d. (d, entry_of s)) (g s)) (map (prune_service ow) svcs))) d =
     (case find (\<lambda>s. d \<in> set (g s)) svcs of
        Some s \<Rightarrow> if near d \<noteq> sp_key s then Some (entry_of s) else None | None \<Rightarrow> None)"
proof -
  have "map_of (concat (map (\<lambda>s. map (\<lambda>d. (d, entry_of s)) (g s)) (map (prune_service ow) svcs))) d
      = map_of (concat (map (\<lambda>s. map (\<lambda>d. (d, entry_of s)) (g (prune_service ow s))) svcs)) d"
    by (simp add: comp_def)
  also have "\<dots> = map_option entry_of (find (\<lambda>s. d \<in> set (g s) \<and> near d \<noteq> sp_key s) svcs)"
    unfolding map_of_table [of entry_of "\<lambda>s. g (prune_service ow s)"] using assms(2) by simp
  also have "find (\<lambda>s. d \<in> set (g s) \<and> near d \<noteq> sp_key s) svcs
      = (case find (\<lambda>s. d \<in> set (g s)) svcs of Some s \<Rightarrow> if near d \<noteq> sp_key s then Some s else None | None \<Rightarrow> None)"
    by (rule find_narrow) (use assms(1) in \<open>auto simp: owned_def\<close>)
  finally show ?thesis by (auto split: option.split)
qed

lemma nearest_lookup:
  assumes "owned sv_suffixes [] ow svcs"
  shows "case lookupSuffix (suffix_table svcs) nm of
      None \<Rightarrow> nearestOwner nm ow = [] | Some e \<Rightarrow> \<exists>s \<in> set svcs. e = entry_of s \<and> nearestOwner nm ow = sp_key s"
proof (induction nm rule: measure_induct_rule [of length])
  case (less nm)
  show ?case
  proof (cases "nm = []")
    case True
    then show ?thesis by (simp add: lookupSuffix_parent [of _ "[]"] nearestOwner.simps)
  next
    case nm: False
    have own: "map_of ow nm = map_option sp_key (find (\<lambda>s. nm \<in> set (sv_suffixes s)) svcs)"
      using assms by (simp add: owned_def split: option.split)
    show ?thesis
    proof (cases "find (\<lambda>s. nm \<in> set (sv_suffixes s)) svcs")
      case None
      have "lookupSuffix (suffix_table svcs) nm = lookupSuffix (suffix_table svcs) (parent nm)" "nearestOwner nm ow = nearestOwner (parent nm) ow"
        using None nm own by (simp_all add: lookupSuffix_parent [of _ nm] nearestOwner.simps [of nm] suffix_table_def map_of_table)
      then show ?thesis using less [OF parent_less [OF nm]] by (simp split: option.splits)
    next
      case (Some s)
      have "lookupSuffix (suffix_table svcs) nm = Some (entry_of s)" "nearestOwner nm ow = sp_key s"
        using Some nm own by (simp_all add: lookupSuffix_parent [of _ nm] nearestOwner.simps [of nm] suffix_table_def map_of_table)
      then show ?thesis using find_mem [OF Some] by auto
    qed
  qed
qed

lemma nearest_is_entry:
  assumes "owned sv_suffixes [] ow svcs" and "distinct (map sp_key svcs)" and "[] \<notin> set (map sp_key svcs)"
    and "s \<in> set svcs" and "nearestOwner nm ow = sp_key s"
  shows "lookupSuffix (suffix_table svcs) nm = Some (entry_of s)"
proof -
  have "sp_key s \<noteq> []" using assms(3,4) by force
  then obtain s' where "s' \<in> set svcs" "lookupSuffix (suffix_table svcs) nm = Some (entry_of s')" "sp_key s' = sp_key s"
    using nearest_lookup [OF assms(1), of nm] assms(5) by (auto split: option.splits)
  moreover from this have "s' = s" using distinct_key_eq [OF assms(2)] assms(4) by blast
  ultimately show ?thesis by simp
qed

lemma prune_suffix_lookup:
  assumes "owned sv_suffixes [] ow svcs" and "distinct (map sp_key svcs)" and "[] \<notin> set (map sp_key svcs)"
  shows "lookupSuffix (suffix_table (map (prune_service ow) svcs)) nm = lookupSuffix (suffix_table svcs) nm"
proof (induction nm rule: measure_induct_rule [of length])
  case (less nm)
  let ?T = "suffix_table svcs" and ?T' = "suffix_table (map (prune_service ow) svcs)"
  show ?case
  proof (cases "nm = []")
    case True
    then show ?thesis by (simp add: lookupSuffix_parent [of _ "[]"])
  next
    case nm: False
    have T: "map_of ?T nm = map_option entry_of (find (\<lambda>s. nm \<in> set (sv_suffixes s)) svcs)"
      by (simp add: suffix_table_def map_of_table)
    have T': "map_of ?T' nm = (case find (\<lambda>s. nm \<in> set (sv_suffixes s)) svcs of
        Some s \<Rightarrow> if nearestOwner (parent nm) ow \<noteq> sp_key s then Some (entry_of s) else None | None \<Rightarrow> None)"
      unfolding suffix_table_def by (rule table_pruned [OF assms(1)]) simp
    note IH = less [OF parent_less [OF nm]]
    show ?thesis
    proof (cases "find (\<lambda>s. nm \<in> set (sv_suffixes s)) svcs")
      case None
      then show ?thesis using T T' IH nm by (simp add: lookupSuffix_parent [of _ nm])
    next
      case (Some s)
      then have s: "s \<in> set svcs" using find_mem [OF Some] by simp
      show ?thesis
        using T T' IH nm Some nearest_is_entry [OF assms s, of "parent nm"] by (simp add: lookupSuffix_parent [of _ nm])
    qed
  qed
qed

lemma prune_lookup:
  assumes "collect ups sps [] [] [] = Inr (svcs, ow)" and "\<And>sp. sp \<in> set sps \<Longrightarrow> sp_key sp \<noteq> []"
  shows "catalog_lookup (exact_table (map (prune_service ow) svcs)) (suffix_table (map (prune_service ow) svcs)) nm
       = catalog_lookup (exact_table svcs) (suffix_table svcs) nm"
proof -
  obtain eow where c: "map sp_key svcs = map sp_key sps" "distinct (map sp_key svcs)" "owned sv_suffixes [] ow svcs" "owned sv_exacts [] eow svcs"
    using collect_spec [OF assms(1)] by blast
  have ne: "[] \<notin> set (map sp_key svcs)" using assms(2) unfolding c(1) by force
  have E: "map_of (exact_table svcs) nm = map_option entry_of (find (\<lambda>s. nm \<in> set (sv_exacts s)) svcs)"
    by (simp add: exact_table_def map_of_table)
  have E': "map_of (exact_table (map (prune_service ow) svcs)) nm = (case find (\<lambda>s. nm \<in> set (sv_exacts s)) svcs of
      Some s \<Rightarrow> if nearestOwner nm ow \<noteq> sp_key s then Some (entry_of s) else None | None \<Rightarrow> None)"
    unfolding exact_table_def by (rule table_pruned [OF c(4)]) simp
  show ?thesis
  proof (cases "find (\<lambda>s. nm \<in> set (sv_exacts s)) svcs")
    case None
    then show ?thesis using E E' prune_suffix_lookup [OF c(3,2) ne] by (simp add: catalog_lookup_def)
  next
    case (Some s)
    then have s: "s \<in> set svcs" using find_mem [OF Some] by simp
    show ?thesis
      using E E' Some prune_suffix_lookup [OF c(3,2) ne] nearest_is_entry [OF c(3,2) ne s, of nm] by (simp add: catalog_lookup_def)
  qed
qed

text \<open>
  C28: Dropping redundant rules does not change any classification. Whatever the upstream lists and the
  allowlist say, the dataset that \<open>build\<close> returns answers every host name as the dataset
  with all the rules that the services claimed does: the same service, label and category, or no
  answer.
\<close>

theorem pruning_sound:
  assumes "build allowlist ups = Inr svcs" and "\<And>sp. sp \<in> set allowlist \<Longrightarrow> sp_key sp \<noteq> []"
  shows "\<exists>full ow. collect ups allowlist [] [] [] = Inr (full, ow)
    \<and> (\<forall>nm. catalog_lookup (exact_table svcs) (suffix_table svcs) nm = catalog_lookup (exact_table full) (suffix_table full) nm)"
proof -
  obtain full ow where c: "collect ups allowlist [] [] [] = Inr (full, ow)" "svcs = map (prune_service ow) full"
    using assms(1) by (auto simp: build_def Let_def bind_res_Inr_iff split: if_splits)
  then show ?thesis using prune_lookup [OF c(1) assms(2)] by auto
qed


section \<open>Writing and reading the dataset\<close>

definition plain :: "string \<Rightarrow> bool" where
  "plain s \<longleftrightarrow> CHR 0x09 \<notin> set s \<and> CHR 0x0A \<notin> set s \<and> CHR 0x0D \<notin> set s"

definition service_ok :: "service \<Rightarrow> bool" where
  "service_ok s \<longleftrightarrow> sp_key s \<noteq> [] \<and> plain (sp_key s) \<and> plain (sp_label s) \<and> plain (sp_category s)
     \<and> (\<forall>d \<in> set (sv_suffixes s) \<union> set (sv_exacts s). d \<noteq> [] \<and> plain d)"

lemma plain_append [simp]: "plain (s @ t) \<longleftrightarrow> plain s \<and> plain t"
  by (auto simp: plain_def)

lemma digit_plain: "n < 10 \<Longrightarrow> plain [''0123456789'' ! n]"
proof -
  assume "n < 10"
  then have "''0123456789'' ! n \<in> set ''0123456789''" by (intro nth_mem) simp
  then show ?thesis by (auto simp: plain_def)
qed

lemma show_nat_plain: "plain (show_nat n)"
proof (induction n rule: show_nat.induct)
  case (1 n)
  show ?case
  proof (cases "n < 10")
    case True
    then show ?thesis using digit_plain [of n] by (simp add: show_nat.simps [of n])
  next
    case False
    then show ?thesis using 1 digit_plain [of "n mod 10"] by (simp add: show_nat.simps [of n])
  qed
qed

lemma tagged_plain:
  "plain k \<Longrightarrow> CHR 0x0D \<notin> set r \<Longrightarrow> trim_cr (tagged k r) = tagged k r"
  "plain k \<Longrightarrow> Cut (CHR 0x09) (tagged k r) = Some (k, r)"
  using Cut_append [of "CHR 0x09" k r] by (auto simp: plain_def tagged_def tab_def intro!: trim_cr_none)

lemma tagged_kind: "k = a # x \<Longrightarrow> a \<noteq> CHR ''#'' \<Longrightarrow> a \<noteq> CHR ''!'' \<Longrightarrow> tagged k r \<noteq> [] \<and> \<not> has_prefix (tagged k r) ''#'' \<and> \<not> has_prefix (tagged k r) ''!''"
  by (simp add: tagged_def)

lemma parse_service:
  assumes "service_ok s"
  shows "parse_line n (tagged ''S'' (sp_key s @ tab @ sp_label s @ tab @ sp_category s)) (cur, c) = Inr (Some (entry_of s), c)"
proof -
  let ?r = "sp_key s @ tab @ sp_label s @ tab @ sp_category s"
  have p: "plain ''S''" "CHR 0x0D \<notin> set ?r" "sp_key s \<noteq> []" using assms by (auto simp: service_ok_def plain_def tab_def)
  have "split_on (CHR 0x09) ?r = [sp_key s, sp_label s, sp_category s]"
    using assms by (simp add: service_ok_def tab_def plain_def split_on_append split_on_none)
  then show ?thesis
    using p(3) tagged_plain(1) [OF p(1,2)] tagged_plain(2) [OF p(1), of ?r] tagged_kind [of "''S''" "CHR ''S''" "[]" ?r]
    by (simp add: parse_line_def Let_def entry_of_def)
qed

lemma parse_rule:
  assumes "plain d" and "d \<noteq> []"
  shows "parse_line n (tagged ''D'' d) (Some e, c) = Inr (Some e, c\<lparr>sc_suffixes := (d, e) # sc_suffixes c\<rparr>)"
    and "parse_line n (tagged ''F'' d) (Some e, c) = Inr (Some e, c\<lparr>sc_exacts := (d, e) # sc_exacts c\<rparr>)"
proof -
  have p: "plain ''D''" "plain ''F''" "CHR 0x0D \<notin> set d" using assms by (simp_all add: plain_def)
  show "parse_line n (tagged ''D'' d) (Some e, c) = Inr (Some e, c\<lparr>sc_suffixes := (d, e) # sc_suffixes c\<rparr>)"
    using assms(2) tagged_plain(1) [OF p(1,3)] tagged_plain(2) [OF p(1), of d] tagged_kind [of "''D''" "CHR ''D''" "[]" d]
    by (simp add: parse_line_def Let_def)
  show "parse_line n (tagged ''F'' d) (Some e, c) = Inr (Some e, c\<lparr>sc_exacts := (d, e) # sc_exacts c\<rparr>)"
    using assms(2) tagged_plain(1) [OF p(2,3)] tagged_plain(2) [OF p(2), of d] tagged_kind [of "''F''" "CHR ''F''" "[]" d]
    by (simp add: parse_line_def Let_def)
qed

lemma parse_header_line:
  assumes "plain k" and "plain v"
  shows "parse_line n (tagged (CHR ''!'' # k) v) (cur, c) =
    Inr (cur, if k = ''version'' then c\<lparr>sc_version := v\<rparr> else if k = ''source'' then c\<lparr>sc_source := v\<rparr> else c)"
proof -
  have "plain (CHR ''!'' # k)" "CHR 0x0D \<notin> set v" using assms by (auto simp: plain_def)
  then have "trim_cr (tagged (CHR ''!'' # k) v) = tagged (CHR ''!'' # k) v" by (rule tagged_plain(1))
  moreover have "tagged (CHR ''!'' # k) v \<noteq> []" "\<not> has_prefix (tagged (CHR ''!'' # k) v) ''#''" "has_prefix (tagged (CHR ''!'' # k) v) ''!''"
    "tl (tagged (CHR ''!'' # k) v) = tagged k v" by (simp_all add: tagged_def)
  ultimately show ?thesis using tagged_plain(2) [OF assms(1), of v] by (simp add: parse_line_def Let_def parse_header_def)
qed

lemma parse_lines_append: "parse_lines n (xs @ ys) st = bind_res (parse_lines n xs st) (parse_lines (n + length xs) ys)"
proof (induction xs arbitrary: n st)
  case (Cons x xs)
  then show ?case by (cases "parse_line n x st") simp_all
qed simp

lemma parse_suffixes:
  "\<forall>d \<in> set ds. plain d \<and> d \<noteq> [] \<Longrightarrow>
     parse_lines n (map (tagged ''D'') ds) (Some e, c) = Inr (Some e, c\<lparr>sc_suffixes := rev (map (\<lambda>d. (d, e)) ds) @ sc_suffixes c\<rparr>)"
  by (induction ds arbitrary: n c) (simp_all add: parse_rule(1))

lemma parse_exacts:
  "\<forall>d \<in> set ds. plain d \<and> d \<noteq> [] \<Longrightarrow>
     parse_lines n (map (tagged ''F'') ds) (Some e, c) = Inr (Some e, c\<lparr>sc_exacts := rev (map (\<lambda>d. (d, e)) ds) @ sc_exacts c\<rparr>)"
  by (induction ds arbitrary: n c) (simp_all add: parse_rule(2))

lemma parse_block:
  assumes "service_ok s"
  shows "parse_lines n (service_lines s) (cur, c) =
    Inr (Some (entry_of s), c\<lparr>sc_suffixes := rev (suffix_table [s]) @ sc_suffixes c, sc_exacts := rev (exact_table [s]) @ sc_exacts c\<rparr>)"
proof -
  have "\<forall>d \<in> set (sv_suffixes s). plain d \<and> d \<noteq> []" "\<forall>d \<in> set (sv_exacts s). plain d \<and> d \<noteq> []"
    using assms by (auto simp: service_ok_def)
  then show ?thesis
    using parse_service [OF assms] unfolding service_lines_def
    by (simp add: parse_lines_append parse_suffixes parse_exacts suffix_table_def exact_table_def)
qed

lemma table_Cons:
  "suffix_table (s # svcs) = suffix_table [s] @ suffix_table svcs" "exact_table (s # svcs) = exact_table [s] @ exact_table svcs"
  by (simp_all add: suffix_table_def exact_table_def)

lemma parse_blocks:
  "\<forall>s \<in> set svcs. service_ok s \<Longrightarrow>
     \<exists>cur'. parse_lines n (concat (map service_lines svcs)) (cur, c) =
       Inr (cur', c\<lparr>sc_suffixes := rev (suffix_table svcs) @ sc_suffixes c, sc_exacts := rev (exact_table svcs) @ sc_exacts c\<rparr>)"
proof (induction svcs arbitrary: n cur c)
  case Nil
  then show ?case by (simp add: suffix_table_def exact_table_def)
next
  case (Cons s svcs)
  let ?c = "c\<lparr>sc_suffixes := rev (suffix_table [s]) @ sc_suffixes c, sc_exacts := rev (exact_table [s]) @ sc_exacts c\<rparr>"
  have "parse_lines n (concat (map service_lines (s # svcs))) (cur, c)
      = parse_lines (n + length (service_lines s)) (concat (map service_lines svcs)) (Some (entry_of s), ?c)"
    using Cons.prems by (simp add: parse_lines_append parse_block)
  then show ?case
    using Cons.IH [of "n + length (service_lines s)" "Some (entry_of s)" ?c] Cons.prems by (simp add: table_Cons [of s svcs])
qed

lemma banner_lines: "l \<in> set banner \<Longrightarrow> has_prefix l ''#'' \<and> plain l"
  by (auto simp: banner_def plain_def)

lemma parse_banner: "parse_lines n banner st = Inr st"
proof -
  have "parse_lines n ls st = Inr st" if "\<forall>l \<in> set ls. has_prefix l ''#'' \<and> plain l" for ls
    using that by (induction ls arbitrary: n) (auto simp: parse_line_def Let_def trim_cr_none plain_def split_beta)
  then show ?thesis using banner_lines by blast
qed

lemma parse_headers:
  assumes "plain v" and "plain og"
  shows "parse_lines n (tagged ''!version'' v # tagged ''!source'' og # tagged ''!services'' (show_nat a) # tagged ''!rules'' (show_nat b) # ls) (cur, c)
    = parse_lines (Suc (Suc (Suc (Suc n)))) ls (cur, c\<lparr>sc_version := v, sc_source := og\<rparr>)"
proof -
  have "plain ''version''" "plain ''source''" "plain ''services''" "plain ''rules''" by (simp_all add: plain_def)
  then show ?thesis using assms by (simp add: parse_header_line show_nat_plain)
qed

lemma parse_written:
  assumes "plain v" and "v \<noteq> []" and "plain og" and "\<forall>s \<in> set svcs. service_ok s" and "suffix_table svcs \<noteq> [] \<or> exact_table svcs \<noteq> []"
  shows "parse (write_text v og svcs) =
    Inr \<lparr>sc_version = v, sc_source = og, sc_suffixes = rev (suffix_table svcs), sc_exacts = rev (exact_table svcs), sc_overrides = []\<rparr>"
proof -
  have nl: "list_all (\<lambda>l. CHR 0x0A \<notin> set l) (write_lines v og svcs)"
  proof -
    have "CHR 0x0A \<notin> set l" if "l \<in> set (service_lines s)" "service_ok s" for l s
      using that by (auto simp: service_lines_def tagged_def tab_def service_ok_def plain_def)
    moreover have "CHR 0x0A \<notin> set l" if "l \<in> set banner" for l using banner_lines [OF that] by (simp add: plain_def)
    moreover have "CHR 0x0A \<notin> set (show_nat a)" for a using show_nat_plain [of a] by (simp add: plain_def)
    ultimately show ?thesis using assms by (auto simp: write_lines_def list_all_iff tagged_def tab_def plain_def)
  qed
  let ?c0 = "\<lparr>sc_version = [], sc_source = [], sc_suffixes = [], sc_exacts = [], sc_overrides = []\<rparr> :: catalog_tables"
  let ?c1 = "?c0\<lparr>sc_version := v, sc_source := og\<rparr>"
  have "split_on (CHR 0x0A) (write_text v og svcs) = write_lines v og svcs @ [[]]"
    using split_on_lines [OF nl] by (simp add: write_text_def)
  then obtain n m where "parse_lines 1 (split_on (CHR 0x0A) (write_text v og svcs)) (None, ?c0)
      = bind_res (parse_lines n (concat (map service_lines svcs)) (None, ?c1)) (parse_lines m [[]])"
    unfolding write_lines_def
    by (simp add: parse_lines_append parse_banner parse_headers [OF assms(1,3)] del: parse_lines.simps)
  moreover obtain cur where "parse_lines n (concat (map service_lines svcs)) (None, ?c1)
      = Inr (cur, ?c1\<lparr>sc_suffixes := rev (suffix_table svcs), sc_exacts := rev (exact_table svcs)\<rparr>)"
    using parse_blocks [OF assms(4), of n None ?c1] by auto
  ultimately show ?thesis
    using assms(2,5) by (auto simp: parse_def parse_line_def Let_def trim_cr_def)
qed

section \<open>Built datasets can be read\<close>

lemma split_on_chars: "x \<in> set s \<Longrightarrow> x = c \<or> (\<exists>l \<in> set (split_on c s). x \<in> set l)"
  by (induction s) (auto split: list.splits)

lemma label_char_plain: "label_char c \<Longrightarrow> c \<noteq> CHR 0x09 \<and> c \<noteq> CHR 0x0A \<and> c \<noteq> CHR 0x0D"
  by (auto simp: label_char_def less_eq_char_def)

lemma valid_plain:
  assumes "validDomain d"
  shows "plain d \<and> d \<noteq> []"
proof -
  have "x = CHR ''.'' \<or> label_char x" if "x \<in> set d" for x
    using split_on_chars [OF that, of "CHR ''.''"] assms by (auto simp: validDomain_def list_all_iff)
  then show ?thesis using assms label_char_plain by (auto simp: plain_def validDomain_def)
qed

lemma parseRule_valid:
  "parseRule line = Some (SuffixRule d) \<Longrightarrow> validDomain d" "parseRule line = Some (ExactRule d) \<Longrightarrow> validDomain d"
  by (auto simp: parseRule_def Let_def split: if_splits option.splits)

lemma expand_valid:
  assumes "expand ups nm = Inr (sx, ex)" and "d \<in> set sx \<union> set ex"
  shows "validDomain d"
  using expand_outcome [of ups nm] assms parseRule_valid by (auto simp: list_rule_def)

lemma collect_fields:
  "collect ups sps seen sow eow = Inr (svcs, ow) \<Longrightarrow> s \<in> set svcs \<Longrightarrow>
     (\<exists>sp \<in> set sps. sp_key s = sp_key sp \<and> sp_label s = sp_label sp \<and> sp_category s = sp_category sp)
     \<and> (\<forall>d \<in> set (sv_suffixes s) \<union> set (sv_exacts s). validDomain d)"
proof (induction sps arbitrary: seen sow eow svcs)
  case (Cons sp sps)
  obtain sx ex where ex: "expand ups (sp_list sp) = Inr (sx, ex)" and new: "sp_key sp \<notin> set seen"
    using Cons.prems(1) by (auto simp: bind_res_Inr_iff split: if_splits)
  obtain sx' sow' ex' eow' where cl: "claim_domains (sp_key sp) sx sow = (sx', sow')" "claim_domains (sp_key sp) ex eow = (ex', eow')"
    by fastforce
  let ?s = "service_spec.extend sp \<lparr>sv_suffixes = sx', sv_exacts = ex'\<rparr>"
  obtain rest where rest: "collect ups sps (sp_key sp # seen) sow' eow' = Inr (rest, ow)" and svcs: "svcs = ?s # rest"
    using Cons.prems(1) ex new cl by (auto simp: bind_res_Inr_iff)
  show ?case
  proof (cases "s \<in> set rest")
    case True
    then show ?thesis using Cons.IH [OF rest] by auto
  next
    case False
    then have s: "s = ?s" using Cons.prems(2) svcs by simp
    have "validDomain d" if "d \<in> set sx' \<union> set ex'" for d
      using that claim_domains_spec [OF cl(1)] claim_domains_spec [OF cl(2)] expand_valid [OF ex, of d] by auto
    then show ?thesis by (simp add: s service_spec.defs)
  qed
qed simp

lemma map_of_rev:
  assumes "\<And>d e e'. (d, e) \<in> set t \<Longrightarrow> (d, e') \<in> set t \<Longrightarrow> e = e'"
  shows "map_of (rev t) = map_of t"
proof
  fix d
  show "map_of (rev t) d = map_of t d"
  proof (cases "map_of t d")
    case None
    then have "map_of (rev t) d = None" by (simp add: map_of_eq_None_iff)
    then show ?thesis using None by simp
  next
    case (Some e)
    then have "d \<in> fst ` set (rev t)" by (metis map_of_eq_None_iff option.distinct(1) set_rev)
    then obtain e' where e': "map_of (rev t) d = Some e'" using map_of_eq_None_iff [of "rev t" d] by auto
    have "(d, e) \<in> set t" "(d, e') \<in> set t" using map_of_SomeD [OF Some] map_of_SomeD [OF e'] by simp_all
    then show ?thesis using Some e' assms by simp
  qed
qed

lemma lookupSuffix_cong: "map_of t = map_of t' \<Longrightarrow> lookupSuffix t nm = lookupSuffix t' nm"
proof (induction nm rule: measure_induct_rule [of length])
  case (less nm)
  show ?case
  proof (cases "nm = []")
    case False
    then show ?thesis using less.prems less.IH [OF parent_less] by (simp add: lookupSuffix_parent [of _ nm] split: option.split)
  qed (simp add: lookupSuffix_parent [of _ "[]"])
qed

lemma table_functional:
  assumes "owned g ow0 ow1 full" and "\<And>s. set (g (prune_service ow s)) \<subseteq> set (g s)"
    and "(d, e) \<in> set (concat (map (\<lambda>s. map (\<lambda>d. (d, entry_of s)) (g s)) (map (prune_service ow) full)))"
    and "(d, e') \<in> set (concat (map (\<lambda>s. map (\<lambda>d. (d, entry_of s)) (g s)) (map (prune_service ow) full)))"
  shows "e = e'"
proof -
  obtain s s' where "s \<in> set full" "d \<in> set (g s)" "e = entry_of s" "s' \<in> set full" "d \<in> set (g s')" "e' = entry_of s'"
    using assms(2-4) by auto
  then show ?thesis using assms(1) by (metis option.inject owned_def)
qed

text \<open>
  C29: A generated dataset is read back as it was built. Under an allowlist whose keys are not
  empty and whose fields have no tab or line break, the text that the generator writes for the
  services it built is accepted by the server, with the version and the source that were written, and
  the tables that the server reads answer every host name as the built services do.
\<close>

theorem dataset_roundtrip:
  assumes "build allowlist ups = Inr svcs" and "allowlist \<noteq> []"
    and "\<And>sp. sp \<in> set allowlist \<Longrightarrow> sp_key sp \<noteq> [] \<and> plain (sp_key sp) \<and> plain (sp_label sp) \<and> plain (sp_category sp)"
    and "plain v" and "v \<noteq> []" and "plain og"
  shows "\<exists>c. parse (write_text v og svcs) = Inr c \<and> sc_version c = v \<and> sc_source c = og \<and> sc_overrides c = []
    \<and> (\<forall>nm. catalog_lookup (sc_exacts c) (sc_suffixes c) nm = catalog_lookup (exact_table svcs) (suffix_table svcs) nm)"
proof -
  obtain full ow where c: "collect ups allowlist [] [] [] = Inr (full, ow)" and svcs: "svcs = map (prune_service ow) full"
    and ne: "\<forall>s \<in> set svcs. sv_suffixes s \<noteq> [] \<or> sv_exacts s \<noteq> []"
    using assms(1) by (auto simp: build_def Let_def bind_res_Inr_iff list_ex_iff split: if_splits)
  obtain eow where own: "map sp_key full = map sp_key allowlist" "owned sv_suffixes [] ow full" "owned sv_exacts [] eow full"
    using collect_spec [OF c] by blast
  have ok: "service_ok (prune_service ow s)" if s: "s \<in> set full" for s
  proof -
    have "sp_key (prune_service ow s) = sp_key s" "sp_label (prune_service ow s) = sp_label s" "sp_category (prune_service ow s) = sp_category s"
      by (simp_all add: prune_service_def)
    moreover obtain sp where "sp \<in> set allowlist" "sp_key s = sp_key sp" "sp_label s = sp_label sp" "sp_category s = sp_category sp"
      using collect_fields [OF c s] by blast
    moreover have "\<forall>d \<in> set (sv_suffixes s) \<union> set (sv_exacts s). d \<noteq> [] \<and> plain d" using collect_fields [OF c s] valid_plain by blast
    ultimately show ?thesis using assms(3) [of sp] by (auto simp add: service_ok_def)
  qed
  have "full \<noteq> []" using own(1) assms(2) by auto
  then have some: "suffix_table svcs \<noteq> [] \<or> exact_table svcs \<noteq> []"
    using ne svcs by (cases full) (auto simp: suffix_table_def exact_table_def)
  have "map_of (rev (suffix_table svcs)) = map_of (suffix_table svcs)"
    unfolding suffix_table_def svcs by (rule map_of_rev, rule table_functional [OF own(2)]) auto
  moreover have "map_of (rev (exact_table svcs)) = map_of (exact_table svcs)"
    unfolding exact_table_def svcs by (rule map_of_rev, rule table_functional [OF own(3)]) auto
  ultimately have same: "catalog_lookup (rev (exact_table svcs)) (rev (suffix_table svcs)) nm = catalog_lookup (exact_table svcs) (suffix_table svcs) nm" for nm
    using lookupSuffix_cong [of "rev (suffix_table svcs)" "suffix_table svcs" nm] by (simp add: catalog_lookup_def split: option.split)
  have "\<forall>s \<in> set svcs. service_ok s" using ok svcs by auto
  from parse_written [OF assms(4,5,6) this some] same show ?thesis by simp
qed


section \<open>Examples\<close>

text \<open>
  The umbrella list includes the specific one, and the two include each other; the rule for
  \<open>mail.b.com\<close> and the exact rule for \<open>m.a.com\<close> are redundant.
\<close>

definition gen_allow :: "service_spec list" where
  "gen_allow = [\<lparr>sp_list = ''a'', sp_key = ''a'', sp_label = ''A'', sp_category = ''video''\<rparr>,
                \<lparr>sp_list = ''b'', sp_key = ''b'', sp_label = ''B'', sp_category = ''mail''\<rparr>]"

definition gen_ups :: upstream where
  "gen_ups = [(''a'', [''a.com'', ''full:m.a.com'']), (''b'', [''include:a'', ''include:b'', ''b.com'', ''mail.b.com''])]"

definition gen_svcs :: "service list" where
  "gen_svcs = [\<lparr>sp_list = ''a'', sp_key = ''a'', sp_label = ''A'', sp_category = ''video'', sv_suffixes = [''a.com''], sv_exacts = []\<rparr>,
               \<lparr>sp_list = ''b'', sp_key = ''b'', sp_label = ''B'', sp_category = ''mail'', sv_suffixes = [''b.com''], sv_exacts = []\<rparr>]"

lemma gen_built: "build gen_allow gen_ups = Inr gen_svcs"
  by code_simp

theorem pruning_sound_witness:
  "\<exists>full ow. collect gen_ups gen_allow [] [] [] = Inr (full, ow)
     \<and> (\<forall>nm. catalog_lookup (exact_table gen_svcs) (suffix_table gen_svcs) nm = catalog_lookup (exact_table full) (suffix_table full) nm)"
  by (rule pruning_sound [OF gen_built]) (auto simp: gen_allow_def)

theorem dataset_roundtrip_witness:
  "\<exists>c. parse (write_text ''2026-07-26'' ''test'' gen_svcs) = Inr c \<and> sc_version c = ''2026-07-26''
     \<and> catalog_lookup (sc_exacts c) (sc_suffixes c) ''x.b.com'' = Some \<lparr>en_service = ''b'', en_label = ''B'', en_category = ''mail''\<rparr>"
proof -
  have "catalog_lookup (exact_table gen_svcs) (suffix_table gen_svcs) ''x.b.com'' = Some \<lparr>en_service = ''b'', en_label = ''B'', en_category = ''mail''\<rparr>"
    by code_simp
  moreover have "sp_key sp \<noteq> [] \<and> plain (sp_key sp) \<and> plain (sp_label sp) \<and> plain (sp_category sp)" if "sp \<in> set gen_allow" for sp
    using that by (auto simp: gen_allow_def plain_def)
  moreover have "gen_allow \<noteq> []" "plain ''2026-07-26''" "plain ''test''" by (simp_all add: gen_allow_def plain_def)
  ultimately show ?thesis
    using dataset_roundtrip [OF gen_built, of "''2026-07-26''" "''test''"] by fastforce
qed

end
