(* ===== verification/Update_Guard.thy ===== *)
theory Update_Guard
  imports Go_Strings Timestamps
begin

text \<open>
  The agent's self-update: \<open>internal/agent/update_guard.go\<close>, the service files of
  \<open>internal/agent/service_files.go\<close> and \<open>updateAgent\<close> of \<open>internal/agent/updater.go\<close>.

  The disk is a record: the guard file, regular files with their content, symbolic links, the
  service files and their backup. A file operation that fails is named by an \<open>io\<close> value, and
  \<open>fl\<close> says which of them fail. All of them are atomic, an error returns at once with what was
  written before, and nothing else survives the process: a crash between two operations leaves
  the disk as a failure of the second one does. \<open>canon\<close> is \<open>canonicalVersion\<close>, which
  rests on \<open>golang.org/x/mod/semver\<close>: the empty string for a text without a version, and equal
  texts for versions that compare equal. \<open>units\<close> gives the service files that the binary of a
  version renders, \<open>version_of\<close> the version a binary prints, \<open>sha\<close> the SHA-256 digest in hex.
\<close>

section \<open>State\<close>

text \<open>The deadline as text: empty, text that is not a time, or a time.\<close>

datatype guard_deadline = NoDeadline | BadDeadline | Deadline instant

record guard_state =
  gs_operation :: string
  gs_expected :: string
  gs_previous :: string
  gs_candidate :: string
  gs_status :: string
  gs_attempts :: int
  gs_deadline :: guard_deadline
  gs_error :: string

record service_file =
  sf_path :: string
  sf_data :: string
  sf_mode :: nat
  sf_missing :: bool

record guard_config =
  gc_cwd :: string
  gc_install :: string
  gc_agent_path :: string
  gc_guard_path :: string
  gc_services :: "string list"

record update_checkpoint =
  cp_candidate :: string
  cp_previous :: string
  cp_switched :: bool
  cp_confirmed :: bool

definition versionsEquivalent :: "(string \<Rightarrow> string) \<Rightarrow> string \<Rightarrow> string \<Rightarrow> bool" where
  "versionsEquivalent canon actual expected \<longleftrightarrow>
     canon actual \<noteq> [] \<and> canon expected \<noteq> [] \<and> canon actual = canon expected"

record host =
  hs_guard :: "guard_state option"
  hs_files :: "string \<Rightarrow> string option"
  hs_links :: "string \<Rightarrow> string option"
  hs_services :: "string \<Rightarrow> (string \<times> nat) option"
  hs_backup :: "service_file list option"
  hs_checkpoint :: update_checkpoint

datatype io = IoReadGuard | IoWriteGuard | IoRemoveGuard | IoEval | IoStat | IoLink | IoLinkPrevious
  | IoReadBackup | IoStatBackup | IoWriteBackup | IoRemoveBackup | IoReadService nat | IoWriteService nat
  | IoUndoService nat | IoReload | IoCopyGuard | IoCopyLegacy | IoSaveState nat | IoReport nat
 | IoBoundary nat
  | IoDownload | IoRunCandidate

type_synonym io_faults = "io \<Rightarrow> bool"

datatype guard_error = IoFailed io | OutsideReleases | InvalidGuardStatus | InvalidBackup | HeartbeatMissing
  | FileMissing | RolledBack string | WrongVersion | NotConfirmed | InvalidAsset | ChecksumMismatch

type_synonym 'a effect = "(guard_error + 'a) \<times> host"

definition attempt_io :: "io_faults \<Rightarrow> io \<Rightarrow> (host \<Rightarrow> host) \<Rightarrow> host \<Rightarrow> unit effect" where
  "attempt_io fl i f h = (if fl i then (Inl (IoFailed i), h) else (Inr (), f h))"

text \<open>Links are only ever made to regular files, so one step resolves them.\<close>

definition EvalSymlinks :: "host \<Rightarrow> string \<Rightarrow> string option" where
  "EvalSymlinks h p =
     (let t = (case hs_links h p of Some t \<Rightarrow> t | None \<Rightarrow> p) in if hs_files h t = None then None else Some t)"

definition samePath :: "guard_config \<Rightarrow> host \<Rightarrow> string \<Rightarrow> string \<Rightarrow> bool" where
  "samePath cfg h a b \<longleftrightarrow>
     Abs (gc_cwd cfg) (case EvalSymlinks h a of Some r \<Rightarrow> r | None \<Rightarrow> a)
     = Abs (gc_cwd cfg) (case EvalSymlinks h b of Some r \<Rightarrow> r | None \<Rightarrow> b)"

section \<open>Service files\<close>

text \<open>\<open>io\<close> tells which write of the i-th file it is.\<close>

fun writeServiceFiles :: "io_faults \<Rightarrow> (nat \<Rightarrow> io) \<Rightarrow> nat \<Rightarrow> service_file list \<Rightarrow> host \<Rightarrow> unit effect" where
  "writeServiceFiles fl ix i [] h = (Inr (), h)"
| "writeServiceFiles fl ix i (f # fs) h =
     (if fl (ix i) then (Inl (IoFailed (ix i)), h)
      else writeServiceFiles fl ix (Suc i) fs
        (h\<lparr>hs_services := (hs_services h)(sf_path f := (if sf_missing f then None else Some (sf_data f, sf_mode f)))\<rparr>))"

definition clearServiceBackup :: "io_faults \<Rightarrow> host \<Rightarrow> unit effect" where
  "clearServiceBackup fl h = attempt_io fl IoRemoveBackup (\<lambda>h. h\<lparr>hs_backup := None\<rparr>) h"

definition restoreServiceBackup :: "guard_config \<Rightarrow> io_faults \<Rightarrow> host \<Rightarrow> unit effect" where
  "restoreServiceBackup cfg fl h =
     (if fl IoReadBackup then (Inl (IoFailed IoReadBackup), h) else
      case hs_backup h of
        None \<Rightarrow> (Inr (), h)
      | Some files \<Rightarrow>
        if map sf_path files \<noteq> gc_services cfg then (Inl InvalidBackup, h) else
        bind_st (writeServiceFiles fl IoWriteService 0 files h) (\<lambda>_ h.
        bind_st (attempt_io fl IoReload id h) (\<lambda>_ h.
        clearServiceBackup fl h)))"

definition service_entry :: "(string \<times> nat) option \<Rightarrow> string \<Rightarrow> service_file" where
  "service_entry content p =
     (case content of
        None \<Rightarrow> \<lparr>sf_path = p, sf_data = '''', sf_mode = 0, sf_missing = True\<rparr>
      | Some (d, m) \<Rightarrow> \<lparr>sf_path = p, sf_data = d, sf_mode = m, sf_missing = False\<rparr>)"

definition snapshot :: "host \<Rightarrow> string \<Rightarrow> service_file" where
  "snapshot h p = service_entry (hs_services h p) p"

definition undoServiceWrite :: "io_faults \<Rightarrow> guard_error \<Rightarrow> service_file list \<Rightarrow> host \<Rightarrow> unit effect" where
  "undoServiceWrite fl cause previous h = (Inl cause, snd (writeServiceFiles fl IoUndoService 0 previous h))"

text \<open>\<open>os.ReadFile\<close> of the guard file and its decoding.\<close>

definition loadAgentUpdateGuard :: "io_faults \<Rightarrow> host \<Rightarrow> guard_error + guard_state option" where
  "loadAgentUpdateGuard fl h = (if fl IoReadGuard then Inl (IoFailed IoReadGuard) else Inr (hs_guard h))"

definition file_changed :: "host \<Rightarrow> service_file \<Rightarrow> bool" where
  "file_changed h f \<longleftrightarrow> (let old = snapshot h (sf_path f) in
     sf_missing old \<or> sf_mode old \<noteq> sf_mode f \<or> sf_data old \<noteq> sf_data f)"

definition save_backup :: "io_faults \<Rightarrow> service_file list \<Rightarrow> host \<Rightarrow> unit effect" where
  "save_backup fl previous h =
     (if fl IoStatBackup then (Inl (IoFailed IoStatBackup), h)
      else if hs_backup h \<noteq> None then (Inr (), h)
      else attempt_io fl IoWriteBackup (\<lambda>h. h\<lparr>hs_backup := Some previous\<rparr>) h)"

definition install_units :: "io_faults \<Rightarrow> service_file list \<Rightarrow> service_file list \<Rightarrow> host \<Rightarrow> unit effect" where
  "install_units fl desired previous h =
     (case bind_st (writeServiceFiles fl IoWriteService 0 desired h) (\<lambda>_. attempt_io fl IoReload id) of
        (Inl e, h) \<Rightarrow> undoServiceWrite fl e previous h
      | (Inr _, h) \<Rightarrow> (Inr (), h))"

fun first_fault :: "io_faults \<Rightarrow> nat \<Rightarrow> 'a list \<Rightarrow> io option" where
  "first_fault fl i [] = None"
| "first_fault fl i (x # xs) = (if fl (IoReadService i) then Some (IoReadService i) else first_fault fl (Suc i) xs)"

definition syncServiceUnits ::
  "(string \<Rightarrow> string) \<Rightarrow> (string \<Rightarrow> service_file list) \<Rightarrow> string \<Rightarrow> io_faults \<Rightarrow> host \<Rightarrow> unit effect" where
  "syncServiceUnits canon units version fl h =
     (let desired = units version; previous = map (snapshot h \<circ> sf_path) desired in
      case first_fault fl 0 desired of
        Some i \<Rightarrow> (Inl (IoFailed i), h)
      | None \<Rightarrow>
      case loadAgentUpdateGuard fl h of
        Inl e \<Rightarrow> (Inl e, h)
      | Inr guard \<Rightarrow>
        let pending = (case guard of None \<Rightarrow> False
          | Some g \<Rightarrow> gs_status g = ''pending'' \<and> versionsEquivalent canon version (gs_expected g)) in
        if \<not> list_ex (file_changed h) desired then
          (if fl IoStatBackup then (Inl (IoFailed IoStatBackup), h)
           else if hs_backup h \<noteq> None then attempt_io fl IoReload id h
           else (Inr (), h))
        else
          bind_st (if pending then save_backup fl previous h else (Inr (), h)) (\<lambda>_ h.
          install_units fl desired previous h))"

section \<open>The guard\<close>

definition maxAgentGuardStarts :: int where
  "maxAgentGuardStarts = 3"

definition guard_timeout :: instant where
  "guard_timeout = 5 * 60 * ns_per_s"

definition writeAgentUpdateGuard :: "instant \<Rightarrow> io_faults \<Rightarrow> guard_state \<Rightarrow> host \<Rightarrow> unit effect" where
  "writeAgentUpdateGuard now fl g h =
     (let g1 = (if gs_status g = '''' then g\<lparr>gs_status := ''pending''\<rparr> else g);
          g2 = (if gs_deadline g1 = NoDeadline then g1\<lparr>gs_deadline := Deadline (now + guard_timeout)\<rparr> else g1) in
      attempt_io fl IoWriteGuard (\<lambda>h. h\<lparr>hs_guard := Some g2\<rparr>) h)"

definition releases_root :: "guard_config \<Rightarrow> string" where
  "releases_root cfg = Abs (gc_cwd cfg) (Join [gc_install cfg, ''releases''])"

definition validateGuardTarget :: "guard_config \<Rightarrow> string \<Rightarrow> bool" where
  "validateGuardTarget cfg target \<longleftrightarrow>
     (let t = Abs (gc_cwd cfg) target; root = releases_root cfg in t = root \<or> has_prefix t (root @ ''/''))"

fun decimal :: "nat \<Rightarrow> string" where
  "decimal n = (if n < 10 then [digit_char n] else decimal (n div 10) @ [digit_char (n mod 10)])"

declare decimal.simps [simp del]

fun deadline_passed :: "instant \<Rightarrow> guard_deadline \<Rightarrow> bool" where
  "deadline_passed now (Deadline d) \<longleftrightarrow> \<not> now < d"
| "deadline_passed now _ \<longleftrightarrow> False"

definition RunAgentGuard :: "guard_config \<Rightarrow> instant \<Rightarrow> io_faults \<Rightarrow> host \<Rightarrow> unit effect" where
  "RunAgentGuard cfg now fl h =
     (case loadAgentUpdateGuard fl h of
        Inl e \<Rightarrow> (Inl e, h)
      | Inr None \<Rightarrow> (Inr (), h)
      | Inr (Some g) \<Rightarrow>
        if gs_status g = ''rolled_back'' then restoreServiceBackup cfg fl h else
        if gs_status g = ''confirmed'' then (Inr (), h) else
        if gs_status g \<noteq> ''pending'' then (Inl InvalidGuardStatus, h) else
        if \<not> validateGuardTarget cfg (gs_previous g) then (Inl OutsideReleases, h) else
        if \<not> validateGuardTarget cfg (gs_candidate g) then (Inl OutsideReleases, h) else
        if fl IoEval then (Inl (IoFailed IoEval), h) else
        case EvalSymlinks h (gc_agent_path cfg) of
          None \<Rightarrow> (Inl FileMissing, h)
        | Some current \<Rightarrow>
          let previous = (case EvalSymlinks h (gs_previous g) of Some p \<Rightarrow> p | None \<Rightarrow> '''') in
          if samePath cfg h current previous then
            bind_st (restoreServiceBackup cfg fl h) (\<lambda>_ h.
            writeAgentUpdateGuard now fl (g\<lparr>gs_status := ''rolled_back'',
              gs_error := ''agent service path already points to the previous version''\<rparr>) h)
          else
            let g1 = g\<lparr>gs_attempts := gs_attempts g + 1\<rparr> in
            if gs_attempts g1 < maxAgentGuardStarts \<and> \<not> deadline_passed now (gs_deadline g1)
            then writeAgentUpdateGuard now fl g1 h
            else if fl IoStat then (Inl (IoFailed IoStat), h)
            else if EvalSymlinks h (gs_previous g) = None then (Inl FileMissing, h)
            else
              bind_st (attempt_io fl IoLink
                (\<lambda>h. h\<lparr>hs_links := (hs_links h)(gc_agent_path cfg \<mapsto> gs_previous g)\<rparr>) h) (\<lambda>_ h.
              bind_st (restoreServiceBackup cfg fl h) (\<lambda>_ h.
              writeAgentUpdateGuard now fl (g1\<lparr>gs_status := ''rolled_back'',
                gs_error := ''candidate did not confirm after '' @ decimal (nat (gs_attempts g1)) @ '' service starts''\<rparr>) h)))"

text \<open>
  \<open>pruneReleaseDirs\<close> removes every directory of a component but those that hold one of the
  binaries to keep. The release tree has no linked directories, so comparing cleaned paths is
  \<open>samePath\<close> on them.
\<close>

definition prunable :: "guard_config \<Rightarrow> string \<Rightarrow> string list \<Rightarrow> string \<Rightarrow> bool" where
  "prunable cfg component keep f \<longleftrightarrow>
     (let root = segments (Abs (gc_cwd cfg) (Join [gc_install cfg, ''releases'', component]));
          path = segments (Abs (gc_cwd cfg) f) in
      length root + 1 < length path \<and> take (length root) path = root
      \<and> list_all (\<lambda>b. take (length root + 1) path \<noteq> segments (Abs (gc_cwd cfg) (Dir b))) keep)"

definition pruneReleaseDirs :: "guard_config \<Rightarrow> string \<Rightarrow> string list \<Rightarrow> host \<Rightarrow> host" where
  "pruneReleaseDirs cfg component keep h =
     (if '''' \<in> set keep then h
      else h\<lparr>hs_files := (\<lambda>f. if prunable cfg component keep f then None else hs_files h f)\<rparr>)"

text \<open>\<open>atomicCopyFile\<close> onto a fresh or existing regular file.\<close>

definition atomicCopyFile :: "io_faults \<Rightarrow> io \<Rightarrow> string \<Rightarrow> string \<Rightarrow> host \<Rightarrow> unit effect" where
  "atomicCopyFile fl i src target h =
     (case EvalSymlinks h src of
        None \<Rightarrow> (Inl FileMissing, h)
      | Some r \<Rightarrow> attempt_io fl i (\<lambda>h. h\<lparr>hs_files := (hs_files h)(target := hs_files h r)\<rparr>) h)"

definition remove_guard :: "io_faults \<Rightarrow> host \<Rightarrow> unit effect" where
  "remove_guard fl h = attempt_io fl IoRemoveGuard (\<lambda>h. h\<lparr>hs_guard := None\<rparr>) h"

definition ConfirmAgentUpdateGuard ::
  "guard_config \<Rightarrow> (string \<Rightarrow> string) \<Rightarrow> (string \<Rightarrow> service_file list) \<Rightarrow> string \<Rightarrow> bool \<Rightarrow> instant \<Rightarrow> io_faults
   \<Rightarrow> host \<Rightarrow> unit effect" where
  "ConfirmAgentUpdateGuard cfg canon units version heartbeat now fl h =
     (case loadAgentUpdateGuard fl h of
        Inl e \<Rightarrow> (Inl e, h)
      | Inr None \<Rightarrow> (Inr (), h)
      | Inr (Some g) \<Rightarrow>
        if gs_status g \<noteq> ''pending'' \<and> gs_status g \<noteq> ''confirmed'' then (Inr (), h) else
        if \<not> versionsEquivalent canon version (gs_expected g) then (Inr (), h) else
        if gs_status g = ''confirmed'' then
          bind_st (clearServiceBackup fl h) (\<lambda>_. remove_guard fl)
        else if \<not> heartbeat then (Inl HeartbeatMissing, h) else
          bind_st (atomicCopyFile fl IoCopyGuard (gc_agent_path cfg) (gc_guard_path cfg) h) (\<lambda>_ h.
          bind_st (syncServiceUnits canon units version fl h) (\<lambda>_ h.
          bind_st (writeAgentUpdateGuard now fl (g\<lparr>gs_status := ''confirmed''\<rparr>) h) (\<lambda>_ h.
          bind_st (clearServiceBackup fl h) (\<lambda>_ h.
          bind_st (remove_guard fl h) (\<lambda>_ h.
          (Inr (), pruneReleaseDirs cfg ''boxfleet-agent'' [gs_candidate g, gs_previous g] h)))))))"

text \<open>The beginning of \<open>Agent.Run\<close>: outside a pending update the agent writes its own units.\<close>

definition run_startup ::
  "(string \<Rightarrow> string) \<Rightarrow> (string \<Rightarrow> service_file list) \<Rightarrow> string \<Rightarrow> io_faults \<Rightarrow> host \<Rightarrow> unit effect" where
  "run_startup canon units version fl h =
     (case loadAgentUpdateGuard fl h of
        Inl e \<Rightarrow> (Inl e, h)
      | Inr guard \<Rightarrow>
        if (case guard of None \<Rightarrow> True | Some g \<Rightarrow> gs_status g \<noteq> ''pending'')
        then syncServiceUnits canon units version fl h else (Inr (), h))"

section \<open>Installing a candidate\<close>

text \<open>The URL as parsed: scheme and host, or \<^const>\<open>None\<close> when it does not parse.\<close>

record update_asset =
  ua_component :: string
  ua_version :: string
  ua_url :: "(string \<times> string) option"
  ua_sha256 :: string
  ua_size :: int

definition hex_digit :: "char \<Rightarrow> bool" where
  "hex_digit c \<longleftrightarrow> CHR ''0'' \<le> c \<and> c \<le> CHR ''9'' \<or> CHR ''a'' \<le> c \<and> c \<le> CHR ''f'' \<or> CHR ''A'' \<le> c \<and> c \<le> CHR ''F''"

definition validateUpdateAsset :: "(string \<Rightarrow> string) \<Rightarrow> update_asset \<Rightarrow> string \<Rightarrow> bool" where
  "validateUpdateAsset canon a component \<longleftrightarrow>
     ua_component a = component \<and> canon (ua_version a) \<noteq> ''''
     \<and> (case ua_url a of None \<Rightarrow> False | Some (scheme, hst) \<Rightarrow> (scheme = ''https'' \<or> scheme = ''http'') \<and> hst \<noteq> '''')
     \<and> list_all hex_digit (ua_sha256 a) \<and> length (ua_sha256 a) = 64 \<and> ua_size a > 0"

definition fileMatchesAsset :: "(string \<Rightarrow> string) \<Rightarrow> string option \<Rightarrow> update_asset \<Rightarrow> bool" where
  "fileMatchesAsset sha content a \<longleftrightarrow>
     (case content of None \<Rightarrow> False
      | Some c \<Rightarrow> int (length c) = ua_size a \<and> ToLower (sha c) = ToLower (ua_sha256 a))"

definition safeVersionDir :: "(string \<Rightarrow> string) \<Rightarrow> string \<Rightarrow> string" where
  "safeVersionDir canon v = (case canon v of [] \<Rightarrow> [] | c # cs \<Rightarrow> if c = CHR ''v'' then cs else c # cs)"

text \<open>
  \<open>body\<close> is what the URL serves. The download client fails when size or digest differ, before
  the file is moved to its final place.
\<close>

definition downloadAndInstallCandidate ::
  "guard_config \<Rightarrow> (string \<Rightarrow> string) \<Rightarrow> (string \<Rightarrow> string) \<Rightarrow> update_asset \<Rightarrow> string \<Rightarrow> io_faults \<Rightarrow> host \<Rightarrow> string effect" where
  "downloadAndInstallCandidate cfg canon sha a body fl h =
     (if \<not> validateUpdateAsset canon a (ua_component a) then (Inl InvalidAsset, h) else
      let dir = (if ua_component a = ''agent'' then ''boxfleet-agent''
                 else if ua_component a = ''sing_box'' then ''sing-box'' else '''') in
      if dir = '''' then (Inl InvalidAsset, h) else
      let final = Join [gc_install cfg, ''releases'', dir, safeVersionDir canon (ua_version a), dir] in
      if fileMatchesAsset sha (hs_files h final) a then (Inr final, h) else
      bind_st (attempt_io fl (IoReport 10) id h) (\<lambda>_ h.
      if fl IoDownload then (Inl (IoFailed IoDownload), h) else
      if \<not> fileMatchesAsset sha (Some body) a then (Inl ChecksumMismatch, h) else
      let h = h\<lparr>hs_files := (hs_files h)(final \<mapsto> body)\<rparr> in
      bind_st (attempt_io fl (IoReport 11) id h) (\<lambda>_ h. (Inr final, h))))"

definition ensureAgentGuardBinary :: "guard_config \<Rightarrow> io_faults \<Rightarrow> host \<Rightarrow> unit effect" where
  "ensureAgentGuardBinary cfg fl h =
     (if hs_files h (gc_guard_path cfg) \<noteq> None then (Inr (), h)
      else atomicCopyFile fl IoCopyGuard (gc_agent_path cfg) (gc_guard_path cfg) h)"

definition preserveCurrentBinary :: "guard_config \<Rightarrow> io_faults \<Rightarrow> string \<Rightarrow> string \<Rightarrow> string \<Rightarrow> host \<Rightarrow> string effect" where
  "preserveCurrentBinary cfg fl current component op h =
     (case EvalSymlinks h current of
        None \<Rightarrow> (Inl FileMissing, h)
      | Some resolved \<Rightarrow>
        if validateGuardTarget cfg resolved then (Inr resolved, h) else
        let legacy = Join [Join [gc_install cfg, ''releases''], component, ''legacy-'' @ op, component] in
        if hs_files h legacy \<noteq> None then (Inr legacy, h)
        else bind_st (atomicCopyFile fl IoCopyLegacy resolved legacy h) (\<lambda>_ h. (Inr legacy, h)))"

definition switchVersionedBinary :: "io_faults \<Rightarrow> string \<Rightarrow> string \<Rightarrow> string \<Rightarrow> host \<Rightarrow> unit effect" where
  "switchVersionedBinary fl link nxt previous h =
     (if EvalSymlinks h nxt = None then (Inl FileMissing, h) else
      bind_st (if previous \<noteq> ''''
               then attempt_io fl IoLinkPrevious (\<lambda>h. h\<lparr>hs_links := (hs_links h)(link @ ''.previous'' \<mapsto> previous)\<rparr>) h
               else (Inr (), h)) (\<lambda>_.
      attempt_io fl IoLink (\<lambda>h. h\<lparr>hs_links := (hs_links h)(link \<mapsto> nxt)\<rparr>)))"

definition saveUpdateCheckpoint ::
  "io_faults \<Rightarrow> nat \<Rightarrow> (update_checkpoint \<Rightarrow> update_checkpoint) \<Rightarrow> host \<Rightarrow> unit effect" where
  "saveUpdateCheckpoint fl n f h = attempt_io fl (IoSaveState n) (\<lambda>h. h\<lparr>hs_checkpoint := f (hs_checkpoint h)\<rparr>) h"

text \<open>From the lock on, with the candidate installed and its version checked.\<close>

definition switch_agent ::
  "guard_config \<Rightarrow> string \<Rightarrow> update_asset \<Rightarrow> string \<Rightarrow> instant \<Rightarrow> io_faults \<Rightarrow> host \<Rightarrow> bool effect" where
  "switch_agent cfg op a candidate now fl h =
     bind_st (ensureAgentGuardBinary cfg fl h) (\<lambda>_ h.
     bind_st (preserveCurrentBinary cfg fl (gc_agent_path cfg) ''boxfleet-agent'' op h) (\<lambda>previous h.
     bind_st (saveUpdateCheckpoint fl 3 (\<lambda>c. c\<lparr>cp_previous := previous\<rparr>) h) (\<lambda>_ h.
     bind_st (writeAgentUpdateGuard now fl
       \<lparr>gs_operation = op, gs_expected = ua_version a, gs_previous = previous, gs_candidate = candidate,
        gs_status = ''pending'', gs_attempts = 0, gs_deadline = NoDeadline, gs_error = ''''\<rparr> h) (\<lambda>_ h.
     bind_st (switchVersionedBinary fl (gc_agent_path cfg) candidate previous h) (\<lambda>_ h.
     bind_st (saveUpdateCheckpoint fl 4 (\<lambda>c. c\<lparr>cp_switched := True\<rparr>) h) (\<lambda>_ h. (Inr True, h)))))))"

text \<open>\<open>updateAgent\<close> after the check for a rollback of the same operation.\<close>

definition update_rest ::
  "guard_config \<Rightarrow> (string \<Rightarrow> string) \<Rightarrow> (string \<Rightarrow> string) \<Rightarrow> (string \<Rightarrow> string) \<Rightarrow> bool \<Rightarrow> string \<Rightarrow> update_asset \<Rightarrow> string
   \<Rightarrow> instant \<Rightarrow> io_faults \<Rightarrow> bool \<Rightarrow> host \<Rightarrow> bool effect" where
  "update_rest cfg canon version_of sha same op a body now fl pending h =
     (if cp_switched (hs_checkpoint h) \<or> cp_candidate (hs_checkpoint h) \<noteq> '''' \<and> same then
        (if \<not> same then (Inl WrongVersion, h) else
         if pending then (Inl NotConfirmed, h) else
         bind_st (saveUpdateCheckpoint fl 0 (\<lambda>c. c\<lparr>cp_switched := True, cp_confirmed := True\<rparr>) h) (\<lambda>_ h.
         bind_st (attempt_io fl (IoReport 0) id h) (\<lambda>_ h. (Inr False, h))))
      else if same then
        bind_st (saveUpdateCheckpoint fl 1 (\<lambda>c. c\<lparr>cp_confirmed := True\<rparr>) h) (\<lambda>_ h. (Inr False, h))
      else
        bind_st (attempt_io fl (IoBoundary 0) id h) (\<lambda>_ h.
        bind_st (downloadAndInstallCandidate cfg canon sha a body fl h) (\<lambda>candidate h.
        bind_st (saveUpdateCheckpoint fl 2 (\<lambda>c. c\<lparr>cp_candidate := candidate\<rparr>) h) (\<lambda>_ h.
        bind_st (attempt_io fl IoRunCandidate id h) (\<lambda>_ h.
        if \<not> versionsEquivalent canon (case hs_files h candidate of Some c \<Rightarrow> version_of c | None \<Rightarrow> '''') (ua_version a)
        then (Inl WrongVersion, h) else
        bind_st (attempt_io fl (IoReport 1) id h) (\<lambda>_ h.
        bind_st (attempt_io fl (IoBoundary 1) id h) (\<lambda>_ h.
        switch_agent cfg op a candidate now fl h)))))))"

text \<open>The result tells whether the agent has to restart.\<close>

definition updateAgent ::
  "guard_config \<Rightarrow> (string \<Rightarrow> string) \<Rightarrow> (string \<Rightarrow> string) \<Rightarrow> (string \<Rightarrow> string) \<Rightarrow> string \<Rightarrow> string \<Rightarrow> update_asset \<Rightarrow> string
   \<Rightarrow> instant \<Rightarrow> io_faults \<Rightarrow> host \<Rightarrow> bool effect" where
  "updateAgent cfg canon version_of sha version op a body now fl h =
     (case loadAgentUpdateGuard fl h of
        Inl e \<Rightarrow> (Inl e, h)
      | Inr guard \<Rightarrow>
        let same = versionsEquivalent canon version (ua_version a) in
        case guard of
          Some g \<Rightarrow>
            if gs_operation g = op \<and> gs_status g = ''rolled_back''
            then (Inl (RolledBack (gs_error g)), snd (remove_guard fl h))
            else update_rest cfg canon version_of sha same op a body now fl (gs_status g = ''pending'') h
        | None \<Rightarrow> update_rest cfg canon version_of sha same op a body now fl False h)"

end
