(* ===== verification/Guard_Properties.thy ===== *)
theory Guard_Properties
  imports Update_Guard
begin

text \<open>
  What the update guard promises under failures: the guard file stays well formed through every
  sequence of starts, heartbeats and updates, a candidate that does not confirm is rolled back
  by its third start, and a rollback leaves the service files as they were before the update.
\<close>

section \<open>The machine\<close>

text \<open>
  The service manager runs the guard before each start and starts the binary that the service
  path names then, unless the guard failed. The running process is known by its version. A new
  operation brings its own checkpoint.
\<close>

record machine =
  mc_host :: host
  mc_running :: "string option"

definition agent_version :: "guard_config \<Rightarrow> (string \<Rightarrow> string) \<Rightarrow> host \<Rightarrow> string option" where
  "agent_version cfg version_of h =
     (case EvalSymlinks h (gc_agent_path cfg) of None \<Rightarrow> None | Some p \<Rightarrow> map_option version_of (hs_files h p))"

definition start_agent :: "guard_config \<Rightarrow> (string \<Rightarrow> string) \<Rightarrow> instant \<Rightarrow> io_faults \<Rightarrow> machine \<Rightarrow> machine" where
  "start_agent cfg version_of now fl m =
     (case RunAgentGuard cfg now fl (mc_host m) of
        (Inl e, h) \<Rightarrow> \<lparr>mc_host = h, mc_running = None\<rparr>
      | (Inr _, h) \<Rightarrow> \<lparr>mc_host = h, mc_running = agent_version cfg version_of h\<rparr>)"

inductive guard_step ::
  "guard_config \<Rightarrow> (string \<Rightarrow> string) \<Rightarrow> (string \<Rightarrow> service_file list) \<Rightarrow> (string \<Rightarrow> string) \<Rightarrow> (string \<Rightarrow> string)
   \<Rightarrow> machine \<Rightarrow> machine \<Rightarrow> bool"
  for cfg canon units version_of sha where
  start: "guard_step cfg canon units version_of sha m (start_agent cfg version_of now fl m)"
| stop: "guard_step cfg canon units version_of sha m (m\<lparr>mc_running := None\<rparr>)"
| adopt: "guard_step cfg canon units version_of sha m (m\<lparr>mc_host := (mc_host m)\<lparr>hs_checkpoint := c\<rparr>\<rparr>)"
| startup: "mc_running m = Some v \<Longrightarrow>
    guard_step cfg canon units version_of sha m (m\<lparr>mc_host := snd (run_startup canon units v fl (mc_host m))\<rparr>)"
| heartbeat: "mc_running m = Some v \<Longrightarrow>
    guard_step cfg canon units version_of sha m
      (m\<lparr>mc_host := snd (ConfirmAgentUpdateGuard cfg canon units v True now fl (mc_host m))\<rparr>)"
| update: "mc_running m = Some v \<Longrightarrow> CHR ''/'' \<notin> set op \<Longrightarrow>
    guard_step cfg canon units version_of sha m
      (m\<lparr>mc_host := snd (updateAgent cfg canon version_of sha v op a body now fl (mc_host m))\<rparr>)"

inductive_cases guard_stepE: "guard_step cfg canon units version_of sha m n"

section \<open>Well-formedness\<close>

text \<open>Absolute directories, and a service path outside the release tree.\<close>

definition cfg_ok :: "guard_config \<Rightarrow> bool" where
  "cfg_ok cfg \<longleftrightarrow> rooted (gc_cwd cfg) \<and> rooted (gc_install cfg)
     \<and> \<not> validateGuardTarget cfg (gc_agent_path cfg) \<and> \<not> validateGuardTarget cfg (gc_agent_path cfg @ ''.previous'')"

text \<open>A canonical version is one path element, with or without its leading v.\<close>

definition canon_ok :: "(string \<Rightarrow> string) \<Rightarrow> bool" where
  "canon_ok canon \<longleftrightarrow> (\<forall>v. canon v \<noteq> [] \<longrightarrow> plain_seg (safeVersionDir canon v))"

definition links_ok :: "guard_config \<Rightarrow> host \<Rightarrow> bool" where
  "links_ok cfg h \<longleftrightarrow> (\<forall>p t. hs_links h p = Some t \<longrightarrow>
     p \<in> {gc_agent_path cfg, gc_agent_path cfg @ ''.previous''} \<and> t \<notin> {gc_agent_path cfg, gc_agent_path cfg @ ''.previous''})"

definition points_to :: "guard_config \<Rightarrow> host \<Rightarrow> string \<Rightarrow> bool" where
  "points_to cfg h target \<longleftrightarrow>
     (\<exists>p. EvalSymlinks h (gc_agent_path cfg) = Some p \<and> Abs (gc_cwd cfg) p = Abs (gc_cwd cfg) target)"

definition guard_ok :: "guard_config \<Rightarrow> host \<Rightarrow> guard_state \<Rightarrow> bool" where
  "guard_ok cfg h g \<longleftrightarrow>
     gs_status g \<in> {''pending'', ''confirmed'', ''rolled_back''}
     \<and> 0 \<le> gs_attempts g \<and> gs_attempts g \<le> maxAgentGuardStarts
     \<and> (\<exists>t. gs_deadline g = Deadline t)
     \<and> validateGuardTarget cfg (gs_previous g) \<and> validateGuardTarget cfg (gs_candidate g)
     \<and> (gs_status g = ''pending'' \<longrightarrow> gs_attempts g < maxAgentGuardStarts \<and> hs_files h (gs_previous g) \<noteq> None
          \<and> (\<exists>p. EvalSymlinks h (gc_agent_path cfg) = Some p
               \<and> (p = gs_previous g \<or> p = gs_candidate g \<or> \<not> validateGuardTarget cfg p)))
     \<and> (gs_status g = ''rolled_back'' \<longrightarrow> points_to cfg h (gs_previous g))"

definition guard_typed :: "guard_config \<Rightarrow> host \<Rightarrow> bool" where
  "guard_typed cfg h \<longleftrightarrow> links_ok cfg h \<and> (\<forall>g. hs_guard h = Some g \<longrightarrow> guard_ok cfg h g)"

text \<open>Operations that leave guard and links alone and remove no binary.\<close>

definition grows :: "host \<Rightarrow> host \<Rightarrow> bool" where
  "grows h h' \<longleftrightarrow> hs_guard h' = hs_guard h \<and> hs_links h' = hs_links h
     \<and> (\<forall>f. hs_files h f \<noteq> None \<longrightarrow> hs_files h' f \<noteq> None)"

lemma grows_refl [simp]: "grows h h"
  by (simp add: grows_def)

lemma grows_trans: "grows h h' \<Longrightarrow> grows h' h'' \<Longrightarrow> grows h h''"
  by (simp add: grows_def)

lemma bind_grows:
  assumes "grows h (snd r)" and "\<And>x h'. r = (Inr x, h') \<Longrightarrow> grows h' (snd (f x h'))"
  shows "grows h (snd (bind_st r f))"
  using assms by (cases "(r, f)" rule: bind_st.cases) (auto intro: grows_trans)

lemma attempt_grows: "(\<And>h. grows h (f h)) \<Longrightarrow> grows h (snd (attempt_io fl i f h))"
  by (simp add: attempt_io_def)

lemma EvalSymlinks_grows: "grows h h' \<Longrightarrow> EvalSymlinks h p = Some t \<Longrightarrow> EvalSymlinks h' p = Some t"
  by (auto simp: EvalSymlinks_def Let_def grows_def split: option.splits if_splits)

lemma guard_ok_grows: "grows h h' \<Longrightarrow> guard_ok cfg h g \<Longrightarrow> guard_ok cfg h' g"
  unfolding guard_ok_def points_to_def using EvalSymlinks_grows [of h h']
  by (auto simp: grows_def)

lemma guard_typed_grows: "grows h h' \<Longrightarrow> guard_typed cfg h \<Longrightarrow> guard_typed cfg h'"
  unfolding guard_typed_def using guard_ok_grows [of h h' cfg]
  by (auto simp: links_ok_def grows_def)

lemma writeServiceFiles_grows: "grows h (snd (writeServiceFiles fl ix i fs h))"
proof (induction fs arbitrary: i h)
  case (Cons f fs)
  show ?case
    using Cons.IH [of "h\<lparr>hs_services := (hs_services h)(sf_path f := (if sf_missing f then None else Some (sf_data f, sf_mode f)))\<rparr>" "Suc i"]
    by (auto simp: grows_def)
qed simp

lemma clear_grows: "grows h (snd (clearServiceBackup fl h))"
  unfolding clearServiceBackup_def by (rule attempt_grows) (simp add: grows_def)

lemma restore_grows: "grows h (snd (restoreServiceBackup cfg fl h))"
  by (auto simp: restoreServiceBackup_def split: option.splits
      intro!: bind_grows writeServiceFiles_grows attempt_grows clear_grows)

lemma sync_grows: "grows h (snd (syncServiceUnits canon units v fl h))"
proof -
  have "grows h (snd (install_units fl ds ps h))" for ds ps h
  proof -
    have "grows h (snd (bind_st (writeServiceFiles fl IoWriteService 0 ds h) (\<lambda>_. attempt_io fl IoReload id)))"
      by (auto intro!: bind_grows writeServiceFiles_grows attempt_grows)
    then show ?thesis
      using grows_trans [OF _ writeServiceFiles_grows]
      by (auto simp: install_units_def undoServiceWrite_def split: prod.splits sum.splits)
  qed
  moreover have "grows h (snd (save_backup fl ps h))" for ps h
    by (auto simp: save_backup_def attempt_io_def grows_def)
  ultimately show ?thesis
    by (auto simp: syncServiceUnits_def Let_def split: option.splits sum.splits intro!: bind_grows attempt_grows)
qed

lemma copy_grows: "grows h (snd (atomicCopyFile fl i s t h))"
  by (auto simp: atomicCopyFile_def attempt_io_def grows_def EvalSymlinks_def Let_def split: option.splits if_splits)

lemma checkpoint_grows: "grows h (snd (saveUpdateCheckpoint fl n f h))"
  unfolding saveUpdateCheckpoint_def by (rule attempt_grows) (simp add: grows_def)

lemma download_grows: "grows h (snd (downloadAndInstallCandidate cfg canon sha a body fl h))"
  by (auto simp: downloadAndInstallCandidate_def Let_def attempt_io_def grows_def)

lemma ensure_grows: "grows h (snd (ensureAgentGuardBinary cfg fl h))"
  by (auto simp: ensureAgentGuardBinary_def copy_grows)

lemma preserve_grows: "grows h (snd (preserveCurrentBinary cfg fl p c op h))"
  by (auto simp: preserveCurrentBinary_def Let_def split: option.splits intro!: bind_grows copy_grows)

lemmas all_grow = bind_grows attempt_grows writeServiceFiles_grows clear_grows restore_grows sync_grows
  copy_grows checkpoint_grows download_grows ensure_grows preserve_grows

section \<open>Every step keeps the guard well formed\<close>

lemma validate_iff:
  assumes "cfg_ok cfg"
  shows "validateGuardTarget cfg t
    \<longleftrightarrow> (\<exists>rest. segments (Abs (gc_cwd cfg) t) = segments (gc_install cfg) @ ''releases'' # rest)"
proof -
  let ?root = "Join [gc_install cfg, ''releases'']"
  have "rooted ?root" and "segments ?root = segments (gc_install cfg) @ [''releases'']"
    using assms segments_Join [of "gc_install cfg" "[''releases'']"] by (simp_all add: cfg_ok_def plain_seg_def)
  then have s: "segments (Abs (gc_cwd cfg) ?root) = segments (gc_install cfg) @ [''releases'']"
    by (simp add: segments_Abs)
  have "segments (Abs (gc_cwd cfg) ?root) \<noteq> []" by (simp add: s)
  then show ?thesis
    using below_segments [of "gc_cwd cfg" ?root t] assms
    by (simp add: validateGuardTarget_def releases_root_def Let_def s cfg_ok_def)
qed

lemma validate_Join:
  assumes "cfg_ok cfg" and "list_all plain_seg ss"
  shows "validateGuardTarget cfg (Join (gc_install cfg # ''releases'' # ss))"
    and "validateGuardTarget cfg (Join (Join [gc_install cfg, ''releases''] # ss))"
proof -
  have r: "rooted (gc_install cfg)" and p: "plain_seg ''releases''"
    using assms(1) by (auto simp: cfg_ok_def plain_seg_def)
  show "validateGuardTarget cfg (Join (gc_install cfg # ''releases'' # ss))"
    using segments_Join [OF r, of "''releases'' # ss"] p assms by (simp add: validate_iff segments_Abs)
  show "validateGuardTarget cfg (Join (Join [gc_install cfg, ''releases''] # ss))"
    using segments_Join [OF r, of "[''releases'']"] segments_Join [of "Join [gc_install cfg, ''releases'']" ss]
      p assms by (simp add: validate_iff segments_Abs)
qed

lemma target_not_link:
  "cfg_ok cfg \<Longrightarrow> links_ok cfg h \<Longrightarrow> validateGuardTarget cfg t \<Longrightarrow> hs_links h t = None"
  by (cases "hs_links h t") (auto simp: links_ok_def cfg_ok_def)

lemma EvalSymlinks_target:
  assumes "links_ok cfg h" and "EvalSymlinks h (gc_agent_path cfg) = Some p"
  shows "hs_files h p \<noteq> None \<and> EvalSymlinks h p = Some p"
proof (cases "hs_links h (gc_agent_path cfg)")
  case None
  then show ?thesis using assms(2) by (auto simp: EvalSymlinks_def Let_def split: if_splits option.splits)
next
  case (Some t)
  then have "hs_links h t = None" using assms(1) by (cases "hs_links h t") (auto simp: links_ok_def)
  then show ?thesis using Some assms(2) by (auto simp: EvalSymlinks_def Let_def split: if_splits option.splits)
qed

lemma EvalSymlinks_release:
  "cfg_ok cfg \<Longrightarrow> links_ok cfg h \<Longrightarrow> validateGuardTarget cfg t \<Longrightarrow> hs_files h t \<noteq> None \<Longrightarrow> EvalSymlinks h t = Some t"
  by (simp add: EvalSymlinks_def target_not_link)

lemma samePath_points:
  assumes "cfg_ok cfg" and "links_ok cfg h" and "validateGuardTarget cfg prev" and "hs_files h prev \<noteq> None"
    and "EvalSymlinks h (gc_agent_path cfg) = Some p"
  shows "samePath cfg h p prev \<longleftrightarrow> points_to cfg h prev"
  using EvalSymlinks_target [OF assms(2,5)] EvalSymlinks_release [OF assms(1-4)] assms(5)
  by (auto simp: samePath_def points_to_def)

lemma EvalSymlinks_guard [simp]: "EvalSymlinks (h\<lparr>hs_guard := x\<rparr>) p = EvalSymlinks h p"
  by (simp add: EvalSymlinks_def)

lemma guard_ok_guard [simp]: "guard_ok cfg (h\<lparr>hs_guard := x\<rparr>) g = guard_ok cfg h g"
  by (simp add: guard_ok_def points_to_def)

lemma links_ok_guard [simp]: "links_ok cfg (h\<lparr>hs_guard := x\<rparr>) = links_ok cfg h"
  by (simp add: links_ok_def)

lemma write_typed:
  assumes "guard_typed cfg h" and "gs_status g \<noteq> ''''"
    and "guard_ok cfg h (if gs_deadline g = NoDeadline then g\<lparr>gs_deadline := Deadline (now + guard_timeout)\<rparr> else g)"
  shows "guard_typed cfg (snd (writeAgentUpdateGuard now fl g h))"
proof -
  obtain g2 where "guard_ok cfg h g2"
    and "writeAgentUpdateGuard now fl g h = attempt_io fl IoWriteGuard (\<lambda>h. h\<lparr>hs_guard := Some g2\<rparr>) h"
    using assms(2,3) by (auto simp: writeAgentUpdateGuard_def Let_def)
  then show ?thesis using assms(1) by (auto simp: attempt_io_def guard_typed_def)
qed

lemma link_typed:
  assumes "cfg_ok cfg" and "guard_typed cfg h" and "hs_guard h = Some g" and "gs_status g = ''pending''"
    and "t = gs_previous g \<or> t = gs_candidate g" and "hs_files h t \<noteq> None"
  shows "guard_typed cfg (h\<lparr>hs_links := (hs_links h)(gc_agent_path cfg \<mapsto> t)\<rparr>)"
  using assms
  by (auto simp: guard_typed_def guard_ok_def links_ok_def cfg_ok_def EvalSymlinks_def Let_def)

text \<open>A part that leaves the guard alone, followed by one that keeps it well formed.\<close>

lemma after_grows:
  assumes "guard_typed cfg h" and "grows h (snd r)"
    and "\<And>x h'. grows h h' \<Longrightarrow> r = (Inr x, h') \<Longrightarrow> guard_typed cfg (snd (f x h'))"
  shows "guard_typed cfg (snd (bind_st r f))"
proof (rule bind_st_keeps [of "guard_typed cfg"])
  show "guard_typed cfg (snd r)" using guard_typed_grows [OF assms(2,1)] .
  fix x h'
  assume "r = (Inr x, h')"
  then show "guard_typed cfg (snd (f x h'))" using assms(2,3) by simp
qed

lemma restore_write_typed:
  assumes t: "guard_typed cfg h" and ok: "guard_ok cfg h g" and pt: "points_to cfg h (gs_previous g)"
    and n: "0 \<le> n" "n \<le> maxAgentGuardStarts"
  shows "guard_typed cfg (snd (bind_st (restoreServiceBackup cfg fl h) (\<lambda>_. writeAgentUpdateGuard now fl
    (g\<lparr>gs_attempts := n, gs_status := ''rolled_back'', gs_error := e\<rparr>))))"
proof (rule after_grows [OF t restore_grows])
  fix h'
  assume gr: "grows h h'"
  then have "guard_ok cfg h' g" and "points_to cfg h' (gs_previous g)"
    using guard_ok_grows [OF gr ok] pt EvalSymlinks_grows [OF gr] by (auto simp: points_to_def)
  then show "guard_typed cfg (snd (writeAgentUpdateGuard now fl
      (g\<lparr>gs_attempts := n, gs_status := ''rolled_back'', gs_error := e\<rparr>) h'))"
    using n by (intro write_typed guard_typed_grows [OF gr t]) (auto simp: guard_ok_def)
qed

text \<open>The guard on a pending update, with the checks that a well-formed file passes left out.\<close>

abbreviation link_back :: "guard_config \<Rightarrow> guard_state \<Rightarrow> host \<Rightarrow> host" where
  "link_back cfg g h \<equiv> h\<lparr>hs_links := (hs_links h)(gc_agent_path cfg \<mapsto> gs_previous g)\<rparr>"

lemma RunAgentGuard_pending:
  assumes "cfg_ok cfg" and "guard_typed cfg h" and g: "hs_guard h = Some g" "gs_status g = ''pending''"
  shows "RunAgentGuard cfg now fl h =
    (if fl IoReadGuard then (Inl (IoFailed IoReadGuard), h)
     else if fl IoEval then (Inl (IoFailed IoEval), h)
     else if points_to cfg h (gs_previous g) then
       bind_st (restoreServiceBackup cfg fl h) (\<lambda>_. writeAgentUpdateGuard now fl
         (g\<lparr>gs_status := ''rolled_back'', gs_error := ''agent service path already points to the previous version''\<rparr>))
     else if gs_attempts g + 1 < maxAgentGuardStarts \<and> \<not> deadline_passed now (gs_deadline g) then
       writeAgentUpdateGuard now fl (g\<lparr>gs_attempts := gs_attempts g + 1\<rparr>) h
     else if fl IoStat then (Inl (IoFailed IoStat), h)
     else if fl IoLink then (Inl (IoFailed IoLink), h)
     else bind_st (restoreServiceBackup cfg fl (link_back cfg g h)) (\<lambda>_. writeAgentUpdateGuard now fl
         (g\<lparr>gs_attempts := gs_attempts g + 1, gs_status := ''rolled_back'',
            gs_error := ''candidate did not confirm after '' @ decimal (nat (gs_attempts g + 1)) @ '' service starts''\<rparr>)))"
proof -
  have l: "links_ok cfg h" using assms(2) by (simp add: guard_typed_def)
  obtain p where p: "EvalSymlinks h (gc_agent_path cfg) = Some p" and pf: "hs_files h (gs_previous g) \<noteq> None"
    and v: "validateGuardTarget cfg (gs_previous g)" "validateGuardTarget cfg (gs_candidate g)"
    using assms by (auto simp: guard_typed_def guard_ok_def)
  then have "EvalSymlinks h (gs_previous g) = Some (gs_previous g)" using EvalSymlinks_release [OF assms(1) l] by blast
  then show ?thesis
    using samePath_points [OF assms(1) l v(1) pf p] p v g
    by (simp add: RunAgentGuard_def loadAgentUpdateGuard_def attempt_io_def Let_def)
qed

lemma run_guard_typed:
  assumes c: "cfg_ok cfg" and t: "guard_typed cfg h"
  shows "guard_typed cfg (snd (RunAgentGuard cfg now fl h))"
proof (cases "\<exists>g. hs_guard h = Some g \<and> gs_status g = ''pending''")
  case False
  have "grows h (snd (RunAgentGuard cfg now fl h))"
    using False by (auto simp: RunAgentGuard_def loadAgentUpdateGuard_def restore_grows split: option.splits)
  then show ?thesis using t guard_typed_grows by blast
next
  case True
  then obtain g where g: "hs_guard h = Some g" "gs_status g = ''pending''" by blast
  then have ok: "guard_ok cfg h g" and pf: "hs_files h (gs_previous g) \<noteq> None"
    and n: "0 \<le> gs_attempts g" "gs_attempts g < maxAgentGuardStarts"
    using t by (auto simp: guard_typed_def guard_ok_def)
  let ?n = "gs_attempts g + 1"
  have retry: "guard_typed cfg (snd (writeAgentUpdateGuard now fl (g\<lparr>gs_attempts := ?n\<rparr>) h))"
    if "?n < maxAgentGuardStarts"
    using that ok g by (intro write_typed t) (auto simp: guard_ok_def)
  have tl: "guard_typed cfg (link_back cfg g h)" using link_typed [OF c t g] pf by blast
  have okl: "guard_ok cfg (link_back cfg g h) g" using tl g(1) by (simp add: guard_typed_def)
  have pl: "points_to cfg (link_back cfg g h) (gs_previous g)"
    using pf by (auto simp: points_to_def EvalSymlinks_def Let_def)
  show ?thesis
    unfolding RunAgentGuard_pending [OF c t g]
    using restore_write_typed [OF t ok _ n(1)] restore_write_typed [OF tl okl pl, of ?n] n retry t
    by auto
qed

lemma confirm_typed:
  assumes t: "guard_typed cfg h"
  shows "guard_typed cfg (snd (ConfirmAgentUpdateGuard cfg canon units v hb now fl h))"
proof -
  have rm: "guard_typed cfg (snd (remove_guard fl h'))" if "guard_typed cfg h'" for h'
    using that by (auto simp: remove_guard_def attempt_io_def guard_typed_def)
  have clr: "guard_typed cfg (snd (clearServiceBackup fl h'))" if "guard_typed cfg h'" for h'
    using that guard_typed_grows [OF clear_grows] by blast
  have "guard_typed cfg (snd (bind_st (remove_guard fl h') (\<lambda>_ h. (Inr (), pruneReleaseDirs cfg c ks h))))"
    if "guard_typed cfg h'" for h' c ks
    using that rm [OF that]
    by (auto simp: remove_guard_def attempt_io_def guard_typed_def pruneReleaseDirs_def links_ok_def)
  then have tail: "guard_typed cfg (snd (bind_st (clearServiceBackup fl h') (\<lambda>_ h'.
      bind_st (remove_guard fl h') (\<lambda>_ h. (Inr (), pruneReleaseDirs cfg c ks h)))))" if "guard_typed cfg h'" for h' c ks
    using clr [OF that] by (auto intro!: bind_st_keeps simp: clearServiceBackup_def attempt_io_def split: if_splits)
  have wr: "guard_typed cfg (snd (writeAgentUpdateGuard now fl (g\<lparr>gs_status := ''confirmed''\<rparr>) h'))"
    if "grows h h'" and "hs_guard h = Some g" for g h'
    using guard_ok_grows [OF that(1), of cfg g] t that
    by (intro write_typed guard_typed_grows [OF that(1) t]) (auto simp: guard_typed_def guard_ok_def)
  show ?thesis
  proof (cases "hs_guard h")
    case None
    then show ?thesis using t by (simp add: ConfirmAgentUpdateGuard_def loadAgentUpdateGuard_def)
  next
    case (Some g)
    have "guard_typed cfg (snd (bind_st (clearServiceBackup fl h) (\<lambda>_. remove_guard fl)))"
      using rm clr [OF t] by (auto intro!: bind_st_keeps t simp: clearServiceBackup_def attempt_io_def split: if_splits)
    moreover have "guard_typed cfg (snd (bind_st (atomicCopyFile fl IoCopyGuard (gc_agent_path cfg) (gc_guard_path cfg) h) (\<lambda>_ h.
          bind_st (syncServiceUnits canon units v fl h) (\<lambda>_ h.
          bind_st (writeAgentUpdateGuard now fl (g\<lparr>gs_status := ''confirmed''\<rparr>) h) (\<lambda>_ h.
          bind_st (clearServiceBackup fl h) (\<lambda>_ h.
          bind_st (remove_guard fl h) (\<lambda>_ h. (Inr (), pruneReleaseDirs cfg c ks h))))))))" for c ks
    proof (rule after_grows [OF t copy_grows], rule after_grows)
      fix h1
      assume 1: "grows h h1"
      then show "guard_typed cfg h1" using guard_typed_grows t by blast
      show "grows h1 (snd (syncServiceUnits canon units v fl h1))" by (rule sync_grows)
      fix h2
      assume "grows h1 h2"
      then have "grows h h2" using grows_trans 1 by blast
      then show "guard_typed cfg (snd (bind_st (writeAgentUpdateGuard now fl (g\<lparr>gs_status := ''confirmed''\<rparr>) h2) (\<lambda>_ h.
          bind_st (clearServiceBackup fl h) (\<lambda>_ h.
          bind_st (remove_guard fl h) (\<lambda>_ h. (Inr (), pruneReleaseDirs cfg c ks h))))))"
        using wr [OF _ Some] tail by (metis (no_types, lifting) bind_st_keeps snd_conv)
    qed
    ultimately show ?thesis
      using Some t by (auto simp: ConfirmAgentUpdateGuard_def loadAgentUpdateGuard_def)
  qed
qed

lemma startup_typed: "guard_typed cfg h \<Longrightarrow> guard_typed cfg (snd (run_startup canon units v fl h))"
  using guard_typed_grows [OF sync_grows] by (auto simp: run_startup_def loadAgentUpdateGuard_def split: option.splits)

lemma download_valid:
  assumes "cfg_ok cfg" and "canon_ok canon" and "downloadAndInstallCandidate cfg canon sha a body fl h = (Inr f, h')"
  shows "validateGuardTarget cfg f"
proof -
  have v: "canon (ua_version a) \<noteq> []"
    using assms(3) by (auto simp: downloadAndInstallCandidate_def validateUpdateAsset_def split: if_splits)
  obtain d where "d \<in> {''boxfleet-agent'', ''sing-box''}"
    and f: "f = Join [gc_install cfg, ''releases'', d, safeVersionDir canon (ua_version a), d]"
    using assms(3)
    by (auto simp: downloadAndInstallCandidate_def Let_def attempt_io_def split: if_splits)
  then have "list_all plain_seg [d, safeVersionDir canon (ua_version a), d]"
    using v assms(2) by (auto simp: canon_ok_def plain_seg_def)
  then show ?thesis unfolding f by (rule validate_Join(1) [OF assms(1)])
qed

lemma preserve_valid:
  assumes "cfg_ok cfg" and l: "links_ok cfg h" and "CHR ''/'' \<notin> set op"
    and "preserveCurrentBinary cfg fl (gc_agent_path cfg) ''boxfleet-agent'' op h = (Inr prev, h')"
  shows "validateGuardTarget cfg prev \<and> hs_files h' prev \<noteq> None
    \<and> (\<exists>p. EvalSymlinks h' (gc_agent_path cfg) = Some p \<and> (p = prev \<or> \<not> validateGuardTarget cfg p))"
proof -
  let ?legacy = "Join [Join [gc_install cfg, ''releases''], ''boxfleet-agent'', ''legacy-'' @ op, ''boxfleet-agent'']"
  obtain p where p: "EvalSymlinks h (gc_agent_path cfg) = Some p"
    using assms(4) by (auto simp: preserveCurrentBinary_def split: option.splits)
  have gr: "grows h h'" using preserve_grows [of h cfg fl] assms(4) by (metis snd_conv)
  then have p': "EvalSymlinks h' (gc_agent_path cfg) = Some p" using EvalSymlinks_grows p by blast
  have pf: "hs_files h p \<noteq> None" "EvalSymlinks h p = Some p" using EvalSymlinks_target [OF l p] by auto
  show ?thesis
  proof (cases "validateGuardTarget cfg p")
    case True
    then have "prev = p \<and> h' = h" using assms(4) p by (simp add: preserveCurrentBinary_def)
    then show ?thesis using True pf p' by auto
  next
    case False
    then have "prev = ?legacy" and "hs_files h' prev \<noteq> None"
      using assms(4) p pf
      by (auto simp: preserveCurrentBinary_def Let_def atomicCopyFile_def attempt_io_def split: if_splits option.splits)
    moreover have "list_all plain_seg [''boxfleet-agent'', ''legacy-'' @ op, ''boxfleet-agent'']"
      using assms(3) by (auto simp: plain_seg_def)
    ultimately show ?thesis using validate_Join(2) [OF assms(1)] False p' by auto
  qed
qed

lemma switch_typed:
  assumes c: "cfg_ok cfg" and t: "guard_typed cfg h" and g: "hs_guard h = Some g" "gs_status g = ''pending''"
  shows "guard_typed cfg (snd (switchVersionedBinary fl (gc_agent_path cfg) (gs_candidate g) (gs_previous g) h))"
proof -
  let ?h1 = "h\<lparr>hs_links := (hs_links h)(gc_agent_path cfg @ ''.previous'' \<mapsto> gs_previous g)\<rparr>"
  have l: "links_ok cfg h" and v: "validateGuardTarget cfg (gs_candidate g)" "validateGuardTarget cfg (gs_previous g)"
    using t g by (auto simp: guard_typed_def guard_ok_def)
  have "links_ok cfg ?h1" using l v c by (auto simp: links_ok_def cfg_ok_def)
  moreover have "EvalSymlinks ?h1 (gc_agent_path cfg) = EvalSymlinks h (gc_agent_path cfg)"
    by (simp add: EvalSymlinks_def)
  ultimately have t1: "guard_typed cfg ?h1" using t g by (auto simp: guard_typed_def guard_ok_def)
  have f: "hs_files h (gs_candidate g) \<noteq> None" if "EvalSymlinks h (gs_candidate g) \<noteq> None"
    using that target_not_link [OF c l v(1)] by (auto simp: EvalSymlinks_def Let_def split: if_splits)
  have lk: "guard_typed cfg (h'\<lparr>hs_links := (hs_links h')(gc_agent_path cfg \<mapsto> gs_candidate g)\<rparr>)"
    if "EvalSymlinks h (gs_candidate g) \<noteq> None" and "h' = h \<or> h' = ?h1" for h'
    using link_typed [OF c _ _ g(2), of h' "gs_candidate g"] f [OF that(1)] t t1 g that(2) by auto
  show ?thesis
    using t t1 lk [of h] lk [of ?h1] by (auto simp: switchVersionedBinary_def attempt_io_def)
qed

lemma switch_agent_typed:
  assumes c: "cfg_ok cfg" and t: "guard_typed cfg h" and op: "CHR ''/'' \<notin> set op"
    and cand: "validateGuardTarget cfg candidate"
  shows "guard_typed cfg (snd (switch_agent cfg op a candidate now fl h))"
  unfolding switch_agent_def
proof (rule after_grows [OF t ensure_grows], rule after_grows [OF _ preserve_grows], rule_tac [2] after_grows [OF _ checkpoint_grows])
  fix h1 prev h2 h3
  assume 1: "grows h h1"
  show t1: "guard_typed cfg h1" using guard_typed_grows [OF 1 t] .
  assume 2: "grows h1 h2" and pres: "preserveCurrentBinary cfg fl (gc_agent_path cfg) ''boxfleet-agent'' op h1 = (Inr prev, h2)"
  show "guard_typed cfg h2" using guard_typed_grows [OF 2 t1] .
  assume 3: "grows h2 h3"
  let ?g = "\<lparr>gs_operation = op, gs_expected = ua_version a, gs_previous = prev, gs_candidate = candidate,
        gs_status = ''pending'', gs_attempts = 0, gs_deadline = NoDeadline, gs_error = ''''\<rparr>"
  let ?g2 = "?g\<lparr>gs_deadline := Deadline (now + guard_timeout)\<rparr>"
  have t3: "guard_typed cfg h3" using guard_typed_grows [OF grows_trans [OF 2 3] t1] .
  have "guard_ok cfg h2 ?g2"
    using preserve_valid [OF c _ op pres] t1 cand
    by (auto simp: guard_typed_def guard_ok_def maxAgentGuardStarts_def)
  then have ok: "guard_ok cfg h3 ?g2" by (rule guard_ok_grows [OF 3])
  have w: "writeAgentUpdateGuard now fl ?g h3 = attempt_io fl IoWriteGuard (\<lambda>h. h\<lparr>hs_guard := Some ?g2\<rparr>) h3"
    by (simp add: writeAgentUpdateGuard_def Let_def)
  have t4: "guard_typed cfg (h3\<lparr>hs_guard := Some ?g2\<rparr>)" using t3 ok by (simp add: guard_typed_def)
  show "guard_typed cfg (snd (bind_st (writeAgentUpdateGuard now fl ?g h3) (\<lambda>_ h.
     bind_st (switchVersionedBinary fl (gc_agent_path cfg) candidate prev h) (\<lambda>_ h.
     bind_st (saveUpdateCheckpoint fl 4 (\<lambda>c. c\<lparr>cp_switched := True\<rparr>) h) (\<lambda>_ h. (Inr True, h))))))"
    unfolding w
  proof (rule bind_st_keeps [of "guard_typed cfg"], goal_cases)
    case 1
    then show ?case using t3 t4 by (simp add: attempt_io_def)
  next
    case (2 x h4)
    then have h4: "h4 = h3\<lparr>hs_guard := Some ?g2\<rparr>" by (simp add: attempt_io_def split: if_splits)
    show ?case
    proof (rule bind_st_keeps [of "guard_typed cfg"])
      show s: "guard_typed cfg (snd (switchVersionedBinary fl (gc_agent_path cfg) candidate prev h4))"
        using switch_typed [OF c t4, of ?g2 fl] h4 by simp
      fix y h5
      assume "switchVersionedBinary fl (gc_agent_path cfg) candidate prev h4 = (Inr y, h5)"
      then have "guard_typed cfg h5" using s by simp
      then show "guard_typed cfg (snd (bind_st (saveUpdateCheckpoint fl 4 (\<lambda>c. c\<lparr>cp_switched := True\<rparr>) h5) (\<lambda>_ h. (Inr True, h))))"
        by (rule after_grows [OF _ checkpoint_grows]) (use guard_typed_grows \<open>guard_typed cfg h5\<close> in auto)
    qed
  qed
qed

lemma update_rest_typed:
  assumes c: "cfg_ok cfg" and "canon_ok canon" and t: "guard_typed cfg h" and op: "CHR ''/'' \<notin> set op"
  shows "guard_typed cfg (snd (update_rest cfg canon version_of sha same op a body now fl pending h))"
proof -
  have io: "guard_typed cfg (snd (bind_st (attempt_io fl i id h') f))"
    if "guard_typed cfg h'" and "guard_typed cfg (snd (f () h'))" for i h' and f :: "unit \<Rightarrow> host \<Rightarrow> bool effect"
    using that by (simp add: attempt_io_def)
  have fin: "guard_typed cfg (snd (bind_st (saveUpdateCheckpoint fl n f h) (\<lambda>_ h. (Inr False, h))))" for n f
    by (rule after_grows [OF t checkpoint_grows]) (use guard_typed_grows t in auto)
  have confirmed: "guard_typed cfg (snd (bind_st (saveUpdateCheckpoint fl n f h) (\<lambda>_ h.
      bind_st (attempt_io fl (IoReport 0) id h) (\<lambda>_ h. (Inr False, h)))))" for n f
    by (rule after_grows [OF t checkpoint_grows], rule io) (use guard_typed_grows t in auto)
  have "guard_typed cfg (snd (bind_st (downloadAndInstallCandidate cfg canon sha a body fl h) (\<lambda>candidate h.
        bind_st (saveUpdateCheckpoint fl 2 (\<lambda>c. c\<lparr>cp_candidate := candidate\<rparr>) h) (\<lambda>_ h.
        bind_st (attempt_io fl IoRunCandidate id h) (\<lambda>_ h.
        if \<not> versionsEquivalent canon (case hs_files h candidate of Some c \<Rightarrow> version_of c | None \<Rightarrow> '''') (ua_version a)
        then (Inl WrongVersion, h) else
        bind_st (attempt_io fl (IoReport 1) id h) (\<lambda>_ h.
        bind_st (attempt_io fl (IoBoundary 1) id h) (\<lambda>_ h.
        switch_agent cfg op a candidate now fl h)))))))"
  proof (rule after_grows [OF t download_grows], rule after_grows [OF _ checkpoint_grows], goal_cases)
    case (1 candidate h1)
    then show ?case using guard_typed_grows t by blast
  next
    case (2 candidate h1 x h2)
    then have "guard_typed cfg h2" using guard_typed_grows [OF grows_trans t] by blast
    then show ?case
      using switch_agent_typed [OF c _ op download_valid [OF c assms(2) 2(2)]] by (simp add: attempt_io_def)
  qed
  then show ?thesis using t fin confirmed by (auto simp: update_rest_def attempt_io_def)
qed

lemma update_typed:
  assumes "cfg_ok cfg" and "canon_ok canon" and t: "guard_typed cfg h" and "CHR ''/'' \<notin> set op"
  shows "guard_typed cfg (snd (updateAgent cfg canon version_of sha v op a body now fl h))"
proof -
  have "guard_typed cfg (snd (remove_guard fl h))"
    using t by (auto simp: remove_guard_def attempt_io_def guard_typed_def)
  then show ?thesis
    using t update_rest_typed [OF assms] by (auto simp: updateAgent_def loadAgentUpdateGuard_def Let_def split: option.splits)
qed

lemma guard_step_typed:
  assumes "guard_step cfg canon units version_of sha m n" and "cfg_ok cfg" and "canon_ok canon"
    and "guard_typed cfg (mc_host m)"
  shows "guard_typed cfg (mc_host n)"
  using assms
proof (cases rule: guard_step.cases)
  case (start now fl)
  then show ?thesis
    using run_guard_typed [OF assms(2,4), of now fl] by (auto simp: start_agent_def split: prod.splits sum.splits)
next
  case (adopt c)
  then show ?thesis using guard_typed_grows [OF _ assms(4), of "(mc_host m)\<lparr>hs_checkpoint := c\<rparr>"] by (simp add: grows_def)
qed (auto simp: startup_typed confirm_typed update_typed assms)

interpretation guard_sys: invariant_system "guard_step cfg canon units version_of sha"
  "\<lambda>m. cfg_ok cfg \<and> canon_ok canon \<and> guard_typed cfg (mc_host m)"
  for cfg canon units version_of sha
  by unfold_locales (auto intro: guard_step_typed)

text \<open>
  C31: the guard file is well formed in every state that a machine without an update in
  progress can reach, whatever sequence of starts, heartbeats, updates and stops happens and
  whichever file operations fail. Its status is one of the three known ones, its counter stays
  within the limit, its deadline is a time, both targets lie in the release tree; while the
  update is pending the previous binary is on disk and the service path leads to the previous
  binary, to the candidate, or still to the place outside the release tree it had before; once
  the update is rolled back it leads to the previous binary.
\<close>

theorem guard_file_typed:
  assumes "run (guard_step cfg canon units version_of sha) m n" and "cfg_ok cfg" and "canon_ok canon"
    and "hs_guard (mc_host m) = None" and "hs_links (mc_host m) = (\<lambda>_. None)"
    and "hs_guard (mc_host n) = Some g"
  shows "guard_ok cfg (mc_host n) g"
proof -
  have "guard_typed cfg (mc_host m)" using assms(4,5) by (simp add: guard_typed_def links_ok_def)
  then have "guard_typed cfg (mc_host n)" using guard_sys.run_inv [OF assms(1)] assms(2,3) by blast
  then show ?thesis using assms(6) by (simp add: guard_typed_def)
qed

section \<open>A candidate has three starts\<close>

text \<open>A sequence of service starts; the number of those that the guard let through, and the disk after them.\<close>

fun guard_starts :: "guard_config \<Rightarrow> (instant \<times> io_faults) list \<Rightarrow> host \<Rightarrow> nat \<times> host" where
  "guard_starts cfg [] h = (0, h)"
| "guard_starts cfg ((now, fl) # xs) h =
     (case RunAgentGuard cfg now fl h of
        (Inl e, h1) \<Rightarrow> guard_starts cfg xs h1
      | (Inr _, h1) \<Rightarrow> (let (n, h2) = guard_starts cfg xs h1 in (Suc n, h2)))"

text \<open>How many more starts can be let through before the rollback is recorded.\<close>

definition starts_left :: "guard_config \<Rightarrow> host \<Rightarrow> guard_state \<Rightarrow> int" where
  "starts_left cfg h g =
     (if gs_status g = ''rolled_back'' then 0
      else if points_to cfg h (gs_previous g) then 1 else maxAgentGuardStarts - gs_attempts g)"

lemma write_result:
  "gs_status g \<noteq> '''' \<Longrightarrow> gs_deadline g = Deadline d \<Longrightarrow>
   writeAgentUpdateGuard now fl g h
   = (if fl IoWriteGuard then (Inl (IoFailed IoWriteGuard), h) else (Inr (), h\<lparr>hs_guard := Some g\<rparr>))"
  by (simp add: writeAgentUpdateGuard_def attempt_io_def Let_def)

lemma points_to_guard [simp]: "points_to cfg (h\<lparr>hs_guard := x\<rparr>) t = points_to cfg h t"
  by (simp add: points_to_def)

lemma points_to_grows: "grows h h' \<Longrightarrow> points_to cfg h t \<Longrightarrow> points_to cfg h' t"
  using EvalSymlinks_grows by (auto simp: points_to_def)

text \<open>Restoring the service files and recording the rollback, from a state that already points back.\<close>

lemma restore_write_result:
  assumes "points_to cfg h (gs_previous g)" and "hs_guard h = Some g0" and "gs_previous g = gs_previous g0"
    and "gs_status g = ''rolled_back''" and "gs_deadline g = Deadline d"
    and "bind_st (restoreServiceBackup cfg fl h) (\<lambda>_. writeAgentUpdateGuard now fl g) = (r, h')"
  shows "points_to cfg h' (gs_previous g0) \<and> (r = Inr () \<and> hs_guard h' = Some g \<or> r \<noteq> Inr () \<and> hs_guard h' = Some g0)"
proof -
  obtain r1 h1 where 1: "restoreServiceBackup cfg fl h = (r1, h1)" by fastforce
  then have gr: "grows h h1" using restore_grows [of h cfg fl] by simp
  have "points_to cfg h1 (gs_previous g)" using points_to_grows [OF gr assms(1)] .
  moreover have "hs_guard h1 = Some g0" using gr assms(2) by (simp add: grows_def)
  ultimately show ?thesis
    using assms(3-6) 1 by (cases r1) (auto simp: write_result split: if_splits)
qed

lemma guard_run_progress:
  assumes c: "cfg_ok cfg" and t: "guard_typed cfg h" and g: "hs_guard h = Some g" "gs_status g = ''pending''"
    and r: "RunAgentGuard cfg now fl h = (r, h')"
  obtains g' where "hs_guard h' = Some g'" and "gs_previous g' = gs_previous g"
    and "gs_status g' \<in> {''pending'', ''rolled_back''}"
    and "starts_left cfg h' g' + (if r = Inr () then 1 else 0) \<le> starts_left cfg h g"
proof -
  obtain d where d: "gs_deadline g = Deadline d" and n: "gs_attempts g < maxAgentGuardStarts"
    and pf: "hs_files h (gs_previous g) \<noteq> None"
    using t g by (auto simp: guard_typed_def guard_ok_def)
  have pl: "points_to cfg (link_back cfg g h) (gs_previous g)"
    using pf by (auto simp: points_to_def EvalSymlinks_def Let_def)
  note run = r [unfolded RunAgentGuard_pending [OF c t g]]
  consider (fail) "r \<noteq> Inr ()" "h' = h"
    | (retry) "\<not> points_to cfg h (gs_previous g)"
        "writeAgentUpdateGuard now fl (g\<lparr>gs_attempts := gs_attempts g + 1\<rparr>) h = (r, h')"
    | (rollback) h1 g1 where "bind_st (restoreServiceBackup cfg fl h1) (\<lambda>_. writeAgentUpdateGuard now fl g1) = (r, h')"
        "points_to cfg h1 (gs_previous g)" "hs_guard h1 = Some g"
        "gs_previous g1 = gs_previous g" "gs_status g1 = ''rolled_back''" "gs_deadline g1 = Deadline d"
  proof (cases "fl IoReadGuard \<or> fl IoEval")
    case True
    then show ?thesis using run that(1) by (auto split: if_splits)
  next
    case False
    then show ?thesis
      using run d g(1) pl that(1) that(2) that(3) [of h] that(3) [of "link_back cfg g h"]
      by (cases "points_to cfg h (gs_previous g)"; cases r) (simp_all split: if_splits)
  qed
  then show ?thesis
  proof cases
    case fail
    then show ?thesis using g that [of g] by simp
  next
    case retry
    then show ?thesis
      using g d that [of g] that [of "g\<lparr>gs_attempts := gs_attempts g + 1\<rparr>"]
      by (auto simp: write_result starts_left_def split: if_splits)
  next
    case (rollback h1 g1)
    have "points_to cfg h1 (gs_previous g1)" using rollback(2,4) by simp
    note res = restore_write_result [OF this rollback(3-6) rollback(1)]
    have pos: "1 \<le> starts_left cfg h g" using g n by (simp add: starts_left_def)
    show ?thesis
    proof (cases "r = Inr ()")
      case True
      then have "hs_guard h' = Some g1" using res by blast
      then show ?thesis using that [of g1] True pos rollback(4,5) by (simp add: starts_left_def)
    next
      case False
      then have "hs_guard h' = Some g" "points_to cfg h' (gs_previous g)" using res by blast+
      then show ?thesis using that [of g] False pos g(2) by (simp add: starts_left_def)
    qed
  qed
qed

lemma guard_run_rolled_back:
  assumes "hs_guard h = Some g" and "gs_status g = ''rolled_back''"
  shows "hs_guard (snd (RunAgentGuard cfg now fl h)) = Some g"
  using assms restore_grows [of h cfg fl] by (auto simp: RunAgentGuard_def loadAgentUpdateGuard_def grows_def)

lemma bind_st_ok: "fst r = Inr x \<Longrightarrow> fst (bind_st r f) = fst (f x (snd r))"
  by (cases r) auto

lemma guard_starts_progress:
  assumes c: "cfg_ok cfg"
  shows "guard_typed cfg h \<Longrightarrow> hs_guard h = Some g \<Longrightarrow> gs_status g \<in> {''pending'', ''rolled_back''}
    \<Longrightarrow> guard_starts cfg xs h = (n, h')
    \<Longrightarrow> guard_typed cfg h' \<and> (\<exists>g'. hs_guard h' = Some g' \<and> gs_previous g' = gs_previous g
      \<and> (gs_status g' = ''rolled_back''
         \<or> gs_status g' = ''pending'' \<and> gs_status g = ''pending'' \<and> int n + starts_left cfg h' g' \<le> starts_left cfg h g))"
proof (induction xs arbitrary: h g n)
  case Nil
  then show ?case by auto
next
  case (Cons x xs)
  obtain now fl where x: "x = (now, fl)" by fastforce
  obtain r h1 where r: "RunAgentGuard cfg now fl h = (r, h1)" by fastforce
  have t1: "guard_typed cfg h1" using run_guard_typed [OF c Cons.prems(1), of now fl] r by simp
  obtain k where k: "guard_starts cfg xs h1 = (k, h')" and nk: "n = (if r = Inr () then Suc k else k)"
    using Cons.prems(4) x r by (cases r) (auto split: prod.splits)
  obtain g1 where g1: "hs_guard h1 = Some g1" "gs_previous g1 = gs_previous g" "gs_status g1 \<in> {''pending'', ''rolled_back''}"
    and left: "gs_status g1 = ''pending'' \<longrightarrow> gs_status g = ''pending''
      \<and> starts_left cfg h1 g1 + (if r = Inr () then 1 else 0) \<le> starts_left cfg h g"
  proof (cases "gs_status g = ''pending''")
    case True
    then show ?thesis using guard_run_progress [OF c Cons.prems(1,2) True r] that by metis
  next
    case False
    then show ?thesis using Cons.prems(2,3) guard_run_rolled_back [of h g cfg now fl] r that [of g] by auto
  qed
  show ?case using Cons.IH [OF t1 g1(1,3) k] left nk g1(2) by (auto split: if_splits)
qed


section \<open>A rollback restores the service files\<close>

definition update_pending :: "host \<Rightarrow> bool" where
  "update_pending h \<longleftrightarrow> (\<exists>g. hs_guard h = Some g \<and> gs_status g = ''pending'')"

text \<open>Every binary renders the two service files of the configuration.\<close>

definition units_ok :: "guard_config \<Rightarrow> (string \<Rightarrow> service_file list) \<Rightarrow> bool" where
  "units_ok cfg units \<longleftrightarrow> (\<forall>v. map sf_path (units v) = gc_services cfg)"

text \<open>\<open>orig\<close> can be restored: the files are still those, or the backup holds them.\<close>

definition restorable :: "guard_config \<Rightarrow> (string \<Rightarrow> (string \<times> nat) option) \<Rightarrow> host \<Rightarrow> bool" where
  "restorable cfg orig h \<longleftrightarrow>
     (\<forall>p. p \<notin> set (gc_services cfg) \<longrightarrow> hs_services h p = orig p)
     \<and> (case hs_backup h of
          None \<Rightarrow> hs_services h = orig
        | Some b \<Rightarrow> b = map (\<lambda>p. service_entry (orig p) p) (gc_services cfg))"

lemma service_entry_path [simp]: "sf_path (service_entry c p) = p"
  by (cases c) (auto simp: service_entry_def)

lemma service_entry_content [simp]:
  "(if sf_missing (service_entry c p) then None else Some (sf_data (service_entry c p), sf_mode (service_entry c p))) = c"
  by (cases c) (auto simp: service_entry_def)

lemma writeServiceFiles_frame:
  "p \<notin> sf_path ` set fs \<Longrightarrow> hs_services (snd (writeServiceFiles fl ix i fs h)) p = hs_services h p"
  by (induction fs arbitrary: i h) auto

lemma writeServiceFiles_backup [simp]: "hs_backup (snd (writeServiceFiles fl ix i fs h)) = hs_backup h"
  by (induction fs arbitrary: i h) auto

lemma writeServiceFiles_entries:
  "writeServiceFiles fl ix i (map (\<lambda>p. service_entry (orig p) p) ps) h = (Inr x, h')
   \<Longrightarrow> hs_services h' = (\<lambda>p. if p \<in> set ps then orig p else hs_services h p)"
  by (induction ps arbitrary: i h) (auto split: if_splits simp del: fun_upd_apply simp: fun_eq_iff fun_upd_def)

lemma write_restorable:
  assumes "restorable cfg orig h" and b: "hs_backup h \<noteq> None" and "sf_path ` set fs \<subseteq> set (gc_services cfg)"
  shows "restorable cfg orig (snd (writeServiceFiles fl ix i fs h))"
proof -
  have "hs_services (snd (writeServiceFiles fl ix i fs h)) p = orig p" if "p \<notin> set (gc_services cfg)" for p
    using that assms(1,3) writeServiceFiles_frame [of p fs fl ix i h] by (auto simp: restorable_def)
  then show ?thesis using assms(1) b by (auto simp: restorable_def)
qed

lemma restore_restorable:
  assumes r: "restorable cfg orig h"
  shows "restorable cfg orig (snd (restoreServiceBackup cfg fl h))"
    and "fst (restoreServiceBackup cfg fl h) = Inr () \<Longrightarrow> hs_backup (snd (restoreServiceBackup cfg fl h)) = None"
proof -
  let ?r = "restoreServiceBackup cfg fl h"
  have "restorable cfg orig (snd ?r) \<and> (fst ?r = Inr () \<longrightarrow> hs_backup (snd ?r) = None)"
  proof (cases "hs_backup h")
    case None
    then show ?thesis using r by (simp add: restoreServiceBackup_def)
  next
    case (Some b)
    then have b: "b = map (\<lambda>p. service_entry (orig p) p) (gc_services cfg)" using r by (simp add: restorable_def)
    then have path: "map sf_path b = gc_services cfg" by (simp add: comp_def)
    then have "sf_path ` set b = set (gc_services cfg)" by (metis list.set_map)
    obtain w h1 where w: "writeServiceFiles fl IoWriteService 0 b h = (w, h1)" by fastforce
    have r1: "restorable cfg orig h1"
      using write_restorable [OF r, of b fl IoWriteService 0] \<open>sf_path ` set b = _\<close> Some w by simp
    have clear: "restorable cfg orig (h1\<lparr>hs_backup := None\<rparr>)" if "w = Inr ()"
    proof -
      have "hs_services h1 = (\<lambda>p. if p \<in> set (gc_services cfg) then orig p else hs_services h p)"
        using writeServiceFiles_entries w that unfolding b by blast
      then show ?thesis using r by (auto simp: restorable_def)
    qed
    show ?thesis
      using Some path w r r1 clear
      by (cases w) (auto simp: restoreServiceBackup_def attempt_io_def clearServiceBackup_def)
  qed
  then show "restorable cfg orig (snd ?r)" and "fst ?r = Inr () \<Longrightarrow> hs_backup (snd ?r) = None" by blast+
qed

lemma restorable_cong: "hs_services h' = hs_services h \<Longrightarrow> hs_backup h' = hs_backup h \<Longrightarrow> restorable cfg orig h' = restorable cfg orig h"
  by (cases "hs_backup h") (auto simp: restorable_def)

lemma write_guard_restorable [simp]:
  "restorable cfg orig (snd (writeAgentUpdateGuard now fl g h)) = restorable cfg orig h"
  by (rule restorable_cong) (simp_all add: writeAgentUpdateGuard_def attempt_io_def Let_def)

lemma restore_write_restorable:
  assumes "restorable cfg orig h"
  shows "restorable cfg orig (snd (bind_st (restoreServiceBackup cfg fl h) (\<lambda>_. writeAgentUpdateGuard now fl g)))"
proof (rule bind_st_keeps [of "restorable cfg orig"])
  show r: "restorable cfg orig (snd (restoreServiceBackup cfg fl h))" using restore_restorable(1) [OF assms] .
  show "restorable cfg orig (snd (writeAgentUpdateGuard now fl g h'))"
    if "restoreServiceBackup cfg fl h = (Inr x, h')" for x h'
    using r that by simp
qed

lemma run_guard_restorable:
  assumes "cfg_ok cfg" and "guard_typed cfg h" and "update_pending h" and r: "restorable cfg orig h"
  shows "restorable cfg orig (snd (RunAgentGuard cfg now fl h))"
proof -
  obtain g where g: "hs_guard h = Some g" "gs_status g = ''pending''" using assms(3) by (auto simp: update_pending_def)
  have "restorable cfg orig (link_back cfg g h)" using r restorable_cong [of "link_back cfg g h" h] by simp
  then show ?thesis
    unfolding RunAgentGuard_pending [OF assms(1,2) g] using restore_write_restorable r by simp
qed

lemma install_restorable:
  assumes r: "restorable cfg orig h" and b: "hs_backup h \<noteq> None"
    and ds: "sf_path ` set ds \<subseteq> set (gc_services cfg)" and ps: "sf_path ` set ps \<subseteq> set (gc_services cfg)"
  shows "restorable cfg orig (snd (install_units fl ds ps h))"
proof -
  let ?P = "\<lambda>h. restorable cfg orig h \<and> hs_backup h \<noteq> None"
  have w: "?P (snd (writeServiceFiles fl IoWriteService 0 ds h))"
    using write_restorable [OF r b ds] b by simp
  have "?P (snd (bind_st (writeServiceFiles fl IoWriteService 0 ds h) (\<lambda>_. attempt_io fl IoReload id)))"
    using w by (rule bind_st_keeps [of ?P]) (use w in \<open>auto simp: attempt_io_def\<close>)
  then show ?thesis
    using write_restorable [OF _ _ ps] by (auto simp: install_units_def undoServiceWrite_def split: prod.splits sum.splits)
qed

lemma sync_restorable:
  assumes r: "restorable cfg orig h" and u: "units_ok cfg units"
    and g: "hs_guard h = Some g" "gs_status g = ''pending''" "versionsEquivalent canon v (gs_expected g)"
  shows "restorable cfg orig (snd (syncServiceUnits canon units v fl h))"
proof -
  let ?ds = "units v" and ?prev = "map (snapshot h \<circ> sf_path) (units v)"
  have ds: "gc_services cfg = map sf_path ?ds" using u by (simp add: units_ok_def)
  have prev: "?prev = map (\<lambda>p. service_entry (hs_services h p) p) (gc_services cfg)"
    by (simp add: ds snapshot_def)
  have paths: "sf_path ` set ?ds \<subseteq> set (gc_services cfg)" "sf_path ` set ?prev \<subseteq> set (gc_services cfg)"
    unfolding prev by (auto simp: ds)
  let ?s = "save_backup fl ?prev h"
  have save: "restorable cfg orig (snd ?s)" "fst ?s = Inr () \<Longrightarrow> hs_backup (snd ?s) \<noteq> None"
    using r by (auto simp: save_backup_def attempt_io_def restorable_def prev split: if_splits option.splits)
  have "restorable cfg orig (snd (bind_st ?s (\<lambda>_. install_units fl ?ds ?prev)))"
  proof (rule bind_st_keeps [of "restorable cfg orig"])
    show "restorable cfg orig (snd (install_units fl ?ds ?prev h'))" if "?s = (Inr x, h')" for x h'
      using install_restorable [OF _ _ paths] save that by simp
  qed (rule save(1))
  then show ?thesis
    using r g by (auto simp: syncServiceUnits_def loadAgentUpdateGuard_def attempt_io_def Let_def split: option.splits)
qed

lemma confirm_restorable:
  assumes r: "restorable cfg orig h" and u: "units_ok cfg units" and p: "update_pending h"
    and "update_pending (snd (ConfirmAgentUpdateGuard cfg canon units v hb now fl h))"
  shows "restorable cfg orig (snd (ConfirmAgentUpdateGuard cfg canon units v hb now fl h))"
proof -
  obtain g where g: "hs_guard h = Some g" "gs_status g = ''pending''" using p by (auto simp: update_pending_def)
  obtain x h1 where copy: "atomicCopyFile fl IoCopyGuard (gc_agent_path cfg) (gc_guard_path cfg) h = (x, h1)" by fastforce
  have h1: "hs_services h1 = hs_services h" "hs_backup h1 = hs_backup h" "hs_guard h1 = hs_guard h"
    using copy by (auto simp: atomicCopyFile_def attempt_io_def split: if_splits option.splits)
  then have r1: "restorable cfg orig h1" using restorable_cong r by blast
  show ?thesis
  proof (cases "versionsEquivalent canon v (gs_expected g) \<and> hb \<and> \<not> fl IoReadGuard")
    case False
    then show ?thesis
      using r g by (auto simp: ConfirmAgentUpdateGuard_def loadAgentUpdateGuard_def)
  next
    case True
    obtain y h2 where sync: "syncServiceUnits canon units v fl h1 = (y, h2)" by fastforce
    have r2: "restorable cfg orig h2"
      using sync_restorable [OF r1 u _ g(2), of canon v fl] h1 g True sync by simp
    let ?tail = "\<lambda>h. bind_st (writeAgentUpdateGuard now fl (g\<lparr>gs_status := ''confirmed''\<rparr>) h) (\<lambda>_ h.
          bind_st (clearServiceBackup fl h) (\<lambda>_ h.
          bind_st (remove_guard fl h) (\<lambda>_ h.
          (Inr (), pruneReleaseDirs cfg ''boxfleet-agent'' [gs_candidate g, gs_previous g] h))))"
    have tail: "snd (?tail h2) = h2 \<or> \<not> update_pending (snd (?tail h2))"
      by (auto simp: writeAgentUpdateGuard_def attempt_io_def clearServiceBackup_def remove_guard_def
          update_pending_def pruneReleaseDirs_def Let_def)
    have eq: "ConfirmAgentUpdateGuard cfg canon units v hb now fl h
        = bind_st (x, h1) (\<lambda>_ h. bind_st (syncServiceUnits canon units v fl h) (\<lambda>_. ?tail))"
      using g True copy by (simp add: ConfirmAgentUpdateGuard_def loadAgentUpdateGuard_def)
    show ?thesis
      using assms(4) tail r1 r2 sync unfolding eq by (cases x; cases y) auto
  qed
qed

text \<open>An update touches neither the service files nor their backup.\<close>

definition same_units :: "host \<Rightarrow> host \<Rightarrow> bool" where
  "same_units h h' \<longleftrightarrow> hs_services h' = hs_services h \<and> hs_backup h' = hs_backup h"

lemma bind_same:
  assumes "same_units h (snd r)" and "\<And>x h'. same_units h' (snd (f x h'))"
  shows "same_units h (snd (bind_st r f))"
  using assms by (cases "(r, f)" rule: bind_st.cases) (auto simp: same_units_def)

lemma attempt_same: "(\<And>h. same_units h (f h)) \<Longrightarrow> same_units h (snd (attempt_io fl i f h))"
  by (simp add: attempt_io_def same_units_def)

lemma leaf_same:
  "same_units h (snd (atomicCopyFile fl i s t h))"
  "same_units h (snd (saveUpdateCheckpoint fl n c h))"
  "same_units h (snd (writeAgentUpdateGuard now fl g h))"
  "same_units h (snd (remove_guard fl h))"
  "same_units h (snd (switchVersionedBinary fl l nx p h))"
  "same_units h (snd (downloadAndInstallCandidate cfg canon sha a body fl h))"
  by (auto simp: same_units_def atomicCopyFile_def saveUpdateCheckpoint_def writeAgentUpdateGuard_def remove_guard_def
      switchVersionedBinary_def downloadAndInstallCandidate_def attempt_io_def Let_def split: option.splits)

lemma switch_same: "same_units h (snd (switch_agent cfg op a candidate now fl h))"
proof -
  have "same_units h (snd (ensureAgentGuardBinary cfg fl h))" for h
    by (auto simp: ensureAgentGuardBinary_def leaf_same) (simp add: same_units_def)
  moreover have "same_units h (snd (preserveCurrentBinary cfg fl p c op h))" for h p c
    by (auto simp: preserveCurrentBinary_def Let_def split: option.splits intro!: bind_same leaf_same) (simp_all add: same_units_def)
  ultimately show ?thesis
    unfolding switch_agent_def by (intro bind_same leaf_same) (simp_all add: same_units_def)
qed

lemma update_same: "same_units h (snd (updateAgent cfg canon version_of sha v op a body now fl h))"
proof -
  have refl: "same_units h h" for h by (simp add: same_units_def)
  have "same_units h (snd (update_rest cfg canon version_of sha same op a body now fl pending h))" for same pending
    unfolding update_rest_def
    by (auto intro!: bind_same leaf_same attempt_same switch_same refl simp: refl)
  then show ?thesis
    by (auto simp: updateAgent_def loadAgentUpdateGuard_def Let_def leaf_same refl split: option.splits)
qed

lemma pending_step_restorable:
  assumes "guard_step cfg canon units version_of sha m n" and "cfg_ok cfg" and "units_ok cfg units"
    and t: "guard_typed cfg (mc_host m)" and p: "update_pending (mc_host m)" "update_pending (mc_host n)"
    and r: "restorable cfg orig (mc_host m)"
  shows "restorable cfg orig (mc_host n)"
  using assms(1)
proof (cases rule: guard_step.cases)
  case (start now fl)
  then show ?thesis
    using run_guard_restorable [OF assms(2) t p(1) r, of now fl]
    by (auto simp: start_agent_def split: prod.splits sum.splits)
next
  case (adopt c)
  then show ?thesis using r restorable_cong [of "mc_host n" "mc_host m" cfg orig] by simp
next
  case (startup v fl)
  then show ?thesis
    using r p by (auto simp: run_startup_def loadAgentUpdateGuard_def update_pending_def)
next
  case (heartbeat v now fl)
  then show ?thesis using confirm_restorable [OF r assms(3) p(1)] p(2) by simp
next
  case (update v op a body now fl)
  then have "same_units (mc_host m) (mc_host n)" using update_same by simp
  then show ?thesis using r restorable_cong [of "mc_host n" "mc_host m" cfg orig] by (simp add: same_units_def)
qed (use r in simp)

interpretation pend_sys: invariant_system
  "\<lambda>m n. guard_step cfg canon units version_of sha m n \<and> update_pending (mc_host n)"
  "\<lambda>m. cfg_ok cfg \<and> canon_ok canon \<and> units_ok cfg units \<and> guard_typed cfg (mc_host m)
     \<and> update_pending (mc_host m) \<and> restorable cfg orig (mc_host m)"
  for cfg canon units version_of sha orig
  by unfold_locales (use guard_step_typed pending_step_restorable in blast)

lemma rollback_restorable:
  assumes "restorable cfg orig h"
    and "bind_st (restoreServiceBackup cfg fl h) (\<lambda>_. writeAgentUpdateGuard now fl g) = (Inr (), h')"
  shows "hs_services h' = orig \<and> hs_backup h' = None"
proof -
  obtain h1 where 1: "restoreServiceBackup cfg fl h = (Inr (), h1)" and w: "writeAgentUpdateGuard now fl g h1 = (Inr (), h')"
    using assms(2) by (auto simp: bind_st_Inr_iff)
  have "restorable cfg orig h1 \<and> hs_backup h1 = None" using restore_restorable [OF assms(1), of fl] 1 by simp
  moreover have "same_units h1 h'" using leaf_same(3) [of h1 now fl g] w by simp
  ultimately show ?thesis by (auto simp: restorable_def same_units_def)
qed


section \<open>A concrete machine\<close>

definition demo_cfg :: guard_config where
  "demo_cfg = \<lparr>gc_cwd = ''/'', gc_install = ''/o'', gc_agent_path = ''/b/a'', gc_guard_path = ''/o/g'',
     gc_services = [''/s/s'', ''/s/a'']\<rparr>"

definition demo_canon :: "string \<Rightarrow> string" where
  "demo_canon v = (if v = ''1'' \<or> v = ''2'' \<or> v = ''3'' then ''v'' @ v else [])"

definition demo_units :: "string \<Rightarrow> service_file list" where
  "demo_units v = map (\<lambda>p. \<lparr>sf_path = p, sf_data = v, sf_mode = 420, sf_missing = False\<rparr>) [''/s/s'', ''/s/a'']"

definition demo_sha :: "string \<Rightarrow> string" where
  "demo_sha c = replicate 64 (CHR ''0'')"

definition demo_asset :: update_asset where
  "demo_asset = \<lparr>ua_component = ''agent'', ua_version = ''2'', ua_url = Some (''https'', ''h''),
     ua_sha256 = replicate 64 (CHR ''0''), ua_size = 1\<rparr>"

definition demo_host :: host where
  "demo_host = \<lparr>hs_guard = None, hs_files = [''/b/a'' \<mapsto> ''1''], hs_links = (\<lambda>_. None),
     hs_services = (\<lambda>_. None), hs_backup = None,
     hs_checkpoint = \<lparr>cp_candidate = [], cp_previous = [], cp_switched = False, cp_confirmed = False\<rparr>\<rparr>"

text \<open>Version 1 runs from a plain file; then it installs version 2.\<close>

definition demo_updated :: host where
  "demo_updated = snd (updateAgent demo_cfg demo_canon id demo_sha ''1'' ''x'' demo_asset ''2'' 0 (\<lambda>_. False) demo_host)"

definition demo_guard :: guard_state where
  "demo_guard = \<lparr>gs_operation = ''x'', gs_expected = ''2'', gs_previous = ''/o/releases/boxfleet-agent/legacy-x/boxfleet-agent'',
     gs_candidate = ''/o/releases/boxfleet-agent/2/boxfleet-agent'', gs_status = ''pending'', gs_attempts = 0,
     gs_deadline = Deadline guard_timeout, gs_error = []\<rparr>"

lemma demo_cfg_ok: "cfg_ok demo_cfg"
  by code_simp

lemma demo_canon_ok: "canon_ok demo_canon"
  by (auto simp: canon_ok_def demo_canon_def safeVersionDir_def plain_seg_def)

lemma demo_units_ok: "units_ok demo_cfg demo_units"
  by (simp add: units_ok_def demo_units_def demo_cfg_def)

lemma demo_updated_guard: "hs_guard demo_updated = Some demo_guard"
  by code_simp

lemma demo_run:
  "run (guard_step demo_cfg demo_canon demo_units id demo_sha)
     \<lparr>mc_host = demo_host, mc_running = Some ''1''\<rparr> \<lparr>mc_host = demo_updated, mc_running = Some ''1''\<rparr>"
  using guard_step.update [of "\<lparr>mc_host = demo_host, mc_running = Some ''1''\<rparr>" "''1''" "''x''" demo_cfg demo_canon demo_units
      id demo_sha demo_asset "''2''" 0 "\<lambda>_. False"]
  by (auto intro!: run_one simp: demo_updated_def)

theorem guard_file_typed_witness:
  "gs_attempts demo_guard = 0 \<and> guard_ok demo_cfg demo_updated demo_guard"
  using guard_file_typed [OF demo_run demo_cfg_ok demo_canon_ok] demo_updated_guard
  by (simp add: demo_host_def demo_guard_def)

lemma demo_typed: "guard_typed demo_cfg demo_updated"
  unfolding demo_updated_def
  by (rule update_typed [OF demo_cfg_ok demo_canon_ok]) (simp_all add: guard_typed_def links_ok_def demo_host_def)

lemma demo_backup: "hs_backup demo_updated = None"
  by code_simp

text \<open>Three starts, the second of which fails: the fourth one rolls back.\<close>

definition demo_starts :: "(instant \<times> io_faults) list" where
  "demo_starts = [(1, \<lambda>_. False), (2, \<lambda>i. i = IoWriteGuard), (3, \<lambda>_. False), (4, \<lambda>_. False)]"

lemma demo_three: "fst (guard_starts demo_cfg demo_starts demo_updated) = 3"
  by code_simp


text \<open>
  The candidate confirms but fails after it has installed its service files, and three starts
  follow: the rollback removes them again.
\<close>

definition demo_started :: host where
  "demo_started = snd (RunAgentGuard demo_cfg 0 (\<lambda>_. False) demo_updated)"

definition demo_half :: host where
  "demo_half = snd (ConfirmAgentUpdateGuard demo_cfg demo_canon demo_units ''2'' True 1 (\<lambda>i. i = IoWriteGuard) demo_started)"

definition demo_late :: host where
  "demo_late = snd (RunAgentGuard demo_cfg 2 (\<lambda>_. False) demo_half)"

definition demo_back :: host where
  "demo_back = snd (RunAgentGuard demo_cfg 3 (\<lambda>_. False) demo_late)"

lemma demo_half_services: "hs_services demo_half ''/s/a'' = Some (''2'', 420)"
  by code_simp

lemma demo_guards:
  "hs_guard demo_started = Some (demo_guard\<lparr>gs_attempts := 1\<rparr>)"
  "hs_guard demo_half = Some (demo_guard\<lparr>gs_attempts := 1\<rparr>)"
  "hs_guard demo_late = Some (demo_guard\<lparr>gs_attempts := 2\<rparr>)"
  "map_option gs_status (hs_guard demo_back) = Some ''rolled_back''"
  by code_simp+

lemma demo_ok:
  "RunAgentGuard demo_cfg 0 (\<lambda>_. False) demo_updated = (Inr (), demo_started)"
  "RunAgentGuard demo_cfg 2 (\<lambda>_. False) demo_half = (Inr (), demo_late)"
  "RunAgentGuard demo_cfg 3 (\<lambda>_. False) demo_late = (Inr (), demo_back)"
  unfolding demo_started_def demo_late_def demo_back_def prod_eq_iff fst_conv snd_conv
  by (rule conjI, code_simp, simp)+

lemma demo_versions: "agent_version demo_cfg id demo_started = Some ''2''"
  by code_simp

definition demo_step :: "machine \<Rightarrow> machine \<Rightarrow> bool" where
  "demo_step = (\<lambda>m n. guard_step demo_cfg demo_canon demo_units id demo_sha m n \<and> update_pending (mc_host n))"

lemma demo_run_late:
  "\<exists>v. run demo_step \<lparr>mc_host = demo_updated, mc_running = None\<rparr> \<lparr>mc_host = demo_late, mc_running = v\<rparr>"
proof -
  have s1: "demo_step \<lparr>mc_host = demo_updated, mc_running = None\<rparr> \<lparr>mc_host = demo_started, mc_running = Some ''2''\<rparr>"
    using guard_step.start [of demo_cfg demo_canon demo_units id demo_sha "\<lparr>mc_host = demo_updated, mc_running = None\<rparr>" 0 "\<lambda>_. False"]
    by (simp add: demo_step_def start_agent_def demo_ok demo_versions demo_guards update_pending_def demo_guard_def)
  have s2: "demo_step \<lparr>mc_host = demo_started, mc_running = Some ''2''\<rparr> \<lparr>mc_host = demo_half, mc_running = Some ''2''\<rparr>"
    using guard_step.heartbeat [of "\<lparr>mc_host = demo_started, mc_running = Some ''2''\<rparr>" "''2''" demo_cfg demo_canon demo_units
        id demo_sha 1 "\<lambda>i. i = IoWriteGuard"]
    by (simp add: demo_step_def demo_half_def [symmetric] demo_guards update_pending_def demo_guard_def)
  obtain v where s3: "demo_step \<lparr>mc_host = demo_half, mc_running = Some ''2''\<rparr> \<lparr>mc_host = demo_late, mc_running = v\<rparr>"
    using guard_step.start [of demo_cfg demo_canon demo_units id demo_sha "\<lparr>mc_host = demo_half, mc_running = Some ''2''\<rparr>" 2 "\<lambda>_. False"]
    by (auto simp: demo_step_def start_agent_def demo_ok demo_guards update_pending_def demo_guard_def)
  show ?thesis using run.run_step [of demo_step, OF run.run_step [of demo_step, OF run_one [of demo_step, OF s1] s2] s3] by blast
qed


text \<open>
  A further update that starts while the running candidate has not confirmed itself takes that
  candidate as the version to roll back to: nothing checks that the earlier update is over.
\<close>

lemma unconfirmed_rollback_target:
  "map_option gs_previous (hs_guard (snd (updateAgent demo_cfg demo_canon id demo_sha ''2'' ''y'' (demo_asset\<lparr>ua_version := ''3''\<rparr>) ''3''
      5 (\<lambda>_. False) (demo_started\<lparr>hs_checkpoint := hs_checkpoint demo_host\<rparr>))))
   = Some (gs_candidate demo_guard) \<and> update_pending demo_started"
proof -
  have "update_pending demo_started" by (simp add: update_pending_def demo_guards demo_guard_def)
  moreover have "map_option gs_previous (hs_guard (snd (updateAgent demo_cfg demo_canon id demo_sha ''2'' ''y''
      (demo_asset\<lparr>ua_version := ''3''\<rparr>) ''3'' 5 (\<lambda>_. False) (demo_started\<lparr>hs_checkpoint := hs_checkpoint demo_host\<rparr>))))
    = Some (gs_candidate demo_guard)"
    by code_simp
  ultimately show ?thesis by blast
qed

end
