(* ===== verification/Proxy_Store.thy ===== *)
theory Proxy_Store
  imports Complex_Main Nodes
begin

text \<open>
  The tables of users, proxies, bindings, credentials, endpoints and paths, with the lookups that
  traffic accounting and path resolution share: \<open>internal/server/db/users.go\<close>, \<open>proxies.go\<close>,
  \<open>bindings.go\<close>, \<open>proxy_credentials.go\<close> and the queries under \<open>internal/server/store/sqlc\<close>.
  A \<open>REAL\<close> column is a rational; \<open>NULL\<close> is \<^const>\<open>None\<close>.
\<close>

record user_row =
  us_id :: string
  us_name :: string
  us_display :: string
  us_status :: string
  us_quota :: int
  us_expire_at :: "stamp option"
  us_deleted_at :: "stamp option"
  us_created_at :: stamp

record proxy_row =
  px_id :: string
  px_node :: string
  px_name :: string
  px_protocol :: string
  px_listen :: string
  px_port :: int
  px_transport :: string
  px_enabled :: bool
  px_multiplier :: rat
  px_deleted_at :: "stamp option"

record binding_row =
  bd_id :: string
  bd_user :: string
  bd_node :: string
  bd_enabled :: bool
  bd_quota :: int
  bd_multiplier :: "rat option"
  bd_reason :: string

text \<open>A row of \<open>proxy_accesses\<close>.\<close>

record cred_row =
  cr_id :: string
  cr_proxy :: string
  cr_user :: string
  cr_auth :: string
  cr_enabled :: bool
  cr_quota :: int
  cr_multiplier :: "rat option"
  cr_json :: string
  cr_deleted_at :: "stamp option"

record endpoint_row =
  ep_id :: string
  ep_proxy :: string
  ep_host :: string
  ep_enabled :: bool
  ep_created_at :: stamp

record path_row =
  pt_id :: string
  pt_name :: string
  pt_display :: string
  pt_endpoint :: string
  pt_dialer :: "string option"
  pt_enabled :: bool
  pt_visibility :: string
  pt_managed :: bool
  pt_sort :: int
  pt_updated_at :: stamp

text \<open>A row of \<open>path_accesses\<close>.\<close>

record access_row =
  ac_id :: string
  ac_path :: string
  ac_user :: string
  ac_enabled :: bool
  ac_deleted_at :: "stamp option"
  ac_created_at :: stamp

text \<open>\<open>db_group_members\<close> holds the rows \<open>(group, path)\<close> of \<open>path_group_members\<close>.\<close>

record proxy_db = node_db +
  db_users :: "user_row list"
  db_proxies :: "proxy_row list"
  db_bindings :: "binding_row list"
  db_creds :: "cred_row list"
  db_endpoints :: "endpoint_row list"
  db_paths :: "path_row list"
  db_accesses :: "access_row list"
  db_group_members :: "(string \<times> string) list"

section \<open>Users\<close>

definition q_GetProxyUserByIDIncludingDeleted :: "'a proxy_db_scheme \<Rightarrow> string \<Rightarrow> user_row option" where
  "q_GetProxyUserByIDIncludingDeleted db i = sel (\<lambda>u. us_id u = i) (db_users db)"

definition q_GetProxyUserByName :: "'a proxy_db_scheme \<Rightarrow> string \<Rightarrow> user_row option" where
  "q_GetProxyUserByName db nm = sel (\<lambda>u. us_name u = nm \<and> us_deleted_at u = None) (db_users db)"

text \<open>A live user first, then the deleted one created last.\<close>

definition q_GetProxyUserByNameIncludingDeleted :: "'a proxy_db_scheme \<Rightarrow> string \<Rightarrow> user_row option" where
  "q_GetProxyUserByNameIncludingDeleted db nm =
     (case rev (sort_key us_created_at (rev (filter (\<lambda>u. us_name u = nm) (db_users db)))) of
        us \<Rightarrow> (case sel (\<lambda>u. us_deleted_at u = None) us of Some u \<Rightarrow> Some u | None \<Rightarrow> sel (\<lambda>_. True) us))"

text \<open>An id decides before a name does, also the id of a deleted user.\<close>

definition resolveProxyUser :: "'a proxy_db_scheme \<Rightarrow> string \<Rightarrow> bool \<Rightarrow> user_row option" where
  "resolveProxyUser db reference including_deleted =
     (let r = normalizeName reference in
      case q_GetProxyUserByIDIncludingDeleted db r of
        None \<Rightarrow> if including_deleted then q_GetProxyUserByNameIncludingDeleted db r else q_GetProxyUserByName db r
      | Some u \<Rightarrow> if us_deleted_at u \<noteq> None \<and> \<not> including_deleted then None else Some u)"

definition GetProxyUser :: "'a proxy_db_scheme \<Rightarrow> string \<Rightarrow> user_row option" where
  "GetProxyUser db nm = resolveProxyUser db nm False"

definition getProxyUserIncludingDeleted :: "'a proxy_db_scheme \<Rightarrow> string \<Rightarrow> user_row option" where
  "getProxyUserIncludingDeleted db nm = resolveProxyUser db nm True"

section \<open>Proxies\<close>

text \<open>\<open>proxy_details\<close> joins a proxy with its node.\<close>

definition proxy_details :: "'a proxy_db_scheme \<Rightarrow> (proxy_row \<times> node_row) list" where
  "proxy_details db =
     concat (map (\<lambda>p. map (\<lambda>n. (p, n)) (filter (\<lambda>n. node_id n = px_node p) (db_nodes db))) (db_proxies db))"

definition live_proxy :: "proxy_row \<times> node_row \<Rightarrow> bool" where
  "live_proxy d \<longleftrightarrow> px_deleted_at (fst d) = None \<and> node_deleted_at (snd d) = None"

definition q_GetProxyByID :: "'a proxy_db_scheme \<Rightarrow> string \<Rightarrow> (proxy_row \<times> node_row) option" where
  "q_GetProxyByID db i = sel (\<lambda>d. px_id (fst d) = i \<and> live_proxy d) (proxy_details db)"

definition GetProxyByID :: "'a proxy_db_scheme \<Rightarrow> string \<Rightarrow> (proxy_row \<times> node_row) option" where
  "GetProxyByID db i = q_GetProxyByID db (trim_space i)"

section \<open>Bindings and credentials\<close>

definition q_GetUserNodeBinding :: "'a proxy_db_scheme \<Rightarrow> string \<Rightarrow> string \<Rightarrow> binding_row option" where
  "q_GetUserNodeBinding db uid nid =
     sel (\<lambda>b. bd_user b = uid \<and> bd_node b = nid
            \<and> list_ex (\<lambda>u. us_id u = uid) (db_users db) \<and> list_ex (\<lambda>n. node_id n = nid) (db_nodes db)) (db_bindings db)"

definition GetUserNodeBinding :: "'a proxy_db_scheme \<Rightarrow> string \<Rightarrow> string \<Rightarrow> binding_row option" where
  "GetUserNodeBinding db user_name nm =
     (case GetNode db nm of
        None \<Rightarrow> None
      | Some n \<Rightarrow> (case getProxyUserIncludingDeleted db user_name of
                    None \<Rightarrow> None
                  | Some u \<Rightarrow> q_GetUserNodeBinding db (us_id u) (node_id n)))"

text \<open>\<open>proxy_access_details\<close> joins a credential with its user, proxy and node.\<close>

definition q_GetProxyAccessByIDs :: "'a proxy_db_scheme \<Rightarrow> string \<Rightarrow> string \<Rightarrow> cred_row option" where
  "q_GetProxyAccessByIDs db uid pid =
     sel (\<lambda>c. cr_user c = uid \<and> cr_proxy c = pid \<and> list_ex (\<lambda>u. us_id u = uid) (db_users db)
            \<and> list_ex (\<lambda>d. px_id (fst d) = pid) (proxy_details db)) (db_creds db)"

definition GetProxyCredentialByIDs :: "'a proxy_db_scheme \<Rightarrow> string \<Rightarrow> string \<Rightarrow> cred_row option" where
  "GetProxyCredentialByIDs db uid pid = q_GetProxyAccessByIDs db (trim_space uid) (trim_space pid)"

section \<open>Endpoints, paths and path accesses\<close>

definition q_GetEndpointByID :: "'a proxy_db_scheme \<Rightarrow> string \<Rightarrow> endpoint_row option" where
  "q_GetEndpointByID db i = sel (\<lambda>e. ep_id e = i) (db_endpoints db)"

definition q_GetEndpointByProxyHost :: "'a proxy_db_scheme \<Rightarrow> string \<Rightarrow> string \<Rightarrow> endpoint_row option" where
  "q_GetEndpointByProxyHost db p h = sel (\<lambda>e. ep_proxy e = p \<and> ep_host e = h) (db_endpoints db)"

definition GetEndpoint :: "'a proxy_db_scheme \<Rightarrow> string \<Rightarrow> endpoint_row option" where
  "GetEndpoint db i = q_GetEndpointByID db (trim_space i)"

definition q_GetPathByID :: "'a proxy_db_scheme \<Rightarrow> string \<Rightarrow> path_row option" where
  "q_GetPathByID db i = sel (\<lambda>p. pt_id p = i) (db_paths db)"

definition GetPath :: "'a proxy_db_scheme \<Rightarrow> string \<Rightarrow> path_row option" where
  "GetPath db i = q_GetPathByID db (trim_space i)"

definition q_ListPaths :: "'a proxy_db_scheme \<Rightarrow> path_row list" where
  "q_ListPaths db = sort_key pt_sort (sort_key pt_name (sort_key pt_id (db_paths db)))"

definition ListPaths :: "'a proxy_db_scheme \<Rightarrow> path_row list" where
  "ListPaths db = q_ListPaths db"

definition q_ListActivePathAccessesByUserID :: "'a proxy_db_scheme \<Rightarrow> string \<Rightarrow> access_row list" where
  "q_ListActivePathAccessesByUserID db uid =
     sort_key ac_created_at (sort_key ac_id (filter (\<lambda>a. ac_user a = uid \<and> ac_enabled a \<and> ac_deleted_at a = None
       \<and> list_ex (\<lambda>p. pt_id p = ac_path a \<and> pt_enabled p
            \<and> list_ex (\<lambda>e. ep_id e = pt_endpoint p \<and> ep_enabled e
                 \<and> list_ex (\<lambda>d. px_id (fst d) = ep_proxy e \<and> live_proxy d) (proxy_details db)) (db_endpoints db)) (db_paths db))
       (db_accesses db)))"

definition ListActivePathAccessesByUser :: "'a proxy_db_scheme \<Rightarrow> string \<Rightarrow> access_row list option" where
  "ListActivePathAccessesByUser db user_name =
     map_option (\<lambda>u. q_ListActivePathAccessesByUserID db (us_id u)) (GetProxyUser db user_name)"

end
