(* ===== verification/Traffic.thy ===== *)
theory Traffic
  imports Proxy_Store Go_Integers Go_Strings
begin

text \<open>
  Traffic accounting, both ends: the agent's \<open>ReportTraffic\<close> (\<open>internal/agent/agent.go\<close>), which
  turns counters into deltas and keeps one report pending until the server has it, and the
  server's \<open>RecordTrafficReport\<close> with the totals it maintains (\<open>internal/server/db/traffic.go\<close>,
  \<open>sqlc/traffic.sql.go\<close>). \<open>bill\<close> stands for the floating-point product with the multiplier,
  its ceiling and the conversion back to an integer.
\<close>

section \<open>Reports\<close>

record traffic_delta =
  td_auth :: string
  td_direction :: string
  td_raw :: int
  td_counter :: int
  td_epoch :: int
  td_observed_at :: string

record traffic_report =
  tr_seq :: int
  tr_boot :: string
  tr_reported_at :: string
  tr_deltas :: "traffic_delta list"

section \<open>The server\<close>

record report_row =
  rp_id :: string
  rp_node :: string
  rp_seq :: int
  rp_boot :: string
  rp_reported_at :: string

record delta_row =
  dl_id :: string
  dl_report :: string
  dl_node :: string
  dl_user :: string
  dl_proxy :: string
  dl_auth :: string
  dl_direction :: string
  dl_raw :: int
  dl_multiplier :: rat
  dl_billable :: int
  dl_counter :: int
  dl_epoch :: int
  dl_observed_at :: string

record total_row =
  tt_user :: string
  tt_direction :: string
  tt_raw :: int
  tt_billable :: int

record traffic_db = proxy_db +
  db_reports :: "report_row list"
  db_deltas :: "delta_row list"
  db_totals :: "total_row list"

datatype traffic_error = TrafficNodeNotFound | TrafficConstraint | UnsupportedDirection string

definition q_CreateTrafficReport :: "'a traffic_db_scheme \<Rightarrow> report_row \<Rightarrow> 'a traffic_db_scheme option" where
  "q_CreateTrafficReport db r =
     (if list_ex (\<lambda>x. rp_id x = rp_id r \<or> rp_node x = rp_node r \<and> rp_boot x = rp_boot r \<and> rp_seq x = rp_seq r) (db_reports db)
      then None else Some (db\<lparr>db_reports := db_reports db @ [r]\<rparr>))"

definition q_GetTrafficReportBySequence :: "'a traffic_db_scheme \<Rightarrow> string \<Rightarrow> string \<Rightarrow> int \<Rightarrow> report_row option" where
  "q_GetTrafficReportBySequence db nid boot k = sel (\<lambda>x. rp_node x = nid \<and> rp_boot x = boot \<and> rp_seq x = k) (db_reports db)"

definition coalesce :: "'v option \<Rightarrow> 'v \<Rightarrow> 'v" where
  "coalesce a b = (case a of Some x \<Rightarrow> x | None \<Rightarrow> b)"

definition traffic_credentials :: "'a proxy_db_scheme \<Rightarrow> string \<Rightarrow> string \<Rightarrow> (string \<times> string \<times> rat) list" where
  "traffic_credentials db nm auth =
     concat (map (\<lambda>c. concat (map (\<lambda>(p, n). map (\<lambda>b.
         (cr_user c, cr_proxy c, coalesce (cr_multiplier c) (coalesce (bd_multiplier b) (px_multiplier p))))
         (filter (\<lambda>b. bd_user b = cr_user c \<and> bd_node b = node_id n) (db_bindings db)))
       (filter (\<lambda>(p, n). px_id p = cr_proxy c \<and> (node_id n = nm \<or> node_name n = nm \<and> node_deleted_at n = None)) (proxy_details db))))
     (filter (\<lambda>c. cr_auth c = auth) (db_creds db)))"

definition q_GetTrafficCredentialByNodeAuthName :: "'a proxy_db_scheme \<Rightarrow> string \<Rightarrow> string \<Rightarrow> (string \<times> string \<times> rat) option" where
  "q_GetTrafficCredentialByNodeAuthName db nm auth = sel (\<lambda>_. True) (traffic_credentials db nm auth)"

definition q_CreateTrafficUsageDelta :: "'a traffic_db_scheme \<Rightarrow> delta_row \<Rightarrow> 'a traffic_db_scheme option" where
  "q_CreateTrafficUsageDelta db d =
     (if list_ex (\<lambda>x. dl_id x = dl_id d) (db_deltas db) \<or> \<not> list_ex (\<lambda>r. rp_id r = dl_report d) (db_reports db)
         \<or> dl_direction d \<notin> {''uplink'', ''downlink''} \<or> dl_raw d < 0 \<or> dl_multiplier d < 0 \<or> dl_billable d < 0
         \<or> dl_counter d < 0 \<or> dl_epoch d < 0
      then None else Some (db\<lparr>db_deltas := db_deltas db @ [d]\<rparr>))"

definition q_UpsertTrafficUsageTotal :: "'a traffic_db_scheme \<Rightarrow> string \<Rightarrow> string \<Rightarrow> int \<Rightarrow> int \<Rightarrow> 'a traffic_db_scheme" where
  "q_UpsertTrafficUsageTotal db u dir raw bill =
     (let key = (\<lambda>t. tt_user t = u \<and> tt_direction t = dir) in
      if list_ex key (db_totals db)
      then db\<lparr>db_totals := upd key (\<lambda>t. t\<lparr>tt_raw := tt_raw t + raw, tt_billable := tt_billable t + bill\<rparr>) (db_totals db)\<rparr>
      else db\<lparr>db_totals := db_totals db @ [\<lparr>tt_user = u, tt_direction = dir, tt_raw = raw, tt_billable = bill\<rparr>]\<rparr>)"

text \<open>The loop over the deltas of a report; \<open>fresh\<close> gives the new row ids.\<close>

fun record_deltas ::
  "(int \<Rightarrow> rat \<Rightarrow> int) \<Rightarrow> (nat \<Rightarrow> string) \<Rightarrow> node_row \<Rightarrow> string \<Rightarrow> string \<Rightarrow> nat \<Rightarrow> traffic_delta list \<Rightarrow> 'a traffic_db_scheme
   \<Rightarrow> traffic_error + 'a traffic_db_scheme" where
  "record_deltas bill fresh n rid reported_at i [] db = Inr db"
| "record_deltas bill fresh n rid reported_at i (d # ds) db =
     (if td_raw d \<le> 0 then record_deltas bill fresh n rid reported_at (Suc i) ds db
      else if td_direction d \<noteq> ''uplink'' \<and> td_direction d \<noteq> ''downlink'' then Inl (UnsupportedDirection (td_direction d))
      else case q_GetTrafficCredentialByNodeAuthName db (node_name n) (td_auth d) of
        None \<Rightarrow> record_deltas bill fresh n rid reported_at (Suc i) ds db
      | Some (u, p, mult) \<Rightarrow>
        (case q_CreateTrafficUsageDelta db \<lparr>dl_id = fresh i, dl_report = rid, dl_node = node_id n, dl_user = u, dl_proxy = p,
                dl_auth = td_auth d, dl_direction = td_direction d, dl_raw = td_raw d, dl_multiplier = mult,
                dl_billable = bill (td_raw d) mult, dl_counter = td_counter d, dl_epoch = td_epoch d,
                dl_observed_at = (if td_observed_at d = '''' then reported_at else td_observed_at d)\<rparr> of
           None \<Rightarrow> Inl TrafficConstraint
         | Some db1 \<Rightarrow>
           record_deltas bill fresh n rid reported_at (Suc i) ds
             (q_UpsertTrafficUsageTotal db1 u (td_direction d) (td_raw d) (bill (td_raw d) mult))))"

text \<open>One transaction: an error leaves the database as it was, a known sequence is accepted without effect.\<close>

definition RecordTrafficReport ::
  "(int \<Rightarrow> rat \<Rightarrow> int) \<Rightarrow> string \<Rightarrow> (nat \<Rightarrow> string) \<Rightarrow> string \<Rightarrow> 'a traffic_db_scheme \<Rightarrow> string \<Rightarrow> traffic_report
   \<Rightarrow> traffic_error + 'a traffic_db_scheme" where
  "RecordTrafficReport bill clock fresh rid db nm r =
     (case GetNode db nm of
        None \<Rightarrow> Inl TrafficNodeNotFound
      | Some n \<Rightarrow>
        let reported_at = (if tr_reported_at r = '''' then clock else tr_reported_at r) in
        (case q_CreateTrafficReport db \<lparr>rp_id = rid, rp_node = node_id n, rp_seq = tr_seq r, rp_boot = tr_boot r,
                rp_reported_at = reported_at\<rparr> of
           None \<Rightarrow>
             (case q_GetTrafficReportBySequence db (node_id n) (tr_boot r) (tr_seq r) of
                Some _ \<Rightarrow> Inr db
              | None \<Rightarrow> Inl TrafficConstraint)
         | Some db1 \<Rightarrow> record_deltas bill fresh n rid reported_at 0 (tr_deltas r) db1))"

definition q_SumTrafficByUser :: "'a traffic_db_scheme \<Rightarrow> string \<Rightarrow> (string \<times> string \<times> int \<times> int) list" where
  "q_SumTrafficByUser db nm =
     sort_key (\<lambda>(_, dir, _). dir) (concat (map (\<lambda>t. map (\<lambda>u. (us_name u, tt_direction t, tt_raw t, tt_billable t))
       (filter (\<lambda>u. us_id u = tt_user t \<and> (us_id u = nm \<or> us_name u = nm) \<and> us_deleted_at u = None) (db_users db))) (db_totals db)))"

definition SumTrafficByUser :: "'a traffic_db_scheme \<Rightarrow> string \<Rightarrow> (string \<times> string \<times> int \<times> int) list" where
  "SumTrafficByUser db nm = q_SumTrafficByUser db (normalizeName nm)"

definition q_SumTrafficByAllUsers :: "'a traffic_db_scheme \<Rightarrow> (string \<times> string \<times> int \<times> int) list" where
  "q_SumTrafficByAllUsers db =
     sort_key (\<lambda>(nm, _). nm) (sort_key (\<lambda>(_, dir, _). dir) (concat (map (\<lambda>t. map (\<lambda>u. (us_name u, tt_direction t, tt_raw t, tt_billable t))
       (filter (\<lambda>u. us_id u = tt_user t \<and> us_deleted_at u = None) (db_users db))) (db_totals db))))"

definition SumTrafficByAllUsers :: "'a traffic_db_scheme \<Rightarrow> (string \<times> string \<times> int \<times> int) list" where
  "SumTrafficByAllUsers db = q_SumTrafficByAllUsers db"

section \<open>The agent\<close>

text \<open>The traffic part of the state file; a Go map reads 0 where it has no entry.\<close>

record traffic_state =
  ts_boot :: string
  ts_seq :: int
  ts_counters :: "string \<Rightarrow> int"
  ts_epochs :: "string \<Rightarrow> int"
  ts_pending :: "traffic_report option"

text \<open>\<open>strings.Split\<close> on a separator of several characters.\<close>

function split_str :: "string \<Rightarrow> string \<Rightarrow> string list" where
  "split_str sep s =
     (if s = [] \<or> sep = [] then [s]
      else if has_prefix s sep then [] # split_str sep (drop (length sep) s)
      else case split_str sep (tl s) of [] \<Rightarrow> [s] | y # ys \<Rightarrow> (hd s # y) # ys)"
  by pat_completeness auto
termination
  by (relation "measure (\<lambda>(sep, s). length s)") auto

declare split_str.simps [simp del]

definition parseUserTrafficStat :: "string \<Rightarrow> (string \<times> string) option" where
  "parseUserTrafficStat name =
     (case split_str ''>>>'' name of
        [a, b, c, d] \<Rightarrow>
          if a \<noteq> ''user'' \<or> c \<noteq> ''traffic'' then None
          else if d \<noteq> ''uplink'' \<and> d \<noteq> ''downlink'' then None else Some (b, d)
      | _ \<Rightarrow> None)"

text \<open>One counter: a value below the last one means that the counter restarted from zero.\<close>

definition observe :: "string \<Rightarrow> string \<times> int \<Rightarrow> traffic_state \<times> traffic_delta list \<Rightarrow> traffic_state \<times> traffic_delta list" where
  "observe now stat acc =
     (let (name, value) = stat; (st, ds) = acc in
      case parseUserTrafficStat name of
        None \<Rightarrow> acc
      | Some (auth, dir) \<Rightarrow>
        let delta0 = wrap64 (value - ts_counters st name);
            restarted = delta0 < 0;
            epoch = (if restarted then wrap64 (ts_epochs st name + 1) else ts_epochs st name);
            delta = (if restarted then value else delta0);
            st1 = st\<lparr>ts_counters := (ts_counters st)(name := value), ts_epochs := (ts_epochs st)(name := epoch)\<rparr> in
        if delta \<le> 0 then (st1, ds)
        else (st1, ds @ [\<lparr>td_auth = auth, td_direction = dir, td_raw = delta, td_counter = value, td_epoch = epoch,
               td_observed_at = now\<rparr>]))"

definition collect_deltas :: "string \<Rightarrow> (string \<times> int) list \<Rightarrow> traffic_state \<Rightarrow> traffic_state \<times> traffic_delta list" where
  "collect_deltas now stats st = fold (observe now) stats (st, [])"

definition LoadState :: "string \<Rightarrow> traffic_state option \<Rightarrow> traffic_state" where
  "LoadState uuid file =
     (case file of
        None \<Rightarrow> \<lparr>ts_boot = uuid, ts_seq = 0, ts_counters = (\<lambda>_. 0), ts_epochs = (\<lambda>_. 0), ts_pending = None\<rparr>
      | Some st \<Rightarrow> if ts_boot st = '''' then st\<lparr>ts_boot := uuid\<rparr> else st)"

text \<open>
  One HTTP exchange: the request is lost, the answer is lost, or both arrive. The server's answer
  is a success unless it reports an error; the node name comes from the authentication.
\<close>

datatype delivery = RequestLost | ReplyLost | Exchanged

record post_env =
  po_delivery :: delivery
  po_clock :: string
  po_fresh :: "nat \<Rightarrow> string"
  po_id :: string

definition post_traffic ::
  "(int \<Rightarrow> rat \<Rightarrow> int) \<Rightarrow> string \<Rightarrow> post_env \<Rightarrow> traffic_report \<Rightarrow> traffic_db \<Rightarrow> bool \<times> traffic_db" where
  "post_traffic bill nm e r db =
     (if po_delivery e = RequestLost then (False, db)
      else case RecordTrafficReport bill (po_clock e) (po_fresh e) (po_id e) db nm r of
        Inl _ \<Rightarrow> (False, db)
      | Inr db1 \<Rightarrow> (po_delivery e = Exchanged, db1))"

text \<open>
  What happens around one call: the two exchanges, the three writes of the state file, each of
  which may fail (as it does when the process dies before it), the statistics, or no answer.
\<close>

record traffic_env =
  te_uuid :: string
  te_now :: string
  te_post1 :: post_env
  te_save1 :: bool
  te_stats :: "(string \<times> int) list option"
  te_save2 :: bool
  te_post2 :: post_env
  te_save3 :: bool

text \<open>From the query of the counters on.\<close>

definition report_new ::
  "(int \<Rightarrow> rat \<Rightarrow> int) \<Rightarrow> string \<Rightarrow> traffic_env \<Rightarrow> traffic_state \<Rightarrow> traffic_state option \<times> traffic_db
   \<Rightarrow> bool \<times> traffic_state option \<times> traffic_db" where
  "report_new bill nm e st s =
     (case te_stats e of
        None \<Rightarrow> (False, s)
      | Some stats \<Rightarrow>
        let (st1, ds) = collect_deltas (te_now e) stats st in
        if ds = [] then (te_save2 e, (if te_save2 e then Some st1 else fst s), snd s) else
        let k = wrap64 (ts_seq st1 + 1);
            report = \<lparr>tr_seq = k, tr_boot = ts_boot st1, tr_reported_at = te_now e, tr_deltas = ds\<rparr>;
            st2 = st1\<lparr>ts_seq := k, ts_pending := Some report\<rparr> in
        if \<not> te_save2 e then (False, s) else
        (case post_traffic bill nm (te_post2 e) report (snd s) of
           (False, db) \<Rightarrow> (False, Some st2, db)
         | (True, db) \<Rightarrow> (te_save3 e, Some (if te_save3 e then st2\<lparr>ts_pending := None\<rparr> else st2), db)))"

definition ReportTraffic ::
  "(int \<Rightarrow> rat \<Rightarrow> int) \<Rightarrow> string \<Rightarrow> traffic_env \<Rightarrow> traffic_state option \<times> traffic_db \<Rightarrow> bool \<times> traffic_state option \<times> traffic_db" where
  "ReportTraffic bill nm e s =
     (let st = LoadState (te_uuid e) (fst s) in
      case ts_pending st of
        None \<Rightarrow> report_new bill nm e st s
      | Some r \<Rightarrow>
        (case post_traffic bill nm (te_post1 e) r (snd s) of
           (False, db) \<Rightarrow> (False, fst s, db)
         | (True, db) \<Rightarrow>
           if \<not> te_save1 e then (False, fst s, db)
           else report_new bill nm e (st\<lparr>ts_pending := None\<rparr>) (Some (st\<lparr>ts_pending := None\<rparr>), db)))"

end
