(* ===== verification/Traffic_Properties.thy ===== *)
theory Traffic_Properties
  imports Traffic
begin

text \<open>
  What traffic accounting promises: every byte that a counter of sing-box has counted is stored
  once, whatever requests, answers and writes of the state file are lost, and the totals shown
  for a user are the sums of the stored deltas.
\<close>

section \<open>Sums of stored deltas\<close>

definition sum_raw :: "(delta_row \<Rightarrow> bool) \<Rightarrow> delta_row list \<Rightarrow> int" where
  "sum_raw p ds = sum_list (map dl_raw (filter p ds))"

definition sum_billable :: "(delta_row \<Rightarrow> bool) \<Rightarrow> delta_row list \<Rightarrow> int" where
  "sum_billable p ds = sum_list (map dl_billable (filter p ds))"

lemma sum_raw_simps [simp]:
  "sum_raw p [] = 0" "sum_raw p (ds @ es) = sum_raw p ds + sum_raw p es"
  "sum_raw p (d # ds) = (if p d then dl_raw d else 0) + sum_raw p ds"
  by (simp_all add: sum_raw_def)

lemma sum_billable_simps [simp]:
  "sum_billable p [] = 0" "sum_billable p (ds @ es) = sum_billable p ds + sum_billable p es"
  "sum_billable p (d # ds) = (if p d then dl_billable d else 0) + sum_billable p ds"
  by (simp_all add: sum_billable_def)

lemma sum_raw_cong: "(\<And>d. d \<in> set ds \<Longrightarrow> p d = q d) \<Longrightarrow> sum_raw p ds = sum_raw q ds"
  by (simp add: sum_raw_def cong: filter_cong)

lemma sum_raw_none: "(\<And>d. d \<in> set ds \<Longrightarrow> \<not> p d) \<Longrightarrow> sum_raw p ds = 0"
  by (simp add: sum_raw_def filter_False)

text \<open>What the report of a counter asks the server to store.\<close>

definition reported :: "string \<Rightarrow> string \<Rightarrow> traffic_delta list \<Rightarrow> int" where
  "reported auth dir ds = sum_list (map td_raw (filter (\<lambda>d. td_raw d > 0 \<and> td_auth d = auth \<and> td_direction d = dir) ds))"

lemma reported_simps [simp]:
  "reported auth dir [] = 0"
  "reported auth dir (d # ds)
   = (if td_raw d > 0 \<and> td_auth d = auth \<and> td_direction d = dir then td_raw d else 0) + reported auth dir ds"
  "reported auth dir (ds @ es) = reported auth dir ds + reported auth dir es"
  by (simp_all add: reported_def)

section \<open>Recording a report\<close>

definition same_proxies :: "'a traffic_db_scheme \<Rightarrow> 'a traffic_db_scheme \<Rightarrow> bool" where
  "same_proxies db db' \<longleftrightarrow> proxy_db.truncate db' = proxy_db.truncate db"

lemma traffic_credentials_truncate: "traffic_credentials (proxy_db.truncate db) nm auth = traffic_credentials db nm auth"
  by (simp add: traffic_credentials_def proxy_details_def proxy_db.truncate_def)

lemma credential_same:
  "same_proxies db db' \<Longrightarrow> q_GetTrafficCredentialByNodeAuthName db' nm auth = q_GetTrafficCredentialByNodeAuthName db nm auth"
  unfolding q_GetTrafficCredentialByNodeAuthName_def same_proxies_def
  by (metis traffic_credentials_truncate)

lemma GetNode_same: "same_proxies db db' \<Longrightarrow> GetNode db' nm = GetNode db nm"
  by (rule GetNode_cong) (simp_all add: same_proxies_def proxy_db.truncate_def)

lemma same_proxies_refl [simp]: "same_proxies db db"
  by (simp add: same_proxies_def)

lemma same_proxies_trans: "same_proxies a b \<Longrightarrow> same_proxies b c \<Longrightarrow> same_proxies a c"
  by (simp add: same_proxies_def)

lemma same_proxies_simps [simp]:
  "same_proxies db (db\<lparr>db_reports := x\<rparr>)" "same_proxies db (db\<lparr>db_deltas := y\<rparr>)" "same_proxies db (db\<lparr>db_totals := z\<rparr>)"
  by (simp_all add: same_proxies_def proxy_db.truncate_def)

lemma upsert_frame:
  "same_proxies db (q_UpsertTrafficUsageTotal db u dir raw b)"
  "db_reports (q_UpsertTrafficUsageTotal db u dir raw b) = db_reports db"
  "db_deltas (q_UpsertTrafficUsageTotal db u dir raw b) = db_deltas db"
  by (simp_all add: q_UpsertTrafficUsageTotal_def Let_def)

lemma record_deltas_stores:
  assumes "record_deltas bill fresh n rid tm i ds db = Inr db'"
  obtains new where "db_deltas db' = db_deltas db @ new" "db_reports db' = db_reports db" "same_proxies db db'"
    "\<forall>d \<in> set new. dl_report d = rid"
    "\<And>auth dir. q_GetTrafficCredentialByNodeAuthName db (node_name n) auth \<noteq> None
      \<Longrightarrow> sum_raw (\<lambda>d. dl_auth d = auth \<and> dl_direction d = dir) new = reported auth dir ds"
  using assms
proof (induction ds arbitrary: i db thesis)
  case Nil
  then show ?case by simp
next
  case (Cons d ds)
  show ?case
  proof (cases "td_raw d \<le> 0 \<or> q_GetTrafficCredentialByNodeAuthName db (node_name n) (td_auth d) = None")
    case True
    then have rec: "record_deltas bill fresh n rid tm (Suc i) ds db = Inr db'"
      using Cons.prems(2) by (auto split: if_splits)
    obtain new where "db_deltas db' = db_deltas db @ new" "db_reports db' = db_reports db" "same_proxies db db'"
      "\<forall>d \<in> set new. dl_report d = rid"
      and sum: "\<And>auth dir. q_GetTrafficCredentialByNodeAuthName db (node_name n) auth \<noteq> None
        \<Longrightarrow> sum_raw (\<lambda>d. dl_auth d = auth \<and> dl_direction d = dir) new = reported auth dir ds"
      using Cons.IH [OF _ rec] by blast
    then show ?thesis using True by (intro Cons.prems(1) [of new]) auto
  next
    case False
    then obtain u p mult where c: "q_GetTrafficCredentialByNodeAuthName db (node_name n) (td_auth d) = Some (u, p, mult)"
      by auto
    let ?row = "\<lparr>dl_id = fresh i, dl_report = rid, dl_node = node_id n, dl_user = u, dl_proxy = p,
        dl_auth = td_auth d, dl_direction = td_direction d, dl_raw = td_raw d, dl_multiplier = mult,
        dl_billable = bill (td_raw d) mult, dl_counter = td_counter d, dl_epoch = td_epoch d,
        dl_observed_at = (if td_observed_at d = [] then tm else td_observed_at d)\<rparr>"
    let ?db1 = "q_UpsertTrafficUsageTotal (db\<lparr>db_deltas := db_deltas db @ [?row]\<rparr>) u (td_direction d) (td_raw d) (bill (td_raw d) mult)"
    have rec: "record_deltas bill fresh n rid tm (Suc i) ds ?db1 = Inr db'"
      using Cons.prems(2) False c by (auto simp: q_CreateTrafficUsageDelta_def split: if_splits)
    have same: "same_proxies db ?db1" using same_proxies_trans [OF same_proxies_simps(2) upsert_frame(1)] .
    obtain new where "db_deltas db' = db_deltas ?db1 @ new" "db_reports db' = db_reports ?db1" "same_proxies ?db1 db'"
      "\<forall>d \<in> set new. dl_report d = rid"
      and sum: "\<And>auth dir. q_GetTrafficCredentialByNodeAuthName ?db1 (node_name n) auth \<noteq> None
        \<Longrightarrow> sum_raw (\<lambda>d. dl_auth d = auth \<and> dl_direction d = dir) new = reported auth dir ds"
      using Cons.IH [OF _ rec] by blast
    then show ?thesis
      using False same_proxies_trans [OF same] credential_same [OF same]
      by (intro Cons.prems(1) [of "?row # new"]) (auto simp: upsert_frame)
  qed
qed

definition has_seq :: "'a traffic_db_scheme \<Rightarrow> string \<Rightarrow> string \<Rightarrow> int \<Rightarrow> bool" where
  "has_seq db nid boot k \<longleftrightarrow> (\<exists>r \<in> set (db_reports db). rp_node r = nid \<and> rp_boot r = boot \<and> rp_seq r = k)"

definition of_boot :: "'a traffic_db_scheme \<Rightarrow> string \<Rightarrow> string \<Rightarrow> delta_row \<Rightarrow> bool" where
  "of_boot db nid boot d \<longleftrightarrow> (\<exists>r \<in> set (db_reports db). rp_id r = dl_report d \<and> rp_node r = nid \<and> rp_boot r = boot)"

text \<open>The bytes stored for an account and a direction from the reports of one node and boot.\<close>

definition stored :: "'a traffic_db_scheme \<Rightarrow> string \<Rightarrow> string \<Rightarrow> string \<Rightarrow> string \<Rightarrow> int" where
  "stored db nid boot auth dir = sum_raw (\<lambda>d. dl_auth d = auth \<and> dl_direction d = dir \<and> of_boot db nid boot d) (db_deltas db)"

definition refs_ok :: "'a traffic_db_scheme \<Rightarrow> bool" where
  "refs_ok db \<longleftrightarrow> (\<forall>d \<in> set (db_deltas db). dl_report d \<in> rp_id ` set (db_reports db))"

text \<open>A report that succeeds was known before and changes nothing, or is stored with all it asks for.\<close>

lemma RecordTrafficReport_cases:
  assumes "RecordTrafficReport bill clock fresh rid db nm r = Inr db'" and "GetNode db nm = Some n" and "refs_ok db"
  obtains (known) "has_seq db (node_id n) (tr_boot r) (tr_seq r)" "db' = db"
  | (recorded) row where "\<not> has_seq db (node_id n) (tr_boot r) (tr_seq r)"
      "db_reports db' = db_reports db @ [row]" "rp_node row = node_id n" "rp_boot row = tr_boot r" "rp_seq row = tr_seq r"
      "same_proxies db db'" "refs_ok db'"
      "\<And>auth dir. q_GetTrafficCredentialByNodeAuthName db (node_name n) auth \<noteq> None
        \<Longrightarrow> stored db' (node_id n) (tr_boot r) auth dir = stored db (node_id n) (tr_boot r) auth dir + reported auth dir (tr_deltas r)"
      "\<And>nid boot auth dir. nid \<noteq> node_id n \<or> boot \<noteq> tr_boot r \<Longrightarrow> stored db' nid boot auth dir = stored db nid boot auth dir"
proof -
  define tm where "tm = (if tr_reported_at r = [] then clock else tr_reported_at r)"
  define row where "row = \<lparr>rp_id = rid, rp_node = node_id n, rp_seq = tr_seq r, rp_boot = tr_boot r, rp_reported_at = tm\<rparr>"
  note rec = assms(1) [unfolded RecordTrafficReport_def assms(2) Let_def option.case tm_def [symmetric] row_def [symmetric]]
  show ?thesis
  proof (cases "q_CreateTrafficReport db row")
    case None
    then have "db' = db" and "q_GetTrafficReportBySequence db (node_id n) (tr_boot r) (tr_seq r) \<noteq> None"
      using rec by (simp_all split: option.splits)
    then show ?thesis
      by (intro known) (auto simp: q_GetTrafficReportBySequence_def has_seq_def sel_None_iff)
  next
    case (Some db1)
    then have db1: "db1 = db\<lparr>db_reports := db_reports db @ [row]\<rparr>" and fresh: "rid \<notin> rp_id ` set (db_reports db)"
      and nk: "\<not> has_seq db (node_id n) (tr_boot r) (tr_seq r)"
      by (auto simp: q_CreateTrafficReport_def list_ex_iff row_def has_seq_def split: if_splits)
    have "record_deltas bill fresh n rid tm 0 (tr_deltas r) db1 = Inr db'" using rec Some by simp
    then obtain new where new: "db_deltas db' = db_deltas db1 @ new" "db_reports db' = db_reports db1" "same_proxies db1 db'"
      "\<forall>d \<in> set new. dl_report d = rid"
      and sum: "\<And>auth dir. q_GetTrafficCredentialByNodeAuthName db1 (node_name n) auth \<noteq> None
        \<Longrightarrow> sum_raw (\<lambda>d. dl_auth d = auth \<and> dl_direction d = dir) new = reported auth dir (tr_deltas r)"
      by (rule record_deltas_stores) blast
    have same: "same_proxies db db1" by (simp add: db1)
    have old: "of_boot db' nid boot d = of_boot db nid boot d" if "d \<in> set (db_deltas db)" for d nid boot
      using that assms(3) fresh new(2) by (auto simp: of_boot_def db1 refs_ok_def row_def)
    have added: "of_boot db' nid boot d \<longleftrightarrow> nid = node_id n \<and> boot = tr_boot r" if "d \<in> set new" for d nid boot
      using that new(2,4) fresh by (auto simp: of_boot_def db1 row_def)
    have split: "stored db' nid boot auth dir = stored db nid boot auth dir
        + sum_raw (\<lambda>d. dl_auth d = auth \<and> dl_direction d = dir \<and> of_boot db' nid boot d) new" for nid boot auth dir
      using sum_raw_cong [of "db_deltas db" "\<lambda>d. dl_auth d = auth \<and> dl_direction d = dir \<and> of_boot db' nid boot d"
          "\<lambda>d. dl_auth d = auth \<and> dl_direction d = dir \<and> of_boot db nid boot d"] old new(1)
      by (simp add: stored_def db1)
    show ?thesis
    proof (rule recorded [of row])
      show "\<not> has_seq db (node_id n) (tr_boot r) (tr_seq r)" by (rule nk)
      show "db_reports db' = db_reports db @ [row]" using new(2) by (simp add: db1)
      show "rp_node row = node_id n" "rp_boot row = tr_boot r" "rp_seq row = tr_seq r" by (simp_all add: row_def)
      show "same_proxies db db'" using same_proxies_trans [OF same new(3)] .
      show "refs_ok db'" using assms(3) new by (auto simp: refs_ok_def db1 row_def)
      show "stored db' (node_id n) (tr_boot r) auth dir = stored db (node_id n) (tr_boot r) auth dir + reported auth dir (tr_deltas r)"
        if "q_GetTrafficCredentialByNodeAuthName db (node_name n) auth \<noteq> None" for auth dir
        using split [of "node_id n" "tr_boot r" auth dir] sum [of auth dir] that credential_same [OF same]
          sum_raw_cong [of new "\<lambda>d. dl_auth d = auth \<and> dl_direction d = dir \<and> of_boot db' (node_id n) (tr_boot r) d"
            "\<lambda>d. dl_auth d = auth \<and> dl_direction d = dir"] added
        by simp
      show "stored db' nid boot auth dir = stored db nid boot auth dir" if "nid \<noteq> node_id n \<or> boot \<noteq> tr_boot r" for nid boot auth dir
        using split [of nid boot auth dir] that added
          sum_raw_none [of new "\<lambda>d. dl_auth d = auth \<and> dl_direction d = dir \<and> of_boot db' nid boot d"] by auto
    qed
  qed
qed

section \<open>Reading the counters\<close>

text \<open>The bytes that the readings of one counter show, when it stood at \<open>prev\<close> before them.\<close>

fun counted :: "string \<Rightarrow> int \<Rightarrow> (string \<times> int) list \<Rightarrow> int" where
  "counted name prev [] = 0"
| "counted name prev ((nm, v) # rs) =
     (if nm = name then (if v < prev then v else v - prev) + counted name v rs else counted name prev rs)"

fun last_value :: "string \<Rightarrow> int \<Rightarrow> (string \<times> int) list \<Rightarrow> int" where
  "last_value name prev [] = prev"
| "last_value name prev ((nm, v) # rs) = last_value name (if nm = name then v else prev) rs"

lemma counted_append: "counted name prev (rs @ qs) = counted name prev rs + counted name (last_value name prev rs) qs"
  by (induction name prev rs rule: counted.induct) auto

lemma last_value_append: "last_value name prev (rs @ qs) = last_value name (last_value name prev rs) qs"
  by (induction name prev rs rule: last_value.induct) auto

text \<open>Counter values are non-negative 64-bit integers.\<close>

definition values_ok :: "(string \<times> int) list \<Rightarrow> bool" where
  "values_ok rs \<longleftrightarrow> (\<forall>(nm, v) \<in> set rs. 0 \<le> v \<and> v < 2 ^ 63)"

definition counters_ok :: "traffic_state \<Rightarrow> bool" where
  "counters_ok st \<longleftrightarrow> (\<forall>nm. 0 \<le> ts_counters st nm \<and> ts_counters st nm < 2 ^ 63)"

fun join_str :: "string \<Rightarrow> string list \<Rightarrow> string" where
  "join_str sep [] = []"
| "join_str sep [s] = s"
| "join_str sep (s # ss) = s @ sep @ join_str sep ss"

lemma split_str_not_Nil: "split_str sep s \<noteq> []"
  by (subst split_str.simps) (auto split: list.splits)

lemma join_split: "join_str sep (split_str sep s) = s"
proof (induction sep s rule: split_str.induct)
  case (1 sep s)
  show ?case
  proof (cases "s = [] \<or> sep = []")
    case True
    then show ?thesis by (simp add: split_str.simps)
  next
    case False
    show ?thesis
    proof (cases "has_prefix s sep")
      case True
      then obtain t where t: "s = sep @ t" by (auto simp: has_prefix_iff)
      then have "join_str sep (split_str sep t) = t" using "1.IH"(1) False True by simp
      moreover obtain y ys where "split_str sep t = y # ys" using split_str_not_Nil by (cases "split_str sep t") auto
      ultimately show ?thesis using t False True by (subst split_str.simps) simp
    next
      case np: False
      obtain c s' where s: "s = c # s'" using False by (cases s) auto
      have IH: "join_str sep (split_str sep s') = s'" using "1.IH"(2) False np s by simp
      show ?thesis
      proof (cases "split_str sep s'")
        case Nil
        then show ?thesis using s False np by (subst split_str.simps) simp
      next
        case (Cons y ys)
        then have "split_str sep s = (c # y) # ys" using s False np by (subst split_str.simps) simp
        then show ?thesis using IH Cons s by (cases ys) auto
      qed
    qed
  qed
qed

text \<open>The account and the direction determine the name of the counter.\<close>

lemma parse_stat_name:
  assumes "parseUserTrafficStat nm = Some (auth, dir)"
  shows "nm = join_str ''>>>'' [''user'', auth, ''traffic'', dir]" and "dir \<in> {''uplink'', ''downlink''}"
proof -
  obtain a b c d where "split_str ''>>>'' nm = [a, b, c, d]" "a = ''user''" "c = ''traffic''" "b = auth" "d = dir"
    and dir: "dir \<in> {''uplink'', ''downlink''}"
    using assms by (auto simp: parseUserTrafficStat_def split: list.splits if_splits)
  then show "nm = join_str ''>>>'' [''user'', auth, ''traffic'', dir]" using join_split [of "''>>>''" nm] by metis
  show "dir \<in> {''uplink'', ''downlink''}" by (rule dir)
qed

lemma parse_stat_inj:
  "parseUserTrafficStat nm = Some ad \<Longrightarrow> parseUserTrafficStat nm' = Some ad \<Longrightarrow> nm = nm'"
  using parse_stat_name(1) by (metis surj_pair)

lemma observe_step:
  assumes "observe now (nm, v) (st, ds) = (st', ds')" and "counters_ok st" and "0 \<le> v" "v < 2 ^ 63"
  shows "counters_ok st' \<and> ts_boot st' = ts_boot st \<and> ts_seq st' = ts_seq st \<and> ts_pending st' = ts_pending st
    \<and> (\<forall>name auth dir. parseUserTrafficStat name = Some (auth, dir) \<longrightarrow>
         ts_counters st' name = last_value name (ts_counters st name) [(nm, v)]
         \<and> reported auth dir ds' = reported auth dir ds + counted name (ts_counters st name) [(nm, v)])"
proof (cases "parseUserTrafficStat nm")
  case None
  then show ?thesis using assms by (auto simp: observe_def)
next
  case (Some ad)
  obtain auth dir where ad: "ad = (auth, dir)" by fastforce
  have "0 \<le> ts_counters st nm" "ts_counters st nm < 2 ^ 63" using assms(2) by (auto simp: counters_ok_def)
  then have "\<bar>v - ts_counters st nm\<bar> < 2 ^ 63" using assms(3,4) by linarith
  then have w: "wrap64 (v - ts_counters st nm) = v - ts_counters st nm" by (rule wrap64_small)
  have st': "counters_ok st'" "ts_boot st' = ts_boot st" "ts_seq st' = ts_seq st" "ts_pending st' = ts_pending st"
      "ts_counters st' = (ts_counters st)(nm := v)"
    using assms Some ad by (auto simp: observe_def Let_def counters_ok_def split: if_splits)
  have ds': "reported a d ds' = reported a d ds
      + (if (a, d) = (auth, dir) then if v < ts_counters st nm then v else v - ts_counters st nm else 0)" for a d
    using assms Some ad w by (auto simp: observe_def Let_def split: if_splits)
  have "ts_counters st' name = last_value name (ts_counters st name) [(nm, v)]
      \<and> reported a d ds' = reported a d ds + counted name (ts_counters st name) [(nm, v)]"
    if "parseUserTrafficStat name = Some (a, d)" for name a d
  proof (cases "name = nm")
    case True
    then show ?thesis using that Some ad st' ds' by simp
  next
    case False
    then have "(a, d) \<noteq> (auth, dir)" using parse_stat_inj [of name "(auth, dir)" nm] that Some ad by auto
    then show ?thesis using False st' ds' by auto
  qed
  then show ?thesis using st' by blast
qed

lemma collect_deltas_spec:
  assumes "collect_deltas now stats st = (st', ds)" and "counters_ok st" and "values_ok stats"
  shows "counters_ok st' \<and> ts_boot st' = ts_boot st \<and> ts_seq st' = ts_seq st \<and> ts_pending st' = ts_pending st
    \<and> (\<forall>name auth dir. parseUserTrafficStat name = Some (auth, dir) \<longrightarrow>
         ts_counters st' name = last_value name (ts_counters st name) stats
         \<and> reported auth dir ds = counted name (ts_counters st name) stats)"
proof -
  have "fold (observe now) stats (st, ds0) = (st', ds) \<Longrightarrow> counters_ok st \<Longrightarrow> values_ok stats \<Longrightarrow>
    counters_ok st' \<and> ts_boot st' = ts_boot st \<and> ts_seq st' = ts_seq st \<and> ts_pending st' = ts_pending st
    \<and> (\<forall>name auth dir. parseUserTrafficStat name = Some (auth, dir) \<longrightarrow>
         ts_counters st' name = last_value name (ts_counters st name) stats
         \<and> reported auth dir ds = reported auth dir ds0 + counted name (ts_counters st name) stats)" for ds0
  proof (induction stats arbitrary: st ds0)
    case Nil
    then show ?case by simp
  next
    case (Cons x stats)
    obtain nm v where x: "x = (nm, v)" by fastforce
    obtain st1 ds1 where o: "observe now (nm, v) (st, ds0) = (st1, ds1)" by fastforce
    have v: "0 \<le> v" "v < 2 ^ 63" "values_ok stats" using Cons.prems(3) x by (auto simp: values_ok_def)
    note step = observe_step [OF o Cons.prems(2) v(1,2)]
    have IH: "counters_ok st' \<and> ts_boot st' = ts_boot st1 \<and> ts_seq st' = ts_seq st1 \<and> ts_pending st' = ts_pending st1
      \<and> (\<forall>name auth dir. parseUserTrafficStat name = Some (auth, dir) \<longrightarrow>
         ts_counters st' name = last_value name (ts_counters st1 name) stats
         \<and> reported auth dir ds = reported auth dir ds1 + counted name (ts_counters st1 name) stats)"
      using Cons.IH [of st1 ds1] Cons.prems(1) step v(3) x o by simp
    show ?case
    proof (intro conjI allI impI)
      fix name auth dir
      assume p: "parseUserTrafficStat name = Some (auth, dir)"
      show "ts_counters st' name = last_value name (ts_counters st name) (x # stats)"
        using IH step p by (simp add: x)
      show "reported auth dir ds = reported auth dir ds0 + counted name (ts_counters st name) (x # stats)"
        using IH step p by (simp add: x)
    qed (use IH step in simp_all)
  qed
  then show ?thesis using assms by (simp add: collect_deltas_def)
qed

section \<open>Agent and server together\<close>

text \<open>The state file, the database, and all readings that the state file has taken into account.\<close>

record accounting =
  ac_file :: "traffic_state option"
  ac_db :: traffic_db
  ac_readings :: "(string \<times> int) list"

text \<open>The readings of a call whose result reached the state file.\<close>

definition committed :: "(int \<Rightarrow> rat \<Rightarrow> int) \<Rightarrow> string \<Rightarrow> traffic_env \<Rightarrow> accounting \<Rightarrow> (string \<times> int) list" where
  "committed bill nm e s =
     (case te_stats e of
        None \<Rightarrow> []
      | Some stats \<Rightarrow>
        if te_save2 e \<and> (case ts_pending (LoadState (te_uuid e) (ac_file s)) of
             None \<Rightarrow> True | Some r \<Rightarrow> fst (post_traffic bill nm (te_post1 e) r (ac_db s)) \<and> te_save1 e)
        then stats else [])"

definition account_step :: "(int \<Rightarrow> rat \<Rightarrow> int) \<Rightarrow> string \<Rightarrow> traffic_env \<Rightarrow> accounting \<Rightarrow> accounting" where
  "account_step bill nm e s =
     (case ReportTraffic bill nm e (ac_file s, ac_db s) of
        (ok, file, db) \<Rightarrow> \<lparr>ac_file = file, ac_db = db, ac_readings = ac_readings s @ committed bill nm e s\<rparr>)"

text \<open>
  The agent reports with any failures, and other reports arrive: from other nodes, or from this
  one under another boot id. The sequence number stays below its limit of \<open>2 ^ 63\<close>.
\<close>

inductive account :: "(int \<Rightarrow> rat \<Rightarrow> int) \<Rightarrow> string \<Rightarrow> string \<Rightarrow> string \<Rightarrow> accounting \<Rightarrow> accounting \<Rightarrow> bool"
  for bill nm nid boot where
  report: "(\<forall>stats. te_stats e = Some stats \<longrightarrow> values_ok stats) \<Longrightarrow> (\<forall>st. ac_file s = Some st \<longrightarrow> ts_seq st < 2 ^ 63 - 1)
    \<Longrightarrow> account bill nm nid boot s (account_step bill nm e s)"
| other: "RecordTrafficReport bill clock fresh rid (ac_db s) nm' r = Inr db \<Longrightarrow> GetNode (ac_db s) nm' = Some n
    \<Longrightarrow> node_id n \<noteq> nid \<or> tr_boot r \<noteq> boot \<Longrightarrow> account bill nm nid boot s (s\<lparr>ac_db := db\<rparr>)"

definition undelivered :: "string \<Rightarrow> string \<Rightarrow> traffic_state \<Rightarrow> traffic_db \<Rightarrow> string \<Rightarrow> string \<Rightarrow> int" where
  "undelivered nid boot st db auth dir =
     (case ts_pending st of
        None \<Rightarrow> 0
      | Some p \<Rightarrow> if has_seq db nid boot (tr_seq p) then 0 else reported auth dir (tr_deltas p))"

definition books :: "traffic_db \<Rightarrow> node_row \<Rightarrow> string \<Rightarrow> traffic_state \<Rightarrow> traffic_db \<Rightarrow> (string \<times> int) list \<Rightarrow> bool" where
  "books base n boot st db rs \<longleftrightarrow>
     boot \<noteq> '''' \<and> ts_boot st = boot \<and> counters_ok st \<and> 0 \<le> ts_seq st \<and> same_proxies base db \<and> refs_ok db
     \<and> (\<forall>r \<in> set (db_reports db). rp_node r = node_id n \<and> rp_boot r = boot \<longrightarrow> rp_seq r \<le> ts_seq st)
     \<and> (\<forall>p. ts_pending st = Some p \<longrightarrow> tr_boot p = boot \<and> tr_seq p = ts_seq st)
     \<and> (\<forall>name auth dir. parseUserTrafficStat name = Some (auth, dir) \<longrightarrow>
          ts_counters st name = last_value name 0 rs
          \<and> (q_GetTrafficCredentialByNodeAuthName base (node_name n) auth \<noteq> None \<longrightarrow>
             stored db (node_id n) boot auth dir + undelivered (node_id n) boot st db auth dir = counted name 0 rs))"

lemma has_seq_snoc:
  "db_reports db' = db_reports db @ [row] \<Longrightarrow>
   has_seq db' nid boot k \<longleftrightarrow> has_seq db nid boot k \<or> rp_node row = nid \<and> rp_boot row = boot \<and> rp_seq row = k"
  by (auto simp: has_seq_def)

text \<open>Posting the pending report keeps the books, and an acknowledged report is stored.\<close>

lemma post_books:
  assumes b: "books base n boot st db rs" and p: "ts_pending st = Some p" and n: "GetNode base nm = Some n"
    and post: "post_traffic bill nm e p db = (ok, db')"
  shows "books base n boot st db' rs \<and> (ok \<longrightarrow> has_seq db' (node_id n) boot (tr_seq p))"
proof -
  have n': "GetNode db nm = Some n" using b n GetNode_same [of base db nm] by (simp add: books_def)
  have pb: "tr_boot p = boot" "tr_seq p = ts_seq st" and refs: "refs_ok db" using b p by (auto simp: books_def)
  consider "db' = db" "\<not> ok"
    | db1 where "RecordTrafficReport bill (po_clock e) (po_fresh e) (po_id e) db nm p = Inr db1" "db' = db1"
    using post by (auto simp: post_traffic_def split: if_splits sum.splits)
  then show ?thesis
  proof cases
    case 1
    then show ?thesis using b by simp
  next
    case (2 db1)
    from 2(1) n' refs show ?thesis
    proof (cases rule: RecordTrafficReport_cases)
      case known
      then show ?thesis using b pb 2(2) by simp
    next
      case (recorded row)
      have "has_seq db' (node_id n) boot (tr_seq p)" using recorded(2-5) pb 2(2) by (simp add: has_seq_snoc)
      moreover have "stored db' (node_id n) boot auth dir + undelivered (node_id n) boot st db' auth dir
          = stored db (node_id n) boot auth dir + undelivered (node_id n) boot st db auth dir"
        if "q_GetTrafficCredentialByNodeAuthName base (node_name n) auth \<noteq> None" for auth dir
        using that recorded(1) recorded(8) [of auth dir] credential_same [of base db "node_name n" auth] b p pb 2(2) calculation
        by (simp add: undelivered_def books_def)
      ultimately show ?thesis
        using b recorded(2-7) pb 2(2) same_proxies_trans [of base db db'] unfolding books_def by auto
    qed
  qed
qed

lemma clear_books:
  assumes "books base n boot st db rs" and "ts_pending st = Some p" and "has_seq db (node_id n) boot (tr_seq p)"
  shows "books base n boot (st\<lparr>ts_pending := None\<rparr>) db rs"
  using assms by (auto simp: books_def counters_ok_def undelivered_def)

text \<open>Taking new readings into account, with the report that they give.\<close>

lemma collect_books:
  assumes b: "books base n boot st db rs" and p: "ts_pending st = None" and "values_ok stats" and s: "ts_seq st < 2 ^ 63 - 1"
    and c: "collect_deltas now stats st = (st1, ds)"
  shows "ds = [] \<Longrightarrow> books base n boot st1 db (rs @ stats)"
    and "books base n boot (st1\<lparr>ts_seq := wrap64 (ts_seq st1 + 1), ts_pending := Some \<lparr>tr_seq = wrap64 (ts_seq st1 + 1),
      tr_boot = ts_boot st1, tr_reported_at = now, tr_deltas = ds\<rparr>\<rparr>) db (rs @ stats)"
proof -
  have ok: "counters_ok st" using b by (simp add: books_def)
  note spec = collect_deltas_spec [OF c ok assms(3)]
  have "0 \<le> ts_seq st" using b by (simp add: books_def)
  then have w: "wrap64 (ts_seq st1 + 1) = ts_seq st + 1" using s spec by (simp add: int64_def)
  have new: "\<not> has_seq db (node_id n) boot (ts_seq st + 1)" using b by (auto simp: books_def has_seq_def)
  have cnt: "ts_counters st1 name = last_value name 0 (rs @ stats)"
    "counted name 0 (rs @ stats) = counted name 0 rs + reported auth dir ds"
    if "parseUserTrafficStat name = Some (auth, dir)" for name auth dir
    using that b spec by (auto simp: books_def last_value_append counted_append)
  show "books base n boot st1 db (rs @ stats)" if "ds = []"
    using b p that spec cnt by (auto simp: books_def undelivered_def)
  show "books base n boot (st1\<lparr>ts_seq := wrap64 (ts_seq st1 + 1), ts_pending := Some \<lparr>tr_seq = wrap64 (ts_seq st1 + 1),
      tr_boot = ts_boot st1, tr_reported_at = now, tr_deltas = ds\<rparr>\<rparr>) db (rs @ stats)"
    using b p spec cnt new unfolding w books_def by (auto simp: undelivered_def counters_ok_def)
qed

lemma report_new_books:
  assumes b: "books base n boot st db rs" and p: "ts_pending st = None" and n: "GetNode base nm = Some n"
    and v: "\<forall>stats. te_stats e = Some stats \<longrightarrow> values_ok stats" and s: "ts_seq st < 2 ^ 63 - 1"
    and disk: "books base n boot st0 db rs"
    and r: "report_new bill nm e st (Some st0, db) = (ok, file', db')"
  shows "\<exists>st'. file' = Some st'
    \<and> books base n boot st' db' (rs @ (case te_stats e of Some stats \<Rightarrow> if te_save2 e then stats else [] | None \<Rightarrow> []))"
proof (cases "te_stats e")
  case None
  then show ?thesis using r disk by (auto simp: report_new_def)
next
  case (Some stats)
  obtain st1 ds where c: "collect_deltas (te_now e) stats st = (st1, ds)" by fastforce
  let ?r = "\<lparr>tr_seq = wrap64 (ts_seq st1 + 1), tr_boot = ts_boot st1, tr_reported_at = te_now e, tr_deltas = ds\<rparr>"
  let ?st2 = "st1\<lparr>ts_seq := wrap64 (ts_seq st1 + 1), ts_pending := Some ?r\<rparr>"
  have "values_ok stats" using v Some by simp
  note col = collect_books [OF b p this s c]
  show ?thesis
  proof (cases "\<not> te_save2 e \<or> ds = []")
    case True
    then show ?thesis
      using r Some c col(1) disk by (cases "ds = []"; cases "te_save2 e") (auto simp: report_new_def Let_def)
  next
    case False
    obtain ok1 db1 where post: "post_traffic bill nm (te_post2 e) ?r db = (ok1, db1)" by fastforce
    have pb: "books base n boot ?st2 db1 (rs @ stats) \<and> (ok1 \<longrightarrow> has_seq db1 (node_id n) boot (tr_seq ?r))"
      by (rule post_books [OF col(2) _ n post]) simp
    then have "ok1 \<longrightarrow> books base n boot (?st2\<lparr>ts_pending := None\<rparr>) db1 (rs @ stats)"
      using clear_books [of base n boot ?st2 db1 "rs @ stats" ?r] by simp
    then show ?thesis
      using r Some c post False pb by (cases ok1) (auto simp: report_new_def Let_def)
  qed
qed

lemma account_step_books:
  assumes b: "books base n boot st (ac_db s) (ac_readings s)" and f: "ac_file s = Some st" and n: "GetNode base nm = Some n"
    and v: "\<forall>stats. te_stats e = Some stats \<longrightarrow> values_ok stats" and s: "ts_seq st < 2 ^ 63 - 1"
  shows "\<exists>st'. ac_file (account_step bill nm e s) = Some st'
    \<and> books base n boot st' (ac_db (account_step bill nm e s)) (ac_readings (account_step bill nm e s))"
proof -
  obtain ok file' db' where r: "ReportTraffic bill nm e (Some st, ac_db s) = (ok, file', db')" by (metis prod_cases3)
  have load: "LoadState (te_uuid e) (Some st) = st" using b by (simp add: LoadState_def books_def)
  let ?c = "case te_stats e of Some stats \<Rightarrow> if te_save2 e then stats else [] | None \<Rightarrow> []"
  have "\<exists>st'. file' = Some st' \<and> books base n boot st' db' (ac_readings s @ committed bill nm e s)"
  proof (cases "ts_pending st")
    case None
    then have "report_new bill nm e st (Some st, ac_db s) = (ok, file', db')" using r load by (simp add: ReportTraffic_def)
    moreover have "committed bill nm e s = ?c" using None f load by (simp add: committed_def split: option.splits)
    ultimately show ?thesis using report_new_books [OF b None n v s b] by simp
  next
    case (Some p)
    obtain ok1 db1 where post: "post_traffic bill nm (te_post1 e) p (ac_db s) = (ok1, db1)" by fastforce
    note pb = post_books [OF b Some n post]
    show ?thesis
    proof (cases "ok1 \<and> te_save1 e")
      case False
      then have "committed bill nm e s = []" using Some f load post by (auto simp: committed_def split: option.splits)
      moreover have "file' = Some st \<and> db' = db1"
        using r load Some post False by (cases ok1) (simp_all add: ReportTraffic_def)
      ultimately show ?thesis using pb by simp
    next
      case True
      let ?st = "st\<lparr>ts_pending := None\<rparr>"
      have cb: "books base n boot ?st db1 (ac_readings s)" using clear_books [OF _ Some] pb True by blast
      have "report_new bill nm e ?st (Some ?st, db1) = (ok, file', db')" using r load Some post True by (simp add: ReportTraffic_def)
      moreover have "committed bill nm e s = ?c" using Some f load post True by (auto simp: committed_def split: option.splits)
      ultimately show ?thesis using report_new_books [OF cb _ n v _ cb] s by simp
    qed
  qed
  then show ?thesis using r f by (simp add: account_step_def)
qed

lemma other_books:
  assumes b: "books base n boot st db rs" and "RecordTrafficReport bill clock fresh rid db nm' r = Inr db'"
    and "GetNode db nm' = Some n'" and d: "node_id n' \<noteq> node_id n \<or> tr_boot r \<noteq> boot"
  shows "books base n boot st db' rs"
proof -
  have refs: "refs_ok db" using b by (simp add: books_def)
  from assms(2,3) refs show ?thesis
  proof (cases rule: RecordTrafficReport_cases)
    case known
    then show ?thesis using b by simp
  next
    case (recorded row)
    have "stored db' (node_id n) boot auth dir = stored db (node_id n) boot auth dir" for auth dir
      by (rule recorded(9)) (use d in auto)
    moreover have "has_seq db' (node_id n) boot k = has_seq db (node_id n) boot k" for k
      using has_seq_snoc [OF recorded(2)] recorded(3,4) d by auto
    then have "undelivered (node_id n) boot st db' auth dir = undelivered (node_id n) boot st db auth dir" for auth dir
      by (simp add: undelivered_def split: option.splits)
    moreover have "\<forall>x \<in> set (db_reports db'). rp_node x = node_id n \<and> rp_boot x = boot \<longrightarrow> rp_seq x \<le> ts_seq st"
      using b recorded(2-4) d by (auto simp: books_def)
    moreover have "same_proxies base db'" using b recorded(6) same_proxies_trans [of base db db'] by (simp add: books_def)
    ultimately show ?thesis
      using b recorded(7) unfolding books_def by metis
  qed
qed

interpretation account_sys: invariant_system "account bill nm (node_id n) boot"
  "\<lambda>s. GetNode base nm = Some n \<and> (\<exists>st. ac_file s = Some st \<and> books base n boot st (ac_db s) (ac_readings s))"
  for bill nm n boot base
proof
  fix s t
  assume i: "GetNode base nm = Some n \<and> (\<exists>st. ac_file s = Some st \<and> books base n boot st (ac_db s) (ac_readings s))"
    and "account bill nm (node_id n) boot s t"
  from this(2) show "GetNode base nm = Some n \<and> (\<exists>st. ac_file t = Some st \<and> books base n boot st (ac_db t) (ac_readings t))"
  proof (cases rule: account.cases)
    case (report e)
    then show ?thesis using i account_step_books [of base n boot _ s nm e bill] by blast
  next
    case (other clock fresh rid nm' r db n')
    then show ?thesis using i other_books [of base n boot _ "ac_db s" "ac_readings s" bill clock fresh rid nm' r db n'] by auto
  qed
qed


section \<open>Totals\<close>

definition used :: "string \<Rightarrow> string \<Rightarrow> delta_row \<Rightarrow> bool" where
  "used u dir d \<longleftrightarrow> dl_user d = u \<and> dl_direction d = dir"

definition total_of :: "'a traffic_db_scheme \<Rightarrow> string \<Rightarrow> string \<Rightarrow> int \<times> int" where
  "total_of db u dir =
     (case sel (\<lambda>t. tt_user t = u \<and> tt_direction t = dir) (db_totals db) of
        Some t \<Rightarrow> (tt_raw t, tt_billable t) | None \<Rightarrow> (0, 0))"

definition totals_ok :: "'a traffic_db_scheme \<Rightarrow> bool" where
  "totals_ok db \<longleftrightarrow> distinct (map (\<lambda>t. (tt_user t, tt_direction t)) (db_totals db))
     \<and> (\<forall>u dir. total_of db u dir = (sum_raw (used u dir) (db_deltas db), sum_billable (used u dir) (db_deltas db)))"

lemma upsert_total:
  assumes "distinct (map (\<lambda>t. (tt_user t, tt_direction t)) (db_totals db))"
  shows "distinct (map (\<lambda>t. (tt_user t, tt_direction t)) (db_totals (q_UpsertTrafficUsageTotal db u dir raw b)))"
    and "total_of (q_UpsertTrafficUsageTotal db u dir raw b) v e
      = (if (v, e) = (u, dir) then (fst (total_of db u dir) + raw, snd (total_of db u dir) + b) else total_of db v e)"
proof -
  let ?key = "\<lambda>t. (tt_user t, tt_direction t)" and ?f = "\<lambda>t. t\<lparr>tt_raw := tt_raw t + raw, tt_billable := tt_billable t + b\<rparr>"
  let ?K = "\<lambda>t. tt_user t = u \<and> tt_direction t = dir" and ?ts = "db_totals db"
  have keys: "map ?key (upd ?K ?f ?ts) = map ?key ?ts" by (rule map_key_upd) simp
  have sel: "sel (\<lambda>t. tt_user t = v \<and> tt_direction t = e) (upd ?K ?f ?ts)
      = map_option (\<lambda>t. if ?K t then ?f t else t) (sel (\<lambda>t. tt_user t = v \<and> tt_direction t = e) ?ts)"
    using sel_upd_key [of ?K ?key ?f "(v, e)" ?ts] by simp
  show "distinct (map ?key (db_totals (q_UpsertTrafficUsageTotal db u dir raw b)))"
  proof (cases "list_ex ?K ?ts")
    case True
    then show ?thesis using assms keys by (simp add: q_UpsertTrafficUsageTotal_def)
  next
    case False
    then show ?thesis using assms by (auto simp: q_UpsertTrafficUsageTotal_def list_ex_iff Let_def)
  qed
  show "total_of (q_UpsertTrafficUsageTotal db u dir raw b) v e
      = (if (v, e) = (u, dir) then (fst (total_of db u dir) + raw, snd (total_of db u dir) + b) else total_of db v e)"
  proof (cases "list_ex ?K ?ts")
    case True
    then have some: "sel ?K ?ts \<noteq> None" by (auto simp: list_ex_iff sel_None_iff)
    have "total_of (q_UpsertTrafficUsageTotal db u dir raw b) v e
        = (case map_option (\<lambda>t. if ?K t then ?f t else t) (sel (\<lambda>t. tt_user t = v \<and> tt_direction t = e) ?ts) of
            Some t \<Rightarrow> (tt_raw t, tt_billable t) | None \<Rightarrow> (0, 0))"
      using True sel by (simp add: total_of_def q_UpsertTrafficUsageTotal_def)
    then show ?thesis
      using some by (auto simp: total_of_def dest: sel_SomeD split: option.splits)
  next
    case False
    then have "sel ?K ?ts = None" by (auto simp: list_ex_iff sel_None_iff)
    then show ?thesis
      using False by (auto simp: total_of_def q_UpsertTrafficUsageTotal_def sel_append split: option.splits)
  qed
qed

lemma record_deltas_totals:
  "record_deltas bill fresh n rid tm i ds db = Inr db' \<Longrightarrow> totals_ok db \<Longrightarrow> totals_ok db'"
proof (induction ds arbitrary: i db)
  case (Cons d ds)
  show ?case
  proof (cases "td_raw d \<le> 0 \<or> q_GetTrafficCredentialByNodeAuthName db (node_name n) (td_auth d) = None")
    case True
    then have "record_deltas bill fresh n rid tm (Suc i) ds db = Inr db'" using Cons.prems(1) by (auto split: if_splits)
    then show ?thesis using Cons by blast
  next
    case False
    then obtain u p mult where c: "q_GetTrafficCredentialByNodeAuthName db (node_name n) (td_auth d) = Some (u, p, mult)"
      by auto
    define row where "row = \<lparr>dl_id = fresh i, dl_report = rid, dl_node = node_id n, dl_user = u, dl_proxy = p,
        dl_auth = td_auth d, dl_direction = td_direction d, dl_raw = td_raw d, dl_multiplier = mult,
        dl_billable = bill (td_raw d) mult, dl_counter = td_counter d, dl_epoch = td_epoch d,
        dl_observed_at = (if td_observed_at d = [] then tm else td_observed_at d)\<rparr>"
    have rec: "record_deltas bill fresh n rid tm (Suc i) ds (q_UpsertTrafficUsageTotal (db\<lparr>db_deltas := db_deltas db @ [row]\<rparr>)
        u (td_direction d) (td_raw d) (bill (td_raw d) mult)) = Inr db'"
      using Cons.prems(1) False c by (auto simp: q_CreateTrafficUsageDelta_def row_def split: if_splits)
    have row: "dl_user row = u" "dl_direction row = td_direction d" "dl_raw row = td_raw d" "dl_billable row = bill (td_raw d) mult"
      by (simp_all add: row_def)
    let ?db0 = "db\<lparr>db_deltas := db_deltas db @ [row]\<rparr>"
    have "distinct (map (\<lambda>t. (tt_user t, tt_direction t)) (db_totals ?db0))" and "total_of ?db0 = total_of db"
      using Cons.prems(2) by (auto simp: totals_ok_def total_of_def fun_eq_iff)
    then have "totals_ok (q_UpsertTrafficUsageTotal ?db0 u (td_direction d) (td_raw d) (bill (td_raw d) mult))"
      using Cons.prems(2) row upsert_total [of ?db0 u "td_direction d" "td_raw d" "bill (td_raw d) mult"]
      by (auto simp: totals_ok_def upsert_frame used_def)
    then show ?thesis using Cons.IH [OF rec] by blast
  qed
qed simp

definition record_step :: "(int \<Rightarrow> rat \<Rightarrow> int) \<Rightarrow> traffic_db \<Rightarrow> traffic_db \<Rightarrow> bool" where
  "record_step bill db db' \<longleftrightarrow> (\<exists>clock fresh rid nm r. RecordTrafficReport bill clock fresh rid db nm r = Inr db')"

lemma RecordTrafficReport_totals:
  assumes "RecordTrafficReport bill clock fresh rid db nm r = Inr db'" and "totals_ok db"
  shows "totals_ok db'"
proof -
  have "totals_ok (db\<lparr>db_reports := x\<rparr>)" for x using assms(2) by (simp add: totals_ok_def total_of_def)
  then show ?thesis
    using assms
    by (auto simp: RecordTrafficReport_def q_CreateTrafficReport_def Let_def split: option.splits if_splits intro: record_deltas_totals)
qed

interpretation totals_sys: invariant_system "record_step bill" totals_ok for bill
  by unfold_locales (use RecordTrafficReport_totals in \<open>auto simp: record_step_def\<close>)

text \<open>
  C35: the totals are the sums of the stored deltas. After any sequence of reports, each row of a
  user's traffic summary gives, for a live user the reference names, exactly the raw and the
  billable bytes of the stored deltas of that user and direction, and a direction with traffic
  always has its row.
\<close>

theorem totals_are_sums:
  assumes "run (record_step bill) db0 db" and "totals_ok db0"
  shows "(\<forall>row \<in> set (SumTrafficByUser db nm). \<exists>u \<in> set (db_users db). \<exists>dir.
      us_deleted_at u = None \<and> normalizeName nm \<in> {us_id u, us_name u}
      \<and> row = (us_name u, dir, sum_raw (used (us_id u) dir) (db_deltas db), sum_billable (used (us_id u) dir) (db_deltas db)))
    \<and> (\<forall>u \<in> set (db_users db). \<forall>dir. us_deleted_at u = None \<and> normalizeName nm \<in> {us_id u, us_name u}
         \<and> sum_raw (used (us_id u) dir) (db_deltas db) > 0 \<longrightarrow>
         (us_name u, dir, sum_raw (used (us_id u) dir) (db_deltas db), sum_billable (used (us_id u) dir) (db_deltas db))
         \<in> set (SumTrafficByUser db nm))"
proof -
  have ok: "totals_ok db" using totals_sys.run_inv [OF assms] .
  have sums: "tt_raw t = sum_raw (used (tt_user t) (tt_direction t)) (db_deltas db)"
    "tt_billable t = sum_billable (used (tt_user t) (tt_direction t)) (db_deltas db)" if "t \<in> set (db_totals db)" for t
  proof -
    have "total_of db (tt_user t) (tt_direction t) = (tt_raw t, tt_billable t)"
      using ok that sel_key [of "\<lambda>t. (tt_user t, tt_direction t)" "db_totals db" t] by (simp add: totals_ok_def total_of_def)
    moreover have "total_of db (tt_user t) (tt_direction t) = (sum_raw (used (tt_user t) (tt_direction t)) (db_deltas db),
        sum_billable (used (tt_user t) (tt_direction t)) (db_deltas db))"
      using ok by (simp add: totals_ok_def)
    ultimately show "tt_raw t = sum_raw (used (tt_user t) (tt_direction t)) (db_deltas db)"
      "tt_billable t = sum_billable (used (tt_user t) (tt_direction t)) (db_deltas db)" by simp_all
  qed
  have total: "\<exists>t \<in> set (db_totals db). tt_user t = u \<and> tt_direction t = dir"
    if "sum_raw (used u dir) (db_deltas db) > 0" for u dir
  proof -
    have "total_of db u dir \<noteq> (0, 0)" using ok that by (auto simp: totals_ok_def)
    then show ?thesis by (auto simp: total_of_def dest: sel_SomeD split: option.splits)
  qed
  show ?thesis
  proof (intro conjI ballI allI impI)
    fix row
    assume "row \<in> set (SumTrafficByUser db nm)"
    then obtain t u where "t \<in> set (db_totals db)" "u \<in> set (db_users db)" "us_id u = tt_user t" "us_deleted_at u = None"
      "normalizeName nm \<in> {us_id u, us_name u}" "row = (us_name u, tt_direction t, tt_raw t, tt_billable t)"
      by (auto simp: SumTrafficByUser_def q_SumTrafficByUser_def)
    then show "\<exists>u \<in> set (db_users db). \<exists>dir. us_deleted_at u = None \<and> normalizeName nm \<in> {us_id u, us_name u}
      \<and> row = (us_name u, dir, sum_raw (used (us_id u) dir) (db_deltas db), sum_billable (used (us_id u) dir) (db_deltas db))"
      using sums by metis
  next
    fix u dir
    assume u: "u \<in> set (db_users db)" and r: "us_deleted_at u = None \<and> normalizeName nm \<in> {us_id u, us_name u}
         \<and> sum_raw (used (us_id u) dir) (db_deltas db) > 0"
    then obtain t where t: "t \<in> set (db_totals db)" "tt_user t = us_id u" "tt_direction t = dir" using total by blast
    have "(us_name u, dir, tt_raw t, tt_billable t) \<in> set (SumTrafficByUser db nm)"
      unfolding SumTrafficByUser_def q_SumTrafficByUser_def using u r t by (force simp: image_iff)
    then show "(us_name u, dir, sum_raw (used (us_id u) dir) (db_deltas db), sum_billable (used (us_id u) dir) (db_deltas db))
         \<in> set (SumTrafficByUser db nm)"
      using sums [OF t(1)] t(2,3) by simp
  qed
qed

section \<open>A concrete node\<close>

definition sample_node :: node_row where
  "sample_node = \<lparr>node_id = ''n'', node_name = ''N'', node_public_host = [], node_hosts = [], node_status = NodeActive,
     node_sing_box_version = [], node_last_seen_at = None, node_deleted_at = None,
     node_created_at = Stamp 0 ''Z'', node_updated_at = Stamp 0 ''Z''\<rparr>"

definition sample_db :: traffic_db where
  "sample_db = \<lparr>db_nodes = [sample_node], db_aliases = [],
     db_users = [\<lparr>us_id = ''u'', us_name = ''U'', us_display = [], us_status = ''active'', us_quota = 0, us_expire_at = None,
       us_deleted_at = None, us_created_at = Stamp 0 ''Z''\<rparr>],
     db_proxies = [\<lparr>px_id = ''p'', px_node = ''n'', px_name = ''P'', px_protocol = ''vless_reality'', px_listen = ''::'', px_port = 443,
       px_transport = ''tcp'', px_enabled = True, px_multiplier = 2, px_deleted_at = None\<rparr>],
     db_bindings = [\<lparr>bd_id = ''b'', bd_user = ''u'', bd_node = ''n'', bd_enabled = True, bd_quota = 0, bd_multiplier = None, bd_reason = []\<rparr>],
     db_creds = [\<lparr>cr_id = ''c'', cr_proxy = ''p'', cr_user = ''u'', cr_auth = ''a'', cr_enabled = True, cr_quota = 0, cr_multiplier = None,
       cr_json = [], cr_deleted_at = None\<rparr>],
     db_endpoints = [], db_paths = [], db_accesses = [], db_group_members = [], db_reports = [], db_deltas = [], db_totals = []\<rparr>"

definition sample_bill :: "int \<Rightarrow> rat \<Rightarrow> int" where
  "sample_bill raw mult = \<lceil>of_int raw * mult\<rceil>"

definition sample_counter :: string where
  "sample_counter = ''user>>>a>>>traffic>>>uplink''"

definition sample_post :: "delivery \<Rightarrow> string \<Rightarrow> post_env" where
  "sample_post d i = \<lparr>po_delivery = d, po_clock = ''t'', po_fresh = (\<lambda>k. i @ replicate (Suc k) (CHR ''d'')), po_id = i\<rparr>"

text \<open>The first answer is lost; at the second call the counter has restarted.\<close>

definition sample_env :: "delivery \<Rightarrow> string \<Rightarrow> int \<Rightarrow> traffic_env" where
  "sample_env d i v = \<lparr>te_uuid = ''x'', te_now = ''t'', te_post1 = sample_post Exchanged (''r'' @ i), te_save1 = True,
     te_stats = Some [(sample_counter, v)], te_save2 = True, te_post2 = sample_post d i, te_save3 = True\<rparr>"

definition sample_state :: traffic_state where
  "sample_state = \<lparr>ts_boot = ''B'', ts_seq = 0, ts_counters = (\<lambda>_. 0), ts_epochs = (\<lambda>_. 0), ts_pending = None\<rparr>"

definition sample_s0 :: accounting where
  "sample_s0 = \<lparr>ac_file = Some sample_state, ac_db = sample_db, ac_readings = []\<rparr>"

definition sample_s1 :: accounting where
  "sample_s1 = account_step sample_bill ''N'' (sample_env ReplyLost ''1'' 7) sample_s0"

definition sample_s2 :: accounting where
  "sample_s2 = account_step sample_bill ''N'' (sample_env Exchanged ''2'' 3) sample_s1"

lemma sample_seq: "map_option ts_seq (ac_file sample_s1) = Some 1"
  by code_simp

lemma sample_pending: "map_option (\<lambda>st. (ts_pending st \<noteq> None)) (ac_file sample_s1) = Some True"
  "map_option ts_pending (ac_file sample_s2) = Some None" "map snd (ac_readings sample_s2) = [7, 3]"
  by code_simp+

lemma sample_run: "run (account sample_bill ''N'' (node_id sample_node) ''B'') sample_s0 sample_s2"
proof -
  let ?step = "account sample_bill ''N'' (node_id sample_node) ''B''"
  have v: "\<forall>stats. te_stats (sample_env d i x) = Some stats \<longrightarrow> values_ok stats" if "x \<in> {7, 3}" for d i x
    using that by (auto simp: sample_env_def values_ok_def)
  have "?step sample_s0 sample_s1"
    unfolding sample_s1_def by (rule account.report) (use v in \<open>auto simp: sample_s0_def sample_state_def\<close>)
  moreover have "?step sample_s1 sample_s2"
    unfolding sample_s2_def by (rule account.report) (use v sample_seq in auto)
  ultimately show ?thesis using run.run_step [of ?step, OF run_one [of ?step]] by blast
qed


definition sample_recorded :: "traffic_error + traffic_db" where
  "sample_recorded = RecordTrafficReport sample_bill ''t'' (\<lambda>k. ''d'') ''r'' sample_db ''N''
     \<lparr>tr_seq = 1, tr_boot = ''B'', tr_reported_at = ''t'', tr_deltas = [\<lparr>td_auth = ''a'', td_direction = ''uplink'', td_raw = 7,
       td_counter = 7, td_epoch = 0, td_observed_at = ''t''\<rparr>]\<rparr>"

lemma sample_recorded:
  "bind_res sample_recorded (\<lambda>db. Inr (sum_raw (used ''u'' ''uplink'') (db_deltas db), sum_billable (used ''u'' ''uplink'') (db_deltas db),
     map us_id (db_users db), map us_name (db_users db), map us_deleted_at (db_users db)))
   = Inr (7, 14, [''u''], [''U''], [None])"
  by code_simp

theorem totals_are_sums_witness:
  "\<exists>db. run (record_step sample_bill) sample_db db \<and> (''U'', ''uplink'', 7, 14) \<in> set (SumTrafficByUser db ''U'')"
proof -
  obtain db where db: "sample_recorded = Inr db"
    and s: "sum_raw (used ''u'' ''uplink'') (db_deltas db) = 7" "sum_billable (used ''u'' ''uplink'') (db_deltas db) = 14"
    "map us_id (db_users db) = [''u'']" "map us_name (db_users db) = [''U'']" "map us_deleted_at (db_users db) = [None]"
    using sample_recorded by (auto simp: bind_res_Inr_iff)
  have "record_step sample_bill sample_db db" using db unfolding record_step_def sample_recorded_def by blast
  then have r: "run (record_step sample_bill) sample_db db" by (rule run_one)
  have "totals_ok sample_db" by (simp add: totals_ok_def total_of_def sample_db_def)
  note t = totals_are_sums [OF r this, of "''U''"]
  obtain u where u: "u \<in> set (db_users db)" "us_id u = ''u''" "us_name u = ''U''" "us_deleted_at u = None"
    using s(3-5) by (cases "db_users db") auto
  have "normalizeName ''U'' = ''U''" by code_simp
  then have "(us_name u, ''uplink'', sum_raw (used (us_id u) ''uplink'') (db_deltas db),
      sum_billable (used (us_id u) ''uplink'') (db_deltas db)) \<in> set (SumTrafficByUser db ''U'')"
    using conjunct2 [OF t, rule_format, OF u(1), of "''uplink''"] u s(1) by simp
  then show ?thesis using r u s(1,2) by auto
qed

end
