(* ===== verification/Paths.thy ===== *)
theory Paths
  imports Proxy_Store
begin

text \<open>
  Endpoints and proxy paths: \<open>internal/server/db/paths.go\<close> with the statements of
  \<open>sqlc/endpoints.sql.go\<close> and \<open>sqlc/paths.sql.go\<close>. An endpoint is a proxy on one host of its
  node; a path publishes an endpoint and may dial through another path. A Go \<open>Path\<close> is a row.
  The constraints of the schema are the guards of the writes: a write that violates one is
  \<^const>\<open>None\<close>. A method returns its result beside the database; a failed transaction returns
  the database it started from.
\<close>

datatype path_error =
    PeProxyNotFound | PeNodeNotFound | PeHostNotSelected | PeHostNotOnNode
  | PeEndpointNotFound | PePathNotFound | PeDialerNotFound | PeUserNotFound
  | PeCycle | PeTooDeep
  | PeNameRequired | PeEndpointRequired | PeVisibility | PeEndpointDisabled | PeInGroup
  | PeManaged | PeNameConflict | PeConstraint | PeCredentialNotFound
  | PeBindingNotFound | PeBindingDisabled | PeMultiplier | PeProtocol | PeSettings
  | PeDependencyOnly | PePathDisabled | PeDuplicate | PeSelectionSize | PeCredentialsBlocked
  | PeGroupNotFound | PeGroupConflict | PeGroupName | PeGroupLimit | PeUserRequired | PeOperation
  | PeAccessNotFound | PeDiverges

text \<open>
  \<open>db_direct_grants\<close> holds the rows (user, path, enabled) of \<open>direct_path_grants\<close>,
  \<open>db_publication\<close> the rows (proxy, direct enabled) of \<open>proxy_publication_settings\<close>.
\<close>

record path_db = proxy_db +
  db_direct_grants :: "(string \<times> string \<times> bool) list"
  db_publication :: "(string \<times> bool) list"

definition MaxDialerPathDepth :: nat where
  "MaxDialerPathDepth = 3"

definition res_of :: "'e \<Rightarrow> 'a option \<Rightarrow> 'e + 'a" where
  "res_of e r = (case r of None \<Rightarrow> Inl e | Some x \<Rightarrow> Inr x)"

lemma res_of_iff [simp]:
  "res_of e r = Inr x \<longleftrightarrow> r = Some x" "res_of e r = Inl f \<longleftrightarrow> r = None \<and> f = e"
  by (auto simp: res_of_def split: option.splits)

lemma res_of_simps [simp]: "res_of e (Some x) = Inr x" "res_of e None = Inl e"
  by (simp_all add: res_of_def)

section \<open>Statements\<close>

definition q_CreateEndpoint :: "instant \<Rightarrow> 'a proxy_db_scheme \<Rightarrow> string \<Rightarrow> string \<Rightarrow> string \<Rightarrow> 'a proxy_db_scheme option" where
  "q_CreateEndpoint now db i p h =
     (if list_ex (\<lambda>e. ep_id e = i) (db_endpoints db) \<or> \<not> list_ex (\<lambda>x. px_id x = p) (db_proxies db)
         \<or> list_ex (\<lambda>e. ep_proxy e = p \<and> ep_host e = h) (db_endpoints db)
      then None
      else Some (db\<lparr>db_endpoints := db_endpoints db
             @ [\<lparr>ep_id = i, ep_proxy = p, ep_host = h, ep_enabled = True, ep_created_at = sql_now now\<rparr>]\<rparr>))"

definition q_ListEndpointsByProxyID :: "'a proxy_db_scheme \<Rightarrow> string \<Rightarrow> endpoint_row list" where
  "q_ListEndpointsByProxyID db p = sort_key ep_created_at (sort_key ep_id (filter (\<lambda>e. ep_proxy e = p) (db_endpoints db)))"

definition q_SetEndpointEnabled :: "'a proxy_db_scheme \<Rightarrow> string \<Rightarrow> bool \<Rightarrow> 'a proxy_db_scheme \<times> nat" where
  "q_SetEndpointEnabled db i b =
     (db\<lparr>db_endpoints := upd (\<lambda>e. ep_id e = i) (\<lambda>e. e\<lparr>ep_enabled := b\<rparr>) (db_endpoints db)\<rparr>,
      length (filter (\<lambda>e. ep_id e = i) (db_endpoints db)))"

text \<open>Paths hold their endpoint and their dialer (\<open>ON DELETE RESTRICT\<close>).\<close>

definition q_DeleteEndpoint :: "'a proxy_db_scheme \<Rightarrow> string \<Rightarrow> ('a proxy_db_scheme \<times> nat) option" where
  "q_DeleteEndpoint db i =
     (if list_ex (\<lambda>p. pt_endpoint p = i) (db_paths db) then None
      else Some (db\<lparr>db_endpoints := filter (\<lambda>e. ep_id e \<noteq> i) (db_endpoints db)\<rparr>,
                 length (filter (\<lambda>e. ep_id e = i) (db_endpoints db))))"

definition valid_visibility :: "string \<Rightarrow> bool" where
  "valid_visibility v \<longleftrightarrow> v = ''selectable'' \<or> v = ''dependency''"

definition path_constraints :: "'a proxy_db_scheme \<Rightarrow> path_row \<Rightarrow> bool" where
  "path_constraints db p \<longleftrightarrow>
     list_ex (\<lambda>e. ep_id e = pt_endpoint p) (db_endpoints db)
     \<and> (case pt_dialer p of None \<Rightarrow> True
        | Some d \<Rightarrow> d \<noteq> pt_id p \<and> list_ex (\<lambda>r. pt_id r = d) (db_paths db))
     \<and> valid_visibility (pt_visibility p)"

definition q_CreatePath :: "instant \<Rightarrow> 'a proxy_db_scheme \<Rightarrow> path_row \<Rightarrow> 'a proxy_db_scheme option" where
  "q_CreatePath now db p =
     (if list_ex (\<lambda>r. pt_id r = pt_id p) (db_paths db) \<or> \<not> path_constraints db p then None
      else Some (db\<lparr>db_paths := db_paths db @ [p\<lparr>pt_updated_at := sql_now now\<rparr>]\<rparr>))"

definition q_UpdatePath :: "instant \<Rightarrow> 'a proxy_db_scheme \<Rightarrow> path_row \<Rightarrow> ('a proxy_db_scheme \<times> nat) option" where
  "q_UpdatePath now db p =
     (let n = length (filter (\<lambda>r. pt_id r = pt_id p) (db_paths db)) in
      if n > 0 \<and> \<not> path_constraints db p then None
      else Some (db\<lparr>db_paths := upd (\<lambda>r. pt_id r = pt_id p) (\<lambda>_. p\<lparr>pt_updated_at := sql_now now\<rparr>) (db_paths db)\<rparr>, n))"

definition q_SetPathEnabled :: "instant \<Rightarrow> 'a proxy_db_scheme \<Rightarrow> string \<Rightarrow> bool \<Rightarrow> 'a proxy_db_scheme \<times> nat" where
  "q_SetPathEnabled now db i b =
     (db\<lparr>db_paths := upd (\<lambda>p. pt_id p = i) (\<lambda>p. p\<lparr>pt_enabled := b, pt_updated_at := sql_now now\<rparr>) (db_paths db)\<rparr>,
      length (filter (\<lambda>p. pt_id p = i) (db_paths db)))"

text \<open>Accesses, group memberships and direct grants go with their path (\<open>ON DELETE CASCADE\<close>).\<close>

definition q_DeletePath :: "'a path_db_scheme \<Rightarrow> string \<Rightarrow> ('a path_db_scheme \<times> nat) option" where
  "q_DeletePath db i =
     (if list_ex (\<lambda>p. pt_id p = i) (db_paths db) \<and> list_ex (\<lambda>p. pt_dialer p = Some i) (db_paths db) then None
      else Some (db\<lparr>db_paths := filter (\<lambda>p. pt_id p \<noteq> i) (db_paths db),
                    db_accesses := filter (\<lambda>a. ac_path a \<noteq> i) (db_accesses db),
                    db_group_members := filter (\<lambda>m. snd m \<noteq> i) (db_group_members db),
                    db_direct_grants := filter (\<lambda>g. fst (snd g) \<noteq> i) (db_direct_grants db)\<rparr>,
                 length (filter (\<lambda>p. pt_id p = i) (db_paths db))))"

definition q_CountPathsByEndpointID :: "'a proxy_db_scheme \<Rightarrow> string \<Rightarrow> nat" where
  "q_CountPathsByEndpointID db i = length (filter (\<lambda>p. pt_endpoint p = i) (db_paths db))"

definition q_ListPathsByEndpointID :: "'a proxy_db_scheme \<Rightarrow> string \<Rightarrow> path_row list" where
  "q_ListPathsByEndpointID db i =
     sort_key pt_sort (sort_key pt_name (sort_key pt_id (filter (\<lambda>p. pt_endpoint p = i) (db_paths db))))"

text \<open>The endpoint of a path leads to a live proxy on a live node.\<close>

definition path_is_live :: "'a proxy_db_scheme \<Rightarrow> path_row \<Rightarrow> bool" where
  "path_is_live db p \<longleftrightarrow> list_ex (\<lambda>e. ep_id e = pt_endpoint p
     \<and> list_ex (\<lambda>d. px_id (fst d) = ep_proxy e \<and> live_proxy d) (proxy_details db)) (db_endpoints db)"

definition q_ListPathsForAdmin :: "'a proxy_db_scheme \<Rightarrow> path_row list" where
  "q_ListPathsForAdmin db = sort_key pt_sort (sort_key pt_name (sort_key pt_id (filter (path_is_live db) (db_paths db))))"

definition live_user_names :: "'a proxy_db_scheme \<Rightarrow> access_row list \<Rightarrow> string list" where
  "live_user_names db as =
     concat (map (\<lambda>a. map us_name (filter (\<lambda>u. us_id u = ac_user a \<and> us_deleted_at u = None) (db_users db))) as)"

definition q_ListUserNamesByPathID :: "'a proxy_db_scheme \<Rightarrow> string \<Rightarrow> string list" where
  "q_ListUserNamesByPathID db i =
     sort (live_user_names db (filter (\<lambda>a. ac_path a = i \<and> ac_enabled a \<and> ac_deleted_at a = None) (db_accesses db)))"

definition q_ListUserNamesWithActivePathAccess :: "'a proxy_db_scheme \<Rightarrow> string list" where
  "q_ListUserNamesWithActivePathAccess db =
     sort (remdups (live_user_names db (filter (\<lambda>a. ac_enabled a \<and> ac_deleted_at a = None
       \<and> list_ex (\<lambda>p. pt_id p = ac_path a \<and> path_is_live db p) (db_paths db)) (db_accesses db))))"

text \<open>Live credentials of a live user on live proxies and nodes; the rows come in the order of the node names.\<close>

definition q_ListProxyAccessesByUserName :: "'a proxy_db_scheme \<Rightarrow> string \<Rightarrow> cred_row list" where
  "q_ListProxyAccessesByUserName db nm =
     map fst (sort_key (\<lambda>x. node_name (snd (snd x))) (sort_key (\<lambda>x. px_port (fst (snd x))) (sort_key (\<lambda>x. px_name (fst (snd x)))
       (concat (map (\<lambda>c. map (\<lambda>d. (c, d)) (filter (\<lambda>d. px_id (fst d) = cr_proxy c \<and> live_proxy d) (proxy_details db)))
         (filter (\<lambda>c. cr_deleted_at c = None \<and> list_ex (\<lambda>u. us_id u = cr_user c \<and> us_name u = nm \<and> us_deleted_at u = None) (db_users db))
           (db_creds db)))))))"

definition q_SetProxyAccessEnabled :: "'a proxy_db_scheme \<Rightarrow> bool \<Rightarrow> string \<Rightarrow> string \<Rightarrow> 'a proxy_db_scheme \<times> nat" where
  "q_SetProxyAccessEnabled db b u p =
     (let m = (\<lambda>c. cr_user c = u \<and> cr_proxy c = p \<and> cr_deleted_at c = None) in
      (db\<lparr>db_creds := upd m (\<lambda>c. c\<lparr>cr_enabled := b\<rparr>) (db_creds db)\<rparr>, length (filter m (db_creds db))))"

section \<open>Endpoints\<close>

text \<open>A proxy comes with the node that \<open>proxy_details\<close> joins; the host is looked up in the node of that name.\<close>

definition validateEndpointPair :: "'a proxy_db_scheme \<Rightarrow> string \<Rightarrow> string \<Rightarrow> path_error + (proxy_row \<times> node_row) \<times> node_host" where
  "validateEndpointPair db pid hid =
     bind_res (res_of PeProxyNotFound (GetProxyByID db pid)) (\<lambda>d.
     bind_res (res_of PeNodeNotFound (GetNode db (node_name (snd d)))) (\<lambda>n.
     bind_res (res_of PeHostNotOnNode (sel (\<lambda>h. host_id h = trim_space hid) (node_hosts n))) (\<lambda>h.
     if host_selected h then Inr (d, h) else Inl PeHostNotSelected)))"

definition ResolveEndpoint :: "'a proxy_db_scheme \<Rightarrow> endpoint_row \<Rightarrow> path_error + (proxy_row \<times> node_row) \<times> node_host" where
  "ResolveEndpoint db e = validateEndpointPair db (ep_proxy e) (ep_host e)"

definition EnsureEndpoint ::
  "instant \<Rightarrow> string \<Rightarrow> 'a proxy_db_scheme \<Rightarrow> string \<Rightarrow> string \<Rightarrow> (path_error + endpoint_row) \<times> 'a proxy_db_scheme" where
  "EnsureEndpoint now fresh db pid hid =
     (case validateEndpointPair db pid hid of
        Inl e \<Rightarrow> (Inl e, db)
      | Inr (d, h) \<Rightarrow>
        (case q_GetEndpointByProxyHost db (px_id (fst d)) (host_id h) of
           Some e \<Rightarrow> (Inr e, db)
         | None \<Rightarrow>
           (case q_CreateEndpoint now db fresh (px_id (fst d)) (host_id h) of
              None \<Rightarrow> (Inl PeConstraint, db)
            | Some db' \<Rightarrow> (res_of PeEndpointNotFound (GetEndpoint db' fresh), db'))))"

definition SetEndpointEnabled :: "'a proxy_db_scheme \<Rightarrow> string \<Rightarrow> bool \<Rightarrow> (path_error + endpoint_row) \<times> 'a proxy_db_scheme" where
  "SetEndpointEnabled db i b =
     (let (db', affected) = q_SetEndpointEnabled db (trim_space i) b
      in if affected = 0 then (Inl PeEndpointNotFound, db') else (res_of PeEndpointNotFound (GetEndpoint db' i), db'))"

definition DeleteEndpoint :: "'a proxy_db_scheme \<Rightarrow> string \<Rightarrow> (path_error + unit) \<times> 'a proxy_db_scheme" where
  "DeleteEndpoint db i =
     (case q_DeleteEndpoint db (trim_space i) of
        None \<Rightarrow> (Inl PeConstraint, db)
      | Some (db', affected) \<Rightarrow> (if affected = 0 then Inl PeEndpointNotFound else Inr (), db'))"

section \<open>Checking a path\<close>

definition nullablePathString :: "string \<Rightarrow> string option" where
  "nullablePathString s = (let v = trim_space s in if v = [] then None else Some v)"

text \<open>The membership of a path in groups is checked with the id and the visibility as given, before they are trimmed.\<close>

definition normalizePath :: "'a proxy_db_scheme \<Rightarrow> path_row \<Rightarrow> path_error + path_row" where
  "normalizePath db p0 =
     (if pt_id p0 \<noteq> [] \<and> pt_visibility p0 = ''dependency'' \<and> list_ex (\<lambda>m. snd m = pt_id p0) (db_group_members db)
      then Inl PeInGroup
      else
        let p = p0\<lparr>pt_id := trim_space (pt_id p0), pt_name := trim_space (pt_name p0),
                   pt_display := trim_space (pt_display p0), pt_endpoint := trim_space (pt_endpoint p0),
                   pt_visibility := trim_space (pt_visibility p0)\<rparr>
        in if pt_name p = [] then Inl PeNameRequired
           else if pt_endpoint p = [] then Inl PeEndpointRequired
           else
             let p = (if pt_visibility p = [] then p\<lparr>pt_visibility := ''selectable''\<rparr> else p)
             in if \<not> valid_visibility (pt_visibility p) then Inl PeVisibility
                else
                  bind_res (res_of PeEndpointNotFound (GetEndpoint db (pt_endpoint p))) (\<lambda>e.
                  if \<not> ep_enabled e \<and> pt_enabled p then Inl PeEndpointDisabled
                  else if pt_enabled p then bind_res (ResolveEndpoint db e) (\<lambda>_. Inr p)
                  else Inr p))"

text \<open>\<open>visit\<close> of \<open>validatePathGraph\<close>; the maps \<open>visiting\<close> and \<open>visited\<close> are lists of ids.\<close>

function visit_path ::
  "(string \<rightharpoonup> path_row) \<Rightarrow> string \<Rightarrow> nat \<Rightarrow> string list \<Rightarrow> string list \<Rightarrow> path_error + string list \<times> string list" where
  "visit_path byID i depth visiting visited =
     (if i \<in> set visiting then Inl PeCycle
      else if depth > MaxDialerPathDepth then Inl PeTooDeep
      else if i \<in> set visited then Inr (visiting, visited)
      else
        case byID i of
          None \<Rightarrow> Inl PePathNotFound
        | Some p \<Rightarrow>
          bind_res (case pt_dialer p of
                      None \<Rightarrow> Inr (i # visiting, visited)
                    | Some d \<Rightarrow> visit_path byID d (Suc depth) (i # visiting) visited)
            (\<lambda>(vg, vd). Inr (filter (\<lambda>j. j \<noteq> i) vg, i # vd)))"
  by pat_completeness auto
termination
  by (relation "measure (\<lambda>(_, _, depth, _). Suc MaxDialerPathDepth - depth)") auto

declare visit_path.simps [simp del]

definition paths_by_id :: "'a proxy_db_scheme \<Rightarrow> path_row \<Rightarrow> string \<rightharpoonup> path_row" where
  "paths_by_id db c = (fold (\<lambda>p m. m(pt_id p \<mapsto> p)) (ListPaths db) Map.empty)(pt_id c \<mapsto> c)"

definition validatePathGraph :: "'a proxy_db_scheme \<Rightarrow> path_row \<Rightarrow> path_error + unit" where
  "validatePathGraph db c =
     (let byID = paths_by_id db c in
      if (case pt_dialer c of None \<Rightarrow> False | Some d \<Rightarrow> byID d = None) then Inl PeDialerNotFound
      else bind_res (visit_path byID (pt_id c) 1 [] []) (\<lambda>_. Inr ()))"

section \<open>Published names\<close>

text \<open>The name of a path in a profile; the separator is a middle dot in UTF-8 between two spaces.\<close>

definition published_name :: "proxy_row \<Rightarrow> path_row \<Rightarrow> string" where
  "published_name x p = (if pt_display p = [] then px_name x @ [CHR '' '', CHR 0xC2, CHR 0xB7, CHR '' ''] @ pt_name p else pt_display p)"

text \<open>What \<open>visit\<close> of \<open>validatePublishedNamesForUser\<close> does with a path after its dialers.\<close>

definition publish_name ::
  "'a proxy_db_scheme \<Rightarrow> path_row option \<Rightarrow> string \<Rightarrow> path_row \<Rightarrow> string list \<times> (string \<times> string) list
     \<Rightarrow> path_error + string list \<times> (string \<times> string) list" where
  "publish_name db cand i p st =
     bind_res (res_of PeEndpointNotFound (GetEndpoint db (pt_endpoint p))) (\<lambda>e.
     bind_res (res_of PeProxyNotFound (GetProxyByID db (ep_proxy e))) (\<lambda>x.
     let nm = published_name (fst x) p; emit = (i # fst st, (nm, pt_id p) # snd st) in
     (case map_of (snd st) nm of
        None \<Rightarrow> Inr emit
      | Some previous \<Rightarrow>
        if previous = pt_id p then Inr emit
        else if (case cand of None \<Rightarrow> True | Some c \<Rightarrow> previous = pt_id c \<or> pt_id p = pt_id c)
        then Inl PeNameConflict
        else Inr st)))"

text \<open>
  \<open>visit\<close> of \<open>validatePublishedNamesForUser\<close>, with its maps \<open>emitted\<close> (a list of ids) and \<open>names\<close>
  (newest binding first). The walk along the dialers has no bound of its own; \<open>fuel\<close> bounds it,
  and \<^const>\<open>PeDiverges\<close> stands for a walk that does not end.
\<close>

fun visit_names ::
  "'a proxy_db_scheme \<Rightarrow> path_row option \<Rightarrow> nat \<Rightarrow> string \<Rightarrow> string list \<times> (string \<times> string) list
     \<Rightarrow> path_error + string list \<times> (string \<times> string) list" where
  "visit_names db cand 0 i st = Inl PeDiverges"
| "visit_names db cand (Suc fuel) i st =
     (if i \<in> set (fst st) then Inr st
      else
        bind_res (res_of PePathNotFound (GetPath db i)) (\<lambda>p0.
        let p = (case cand of None \<Rightarrow> p0 | Some c \<Rightarrow> if pt_id c = i then c else p0) in
        if \<not> pt_enabled p then Inr st
        else
          bind_res (case pt_dialer p of None \<Rightarrow> Inr st | Some d \<Rightarrow> visit_names db cand fuel d st)
            (publish_name db cand i p)))"

fun visit_roots ::
  "'a proxy_db_scheme \<Rightarrow> path_row option \<Rightarrow> nat \<Rightarrow> string list \<Rightarrow> string list \<times> (string \<times> string) list \<Rightarrow> path_error + unit" where
  "visit_roots db cand fuel [] st = Inr ()"
| "visit_roots db cand fuel (r # rs) st = bind_res (visit_names db cand fuel r st) (\<lambda>st'. visit_roots db cand fuel rs st')"

definition validatePublishedNamesForUser ::
  "'a proxy_db_scheme \<Rightarrow> string \<Rightarrow> string \<Rightarrow> path_row option \<Rightarrow> path_error + unit" where
  "validatePublishedNamesForUser db user_name extra cand =
     bind_res (res_of PeUserNotFound (ListActivePathAccessesByUser db user_name)) (\<lambda>as.
     visit_roots db cand (Suc (length (db_paths db))) (map ac_path as @ (if extra = [] then [] else [extra])) ([], []))"

fun validate_names_of_users :: "'a proxy_db_scheme \<Rightarrow> path_row \<Rightarrow> string list \<Rightarrow> path_error + unit" where
  "validate_names_of_users db cand [] = Inr ()"
| "validate_names_of_users db cand (u # us) =
     bind_res (validatePublishedNamesForUser db u [] (Some cand)) (\<lambda>_. validate_names_of_users db cand us)"

definition validatePublishedNamesAfterPathChange :: "'a proxy_db_scheme \<Rightarrow> path_row \<Rightarrow> path_error + unit" where
  "validatePublishedNamesAfterPathChange db cand = validate_names_of_users db cand (q_ListUserNamesWithActivePathAccess db)"

section \<open>Creating and updating paths\<close>

record create_path_params =
  cp_name :: string
  cp_display :: string
  cp_endpoint :: string
  cp_dialer :: string
  cp_enabled :: bool
  cp_visibility :: string
  cp_managed :: bool
  cp_sort :: int

record update_path_params = create_path_params +
  up_id :: string
  up_allow_managed :: bool

definition path_of_params :: "instant \<Rightarrow> string \<Rightarrow> 'b create_path_params_scheme \<Rightarrow> path_row" where
  "path_of_params now i prm =
     \<lparr>pt_id = i, pt_name = cp_name prm, pt_display = cp_display prm, pt_endpoint = cp_endpoint prm,
      pt_dialer = nullablePathString (cp_dialer prm), pt_enabled = cp_enabled prm, pt_visibility = cp_visibility prm,
      pt_managed = cp_managed prm, pt_sort = cp_sort prm, pt_updated_at = sql_now now\<rparr>"

text \<open>
  \<open>CreatePath\<close> runs without a transaction: its checks (\<open>checked_path\<close>) and its insert
  (\<open>store_path\<close>) are separate, and other writes may come between them.
\<close>

definition checked_path :: "instant \<Rightarrow> string \<Rightarrow> 'a proxy_db_scheme \<Rightarrow> create_path_params \<Rightarrow> path_error + path_row" where
  "checked_path now fresh db prm =
     bind_res (normalizePath db (path_of_params now [] prm)) (\<lambda>p.
     let p = p\<lparr>pt_id := fresh\<rparr> in bind_res (validatePathGraph db p) (\<lambda>_. Inr p))"

definition store_path :: "instant \<Rightarrow> 'a proxy_db_scheme \<Rightarrow> path_row \<Rightarrow> (path_error + path_row) \<times> 'a proxy_db_scheme" where
  "store_path now db p =
     (case q_CreatePath now db p of
        None \<Rightarrow> (Inl PeConstraint, db)
      | Some db' \<Rightarrow> (res_of PePathNotFound (GetPath db' (pt_id p)), db'))"

definition CreatePath ::
  "instant \<Rightarrow> string \<Rightarrow> 'a proxy_db_scheme \<Rightarrow> create_path_params \<Rightarrow> (path_error + path_row) \<times> 'a proxy_db_scheme" where
  "CreatePath now fresh db prm =
     (case checked_path now fresh db prm of Inl e \<Rightarrow> (Inl e, db) | Inr p \<Rightarrow> store_path now db p)"

definition UpdatePath ::
  "instant \<Rightarrow> 'a proxy_db_scheme \<Rightarrow> update_path_params \<Rightarrow> (path_error + path_row) \<times> 'a proxy_db_scheme" where
  "UpdatePath now db prm =
     (case (bind_res (res_of PePathNotFound (GetPath db (up_id prm))) (\<lambda>existing.
            if pt_managed existing \<and> \<not> up_allow_managed prm then Inl PeManaged
            else
              bind_res (normalizePath db (path_of_params now (up_id prm) prm)) (\<lambda>p.
              bind_res (validatePathGraph db p) (\<lambda>_.
              bind_res (validatePublishedNamesAfterPathChange db p) (\<lambda>_.
              bind_res (res_of PeConstraint (q_UpdatePath now db p)) (\<lambda>(db', affected).
              if affected = 0 then Inl PePathNotFound
              else bind_res (res_of PePathNotFound (GetPath db' (up_id prm))) (\<lambda>r. Inr (r, db')))))))) of
        Inl e \<Rightarrow> (Inl e, db)
      | Inr (r, db') \<Rightarrow> (Inr r, db'))"

definition setPathEnabledUnchecked ::
  "instant \<Rightarrow> 'a proxy_db_scheme \<Rightarrow> string \<Rightarrow> bool \<Rightarrow> (path_error + unit) \<times> 'a proxy_db_scheme" where
  "setPathEnabledUnchecked now db i b =
     (let (db', affected) = q_SetPathEnabled now db (trim_space i) b
      in (if affected = 0 then Inl PePathNotFound else Inr (), db'))"

section \<open>Deleting paths\<close>

text \<open>\<open>visit\<close> of \<open>disableUnusedProxyCredentialsTx\<close>: the proxies that a path and its dialers need.\<close>

function visit_required ::
  "'a proxy_db_scheme \<Rightarrow> string \<Rightarrow> string list \<Rightarrow> string list \<Rightarrow> path_error + string list \<times> string list" where
  "visit_required db i visited required =
     (if i \<in> set visited then Inr (visited, required)
      else
        case q_GetPathByID db i of
          None \<Rightarrow> Inl PePathNotFound
        | Some p \<Rightarrow>
          (case q_GetEndpointByID db (pt_endpoint p) of
             None \<Rightarrow> Inl PeEndpointNotFound
           | Some e \<Rightarrow>
             (case pt_dialer p of
                None \<Rightarrow> Inr (i # visited, ep_proxy e # required)
              | Some d \<Rightarrow> visit_required db d (i # visited) (ep_proxy e # required))))"
  by pat_completeness auto
termination
proof (relation "measure (\<lambda>(db, i, visited, _). card (set (map pt_id (db_paths db)) - set visited))")
  fix db :: "'a proxy_db_scheme" and i d :: string and visited required :: "string list" and p :: path_row and e :: endpoint_row
  assume i: "i \<notin> set visited" and p: "q_GetPathByID db i = Some p"
  then have "i \<in> set (map pt_id (db_paths db))"
    by (auto simp: q_GetPathByID_def dest: sel_SomeD)
  with i have "set (map pt_id (db_paths db)) - set (i # visited) \<subset> set (map pt_id (db_paths db)) - set visited" by auto
  then show "((db, d, i # visited, ep_proxy e # required), (db, i, visited, required))
     \<in> measure (\<lambda>(db, i, visited, _). card (set (map pt_id (db_paths db)) - set visited))"
    by (simp add: psubset_card_mono del: set_map)
qed simp

declare visit_required.simps [simp del]

fun visit_accesses :: "'a proxy_db_scheme \<Rightarrow> access_row list \<Rightarrow> string list \<Rightarrow> string list \<Rightarrow> path_error + string list" where
  "visit_accesses db [] visited required = Inr required"
| "visit_accesses db (a # as) visited required =
     bind_res (visit_required db (ac_path a) visited required) (\<lambda>(vs, rs). visit_accesses db as vs rs)"

fun disable_credentials :: "'a proxy_db_scheme \<Rightarrow> string \<Rightarrow> string list \<Rightarrow> cred_row list \<Rightarrow> path_error + 'a proxy_db_scheme" where
  "disable_credentials db uid required [] = Inr db"
| "disable_credentials db uid required (c # cs) =
     (if \<not> cr_enabled c \<or> cr_deleted_at c \<noteq> None \<or> cr_proxy c \<in> set required then disable_credentials db uid required cs
      else
        let (db', affected) = q_SetProxyAccessEnabled db False uid (cr_proxy c)
        in if affected = 0 then Inl PeCredentialNotFound else disable_credentials db' uid required cs)"

definition disableUnusedProxyCredentialsTx :: "'a proxy_db_scheme \<Rightarrow> user_row \<Rightarrow> path_error + 'a proxy_db_scheme" where
  "disableUnusedProxyCredentialsTx db u =
     bind_res (visit_accesses db (q_ListActivePathAccessesByUserID db (us_id u)) [] []) (\<lambda>required.
     disable_credentials db (us_id u) required (q_ListProxyAccessesByUserName db (us_name u)))"

fun get_users :: "'a proxy_db_scheme \<Rightarrow> string list \<Rightarrow> path_error + user_row list" where
  "get_users db [] = Inr []"
| "get_users db (nm # nms) =
     bind_res (res_of PeUserNotFound (GetProxyUser db nm)) (\<lambda>u. bind_res (get_users db nms) (\<lambda>us. Inr (u # us)))"

fun disable_for_users :: "'a proxy_db_scheme \<Rightarrow> user_row list \<Rightarrow> path_error + 'a proxy_db_scheme" where
  "disable_for_users db [] = Inr db"
| "disable_for_users db (u # us) = bind_res (disableUnusedProxyCredentialsTx db u) (\<lambda>db'. disable_for_users db' us)"

definition delete_path_tx :: "'a path_db_scheme \<Rightarrow> string \<Rightarrow> path_error + 'a path_db_scheme" where
  "delete_path_tx db i =
     bind_res (res_of PePathNotFound (GetPath db i)) (\<lambda>p.
     if pt_managed p then Inl PeManaged
     else
       bind_res (get_users db (q_ListUserNamesByPathID db (pt_id p))) (\<lambda>us.
       bind_res (res_of PeConstraint (q_DeletePath db (trim_space i))) (\<lambda>(db1, affected).
       if affected = 0 then Inl PePathNotFound
       else
         bind_res (if q_CountPathsByEndpointID db1 (pt_endpoint p) = 0
                   then bind_res (res_of PeConstraint (q_DeleteEndpoint db1 (pt_endpoint p)))
                          (\<lambda>(db2, n). if n = 0 then Inl PeEndpointNotFound else Inr db2)
                   else Inr db1) (\<lambda>db2.
         disable_for_users db2 us))))"

definition DeletePath :: "'a path_db_scheme \<Rightarrow> string \<Rightarrow> (path_error + unit) \<times> 'a path_db_scheme" where
  "DeletePath db i = (case delete_path_tx db i of Inl e \<Rightarrow> (Inl e, db) | Inr db' \<Rightarrow> (Inr (), db'))"

section \<open>Direct publication\<close>

text \<open>
  \<open>EnsureDirectPathsForProxy\<close> keeps one managed direct path per selected host. Ids for new
  endpoints and paths are drawn from \<open>fe\<close> and \<open>fp\<close>, by host. A call that fails later leaves the
  earlier writes, unless the caller runs it in a transaction.
\<close>

fun disable_managed ::
  "instant \<Rightarrow> 'a proxy_db_scheme \<Rightarrow> path_row list \<Rightarrow> (path_error + path_row list) \<times> 'a proxy_db_scheme" where
  "disable_managed now db [] = (Inr [], db)"
| "disable_managed now db (p # ps) =
     (if pt_managed p \<and> pt_enabled p
      then bind_st (setPathEnabledUnchecked now db (pt_id p) False) (\<lambda>_ db1.
           bind_st (disable_managed now db1 ps) (\<lambda>qs db2. (Inr (p\<lparr>pt_enabled := False\<rparr> # qs), db2)))
      else disable_managed now db ps)"

fun disable_unselected ::
  "instant \<Rightarrow> string list \<Rightarrow> 'a proxy_db_scheme \<Rightarrow> endpoint_row list \<Rightarrow> (path_error + unit) \<times> 'a proxy_db_scheme" where
  "disable_unselected now selected db [] = (Inr (), db)"
| "disable_unselected now selected db (e # es) =
     (if ep_host e \<in> set selected then disable_unselected now selected db es
      else bind_st (disable_managed now db (q_ListPathsByEndpointID db (ep_id e))) (\<lambda>_ db1.
           disable_unselected now selected db1 es))"

definition direct_params :: "proxy_row \<Rightarrow> nat \<Rightarrow> node_host \<Rightarrow> string \<Rightarrow> create_path_params" where
  "direct_params x index h eid =
     \<lparr>cp_name = (if host_tag h = [] then ''direct'' else host_tag h),
      cp_display = px_name x @ (if host_tag h \<noteq> [] then ''-'' @ host_tag h else if index > 0 then ''-'' @ host_addr h else []),
      cp_endpoint = eid, cp_dialer = [], cp_enabled = True, cp_visibility = ''selectable'', cp_managed = True, cp_sort = int index\<rparr>"

definition direct_path ::
  "instant \<Rightarrow> string \<Rightarrow> proxy_row \<Rightarrow> 'a proxy_db_scheme \<Rightarrow> nat \<Rightarrow> node_host \<Rightarrow> endpoint_row \<Rightarrow> (path_error + path_row) \<times> 'a proxy_db_scheme" where
  "direct_path now fresh x db index h e =
     (let prm = direct_params x index h (ep_id e) in
      case sel (\<lambda>p. pt_managed p \<and> pt_dialer p = None) (q_ListPathsByEndpointID db (ep_id e)) of
        None \<Rightarrow> CreatePath now fresh db prm
      | Some p \<Rightarrow>
        if pt_name p \<noteq> cp_name prm \<or> pt_display p \<noteq> cp_display prm \<or> pt_sort p \<noteq> int index \<or> \<not> pt_enabled p
        then UpdatePath now db (create_path_params.extend prm \<lparr>up_id = pt_id p, up_allow_managed = True\<rparr>)
        else (Inr p, db))"

fun ensure_direct ::
  "instant \<Rightarrow> (string \<Rightarrow> string) \<Rightarrow> (string \<Rightarrow> string) \<Rightarrow> proxy_row \<Rightarrow> 'a proxy_db_scheme \<Rightarrow> nat \<Rightarrow> node_host list
     \<Rightarrow> (path_error + path_row list) \<times> 'a proxy_db_scheme" where
  "ensure_direct now fe fp x db index [] = (Inr [], db)"
| "ensure_direct now fe fp x db index (h # hs) =
     (if \<not> host_selected h then ensure_direct now fe fp x db (Suc index) hs
      else bind_st (EnsureEndpoint now (fe (host_id h)) db (px_id x) (host_id h)) (\<lambda>e db1.
           bind_st (direct_path now (fp (host_id h)) x db1 index h e) (\<lambda>p db2.
           bind_st (ensure_direct now fe fp x db2 (Suc index) hs) (\<lambda>ps db3. (Inr (p # ps), db3)))))"

definition EnsureDirectPathsForProxy ::
  "instant \<Rightarrow> (string \<Rightarrow> string) \<Rightarrow> (string \<Rightarrow> string) \<Rightarrow> 'a proxy_db_scheme \<Rightarrow> string
     \<Rightarrow> (path_error + path_row list) \<times> 'a proxy_db_scheme" where
  "EnsureDirectPathsForProxy now fe fp db pid =
     (case GetProxyByID db pid of
        None \<Rightarrow> (Inl PeProxyNotFound, db)
      | Some d \<Rightarrow>
        (case GetNode db (node_name (snd d)) of
           None \<Rightarrow> (Inl PeNodeNotFound, db)
         | Some n \<Rightarrow>
           bind_st (disable_unselected now (map host_id (filter host_selected (node_hosts n))) db
                      (q_ListEndpointsByProxyID db (px_id (fst d)))) (\<lambda>_ db1.
           ensure_direct now fe fp (fst d) db1 0 (node_hosts n))))"

definition GetProxyDirectPublication :: "'a path_db_scheme \<Rightarrow> string \<Rightarrow> bool" where
  "GetProxyDirectPublication db pid =
     (case sel (\<lambda>r. fst r = trim_space pid) (db_publication db) of None \<Rightarrow> True | Some r \<Rightarrow> snd r)"

definition q_SetProxyDirectPublication :: "'a path_db_scheme \<Rightarrow> string \<Rightarrow> bool \<Rightarrow> 'a path_db_scheme" where
  "q_SetProxyDirectPublication db p b =
     (if list_ex (\<lambda>r. fst r = p) (db_publication db)
      then db\<lparr>db_publication := upd (\<lambda>r. fst r = p) (\<lambda>_. (p, b)) (db_publication db)\<rparr>
      else db\<lparr>db_publication := db_publication db @ [(p, b)]\<rparr>)"

definition SetProxyDirectPublication ::
  "instant \<Rightarrow> (string \<Rightarrow> string) \<Rightarrow> (string \<Rightarrow> string) \<Rightarrow> 'a path_db_scheme \<Rightarrow> string \<Rightarrow> bool
     \<Rightarrow> (path_error + path_row list) \<times> 'a path_db_scheme" where
  "SetProxyDirectPublication now fe fp db pid b =
     (case GetProxyByID db pid of
        None \<Rightarrow> (Inl PeProxyNotFound, db)
      | Some d \<Rightarrow>
        (let db1 = q_SetProxyDirectPublication db (trim_space pid) b in
         if b then EnsureDirectPathsForProxy now fe fp db1 pid
         else
           disable_managed now db1
             (filter (\<lambda>p. pt_endpoint p \<in> set (map ep_id (q_ListEndpointsByProxyID db1 (trim_space pid)))) (ListPaths db1))))"

section \<open>Listings\<close>

definition ListEndpoints :: "'a proxy_db_scheme \<Rightarrow> endpoint_row list" where
  "ListEndpoints db = sort_key ep_created_at (sort_key ep_id (db_endpoints db))"

definition ListPathsForAdmin :: "'a proxy_db_scheme \<Rightarrow> path_row list" where
  "ListPathsForAdmin db = q_ListPathsForAdmin db"

end
