(* ===== verification/Credentials.thy ===== *)
theory Credentials
  imports Paths
begin

text \<open>
  Bindings of users to nodes and the credentials of users on proxies:
  \<open>internal/server/db/bindings.go\<close>, \<open>proxy_credentials.go\<close> and the lookup of a proxy by name
  (\<open>resolveProxy\<close> of \<open>proxies.go\<close>). The fresh ids and secrets that a call may draw are the fields
  of a record: a binding id for a node, a row id and a secret for a proxy. A credential's JSON text is
  given by its secret; the method that the settings of a proxy name is read by \<open>fr_method\<close>.
\<close>

text \<open>
  \<open>db_groups\<close> holds \<open>path_groups\<close>, \<open>db_group_grants\<close> the rows (user, group) of
  \<open>user_path_group_grants\<close>; \<open>db_group_members\<close> is kept in the order of \<open>sort_order\<close> within a group.
  \<open>db_proxy_aliases\<close> holds the rows (alias, proxy) of \<open>proxy_name_aliases\<close>.
\<close>

record group_row =
  gr_id :: string
  gr_name :: string
  gr_description :: string
  gr_enabled :: bool
  gr_revision :: int
  gr_deleted_at :: "stamp option"

record group_db = path_db +
  db_groups :: "group_row list"
  db_group_grants :: "(string \<times> string) list"
  db_proxy_aliases :: "(string \<times> string) list"

record fresh =
  fr_binding :: "string \<Rightarrow> string"
  fr_credential :: "string \<Rightarrow> string"
  fr_access :: "string \<Rightarrow> string"
  fr_uuid :: "string \<Rightarrow> string"
  fr_key :: "string \<Rightarrow> nat \<Rightarrow> string"
  fr_method :: "string \<Rightarrow> string option"

section \<open>Looking up a proxy\<close>

definition q_GetProxyByIDIncludingDeleted :: "'a proxy_db_scheme \<Rightarrow> string \<Rightarrow> (proxy_row \<times> node_row) option" where
  "q_GetProxyByIDIncludingDeleted db i = sel (\<lambda>d. px_id (fst d) = i) (proxy_details db)"

definition q_GetProxyByNodeAndName :: "'a group_db_scheme \<Rightarrow> string \<Rightarrow> string \<Rightarrow> (proxy_row \<times> node_row) option" where
  "q_GetProxyByNodeAndName db nid nm =
     sel (\<lambda>d. px_node (fst d) = nid \<and> live_proxy d
            \<and> (px_name (fst d) = nm \<or> Some (px_id (fst d)) = map_option snd (sel (\<lambda>a. fst a = nm) (db_proxy_aliases db))))
         (proxy_details db)"

text \<open>\<open>resolveProxy\<close> with \<open>includingDeleted = false\<close>: an id decides before a name does.\<close>

definition resolveProxy :: "'a group_db_scheme \<Rightarrow> string \<Rightarrow> string \<Rightarrow> (proxy_row \<times> node_row) option" where
  "resolveProxy db node_reference reference =
     (case resolveNode db node_reference of
        None \<Rightarrow> None
      | Some n \<Rightarrow>
        (let r = normalizeName reference in
         case q_GetProxyByIDIncludingDeleted db r of
           None \<Rightarrow> q_GetProxyByNodeAndName db (node_id n) r
         | Some d \<Rightarrow> if px_node (fst d) \<noteq> node_id n \<or> \<not> live_proxy d then None else Some d))"

definition GetProxy :: "'a group_db_scheme \<Rightarrow> string \<Rightarrow> string \<Rightarrow> (proxy_row \<times> node_row) option" where
  "GetProxy db nm px = resolveProxy db (normalizeName nm) (normalizeName px)"

section \<open>Bindings\<close>

text \<open>Both ids have just been looked up, so the foreign keys hold.\<close>

definition q_UpsertUserNodeBinding :: "'a proxy_db_scheme \<Rightarrow> string \<Rightarrow> string \<Rightarrow> string \<Rightarrow> 'a proxy_db_scheme option" where
  "q_UpsertUserNodeBinding db i u n =
     (let m = (\<lambda>b. bd_user b = u \<and> bd_node b = n) in
      if list_ex m (db_bindings db)
      then Some (db\<lparr>db_bindings := upd m (\<lambda>b. b\<lparr>bd_enabled := True, bd_reason := []\<rparr>) (db_bindings db)\<rparr>)
      else if list_ex (\<lambda>b. bd_id b = i) (db_bindings db) then None
      else Some (db\<lparr>db_bindings := db_bindings db
             @ [\<lparr>bd_id = i, bd_user = u, bd_node = n, bd_enabled = True, bd_quota = 0, bd_multiplier = None, bd_reason = []\<rparr>]\<rparr>))"

definition q_update_binding ::
  "(binding_row \<Rightarrow> binding_row) \<Rightarrow> 'a proxy_db_scheme \<Rightarrow> string \<Rightarrow> string \<Rightarrow> 'a proxy_db_scheme \<times> nat" where
  "q_update_binding f db u n =
     (let m = (\<lambda>b. bd_user b = u \<and> bd_node b = n) in
      (db\<lparr>db_bindings := upd m f (db_bindings db)\<rparr>, length (filter m (db_bindings db))))"

definition q_SetUserNodeBindingEnabled :: "bool \<Rightarrow> string \<Rightarrow> 'a proxy_db_scheme \<Rightarrow> string \<Rightarrow> string \<Rightarrow> 'a proxy_db_scheme \<times> nat" where
  "q_SetUserNodeBindingEnabled b reason = q_update_binding (\<lambda>r. r\<lparr>bd_enabled := b, bd_reason := reason\<rparr>)"

definition q_SetUserNodeQuota :: "int \<Rightarrow> 'a proxy_db_scheme \<Rightarrow> string \<Rightarrow> string \<Rightarrow> 'a proxy_db_scheme \<times> nat" where
  "q_SetUserNodeQuota quota = q_update_binding (\<lambda>r. r\<lparr>bd_quota := quota\<rparr>)"

definition q_SetUserNodeMultiplier :: "rat option \<Rightarrow> 'a proxy_db_scheme \<Rightarrow> string \<Rightarrow> string \<Rightarrow> 'a proxy_db_scheme \<times> nat" where
  "q_SetUserNodeMultiplier f = q_update_binding (\<lambda>r. r\<lparr>bd_multiplier := f\<rparr>)"

definition BindUserToNode :: "fresh \<Rightarrow> 'a proxy_db_scheme \<Rightarrow> string \<Rightarrow> string \<Rightarrow> (path_error + binding_row) \<times> 'a proxy_db_scheme" where
  "BindUserToNode fr db user_name nm =
     (case GetProxyUser db user_name of
        None \<Rightarrow> (Inl PeUserNotFound, db)
      | Some u \<Rightarrow>
        (case GetNode db nm of
           None \<Rightarrow> (Inl PeNodeNotFound, db)
         | Some n \<Rightarrow>
           (case q_UpsertUserNodeBinding db (fr_binding fr (node_id n)) (us_id u) (node_id n) of
              None \<Rightarrow> (Inl PeConstraint, db)
            | Some db' \<Rightarrow> (res_of PeBindingNotFound (GetUserNodeBinding db' (us_id u) (node_id n)), db'))))"

text \<open>The three setters: the binding of a live user on a live node, which must exist; quotas are checked by the schema.\<close>

definition set_binding ::
  "('a proxy_db_scheme \<Rightarrow> string \<Rightarrow> string \<Rightarrow> 'a proxy_db_scheme \<times> nat) \<Rightarrow> 'a proxy_db_scheme \<Rightarrow> string \<Rightarrow> string
     \<Rightarrow> (path_error + unit) \<times> 'a proxy_db_scheme" where
  "set_binding f db user_name nm =
     (case GetProxyUser db user_name of
        None \<Rightarrow> (Inl PeUserNotFound, db)
      | Some u \<Rightarrow>
        (case GetNode db nm of
           None \<Rightarrow> (Inl PeNodeNotFound, db)
         | Some n \<Rightarrow> (let (db', affected) = f db (us_id u) (node_id n)
                     in (if affected = 0 then Inl PeBindingNotFound else Inr (), db'))))"

definition SetUserNodeBindingEnabled :: "'a proxy_db_scheme \<Rightarrow> string \<Rightarrow> string \<Rightarrow> bool \<Rightarrow> (path_error + unit) \<times> 'a proxy_db_scheme" where
  "SetUserNodeBindingEnabled db user_name nm b =
     set_binding (q_SetUserNodeBindingEnabled b (if b then [] else ''manual'')) db user_name nm"

definition SetUserNodeQuota :: "'a proxy_db_scheme \<Rightarrow> string \<Rightarrow> string \<Rightarrow> int \<Rightarrow> (path_error + unit) \<times> 'a proxy_db_scheme" where
  "SetUserNodeQuota db user_name nm quota =
     (let (r, db') = set_binding (q_SetUserNodeQuota quota) db user_name nm
      in if r = Inr () \<and> quota < 0 then (Inl PeConstraint, db) else (r, db'))"

definition SetUserNodeMultiplier :: "'a proxy_db_scheme \<Rightarrow> string \<Rightarrow> string \<Rightarrow> rat option \<Rightarrow> (path_error + unit) \<times> 'a proxy_db_scheme" where
  "SetUserNodeMultiplier db user_name nm f =
     (if (case f of None \<Rightarrow> False | Some x \<Rightarrow> x < 0) then (Inl PeMultiplier, db)
      else set_binding (q_SetUserNodeMultiplier f) db user_name nm)"

section \<open>Credentials\<close>

definition ProtocolVLESSReality :: string where
  "ProtocolVLESSReality = ''vless_reality''"

definition ProtocolShadowsocks2022 :: string where
  "ProtocolShadowsocks2022 = ''shadowsocks_2022''"

definition shadowsocks2022KeyLength :: "string \<Rightarrow> nat option" where
  "shadowsocks2022KeyLength meth =
     (if meth = ''2022-blake3-aes-128-gcm'' then Some 16
      else if meth = ''2022-blake3-aes-256-gcm'' \<or> meth = ''2022-blake3-chacha20-poly1305'' then Some 32
      else None)"

definition generateProxyCredential :: "fresh \<Rightarrow> proxy_row \<Rightarrow> path_error + string" where
  "generateProxyCredential fr x =
     (if px_protocol x = ProtocolVLESSReality then Inr (fr_uuid fr (px_id x))
      else if px_protocol x = ProtocolShadowsocks2022 then
        bind_res (res_of PeSettings (fr_method fr (px_id x))) (\<lambda>meth.
        bind_res (res_of PeSettings (shadowsocks2022KeyLength meth)) (\<lambda>n. Inr (fr_key fr (px_id x) n)))
      else Inl PeProtocol)"

definition q_RestoreProxyAccess :: "'a proxy_db_scheme \<Rightarrow> string \<Rightarrow> string \<Rightarrow> string \<Rightarrow> 'a proxy_db_scheme" where
  "q_RestoreProxyAccess db json u p =
     db\<lparr>db_creds := upd (\<lambda>c. cr_user c = u \<and> cr_proxy c = p)
          (\<lambda>c. c\<lparr>cr_enabled := True, cr_deleted_at := None, cr_json := json\<rparr>) (db_creds db)\<rparr>"

definition q_ProxyAuthNameExists :: "'a proxy_db_scheme \<Rightarrow> string \<Rightarrow> bool" where
  "q_ProxyAuthNameExists db a \<longleftrightarrow> list_ex (\<lambda>c. cr_auth c = a) (db_creds db)"

definition q_CreateProxyAccess :: "'a proxy_db_scheme \<Rightarrow> cred_row \<Rightarrow> 'a proxy_db_scheme option" where
  "q_CreateProxyAccess db c =
     (if list_ex (\<lambda>r. cr_id r = cr_id c \<or> cr_proxy r = cr_proxy c \<and> (cr_user r = cr_user c \<or> cr_auth r = cr_auth c)) (db_creds db)
      then None else Some (db\<lparr>db_creds := db_creds db @ [c]\<rparr>))"

definition q_SoftDeleteProxyAccess :: "instant \<Rightarrow> 'a proxy_db_scheme \<Rightarrow> string \<Rightarrow> string \<Rightarrow> 'a proxy_db_scheme \<times> nat" where
  "q_SoftDeleteProxyAccess now db u p =
     (let m = (\<lambda>c. cr_user c = u \<and> cr_proxy c = p \<and> cr_deleted_at c = None) in
      (db\<lparr>db_creds := upd m (\<lambda>c. c\<lparr>cr_enabled := False, cr_deleted_at := Some (sql_now now)\<rparr>) (db_creds db)\<rparr>,
       length (filter m (db_creds db))))"

definition q_RotateProxyAccessCredential :: "'a proxy_db_scheme \<Rightarrow> string \<Rightarrow> string \<Rightarrow> 'a proxy_db_scheme \<times> nat" where
  "q_RotateProxyAccessCredential db i json =
     (let m = (\<lambda>c. cr_id c = i \<and> cr_deleted_at c = None) in
      (db\<lparr>db_creds := upd m (\<lambda>c. c\<lparr>cr_json := json\<rparr>) (db_creds db)\<rparr>, length (filter m (db_creds db))))"

definition q_GetProxyAccess :: "'a proxy_db_scheme \<Rightarrow> string \<Rightarrow> string \<Rightarrow> string \<Rightarrow> cred_row option" where
  "q_GetProxyAccess db user_name nm px =
     sel (\<lambda>c. cr_deleted_at c = None
            \<and> list_ex (\<lambda>u. us_id u = cr_user c \<and> us_name u = user_name \<and> us_deleted_at u = None) (db_users db)
            \<and> list_ex (\<lambda>d. px_id (fst d) = cr_proxy c \<and> px_name (fst d) = px \<and> node_name (snd d) = nm \<and> live_proxy d) (proxy_details db))
         (db_creds db)"

definition GetProxyCredential :: "'a group_db_scheme \<Rightarrow> string \<Rightarrow> string \<Rightarrow> string \<Rightarrow> path_error + cred_row" where
  "GetProxyCredential db user_name nm px =
     bind_res (res_of PeProxyNotFound (GetProxy db nm px)) (\<lambda>d.
     res_of PeCredentialNotFound (q_GetProxyAccess db (normalizeName user_name) (node_name (snd d)) (px_name (fst d))))"

text \<open>
  \<open>issueProxyCredential\<close> makes one write at most, so its result carries the new database. A disabled
  or deleted credential comes back with a new secret; a name that ever named a counter is not used again.
\<close>

definition issueProxyCredential ::
  "fresh \<Rightarrow> 'a group_db_scheme \<Rightarrow> string \<Rightarrow> string \<Rightarrow> string \<Rightarrow> string \<Rightarrow> path_error + cred_row \<times> 'a group_db_scheme" where
  "issueProxyCredential fr db user_name nm px protocol =
     bind_res (res_of PeUserNotFound (GetProxyUser db user_name)) (\<lambda>u.
     bind_res (res_of PeProxyNotFound (GetProxy db nm px)) (\<lambda>d.
     if px_protocol (fst d) \<noteq> protocol then Inl PeProtocol
     else
       bind_res (res_of PeBindingNotFound (GetUserNodeBinding db (us_id u) (px_node (fst d)))) (\<lambda>b.
       if \<not> bd_enabled b then Inl PeBindingDisabled
       else
         let finish = (\<lambda>db'. bind_res (GetProxyCredential db' (us_name u) (node_name (snd d)) (px_name (fst d))) (\<lambda>c. Inr (c, db'))) in
         (case q_GetProxyAccessByIDs db (us_id u) (px_id (fst d)) of
            Some c \<Rightarrow>
              if cr_enabled c \<and> cr_deleted_at c = None then Inr (c, db)
              else bind_res (generateProxyCredential fr (fst d)) (\<lambda>json.
                   finish (q_RestoreProxyAccess db json (us_id u) (px_id (fst d))))
          | None \<Rightarrow>
              bind_res (generateProxyCredential fr (fst d)) (\<lambda>json.
              let i = fr_credential fr (px_id (fst d)); a = px_name (fst d) @ ''@'' @ us_name u in
              bind_res (res_of PeConstraint (q_CreateProxyAccess db
                \<lparr>cr_id = i, cr_proxy = px_id (fst d), cr_user = us_id u, cr_auth = (if q_ProxyAuthNameExists db a then i else a),
                 cr_enabled = True, cr_quota = 0, cr_multiplier = None, cr_json = json, cr_deleted_at = None\<rparr>)) finish)))))"

definition setProxyCredentialEnabledByIDs :: "'a proxy_db_scheme \<Rightarrow> string \<Rightarrow> string \<Rightarrow> bool \<Rightarrow> (path_error + unit) \<times> 'a proxy_db_scheme" where
  "setProxyCredentialEnabledByIDs db u p b =
     (let (db', affected) = q_SetProxyAccessEnabled db b u p in (if affected = 0 then Inl PeCredentialNotFound else Inr (), db'))"

definition SetProxyCredentialEnabled ::
  "'a group_db_scheme \<Rightarrow> string \<Rightarrow> string \<Rightarrow> string \<Rightarrow> bool \<Rightarrow> (path_error + cred_row) \<times> 'a group_db_scheme" where
  "SetProxyCredentialEnabled db user_name nm px b =
     (case GetProxyUser db user_name of
        None \<Rightarrow> (Inl PeUserNotFound, db)
      | Some u \<Rightarrow>
        (case GetProxy db nm px of
           None \<Rightarrow> (Inl PeProxyNotFound, db)
         | Some d \<Rightarrow>
           bind_st (setProxyCredentialEnabledByIDs db (us_id u) (px_id (fst d)) b) (\<lambda>_ db'.
           (GetProxyCredential db' (us_name u) (node_name (snd d)) (px_name (fst d)), db'))))"

definition RevokeProxyCredential ::
  "'a group_db_scheme \<Rightarrow> string \<Rightarrow> string \<Rightarrow> string \<Rightarrow> (path_error + cred_row) \<times> 'a group_db_scheme" where
  "RevokeProxyCredential db user_name nm px = SetProxyCredentialEnabled db user_name nm px False"

definition SoftDeleteProxyCredential ::
  "instant \<Rightarrow> 'a group_db_scheme \<Rightarrow> string \<Rightarrow> string \<Rightarrow> string \<Rightarrow> (path_error + cred_row) \<times> 'a group_db_scheme" where
  "SoftDeleteProxyCredential now db user_name nm px =
     (case GetProxyUser db user_name of
        None \<Rightarrow> (Inl PeUserNotFound, db)
      | Some u \<Rightarrow>
        (case GetProxy db nm px of
           None \<Rightarrow> (Inl PeProxyNotFound, db)
         | Some d \<Rightarrow>
           (let (db', affected) = q_SoftDeleteProxyAccess now db (us_id u) (px_id (fst d)) in
            (if affected = 0 then Inl PeCredentialNotFound
             else res_of PeCredentialNotFound (q_GetProxyAccessByIDs db' (us_id u) (px_id (fst d))), db'))))"

text \<open>\<open>RotateUserCredentials\<close>: one transaction over the live credentials of a user, a new secret for each.\<close>

fun rotate_rows :: "fresh \<Rightarrow> 'a proxy_db_scheme \<Rightarrow> cred_row list \<Rightarrow> path_error + nat \<times> 'a proxy_db_scheme" where
  "rotate_rows fr db [] = Inr (0, db)"
| "rotate_rows fr db (c # cs) =
     bind_res (res_of PeProxyNotFound (sel (\<lambda>d. px_id (fst d) = cr_proxy c) (proxy_details db))) (\<lambda>d.
     bind_res (generateProxyCredential fr (fst d)) (\<lambda>json.
     let (db', affected) = q_RotateProxyAccessCredential db (cr_id c) json in
     if affected = 0 then Inl PeCredentialNotFound
     else bind_res (rotate_rows fr db' cs) (\<lambda>(n, db''). Inr (Suc n, db''))))"

definition RotateUserCredentials :: "fresh \<Rightarrow> 'a proxy_db_scheme \<Rightarrow> string \<Rightarrow> (path_error + nat) \<times> 'a proxy_db_scheme" where
  "RotateUserCredentials fr db user_name =
     (case bind_res (res_of PeUserNotFound (GetProxyUser db user_name)) (\<lambda>u.
           rotate_rows fr db (q_ListProxyAccessesByUserName db (us_name u))) of
        Inl e \<Rightarrow> (Inl e, db)
      | Inr (n, db') \<Rightarrow> (Inr n, db'))"

end
