(* ===== verification/Path_Grants.thy ===== *)
theory Path_Grants
  imports Credentials
begin

text \<open>
  Granting paths to users: \<open>grantPathToUser\<close>, \<open>grantDirectPath\<close>, \<open>RevokePathAccess\<close> of
  \<open>internal/server/db/paths.go\<close>, \<open>reconcilePathGrants\<close> of \<open>path_groups.go\<close> and
  \<open>path_selection.go\<close>, with their statements. A source of a grant is a direct grant or a group;
  the rows of \<open>path_accesses\<close> are its effect. A method that runs inside a transaction is an error
  or the new database; \<open>atomically\<close> is the commit or the rollback.
\<close>

definition atomically :: "'s \<Rightarrow> 'e + 'a \<times> 's \<Rightarrow> ('e + 'a) \<times> 's" where
  "atomically db r = (case r of Inl e \<Rightarrow> (Inl e, db) | Inr (x, db') \<Rightarrow> (Inr x, db'))"

definition in_tx :: "('e + 'a) \<times> 's \<Rightarrow> 'e + 'a \<times> 's" where
  "in_tx r = (case r of (Inl e, _) \<Rightarrow> Inl e | (Inr x, db') \<Rightarrow> Inr (x, db'))"

lemma in_tx_iff [simp]: "in_tx r = Inr (x, db') \<longleftrightarrow> r = (Inr x, db')"
  by (auto simp: in_tx_def split: prod.splits sum.splits)

lemma atomically_snd: "snd (atomically db r) = db \<or> (\<exists>x. r = Inr (x, snd (atomically db r)))"
  by (auto simp: atomically_def split: sum.splits)

section \<open>Statements\<close>

definition q_GetPathAccessByIDs :: "'a proxy_db_scheme \<Rightarrow> string \<Rightarrow> string \<Rightarrow> access_row option" where
  "q_GetPathAccessByIDs db i u = sel (\<lambda>a. ac_path a = i \<and> ac_user a = u) (db_accesses db)"

definition q_CreatePathAccess :: "instant \<Rightarrow> 'a proxy_db_scheme \<Rightarrow> string \<Rightarrow> string \<Rightarrow> string \<Rightarrow> 'a proxy_db_scheme option" where
  "q_CreatePathAccess now db aid i u =
     (if list_ex (\<lambda>a. ac_id a = aid \<or> ac_path a = i \<and> ac_user a = u) (db_accesses db) \<or> \<not> list_ex (\<lambda>p. pt_id p = i) (db_paths db)
      then None
      else Some (db\<lparr>db_accesses := db_accesses db
             @ [\<lparr>ac_id = aid, ac_path = i, ac_user = u, ac_enabled = True, ac_deleted_at = None, ac_created_at = sql_now now\<rparr>]\<rparr>))"

definition q_RestorePathAccess :: "'a proxy_db_scheme \<Rightarrow> string \<Rightarrow> string \<Rightarrow> 'a proxy_db_scheme" where
  "q_RestorePathAccess db i u =
     db\<lparr>db_accesses := upd (\<lambda>a. ac_path a = i \<and> ac_user a = u) (\<lambda>a. a\<lparr>ac_enabled := True, ac_deleted_at := None\<rparr>) (db_accesses db)\<rparr>"

definition q_SoftDeletePathAccess :: "instant \<Rightarrow> 'a proxy_db_scheme \<Rightarrow> string \<Rightarrow> string \<Rightarrow> 'a proxy_db_scheme" where
  "q_SoftDeletePathAccess now db i u =
     db\<lparr>db_accesses := upd (\<lambda>a. ac_path a = i \<and> ac_user a = u \<and> ac_deleted_at a = None)
          (\<lambda>a. a\<lparr>ac_enabled := False, ac_deleted_at := Some (sql_now now)\<rparr>) (db_accesses db)\<rparr>"

definition q_ListUserPathAccessesIncludingInactive :: "'a proxy_db_scheme \<Rightarrow> string \<Rightarrow> access_row list" where
  "q_ListUserPathAccessesIncludingInactive db u = sort_key ac_path (filter (\<lambda>a. ac_user a = u) (db_accesses db))"

definition q_SetDirectPathGrant :: "'a path_db_scheme \<Rightarrow> string \<Rightarrow> string \<Rightarrow> 'a path_db_scheme option" where
  "q_SetDirectPathGrant db u i =
     (if list_ex (\<lambda>g. fst g = u \<and> fst (snd g) = i) (db_direct_grants db)
      then Some (db\<lparr>db_direct_grants := upd (\<lambda>g. fst g = u \<and> fst (snd g) = i) (\<lambda>_. (u, i, True)) (db_direct_grants db)\<rparr>)
      else if list_ex (\<lambda>p. pt_id p = i) (db_paths db)
      then Some (db\<lparr>db_direct_grants := db_direct_grants db @ [(u, i, True)]\<rparr>)
      else None)"

definition q_DeleteDirectPathGrant :: "'a path_db_scheme \<Rightarrow> string \<Rightarrow> string \<Rightarrow> 'a path_db_scheme" where
  "q_DeleteDirectPathGrant db u i =
     db\<lparr>db_direct_grants := filter (\<lambda>g. \<not> (fst g = u \<and> fst (snd g) = i)) (db_direct_grants db)\<rparr>"

definition q_ListUserDirectPathGrants :: "'a path_db_scheme \<Rightarrow> string \<Rightarrow> (string \<times> string \<times> bool) list" where
  "q_ListUserDirectPathGrants db u = sort_key (\<lambda>g. fst (snd g)) (filter (\<lambda>g. fst g = u) (db_direct_grants db))"

definition q_DeleteUserPathGroupGrants :: "'a group_db_scheme \<Rightarrow> string \<Rightarrow> 'a group_db_scheme" where
  "q_DeleteUserPathGroupGrants db u = db\<lparr>db_group_grants := filter (\<lambda>g. fst g \<noteq> u) (db_group_grants db)\<rparr>"

text \<open>What a user is to have: the enabled direct grants and the members of the live enabled groups granted to the user.\<close>

definition q_ListUserDesiredPathIDs :: "'a group_db_scheme \<Rightarrow> string \<Rightarrow> string list" where
  "q_ListUserDesiredPathIDs db u =
     sort (remdups (map (\<lambda>g. fst (snd g)) (filter (\<lambda>g. fst g = u \<and> snd (snd g)) (db_direct_grants db))
       @ map snd (filter (\<lambda>m. list_ex (\<lambda>g. gr_id g = fst m \<and> gr_enabled g \<and> gr_deleted_at g = None
              \<and> list_ex (\<lambda>a. a = (u, gr_id g)) (db_group_grants db)) (db_groups db)) (db_group_members db))))"

text \<open>The rows of \<open>proxy_access_details\<close> of a user, revoked ones included.\<close>

definition q_ListGroupUserCredentialsIncludingRevoked :: "'a proxy_db_scheme \<Rightarrow> string \<Rightarrow> cred_row list" where
  "q_ListGroupUserCredentialsIncludingRevoked db u =
     sort_key cr_id (filter (\<lambda>c. cr_user c = u \<and> list_ex (\<lambda>r. us_id r = u) (db_users db)
       \<and> list_ex (\<lambda>d. px_id (fst d) = cr_proxy c) (proxy_details db)) (db_creds db))"

section \<open>Granting one path\<close>

text \<open>The path is looked up under the trimmed id, its access under the id as given.\<close>

definition grantPathAccess ::
  "instant \<Rightarrow> fresh \<Rightarrow> 'a proxy_db_scheme \<Rightarrow> string \<Rightarrow> string \<Rightarrow> path_error + access_row \<times> 'a proxy_db_scheme" where
  "grantPathAccess now fr db user_name i =
     bind_res (res_of PeUserNotFound (GetProxyUser db user_name)) (\<lambda>u.
     bind_res (res_of PePathNotFound (GetPath db i)) (\<lambda>_.
     let finish = (\<lambda>db'. bind_res (res_of PeAccessNotFound (q_GetPathAccessByIDs db' i (us_id u))) (\<lambda>a. Inr (a, db'))) in
     (case q_GetPathAccessByIDs db i (us_id u) of
        Some a \<Rightarrow> if ac_enabled a \<and> ac_deleted_at a = None then Inr (a, db)
                  else finish (q_RestorePathAccess db i (us_id u))
      | None \<Rightarrow> bind_res (res_of PeConstraint (q_CreatePathAccess now db (fr_access fr i) i (us_id u))) finish)))"

text \<open>
  One hop of \<open>ensure\<close> in \<open>grantPathToUser\<close>: a binding that exists must be enabled, a missing one is
  made, and the user gets a credential on the proxy. The hops of a chain follow the dialers.
\<close>

definition ensure_binding ::
  "fresh \<Rightarrow> user_row \<Rightarrow> string \<Rightarrow> 'a proxy_db_scheme \<Rightarrow> node_row \<Rightarrow> string \<Rightarrow> path_error + 'a proxy_db_scheme" where
  "ensure_binding fr u user_name db n nid =
     (case q_GetUserNodeBinding db (us_id u) nid of
        Some b \<Rightarrow> if bd_enabled b then Inr db else Inl PeBindingDisabled
      | None \<Rightarrow> map_sum id snd (in_tx (BindUserToNode fr db user_name (node_name n))))"

definition ensure_hop ::
  "fresh \<Rightarrow> user_row \<Rightarrow> string \<Rightarrow> 'a group_db_scheme \<Rightarrow> path_row \<Rightarrow> path_error + 'a group_db_scheme" where
  "ensure_hop fr u user_name db p =
     bind_res (res_of PeEndpointNotFound (GetEndpoint db (pt_endpoint p))) (\<lambda>e.
     bind_res (ResolveEndpoint db e) (\<lambda>(d, h).
     bind_res (ensure_binding fr u user_name db (snd d) (px_node (fst d))) (\<lambda>db1.
     if px_protocol (fst d) = ProtocolVLESSReality \<or> px_protocol (fst d) = ProtocolShadowsocks2022
     then map_sum id snd (issueProxyCredential fr db1 user_name (node_name (snd d)) (px_name (fst d)) (px_protocol (fst d)))
     else Inl PeProtocol)))"

lemma bindings_id: "\<exists>b. db = db\<lparr>db_bindings := b\<rparr>"
  by (rule exI [of _ "db_bindings db"]) simp

lemma creds_id: "\<exists>cs. db = db\<lparr>db_creds := cs\<rparr>"
  by (rule exI [of _ "db_creds db"]) simp

lemma q_UpsertUserNodeBinding_frame: "q_UpsertUserNodeBinding db i u n = Some db' \<Longrightarrow> \<exists>b. db' = db\<lparr>db_bindings := b\<rparr>"
  by (fastforce simp: q_UpsertUserNodeBinding_def Let_def split: if_splits)

lemma BindUserToNode_frame: "BindUserToNode fr db un nm = (r, db') \<Longrightarrow> \<exists>b. db' = db\<lparr>db_bindings := b\<rparr>"
  by (auto simp: BindUserToNode_def bindings_id q_UpsertUserNodeBinding_frame split: option.splits)

lemma q_CreateProxyAccess_frame: "q_CreateProxyAccess db c = Some db' \<Longrightarrow> \<exists>cs. db' = db\<lparr>db_creds := cs\<rparr>"
  by (fastforce simp: q_CreateProxyAccess_def split: if_splits)

lemma q_RestoreProxyAccess_frame: "\<exists>cs. q_RestoreProxyAccess db json u p = db\<lparr>db_creds := cs\<rparr>"
  by (auto simp: q_RestoreProxyAccess_def)

lemma issueProxyCredential_frame:
  "issueProxyCredential fr db un nm px protocol = Inr (c, db') \<Longrightarrow> \<exists>cs. db' = db\<lparr>db_creds := cs\<rparr>"
  by (auto simp: issueProxyCredential_def Let_def bind_res_Inr_iff creds_id q_RestoreProxyAccess_frame
      split: option.splits if_splits dest: q_CreateProxyAccess_frame)

lemma map_sum_Inr_iff [simp]: "map_sum id f r = Inr y \<longleftrightarrow> (\<exists>x. r = Inr x \<and> y = f x)"
  by (cases r) auto

lemma ensure_binding_frame: "ensure_binding fr u un db n nid = Inr db' \<Longrightarrow> \<exists>b. db' = db\<lparr>db_bindings := b\<rparr>"
  by (auto simp: ensure_binding_def bindings_id split: option.splits if_splits dest: BindUserToNode_frame)

lemma ensure_hop_frame:
  assumes "ensure_hop fr u un db p = Inr db'"
  shows "\<exists>b cs. db' = db\<lparr>db_bindings := b, db_creds := cs\<rparr>"
proof -
  obtain n nid db1 nm px pr c where 1: "ensure_binding fr u un db n nid = Inr db1"
    and 2: "issueProxyCredential fr db1 un nm px pr = Inr (c, db')"
    using assms unfolding ensure_hop_def bind_res_Inr_iff by (auto simp: bind_res_Inr_iff split: if_splits)
  from ensure_binding_frame [OF 1] issueProxyCredential_frame [OF 2] show ?thesis by auto
qed

function ensure_chain ::
  "fresh \<Rightarrow> user_row \<Rightarrow> string \<Rightarrow> 'a group_db_scheme \<Rightarrow> string list \<Rightarrow> path_row \<Rightarrow> path_error + 'a group_db_scheme" where
  "ensure_chain fr u user_name db seen p =
     (if pt_id p \<in> set seen then Inr db
      else
        case ensure_hop fr u user_name db p of
          Inl e \<Rightarrow> Inl e
        | Inr db1 \<Rightarrow>
          (case pt_dialer p of
             None \<Rightarrow> Inr db1
           | Some d \<Rightarrow>
             (case GetPath db1 d of
                None \<Rightarrow> Inl PePathNotFound
              | Some q \<Rightarrow> ensure_chain fr u user_name db1 (pt_id p # seen) q)))"
  by pat_completeness auto
termination
proof (relation "measure (\<lambda>(fr, u, un, db, seen, p). 2 * card (set (map pt_id (db_paths db)) - set seen)
         + (if pt_id p \<in> set (map pt_id (db_paths db)) then 0 else 1))")
  fix fr u un seen and db db1 :: "'a group_db_scheme" and p q :: path_row and d
  assume new: "pt_id p \<notin> set seen" and hop: "ensure_hop fr u un db p = Inr db1" and q: "GetPath db1 d = Some q"
  have same: "db_paths db1 = db_paths db" using ensure_hop_frame [OF hop] by auto
  have qin: "pt_id q \<in> pt_id ` set (db_paths db)" using q same by (auto simp: GetPath_def q_GetPathByID_def dest!: sel_SomeD)
  let ?I = "pt_id ` set (db_paths db)"
  have "2 * card (?I - insert (pt_id p) (set seen)) < 2 * card (?I - set seen) + (if pt_id p \<in> ?I then 0 else 1)"
  proof (cases "pt_id p \<in> ?I")
    case True
    then have "?I - insert (pt_id p) (set seen) \<subset> ?I - set seen" using new by auto
    then show ?thesis using True by (simp add: psubset_card_mono)
  next
    case False
    then have "?I - insert (pt_id p) (set seen) = ?I - set seen" by auto
    then show ?thesis using False by simp
  qed
  then show "((fr, u, un, db1, pt_id p # seen, q), fr, u, un, db, seen, p)
    \<in> measure (\<lambda>(fr, u, un, db, seen, p). 2 * card (set (map pt_id (db_paths db)) - set seen)
         + (if pt_id p \<in> set (map pt_id (db_paths db)) then 0 else 1))"
    using qin by (simp add: same)
qed simp

declare ensure_chain.simps [simp del]

text \<open>\<open>grantPathToUser\<close>: only the root is granted, after the names it publishes were checked; its dialers are ensured.\<close>

definition grantPathToUser ::
  "instant \<Rightarrow> fresh \<Rightarrow> 'a group_db_scheme \<Rightarrow> string \<Rightarrow> string \<Rightarrow> path_error + access_row \<times> 'a group_db_scheme" where
  "grantPathToUser now fr db user_name i =
     bind_res (res_of PeUserNotFound (GetProxyUser db user_name)) (\<lambda>u.
     bind_res (res_of PePathNotFound (GetPath db i)) (\<lambda>p.
     if pt_visibility p \<noteq> ''selectable'' then Inl PeDependencyOnly
     else
       bind_res (validatePublishedNamesForUser db user_name (pt_id p) None) (\<lambda>_.
       bind_res (ensure_chain fr u user_name db [] p) (\<lambda>db1.
       grantPathAccess now fr db1 user_name (pt_id p)))))"

section \<open>Bringing the accesses of a user in line with the sources\<close>

text \<open>What is left of a walk along the dialers that remembers the ids it has seen.\<close>

definition walk_left :: "'a proxy_db_scheme \<Rightarrow> string list \<Rightarrow> string \<Rightarrow> nat" where
  "walk_left db seen i =
     (let D = Option.these (set (map pt_dialer (db_paths db))) in 2 * card (D - set seen) + (if i \<in> D then 0 else 1))"

lemma walk_left_next:
  assumes "i \<notin> set seen" and "GetPath db i = Some p" and "pt_dialer p = Some d"
  shows "walk_left db (i # seen) d < walk_left db seen i"
proof -
  let ?D = "Option.these (set (map pt_dialer (db_paths db)))"
  have "p \<in> set (db_paths db)" using assms(2) by (auto simp: GetPath_def q_GetPathByID_def dest: sel_SomeD)
  then have din: "d \<in> ?D" using assms(3) by (force simp: Option.these_def)
  show ?thesis
  proof (cases "i \<in> ?D")
    case True
    then have "?D - insert i (set seen) \<subset> ?D - set seen" using assms(1) by auto
    moreover have "finite ?D" by (simp add: Option.these_def)
    ultimately have "card (?D - insert i (set seen)) < card (?D - set seen)" by (simp add: psubset_card_mono)
    then show ?thesis using din True by (simp add: walk_left_def Let_def del: set_map)
  next
    case False
    then have "?D - insert i (set seen) = ?D - set seen" by auto
    then show ?thesis using False din by (simp add: walk_left_def Let_def del: set_map)
  qed
qed

text \<open>\<open>collect\<close>: the proxies that a path needs, added to \<open>proxies\<close>.\<close>

function collect_proxies ::
  "'a proxy_db_scheme \<Rightarrow> string list \<Rightarrow> string list \<Rightarrow> string \<Rightarrow> path_error + string list" where
  "collect_proxies db proxies seen i =
     (if i \<in> set seen then Inr proxies
      else
        case GetPath db i of
          None \<Rightarrow> Inl PePathNotFound
        | Some p \<Rightarrow>
          (case GetEndpoint db (pt_endpoint p) of
             None \<Rightarrow> Inl PeEndpointNotFound
           | Some e \<Rightarrow>
             (case pt_dialer p of
                None \<Rightarrow> Inr (ep_proxy e # proxies)
              | Some d \<Rightarrow> collect_proxies db (ep_proxy e # proxies) (i # seen) d)))"
  by pat_completeness auto
termination
  by (relation "measure (\<lambda>(db, proxies, seen, i). walk_left db seen i)") (auto intro: walk_left_next)

declare collect_proxies.simps [simp del]

text \<open>
  The first loop of \<open>reconcilePathGrants\<close>: the live accesses that are no longer desired are deleted. It
  yields the paths that stay active and the proxies that the user needed before.
\<close>

fun scan_accesses ::
  "instant \<Rightarrow> string \<Rightarrow> string list \<Rightarrow> 'a proxy_db_scheme \<Rightarrow> access_row list \<Rightarrow> string list \<Rightarrow> string list
     \<Rightarrow> path_error + (string list \<times> string list) \<times> 'a proxy_db_scheme" where
  "scan_accesses now u desired db [] active previous = Inr ((active, previous), db)"
| "scan_accesses now u desired db (r # rs) active previous =
     (if ac_deleted_at r \<noteq> None \<or> \<not> ac_enabled r then scan_accesses now u desired db rs active previous
      else
        bind_res (collect_proxies db previous [] (ac_path r)) (\<lambda>previous'.
        if ac_path r \<in> set desired then scan_accesses now u desired db rs (ac_path r # active) previous'
        else scan_accesses now u desired (q_SoftDeletePathAccess now db (ac_path r) u) rs active previous'))"

text \<open>The second loop: a missing access is granted, unless it needs a proxy whose credential was switched off.\<close>

fun grant_missing ::
  "instant \<Rightarrow> fresh \<Rightarrow> string \<Rightarrow> string list \<Rightarrow> string list \<Rightarrow> 'a group_db_scheme \<Rightarrow> string list
     \<Rightarrow> path_error + 'a group_db_scheme" where
  "grant_missing now fr u active blocked db [] = Inr db"
| "grant_missing now fr u active blocked db (i # is) =
     (if i \<in> set active then grant_missing now fr u active blocked db is
      else
        bind_res (collect_proxies db [] [] i) (\<lambda>required.
        if list_ex (\<lambda>x. x \<in> set blocked) required then Inl PeCredentialsBlocked
        else bind_res (grantPathToUser now fr db u i) (\<lambda>(_, db'). grant_missing now fr u active blocked db' is)))"

definition reconcilePathGrants :: "instant \<Rightarrow> fresh \<Rightarrow> 'a group_db_scheme \<Rightarrow> string \<Rightarrow> path_error + 'a group_db_scheme" where
  "reconcilePathGrants now fr db user_id =
     bind_res (res_of PeUserNotFound (GetProxyUser db user_id)) (\<lambda>u.
     let desired = q_ListUserDesiredPathIDs db (us_id u) in
     bind_res (scan_accesses now (us_id u) desired db (q_ListUserPathAccessesIncludingInactive db (us_id u)) [] [])
       (\<lambda>((active, previous), db1).
     let blocked = map cr_proxy (filter (\<lambda>c. cr_proxy c \<in> set previous \<and> (\<not> cr_enabled c \<or> cr_deleted_at c \<noteq> None))
                     (q_ListGroupUserCredentialsIncludingRevoked db1 (us_id u))) in
     bind_res (grant_missing now fr (us_id u) active blocked db1 desired) (\<lambda>db2.
     bind_res (validatePublishedNamesForUser db2 (us_id u) [] None) (\<lambda>_.
     disableUnusedProxyCredentialsTx db2 u))))"

section \<open>Direct grants\<close>

definition grant_direct_tx ::
  "instant \<Rightarrow> fresh \<Rightarrow> bool \<Rightarrow> 'a group_db_scheme \<Rightarrow> string \<Rightarrow> string \<Rightarrow> path_error + access_row \<times> 'a group_db_scheme" where
  "grant_direct_tx now fr technical db user_name i =
     bind_res (res_of PeUserNotFound (GetProxyUser db user_name)) (\<lambda>u.
     bind_res (res_of PeConstraint (q_SetDirectPathGrant db (us_id u) i)) (\<lambda>db1.
     if technical then grantPathToUser now fr db1 (us_id u) i else grantPathAccess now fr db1 (us_id u) i))"

definition grantDirectPath ::
  "instant \<Rightarrow> fresh \<Rightarrow> bool \<Rightarrow> 'a group_db_scheme \<Rightarrow> string \<Rightarrow> string \<Rightarrow> (path_error + access_row) \<times> 'a group_db_scheme" where
  "grantDirectPath now fr technical db user_name i = atomically db (grant_direct_tx now fr technical db user_name i)"

definition GrantPathAccess ::
  "instant \<Rightarrow> fresh \<Rightarrow> 'a group_db_scheme \<Rightarrow> string \<Rightarrow> string \<Rightarrow> (path_error + access_row) \<times> 'a group_db_scheme" where
  "GrantPathAccess now fr = grantDirectPath now fr False"

definition GrantPathToUser ::
  "instant \<Rightarrow> fresh \<Rightarrow> 'a group_db_scheme \<Rightarrow> string \<Rightarrow> string \<Rightarrow> (path_error + access_row) \<times> 'a group_db_scheme" where
  "GrantPathToUser now fr = grantDirectPath now fr True"

definition revoke_tx ::
  "instant \<Rightarrow> fresh \<Rightarrow> 'a group_db_scheme \<Rightarrow> string \<Rightarrow> string \<Rightarrow> path_error + access_row \<times> 'a group_db_scheme" where
  "revoke_tx now fr db user_name i =
     bind_res (res_of PeUserNotFound (GetProxyUser db user_name)) (\<lambda>u.
     bind_res (reconcilePathGrants now fr (q_DeleteDirectPathGrant db (us_id u) i) (us_id u)) (\<lambda>db'.
     bind_res (res_of PeAccessNotFound (q_GetPathAccessByIDs db' i (us_id u))) (\<lambda>a. Inr (a, db'))))"

definition RevokePathAccess ::
  "instant \<Rightarrow> fresh \<Rightarrow> 'a group_db_scheme \<Rightarrow> string \<Rightarrow> string \<Rightarrow> (path_error + access_row) \<times> 'a group_db_scheme" where
  "RevokePathAccess now fr db user_name i = atomically db (revoke_tx now fr db user_name i)"

section \<open>Selecting paths of a user\<close>

definition MaxPathGroupMembers :: nat where
  "MaxPathGroupMembers = 200"

text \<open>A selection change is a list of pairs of a path id and whether it is to be selected.\<close>

fun check_selection :: "'a proxy_db_scheme \<Rightarrow> string list \<Rightarrow> (string \<times> bool) list \<Rightarrow> path_error + unit" where
  "check_selection db seen [] = Inr ()"
| "check_selection db seen (c # cs) =
     (if fst c \<in> set seen then Inl PeDuplicate
      else
        bind_res (res_of PePathNotFound (GetPath db (fst c))) (\<lambda>p.
        if pt_visibility p \<noteq> ''selectable'' then Inl PeDependencyOnly
        else if snd c \<and> \<not> pt_enabled p then Inl PePathDisabled
        else check_selection db (fst c # seen) cs))"

fun set_direct_grants :: "'a path_db_scheme \<Rightarrow> string \<Rightarrow> string list \<Rightarrow> path_error + 'a path_db_scheme" where
  "set_direct_grants db u [] = Inr db"
| "set_direct_grants db u (i # is) =
     bind_res (res_of PeConstraint (q_SetDirectPathGrant db u i)) (\<lambda>db'. set_direct_grants db' u is)"

fun apply_selection :: "'a path_db_scheme \<Rightarrow> string \<Rightarrow> (string \<times> bool) list \<Rightarrow> path_error + 'a path_db_scheme" where
  "apply_selection db u [] = Inr db"
| "apply_selection db u (c # cs) =
     bind_res (if snd c then res_of PeConstraint (q_SetDirectPathGrant db u (fst c)) else Inr (q_DeleteDirectPathGrant db u (fst c)))
       (\<lambda>db'. apply_selection db' u cs)"

definition selection_tx ::
  "instant \<Rightarrow> fresh \<Rightarrow> 'a group_db_scheme \<Rightarrow> string \<Rightarrow> (string \<times> bool) list \<Rightarrow> path_error + unit \<times> 'a group_db_scheme" where
  "selection_tx now fr db user_id changes =
     bind_res (res_of PeUserNotFound (GetProxyUser db user_id)) (\<lambda>u.
     bind_res (check_selection db [] changes) (\<lambda>_.
     bind_res (set_direct_grants db (us_id u) (q_ListUserDesiredPathIDs db (us_id u))) (\<lambda>db1.
     bind_res (apply_selection (q_DeleteUserPathGroupGrants db1 (us_id u)) (us_id u) changes) (\<lambda>db2.
     bind_res (reconcilePathGrants now fr db2 (us_id u)) (\<lambda>db3. Inr ((), db3))))))"

definition ChangeUserPathSelection ::
  "instant \<Rightarrow> fresh \<Rightarrow> 'a group_db_scheme \<Rightarrow> string \<Rightarrow> (string \<times> bool) list \<Rightarrow> (path_error + unit) \<times> 'a group_db_scheme" where
  "ChangeUserPathSelection now fr db user_id changes =
     (if changes = [] \<or> length changes > MaxPathGroupMembers then (Inl PeSelectionSize, db)
      else atomically db (selection_tx now fr db user_id changes))"

section \<open>Direct paths that come with a credential\<close>

text \<open>The user of a credential is known by name; \<open>fe\<close> and \<open>fp\<close> are the fresh ids of endpoints and paths.\<close>

definition credential_user_name :: "'a proxy_db_scheme \<Rightarrow> cred_row \<Rightarrow> string" where
  "credential_user_name db c =
     (case q_GetProxyUserByIDIncludingDeleted db (cr_user c) of None \<Rightarrow> [] | Some u \<Rightarrow> us_name u)"

fun grant_paths ::
  "instant \<Rightarrow> fresh \<Rightarrow> string \<Rightarrow> 'a group_db_scheme \<Rightarrow> path_row list \<Rightarrow> (path_error + unit) \<times> 'a group_db_scheme" where
  "grant_paths now fr user_name db [] = (Inr (), db)"
| "grant_paths now fr user_name db (p # ps) =
     bind_st (GrantPathAccess now fr db user_name (pt_id p)) (\<lambda>_ db'. grant_paths now fr user_name db' ps)"

definition GrantDirectPathsForCredential ::
  "instant \<Rightarrow> fresh \<Rightarrow> (string \<Rightarrow> string) \<Rightarrow> (string \<Rightarrow> string) \<Rightarrow> 'a group_db_scheme \<Rightarrow> cred_row
     \<Rightarrow> (path_error + unit) \<times> 'a group_db_scheme" where
  "GrantDirectPathsForCredential now fr fe fp db c =
     (if \<not> GetProxyDirectPublication db (cr_proxy c) then (Inr (), db)
      else bind_st (EnsureDirectPathsForProxy now fe fp db (cr_proxy c)) (\<lambda>ps db'.
           grant_paths now fr (credential_user_name db c) db' ps))"

text \<open>\<open>IssueVLESSRealityAccess\<close> and \<open>IssueShadowsocks2022Access\<close>: one transaction, for one protocol each.\<close>

definition issue_access ::
  "string \<Rightarrow> instant \<Rightarrow> fresh \<Rightarrow> (string \<Rightarrow> string) \<Rightarrow> (string \<Rightarrow> string) \<Rightarrow> 'a group_db_scheme \<Rightarrow> string \<Rightarrow> string \<Rightarrow> string
     \<Rightarrow> (path_error + cred_row) \<times> 'a group_db_scheme" where
  "issue_access protocol now fr fe fp db user_name nm px =
     atomically db (bind_res (issueProxyCredential fr db user_name nm px protocol) (\<lambda>(c, db1).
       bind_res (in_tx (GrantDirectPathsForCredential now fr fe fp db1 c)) (\<lambda>(_, db2). Inr (c, db2))))"

definition IssueVLESSRealityAccess ::
  "instant \<Rightarrow> fresh \<Rightarrow> (string \<Rightarrow> string) \<Rightarrow> (string \<Rightarrow> string) \<Rightarrow> 'a group_db_scheme \<Rightarrow> string \<Rightarrow> string \<Rightarrow> string
     \<Rightarrow> (path_error + cred_row) \<times> 'a group_db_scheme" where
  "IssueVLESSRealityAccess = issue_access ProtocolVLESSReality"

definition IssueShadowsocks2022Access ::
  "instant \<Rightarrow> fresh \<Rightarrow> (string \<Rightarrow> string) \<Rightarrow> (string \<Rightarrow> string) \<Rightarrow> 'a group_db_scheme \<Rightarrow> string \<Rightarrow> string \<Rightarrow> string
     \<Rightarrow> (path_error + cred_row) \<times> 'a group_db_scheme" where
  "IssueShadowsocks2022Access = issue_access ProtocolShadowsocks2022"

end
