(* ===== verification/Path_Groups.thy ===== *)
theory Path_Groups
  imports Path_Grants
begin

text \<open>
  Groups of paths: \<open>internal/server/db/path_groups.go\<close> with the statements of
  \<open>sqlc/path_groups.sql.go\<close>. A change of a group runs in one transaction, also for a preview,
  which is rolled back. The token that binds a change to the state its preview saw is the
  parameter \<open>tok\<close>, a function of the database and of the change without its token (in the
  code the SHA-256 of both as JSON). The audit rows hold the change and its impact as data.
\<close>

record group_change =
  gc_operation :: string
  gc_group :: string
  gc_user :: string
  gc_name :: string
  gc_description :: string
  gc_enabled :: bool
  gc_revision :: int
  gc_paths :: "string list"
  gc_token :: string

record user_impact =
  ui_user :: string
  ui_name :: string
  ui_added :: "string list"
  ui_removed :: "string list"
  ui_retained :: "string list"

record group_impact =
  gi_token :: string
  gi_group :: string
  gi_users :: "user_impact list"
  gi_nodes :: "string list"

record change_row =
  ch_id :: string
  ch_group :: string
  ch_created_at :: stamp
  ch_change :: group_change
  ch_impact :: group_impact

record audit_db = group_db +
  db_group_changes :: "change_row list"

definition MaxPathGroupUsers :: nat where
  "MaxPathGroupUsers = 500"

definition MaxPathGroupAccesses :: nat where
  "MaxPathGroupAccesses = 5000"

section \<open>Statements\<close>

definition q_ListPathGroups :: "'a group_db_scheme \<Rightarrow> group_row list" where
  "q_ListPathGroups db = sort_key gr_name (sort_key gr_id (filter (\<lambda>g. gr_deleted_at g = None) (db_groups db)))"

definition q_GetPathGroup :: "'a group_db_scheme \<Rightarrow> string \<Rightarrow> group_row option" where
  "q_GetPathGroup db i = sel (\<lambda>g. gr_id g = i \<and> gr_deleted_at g = None) (db_groups db)"

text \<open>The name of a live group is unique.\<close>

definition q_CreatePathGroup :: "'a group_db_scheme \<Rightarrow> string \<Rightarrow> string \<Rightarrow> string \<Rightarrow> bool \<Rightarrow> 'a group_db_scheme option" where
  "q_CreatePathGroup db i nm descr b =
     (if list_ex (\<lambda>g. gr_id g = i \<or> gr_name g = nm \<and> gr_deleted_at g = None) (db_groups db) then None
      else Some (db\<lparr>db_groups := db_groups db @ [\<lparr>gr_id = i, gr_name = nm, gr_description = descr, gr_enabled = b,
                                                gr_revision = 1, gr_deleted_at = None\<rparr>]\<rparr>))"

definition q_UpdatePathGroup ::
  "'a group_db_scheme \<Rightarrow> string \<Rightarrow> string \<Rightarrow> string \<Rightarrow> bool \<Rightarrow> int \<Rightarrow> ('a group_db_scheme \<times> nat) option" where
  "q_UpdatePathGroup db i nm descr b revision =
     (let m = (\<lambda>g. gr_id g = i \<and> gr_revision g = revision \<and> gr_deleted_at g = None); n = length (filter m (db_groups db)) in
      if n > 0 \<and> list_ex (\<lambda>g. gr_id g \<noteq> i \<and> gr_name g = nm \<and> gr_deleted_at g = None) (db_groups db) then None
      else Some (db\<lparr>db_groups := upd m (\<lambda>g. g\<lparr>gr_name := nm, gr_description := descr, gr_enabled := b,
                                               gr_revision := gr_revision g + 1\<rparr>) (db_groups db)\<rparr>, n))"

definition q_ArchivePathGroup :: "instant \<Rightarrow> 'a group_db_scheme \<Rightarrow> string \<Rightarrow> 'a group_db_scheme" where
  "q_ArchivePathGroup now db i =
     db\<lparr>db_groups := upd (\<lambda>g. gr_id g = i \<and> gr_deleted_at g = None)
          (\<lambda>g. g\<lparr>gr_enabled := False, gr_deleted_at := Some (sql_now now), gr_revision := gr_revision g + 1\<rparr>) (db_groups db)\<rparr>"

definition q_ListPathGroupMembers :: "'a proxy_db_scheme \<Rightarrow> (string \<times> string) list" where
  "q_ListPathGroupMembers db = sort_key fst (db_group_members db)"

definition q_DeletePathGroupMembers :: "'a proxy_db_scheme \<Rightarrow> string \<Rightarrow> 'a proxy_db_scheme" where
  "q_DeletePathGroupMembers db i = db\<lparr>db_group_members := filter (\<lambda>m. fst m \<noteq> i) (db_group_members db)\<rparr>"

text \<open>Members are added in the order of \<open>sort_order\<close>.\<close>

definition q_AddPathGroupMember :: "'a group_db_scheme \<Rightarrow> string \<Rightarrow> string \<Rightarrow> 'a group_db_scheme option" where
  "q_AddPathGroupMember db g i =
     (if list_ex (\<lambda>m. m = (g, i)) (db_group_members db) \<or> \<not> list_ex (\<lambda>r. gr_id r = g) (db_groups db)
         \<or> \<not> list_ex (\<lambda>p. pt_id p = i) (db_paths db)
      then None else Some (db\<lparr>db_group_members := db_group_members db @ [(g, i)]\<rparr>))"

definition q_ListPathGroupGrants :: "'a group_db_scheme \<Rightarrow> (string \<times> string) list" where
  "q_ListPathGroupGrants db = sort_key fst (sort_key snd (db_group_grants db))"

definition q_GrantUserPathGroup :: "'a group_db_scheme \<Rightarrow> string \<Rightarrow> string \<Rightarrow> 'a group_db_scheme option" where
  "q_GrantUserPathGroup db u g =
     (if list_ex (\<lambda>a. a = (u, g)) (db_group_grants db) then Some db
      else if list_ex (\<lambda>r. gr_id r = g) (db_groups db) then Some (db\<lparr>db_group_grants := db_group_grants db @ [(u, g)]\<rparr>)
      else None)"

definition q_RevokeUserPathGroup :: "'a group_db_scheme \<Rightarrow> string \<Rightarrow> string \<Rightarrow> 'a group_db_scheme" where
  "q_RevokeUserPathGroup db u g = db\<lparr>db_group_grants := filter (\<lambda>a. a \<noteq> (u, g)) (db_group_grants db)\<rparr>"

text \<open>The live users who have every enabled selectable path of a group that has one.\<close>

definition q_ListPathGroupSelectionCounts :: "'a group_db_scheme \<Rightarrow> (string \<times> nat) list" where
  "q_ListPathGroupSelectionCounts db =
     map (\<lambda>g.
       let offered = filter (\<lambda>m. fst m = gr_id g
             \<and> list_ex (\<lambda>p. pt_id p = snd m \<and> pt_enabled p \<and> pt_visibility p = ''selectable'') (db_paths db)) (db_group_members db)
       in (gr_id g, length (filter (\<lambda>u. us_deleted_at u = None \<and> offered \<noteq> []
             \<and> list_all (\<lambda>m. list_ex (\<lambda>a. ac_path a = snd m \<and> ac_user a = us_id u \<and> ac_enabled a \<and> ac_deleted_at a = None)
                               (db_accesses db)) offered) (db_users db))))
       (filter (\<lambda>g. gr_deleted_at g = None) (db_groups db))"

definition q_ListPathGroupChanges :: "'a audit_db_scheme \<Rightarrow> string \<Rightarrow> change_row list" where
  "q_ListPathGroupChanges db g =
     take 100 (rev (sort_key ch_created_at (sort_key ch_id (filter (\<lambda>c. ch_group c = g) (db_group_changes db)))))"

definition q_RecordPathGroupChange :: "'a audit_db_scheme \<Rightarrow> change_row \<Rightarrow> 'a audit_db_scheme option" where
  "q_RecordPathGroupChange db c =
     (if list_ex (\<lambda>r. ch_id r = ch_id c) (db_group_changes db) \<or> \<not> list_ex (\<lambda>g. gr_id g = ch_group c) (db_groups db) then None
      else Some (db\<lparr>db_group_changes := db_group_changes db @ [c]\<rparr>))"

section \<open>Reading\<close>

record path_group =
  pg_selected :: nat
  pg_id :: string
  pg_name :: string
  pg_description :: string
  pg_enabled :: bool
  pg_revision :: int
  pg_paths :: "string list"
  pg_users :: "string list"

definition ListPathGroups :: "'a group_db_scheme \<Rightarrow> path_group list" where
  "ListPathGroups db =
     map (\<lambda>r. \<lparr>pg_selected = (case map_of (rev (q_ListPathGroupSelectionCounts db)) (gr_id r) of None \<Rightarrow> 0 | Some n \<Rightarrow> n),
               pg_id = gr_id r, pg_name = gr_name r, pg_description = gr_description r, pg_enabled = gr_enabled r,
               pg_revision = gr_revision r,
               pg_paths = map snd (filter (\<lambda>m. fst m = gr_id r) (q_ListPathGroupMembers db)),
               pg_users = map fst (filter (\<lambda>a. snd a = gr_id r) (q_ListPathGroupGrants db))\<rparr>)
       (q_ListPathGroups db)"

definition ListPathGroupHistory :: "'a audit_db_scheme \<Rightarrow> string \<Rightarrow> change_row list" where
  "ListPathGroupHistory db g = q_ListPathGroupChanges db g"

definition containsID :: "string list \<Rightarrow> string \<Rightarrow> bool" where
  "containsID ids i = list_ex (\<lambda>v. v = i) ids"

definition groupGranted :: "(string \<times> string) list \<Rightarrow> string \<Rightarrow> string \<Rightarrow> bool" where
  "groupGranted grants u g = list_ex (\<lambda>a. fst a = u \<and> snd a = g) grants"

text \<open>For a path: whether it is granted directly, and the groups (id, name) that grant it.\<close>

type_synonym sources = "string \<rightharpoonup> bool \<times> (string \<times> string) list"

definition add_source :: "string \<times> string \<Rightarrow> string \<Rightarrow> sources \<Rightarrow> sources" where
  "add_source ref i out = (case out i of None \<Rightarrow> out(i \<mapsto> (False, [ref])) | Some s \<Rightarrow> out(i \<mapsto> (fst s, snd s @ [ref])))"

definition add_group_sources :: "string \<Rightarrow> path_group \<Rightarrow> sources \<Rightarrow> sources" where
  "add_group_sources u g out =
     (if \<not> pg_enabled g \<or> \<not> containsID (pg_users g) u then out
      else fold (add_source (pg_id g, pg_name g)) (pg_paths g) out)"

definition UserPathSources :: "'a group_db_scheme \<Rightarrow> string \<Rightarrow> path_error + sources" where
  "UserPathSources db user_id =
     bind_res (res_of PeUserNotFound (GetProxyUser db user_id)) (\<lambda>u.
     let direct = fold (\<lambda>d out. if snd (snd d) then out(fst (snd d) \<mapsto> (True, [])) else out)
                    (q_ListUserDirectPathGrants db (us_id u)) Map.empty
     in Inr (fold (add_group_sources (us_id u)) (ListPathGroups db) direct))"

section \<open>Changing a group\<close>

fun check_members :: "'a proxy_db_scheme \<Rightarrow> string list \<Rightarrow> string list \<Rightarrow> path_error + unit" where
  "check_members db seen [] = Inr ()"
| "check_members db seen (i # is) =
     (if i \<in> set seen then Inl PeDuplicate
      else
        bind_res (res_of PePathNotFound (GetPath db i)) (\<lambda>p.
        if pt_visibility p \<noteq> ''selectable'' then Inl PeDependencyOnly
        else
          bind_res (res_of PeEndpointNotFound (GetEndpoint db (pt_endpoint p))) (\<lambda>e.
          bind_res (ResolveEndpoint db e) (\<lambda>_. check_members db (i # seen) is))))"

fun add_members :: "'a group_db_scheme \<Rightarrow> string \<Rightarrow> string list \<Rightarrow> path_error + 'a group_db_scheme" where
  "add_members db g [] = Inr db"
| "add_members db g (i # is) = bind_res (res_of PeConstraint (q_AddPathGroupMember db g i)) (\<lambda>db'. add_members db' g is)"

text \<open>The three branches of the switch. \<open>save_group\<close> yields the id of the group, \<open>gid\<close> when it is new.\<close>

definition save_group ::
  "string \<Rightarrow> 'a group_db_scheme \<Rightarrow> group_change \<Rightarrow> nat \<Rightarrow> path_error + string \<times> 'a group_db_scheme" where
  "save_group gid db c affected =
     (let nm = trim_space (gc_name c); descr = trim_space (gc_description c) in
      if nm = [] \<or> length nm > 100 \<or> length (gc_description c) > 2000 then Inl PeGroupName
      else if length (gc_paths c) > MaxPathGroupMembers then Inl PeGroupLimit
      else if length (gc_paths c) * affected > MaxPathGroupAccesses then Inl PeGroupLimit
      else
        bind_res (check_members db [] (gc_paths c)) (\<lambda>_.
        bind_res (if gc_group c = []
                  then bind_res (res_of PeConstraint (q_CreatePathGroup db gid nm descr (gc_enabled c))) (\<lambda>db1. Inr (gid, db1))
                  else bind_res (res_of PeConstraint (q_UpdatePathGroup db (gc_group c) nm descr (gc_enabled c) (gc_revision c)))
                         (\<lambda>(db1, n). if n \<noteq> 1 then Inl PeGroupConflict else Inr (gc_group c, db1))) (\<lambda>(g, db1).
        bind_res (add_members (q_DeletePathGroupMembers db1 g) g (gc_paths c)) (\<lambda>db2. Inr (g, db2)))))"

definition delete_group :: "instant \<Rightarrow> 'a group_db_scheme \<Rightarrow> group_change \<Rightarrow> path_error + 'a group_db_scheme" where
  "delete_group now db c =
     bind_res (res_of PeGroupNotFound (q_GetPathGroup db (gc_group c))) (\<lambda>g.
     if gr_revision g \<noteq> gc_revision c then Inl PeGroupConflict else Inr (q_ArchivePathGroup now db (gc_group c)))"

definition grant_group :: "bool \<Rightarrow> 'a group_db_scheme \<Rightarrow> group_change \<Rightarrow> path_error + 'a group_db_scheme" where
  "grant_group grant db c =
     (if gc_user c = [] then Inl PeUserRequired
      else
        bind_res (res_of PeGroupNotFound (q_GetPathGroup db (gc_group c))) (\<lambda>_.
        if grant then
          let grants = q_ListPathGroupGrants db;
              had = groupGranted grants (gc_user c) (gc_group c);
              count = length (filter (\<lambda>a. snd a = gc_group c) grants);
              count' = (if had then count else Suc count);
              members = length (filter (\<lambda>m. fst m = gc_group c) (q_ListPathGroupMembers db))
          in if count \<ge> MaxPathGroupUsers \<and> \<not> had then Inl PeGroupLimit
             else if count' * members > MaxPathGroupAccesses then Inl PeGroupLimit
             else res_of PeConstraint (q_GrantUserPathGroup db (gc_user c) (gc_group c))
        else Inr (q_RevokeUserPathGroup db (gc_user c) (gc_group c))))"

text \<open>The nodes on the chain of a path, added to \<open>nodes\<close>.\<close>

function chain_nodes :: "'a proxy_db_scheme \<Rightarrow> string list \<Rightarrow> string list \<Rightarrow> string \<Rightarrow> path_error + string list" where
  "chain_nodes db nodes visited i =
     (if i = [] \<or> i \<in> set visited then Inr nodes
      else
        case GetPath db i of
          None \<Rightarrow> Inl PePathNotFound
        | Some p \<Rightarrow>
          (case GetEndpoint db (pt_endpoint p) of
             None \<Rightarrow> Inl PeEndpointNotFound
           | Some e \<Rightarrow>
             (case GetProxyByID db (ep_proxy e) of
                None \<Rightarrow> Inl PeProxyNotFound
              | Some x \<Rightarrow>
                (case pt_dialer p of
                   None \<Rightarrow> Inr (px_node (fst x) # nodes)
                 | Some d \<Rightarrow> chain_nodes db (px_node (fst x) # nodes) (i # visited) d))))"
  by pat_completeness auto
termination
  by (relation "measure (\<lambda>(db, nodes, visited, i). walk_left db visited i)") (auto intro: walk_left_next)

declare chain_nodes.simps [simp del]

fun chains_nodes :: "'a proxy_db_scheme \<Rightarrow> string list \<Rightarrow> string list \<Rightarrow> path_error + string list" where
  "chains_nodes db nodes [] = Inr nodes"
| "chains_nodes db nodes (i # is) = bind_res (chain_nodes db nodes [] i) (\<lambda>nodes'. chains_nodes db nodes' is)"

definition user_impact_of :: "string \<Rightarrow> string \<Rightarrow> string list \<Rightarrow> string list \<Rightarrow> user_impact" where
  "user_impact_of u nm before after =
     \<lparr>ui_user = u, ui_name = nm, ui_added = filter (\<lambda>p. \<not> containsID before p) after,
      ui_removed = filter (\<lambda>p. \<not> containsID after p) before, ui_retained = filter (containsID before) after\<rparr>"

text \<open>The loop over the affected users, in the order of their ids. \<open>fr u\<close> are the fresh values of user \<open>u\<close>.\<close>

fun reconcile_users ::
  "instant \<Rightarrow> (string \<Rightarrow> fresh) \<Rightarrow> (string \<Rightarrow> string list) \<Rightarrow> 'a group_db_scheme \<Rightarrow> string list \<Rightarrow> string list
     \<Rightarrow> path_error + (user_impact list \<times> string list) \<times> 'a group_db_scheme" where
  "reconcile_users now fr before db nodes [] = Inr (([], nodes), db)"
| "reconcile_users now fr before db nodes (u # us) =
     bind_res (reconcilePathGrants now (fr u) db u) (\<lambda>db1.
     bind_res (res_of PeUserNotFound (GetProxyUser db1 u)) (\<lambda>row.
     let i = user_impact_of u (us_name row) (before u) (q_ListUserDesiredPathIDs db1 u) in
     bind_res (chains_nodes db1 nodes (ui_added i @ ui_removed i)) (\<lambda>nodes1.
     bind_res (reconcile_users now fr before db1 nodes1 us) (\<lambda>((is, nodes2), db2). Inr ((i # is, nodes2), db2)))))"

text \<open>The switch: the id of the group, the affected users and the new state.\<close>

definition change_sources ::
  "instant \<Rightarrow> string \<Rightarrow> 'a group_db_scheme \<Rightarrow> group_change \<Rightarrow> string list
     \<Rightarrow> path_error + (string \<times> string list) \<times> 'a group_db_scheme" where
  "change_sources now gid db c users =
     (if gc_operation c = ''save'' then
        bind_res (save_group gid db c (length users)) (\<lambda>(g, db1). Inr ((g, users), db1))
      else if gc_operation c = ''delete'' then
        bind_res (delete_group now db c) (\<lambda>db1. Inr ((gc_group c, users), db1))
      else if gc_operation c = ''grant'' \<or> gc_operation c = ''revoke'' then
        bind_res (grant_group (gc_operation c = ''grant'') db c) (\<lambda>db1. Inr ((gc_group c, [gc_user c]), db1))
      else Inl PeOperation)"

text \<open>The affected users: those the group is granted to, and the user that the change names, with the id in place of the name.\<close>

definition granted_users :: "'a group_db_scheme \<Rightarrow> string \<Rightarrow> string list" where
  "granted_users db g = remdups (map fst (filter (\<lambda>a. snd a = g) (q_ListPathGroupGrants db)))"

definition affected_users :: "'a group_db_scheme \<Rightarrow> group_change \<Rightarrow> path_error + group_change \<times> string list" where
  "affected_users db c =
     (if gc_user c = [] then Inr (c, granted_users db (gc_group c))
      else bind_res (res_of PeUserNotFound (GetProxyUser db (gc_user c))) (\<lambda>u.
           Inr (c\<lparr>gc_user := us_id u\<rparr>, List.insert (us_id u) (granted_users db (gc_group c)))))"

definition record_change ::
  "instant \<Rightarrow> string \<Rightarrow> bool \<Rightarrow> group_change \<Rightarrow> group_impact \<Rightarrow> 'a audit_db_scheme \<Rightarrow> path_error + group_impact \<times> 'a audit_db_scheme" where
  "record_change now event preview c impact db =
     (if preview then Inr (impact, db)
      else bind_res (res_of PeConstraint (q_RecordPathGroupChange db
             \<lparr>ch_id = event, ch_group = gi_group impact, ch_created_at = sql_now now,
              ch_change = c\<lparr>gc_group := gi_group impact, gc_token := []\<rparr>, ch_impact = impact\<lparr>gi_token := []\<rparr>\<rparr>))
             (\<lambda>db'. Inr (impact, db')))"

definition change_group_tx ::
  "('a audit_db_scheme \<Rightarrow> group_change \<Rightarrow> string) \<Rightarrow> instant \<Rightarrow> (string \<Rightarrow> fresh) \<Rightarrow> string \<Rightarrow> string
     \<Rightarrow> 'a audit_db_scheme \<Rightarrow> group_change \<Rightarrow> bool \<Rightarrow> path_error + group_impact \<times> 'a audit_db_scheme" where
  "change_group_tx tok now fr gid event db c0 preview =
     (let token = tok db (c0\<lparr>gc_token := []\<rparr>) in
      if \<not> preview \<and> gc_token c0 \<noteq> token then Inl PeGroupConflict
      else
        bind_res (affected_users db c0) (\<lambda>(c, users).
        if length users > MaxPathGroupUsers then Inl PeGroupLimit
        else
          bind_res (change_sources now gid db c users) (\<lambda>((g, users'), db1).
          bind_res (reconcile_users now fr (\<lambda>u. if u \<in> set users then q_ListUserDesiredPathIDs db u else []) db1 [] (sort users'))
            (\<lambda>((is, nodes), db2).
          let impact = \<lparr>gi_token = token, gi_group = g, gi_users = is, gi_nodes = sort (remdups nodes)\<rparr> in
          record_change now event preview c impact db2))))"

text \<open>A preview runs the same transaction and rolls it back.\<close>

definition ChangePathGroup ::
  "('a audit_db_scheme \<Rightarrow> group_change \<Rightarrow> string) \<Rightarrow> instant \<Rightarrow> (string \<Rightarrow> fresh) \<Rightarrow> string \<Rightarrow> string
     \<Rightarrow> 'a audit_db_scheme \<Rightarrow> group_change \<Rightarrow> bool \<Rightarrow> (path_error + group_impact) \<times> 'a audit_db_scheme" where
  "ChangePathGroup tok now fr gid event db c preview =
     (case atomically db (change_group_tx tok now fr gid event db c preview) of
        (r, db') \<Rightarrow> (r, if preview then db else db'))"

end
