(* ===== verification/Resource_Deletion.thy ===== *)
theory Resource_Deletion
  imports Path_Groups Node_Tokens
begin

text \<open>
  Deleting users, proxies and nodes: \<open>internal/server/db/deletion.go\<close>, the deletions of
  \<open>users.go\<close>, \<open>proxies.go\<close> and \<open>nodes.go\<close>, with the statements of \<open>sqlc/deletion.sql.go\<close>. Rows stay as
  history; what is retired are the routes. The tokens of the nodes, which live beside this
  database in the model, are passed along as a list of rows.
\<close>

section \<open>Users\<close>

definition q_update_user :: "(user_row \<Rightarrow> bool) \<Rightarrow> (user_row \<Rightarrow> user_row) \<Rightarrow> 'a proxy_db_scheme \<Rightarrow> 'a proxy_db_scheme \<times> nat" where
  "q_update_user m f db = (db\<lparr>db_users := upd m f (db_users db)\<rparr>, length (filter m (db_users db)))"

definition q_SetProxyUserStatus :: "'a proxy_db_scheme \<Rightarrow> string \<Rightarrow> string \<Rightarrow> 'a proxy_db_scheme \<times> nat" where
  "q_SetProxyUserStatus db i status = q_update_user (\<lambda>u. us_id u = i \<and> us_deleted_at u = None) (\<lambda>u. u\<lparr>us_status := status\<rparr>) db"

definition q_SoftDeleteProxyUser :: "instant \<Rightarrow> 'a proxy_db_scheme \<Rightarrow> string \<Rightarrow> 'a proxy_db_scheme \<times> nat" where
  "q_SoftDeleteProxyUser now db i =
     q_update_user (\<lambda>u. us_id u = i \<and> us_deleted_at u = None)
       (\<lambda>u. u\<lparr>us_status := ''disabled'', us_deleted_at := Some (sql_now now)\<rparr>) db"

text \<open>The name of a live user is unique.\<close>

definition q_RestoreProxyUser :: "'a proxy_db_scheme \<Rightarrow> string \<Rightarrow> ('a proxy_db_scheme \<times> nat) option" where
  "q_RestoreProxyUser db i =
     (let r = q_update_user (\<lambda>u. us_id u = i \<and> us_deleted_at u \<noteq> None) (\<lambda>u. u\<lparr>us_deleted_at := None\<rparr>) db in
      if list_ex (\<lambda>u. us_id u = i \<and> us_deleted_at u \<noteq> None
                   \<and> list_ex (\<lambda>v. us_id v \<noteq> i \<and> us_name v = us_name u \<and> us_deleted_at v = None) (db_users db)) (db_users db)
      then None else Some r)"

definition q_DeleteUserDirectPathGrants :: "'a path_db_scheme \<Rightarrow> string \<Rightarrow> 'a path_db_scheme" where
  "q_DeleteUserDirectPathGrants db u = db\<lparr>db_direct_grants := filter (\<lambda>g. fst g \<noteq> u) (db_direct_grants db)\<rparr>"

definition q_ArchiveUserPathAccesses :: "instant \<Rightarrow> 'a proxy_db_scheme \<Rightarrow> string \<Rightarrow> 'a proxy_db_scheme" where
  "q_ArchiveUserPathAccesses now db u =
     db\<lparr>db_accesses := upd (\<lambda>a. ac_user a = u \<and> ac_deleted_at a = None)
          (\<lambda>a. a\<lparr>ac_enabled := False, ac_deleted_at := Some (sql_now now)\<rparr>) (db_accesses db)\<rparr>"

definition q_ArchiveGroupUserCredentials :: "instant \<Rightarrow> 'a proxy_db_scheme \<Rightarrow> string \<Rightarrow> 'a proxy_db_scheme" where
  "q_ArchiveGroupUserCredentials now db u =
     db\<lparr>db_creds := upd (\<lambda>c. cr_user c = u \<and> cr_deleted_at c = None)
          (\<lambda>c. c\<lparr>cr_enabled := False, cr_deleted_at := Some (sql_now now)\<rparr>) (db_creds db)\<rparr>"

definition SetProxyUserStatus :: "'a proxy_db_scheme \<Rightarrow> string \<Rightarrow> string \<Rightarrow> (path_error + unit) \<times> 'a proxy_db_scheme" where
  "SetProxyUserStatus db nm status =
     (if status \<noteq> ''active'' \<and> status \<noteq> ''disabled'' then (Inl PeOperation, db)
      else
        case GetProxyUser db nm of
          None \<Rightarrow> (Inl PeUserNotFound, db)
        | Some u \<Rightarrow> (let (db', affected) = q_SetProxyUserStatus db (us_id u) status
                   in (if affected = 0 then Inl PeUserNotFound else Inr (), db')))"

definition DisableProxyUser :: "'a proxy_db_scheme \<Rightarrow> string \<Rightarrow> (path_error + user_row) \<times> 'a proxy_db_scheme" where
  "DisableProxyUser db nm =
     bind_st (SetProxyUserStatus db nm ''disabled'') (\<lambda>_ db'. (res_of PeUserNotFound (GetProxyUser db' nm), db'))"

text \<open>A deleted user loses every source of a path, every access and every credential.\<close>

definition delete_user_tx :: "instant \<Rightarrow> 'a group_db_scheme \<Rightarrow> string \<Rightarrow> path_error + user_row \<times> 'a group_db_scheme" where
  "delete_user_tx now db nm =
     bind_res (res_of PeUserNotFound (GetProxyUser db nm)) (\<lambda>u.
     let (db1, affected) = q_SoftDeleteProxyUser now db (us_id u) in
     if affected = 0 then Inl PeUserNotFound
     else
       let db2 = q_DeleteUserPathGroupGrants db1 (us_id u);
           db3 = q_DeleteUserDirectPathGrants db2 (us_id u);
           db4 = q_ArchiveUserPathAccesses now db3 (us_id u);
           db5 = q_ArchiveGroupUserCredentials now db4 (us_id u)
       in bind_res (res_of PeUserNotFound (getProxyUserIncludingDeleted db5 (us_id u))) (\<lambda>r. Inr (r, db5)))"

definition SoftDeleteProxyUser :: "instant \<Rightarrow> 'a group_db_scheme \<Rightarrow> string \<Rightarrow> (path_error + user_row) \<times> 'a group_db_scheme" where
  "SoftDeleteProxyUser now db nm = atomically db (delete_user_tx now db nm)"

definition RestoreProxyUser :: "'a proxy_db_scheme \<Rightarrow> string \<Rightarrow> (path_error + user_row) \<times> 'a proxy_db_scheme" where
  "RestoreProxyUser db nm =
     (case getProxyUserIncludingDeleted db nm of
        None \<Rightarrow> (Inl PeUserNotFound, db)
      | Some u \<Rightarrow>
        (case q_RestoreProxyUser db (us_id u) of
           None \<Rightarrow> (Inl PeConstraint, db)
         | Some (db', affected) \<Rightarrow> (if affected = 0 then Inl PeUserNotFound else res_of PeUserNotFound (GetProxyUser db' nm), db')))"

section \<open>Retired resources\<close>

text \<open>A proxy is retired when it or its node is deleted; a path is, when its proxy or a dialer of it is.\<close>

definition retired_proxy :: "'a proxy_db_scheme \<Rightarrow> string \<Rightarrow> bool" where
  "retired_proxy db i \<longleftrightarrow> list_ex (\<lambda>d. px_id (fst d) = i \<and> \<not> live_proxy d) (proxy_details db)"

definition on_retired_proxy :: "'a proxy_db_scheme \<Rightarrow> path_row \<Rightarrow> bool" where
  "on_retired_proxy db p \<longleftrightarrow> list_ex (\<lambda>e. ep_id e = pt_endpoint p \<and> retired_proxy db (ep_proxy e)) (db_endpoints db)"

text \<open>The recursive query of \<open>ListRetiredResourcePaths\<close>: the rows of a round are the paths that dial the rows so far.\<close>

function dialing_paths :: "'a proxy_db_scheme \<Rightarrow> string list \<Rightarrow> string list" where
  "dialing_paths db found =
     (let new = map pt_id (filter (\<lambda>p. (case pt_dialer p of None \<Rightarrow> False | Some d \<Rightarrow> d \<in> set found) \<and> pt_id p \<notin> set found) (db_paths db))
      in if new = [] then found else dialing_paths db (found @ remdups new))"
  by pat_completeness auto
termination
proof (relation "measure (\<lambda>(db, found). card (set (map pt_id (db_paths db)) - set found))")
  fix db :: "'a proxy_db_scheme" and found new
  assume new: "new = map pt_id (filter (\<lambda>p. (case pt_dialer p of None \<Rightarrow> False | Some d \<Rightarrow> d \<in> set found) \<and> pt_id p \<notin> set found) (db_paths db))"
    "new \<noteq> []"
  from new(2) obtain i where "i \<in> set new" using list.set_sel(1) by blast
  with new(1) have "i \<in> pt_id ` set (db_paths db)" "i \<notin> set found" "i \<in> set new" by auto
  then have "set (map pt_id (db_paths db)) - set (found @ remdups new) \<subset> set (map pt_id (db_paths db)) - set found" by auto
  then show "((db, found @ remdups new), db, found) \<in> measure (\<lambda>(db, found). card (set (map pt_id (db_paths db)) - set found))"
    by (simp add: psubset_card_mono del: set_map set_append set_remdups)
qed simp

declare dialing_paths.simps [simp del]

definition q_ListRetiredResourcePaths :: "'a proxy_db_scheme \<Rightarrow> string list" where
  "q_ListRetiredResourcePaths db = dialing_paths db (remdups (map pt_id (filter (on_retired_proxy db) (db_paths db))))"

definition q_ListPathAccessUsersIncludingDeleted :: "'a proxy_db_scheme \<Rightarrow> string \<Rightarrow> string list" where
  "q_ListPathAccessUsersIncludingDeleted db i =
     remdups (map ac_user (filter (\<lambda>a. ac_path a = i \<and> ac_deleted_at a = None) (db_accesses db)))"

definition q_ArchivePathAccesses :: "instant \<Rightarrow> 'a proxy_db_scheme \<Rightarrow> string \<Rightarrow> 'a proxy_db_scheme" where
  "q_ArchivePathAccesses now db i =
     db\<lparr>db_accesses := upd (\<lambda>a. ac_path a = i \<and> ac_deleted_at a = None)
          (\<lambda>a. a\<lparr>ac_enabled := False, ac_deleted_at := Some (sql_now now)\<rparr>) (db_accesses db)\<rparr>"

definition q_RemoveRetiredPathGroupSources :: "'a proxy_db_scheme \<Rightarrow> string \<Rightarrow> 'a proxy_db_scheme" where
  "q_RemoveRetiredPathGroupSources db i = db\<lparr>db_group_members := filter (\<lambda>m. snd m \<noteq> i) (db_group_members db)\<rparr>"

definition q_RemoveRetiredPathDirectSources :: "'a path_db_scheme \<Rightarrow> string \<Rightarrow> 'a path_db_scheme" where
  "q_RemoveRetiredPathDirectSources db i = db\<lparr>db_direct_grants := filter (\<lambda>g. fst (snd g) \<noteq> i) (db_direct_grants db)\<rparr>"

definition q_DisableRetiredNodeBindings :: "'a proxy_db_scheme \<Rightarrow> 'a proxy_db_scheme" where
  "q_DisableRetiredNodeBindings db =
     db\<lparr>db_bindings := upd (\<lambda>b. bd_enabled b \<and> list_ex (\<lambda>n. node_id n = bd_node b \<and> node_deleted_at n \<noteq> None) (db_nodes db))
          (\<lambda>b. b\<lparr>bd_enabled := False, bd_reason := ''node_deleted''\<rparr>) (db_bindings db)\<rparr>"

definition q_DisableRetiredEndpoints :: "'a proxy_db_scheme \<Rightarrow> 'a proxy_db_scheme" where
  "q_DisableRetiredEndpoints db =
     db\<lparr>db_endpoints := upd (\<lambda>e. ep_enabled e \<and> retired_proxy db (ep_proxy e)) (\<lambda>e. e\<lparr>ep_enabled := False\<rparr>) (db_endpoints db)\<rparr>"

definition q_ArchiveRetiredProxyCredentials :: "instant \<Rightarrow> 'a proxy_db_scheme \<Rightarrow> 'a proxy_db_scheme" where
  "q_ArchiveRetiredProxyCredentials now db =
     db\<lparr>db_creds := upd (\<lambda>c. cr_deleted_at c = None \<and> retired_proxy db (cr_proxy c))
          (\<lambda>c. c\<lparr>cr_enabled := False, cr_deleted_at := Some (sql_now now)\<rparr>) (db_creds db)\<rparr>"

text \<open>The loop over the retired paths collects their users.\<close>

definition retire_path :: "instant \<Rightarrow> 'a path_db_scheme \<Rightarrow> string \<Rightarrow> 'a path_db_scheme" where
  "retire_path now db i =
     (let db1 = fst (q_SetPathEnabled now db i False); db2 = q_ArchivePathAccesses now db1 i;
          db3 = q_RemoveRetiredPathGroupSources db2 i
      in q_RemoveRetiredPathDirectSources db3 i)"

fun retire_paths :: "instant \<Rightarrow> 'a path_db_scheme \<Rightarrow> string list \<Rightarrow> string list \<Rightarrow> string list \<times> 'a path_db_scheme" where
  "retire_paths now db users [] = (users, db)"
| "retire_paths now db users (i # is) =
     retire_paths now (retire_path now db i) (List.union users (q_ListPathAccessUsersIncludingDeleted db i)) is"

fun disable_unused_of :: "'a proxy_db_scheme \<Rightarrow> string list \<Rightarrow> path_error + 'a proxy_db_scheme" where
  "disable_unused_of db [] = Inr db"
| "disable_unused_of db (i # is) =
     bind_res (res_of PeUserNotFound (q_GetProxyUserByIDIncludingDeleted db i)) (\<lambda>u.
     if us_deleted_at u \<noteq> None then disable_unused_of db is
     else bind_res (disableUnusedProxyCredentialsTx db u) (\<lambda>db'. disable_unused_of db' is))"

definition retireResourceDependenciesTx :: "instant \<Rightarrow> 'a path_db_scheme \<Rightarrow> path_error + 'a path_db_scheme" where
  "retireResourceDependenciesTx now db =
     (let (users, db1) = retire_paths now db [] (q_ListRetiredResourcePaths db);
          db2 = q_DisableRetiredNodeBindings db1;
          db3 = q_DisableRetiredEndpoints db2;
          db4 = q_ArchiveRetiredProxyCredentials now db3
      in disable_unused_of db4 users)"

section \<open>Proxies\<close>

definition q_SoftDeleteProxy :: "instant \<Rightarrow> 'a proxy_db_scheme \<Rightarrow> string \<Rightarrow> 'a proxy_db_scheme \<times> nat" where
  "q_SoftDeleteProxy now db i =
     (let m = (\<lambda>x. px_id x = i \<and> px_deleted_at x = None) in
      (db\<lparr>db_proxies := upd m (\<lambda>x. x\<lparr>px_enabled := False, px_deleted_at := Some (sql_now now)\<rparr>) (db_proxies db)\<rparr>,
       length (filter m (db_proxies db))))"

definition q_DeleteProxyAliases :: "'a group_db_scheme \<Rightarrow> string \<Rightarrow> 'a group_db_scheme" where
  "q_DeleteProxyAliases db i = db\<lparr>db_proxy_aliases := filter (\<lambda>a. snd a \<noteq> i) (db_proxy_aliases db)\<rparr>"

definition delete_proxy_tx :: "instant \<Rightarrow> 'a group_db_scheme \<Rightarrow> string \<Rightarrow> path_error + 'a group_db_scheme" where
  "delete_proxy_tx now db i =
     (let (db1, affected) = q_SoftDeleteProxy now db i in
      if affected = 0 then Inl PeProxyNotFound
      else retireResourceDependenciesTx now (q_DeleteProxyAliases db1 i))"

text \<open>The id has been found before the transaction; the final lookup by id is that of the deleted row.\<close>

definition SoftDeleteProxy ::
  "instant \<Rightarrow> 'a group_db_scheme \<Rightarrow> string \<Rightarrow> string \<Rightarrow> (path_error + (proxy_row \<times> node_row)) \<times> 'a group_db_scheme" where
  "SoftDeleteProxy now db nm px =
     (case GetProxy db nm px of
        None \<Rightarrow> (Inl PeProxyNotFound, db)
      | Some d \<Rightarrow>
        (case delete_proxy_tx now db (px_id (fst d)) of
           Inl e \<Rightarrow> (Inl e, db)
         | Inr db' \<Rightarrow> (res_of PeProxyNotFound (q_GetProxyByIDIncludingDeleted db' (px_id (fst d))), db')))"

section \<open>Nodes\<close>

definition q_SoftDeleteNode :: "instant \<Rightarrow> 'a node_db_scheme \<Rightarrow> string \<Rightarrow> 'a node_db_scheme \<times> nat" where
  "q_SoftDeleteNode now db i =
     (let m = (\<lambda>n. node_id n = i \<and> node_deleted_at n = None) in
      (db\<lparr>db_nodes := upd m (\<lambda>n. n\<lparr>node_status := NodeDisabled, node_deleted_at := Some (sql_now now), node_updated_at := sql_now now\<rparr>)
            (db_nodes db)\<rparr>,
       length (filter m (db_nodes db))))"

definition q_DeleteNodeAliases :: "'a node_db_scheme \<Rightarrow> string \<Rightarrow> 'a node_db_scheme" where
  "q_DeleteNodeAliases db i = db\<lparr>db_aliases := filter (\<lambda>a. snd a \<noteq> i) (db_aliases db)\<rparr>"

definition q_ArchiveNodeProxies :: "instant \<Rightarrow> 'a proxy_db_scheme \<Rightarrow> string \<Rightarrow> 'a proxy_db_scheme" where
  "q_ArchiveNodeProxies now db i =
     db\<lparr>db_proxies := upd (\<lambda>x. px_node x = i)
          (\<lambda>x. x\<lparr>px_enabled := False,
                 px_deleted_at := (case px_deleted_at x of None \<Rightarrow> Some (sql_now now) | Some t \<Rightarrow> Some t)\<rparr>) (db_proxies db)\<rparr>"

definition q_DeleteArchivedProxyAliases :: "'a group_db_scheme \<Rightarrow> 'a group_db_scheme" where
  "q_DeleteArchivedProxyAliases db =
     db\<lparr>db_proxy_aliases := filter (\<lambda>a. \<not> list_ex (\<lambda>x. px_id x = snd a \<and> px_deleted_at x \<noteq> None) (db_proxies db)) (db_proxy_aliases db)\<rparr>"

definition revoke_tokens :: "instant \<Rightarrow> string \<Rightarrow> token_row list \<Rightarrow> token_row list" where
  "revoke_tokens now i toks = upd (\<lambda>t. tok_node t = i \<and> tok_revoked_at t = None) (\<lambda>t. t\<lparr>tok_revoked_at := Some (sql_now now)\<rparr>) toks"

definition delete_node_tx ::
  "instant \<Rightarrow> 'a group_db_scheme \<times> token_row list \<Rightarrow> string \<Rightarrow> path_error + 'a group_db_scheme \<times> token_row list" where
  "delete_node_tx now s i =
     (let (db1, affected) = q_SoftDeleteNode now (fst s) i in
      if affected = 0 then Inl PeNodeNotFound
      else
        let db2 = q_DeleteNodeAliases db1 i; db3 = q_ArchiveNodeProxies now db2 i; db4 = q_DeleteArchivedProxyAliases db3
        in bind_res (retireResourceDependenciesTx now db4) (\<lambda>db5. Inr (db5, revoke_tokens now i (snd s))))"

definition SoftDeleteNode ::
  "instant \<Rightarrow> 'a group_db_scheme \<times> token_row list \<Rightarrow> string \<Rightarrow> (path_error + node_row) \<times> 'a group_db_scheme \<times> token_row list" where
  "SoftDeleteNode now s nm =
     (case GetNode (fst s) nm of
        None \<Rightarrow> (Inl PeNodeNotFound, s)
      | Some n \<Rightarrow>
        (case delete_node_tx now s (node_id n) of
           Inl e \<Rightarrow> (Inl e, s)
         | Inr s' \<Rightarrow> (res_of PeNodeNotFound (q_GetNodeByIDIncludingDeleted (fst s') (node_id n)), s')))"

end
