(* ===== verification/Path_Resolve.thy ===== *)
theory Path_Resolve
  imports Paths
begin

text \<open>
  What a user's subscription contains: \<open>ForUser\<close> of \<open>internal/server/pathresolve/resolve.go\<close>,
  compared with a definition of the resolved chain that has no cache, no stack and no depth.
\<close>

section \<open>Resolving\<close>

datatype resolved = Resolved
  (rs_path: path_row) (rs_name: string) (rs_endpoint: endpoint_row) (rs_proxy: "proxy_row \<times> node_row")
  (rs_host: node_host) (rs_cred: cred_row) (rs_dialer: "resolved option")

datatype resolve_error =
    ReStore path_error | ReUserNotFound | ReUserInactive | ReCycle | ReTooDeep
  | RePathDisabled | ReEndpointDisabled | ReProxyDisabled | ReNodeInactive
  | ReBindingNotFound | ReBindingDisabled | ReCredentialNotFound | ReCredentialDisabled
  | ReNameConflict

fun lift_error :: "path_error + 'a \<Rightarrow> resolve_error + 'a" where
  "lift_error (Inl e) = Inl (ReStore e)"
| "lift_error (Inr x) = Inr x"

lemma lift_error_Inr [simp]: "lift_error r = Inr x \<longleftrightarrow> r = Inr x"
  by (cases r) auto

text \<open>The body of \<open>resolve\<close> between the stack and the dialer: everything about the path itself.\<close>

definition resolve_hop :: "'a proxy_db_scheme \<Rightarrow> user_row \<Rightarrow> string \<Rightarrow> resolve_error + (resolved option \<Rightarrow> resolved) \<times> string option" where
  "resolve_hop db u i =
     bind_res (lift_error (res_of PePathNotFound (GetPath db i))) (\<lambda>p.
     if \<not> pt_enabled p then Inl RePathDisabled
     else
       bind_res (lift_error (res_of PeEndpointNotFound (GetEndpoint db (pt_endpoint p)))) (\<lambda>e.
       if \<not> ep_enabled e then Inl ReEndpointDisabled
       else
         bind_res (lift_error (ResolveEndpoint db e)) (\<lambda>(d, h).
         if \<not> px_enabled (fst d) then Inl ReProxyDisabled
         else
           bind_res (lift_error (res_of PeNodeNotFound (GetNode db (node_name (snd d))))) (\<lambda>n.
           if node_status n \<noteq> NodeActive then Inl ReNodeInactive
           else
             bind_res (res_of ReBindingNotFound (GetUserNodeBinding db (us_name u) (node_name n))) (\<lambda>b.
             if \<not> bd_enabled b then Inl ReBindingDisabled
             else
               bind_res (res_of ReCredentialNotFound (GetProxyCredentialByIDs db (us_id u) (px_id (fst d)))) (\<lambda>c.
               if \<not> cr_enabled c \<or> cr_deleted_at c \<noteq> None then Inl ReCredentialDisabled
               else Inr (Resolved p (published_name (fst d) p) e d h c, pt_dialer p)))))))"

text \<open>
  \<open>visiting\<close> is restored when a call returns, so it is an argument; the \<open>cache\<close> (newest binding
  first) is kept across calls.
\<close>

function resolve ::
  "'a proxy_db_scheme \<Rightarrow> user_row \<Rightarrow> string list \<Rightarrow> string \<Rightarrow> nat \<Rightarrow> (string \<times> resolved) list
     \<Rightarrow> (resolve_error + resolved) \<times> (string \<times> resolved) list" where
  "resolve db u visiting i depth cache =
     (case map_of cache i of
        Some r \<Rightarrow> (Inr r, cache)
      | None \<Rightarrow>
        if i \<in> set visiting then (Inl ReCycle, cache)
        else if depth > MaxDialerPathDepth then (Inl ReTooDeep, cache)
        else
          case resolve_hop db u i of
            Inl e \<Rightarrow> (Inl e, cache)
          | Inr (mk, dialer) \<Rightarrow>
            (case dialer of
               None \<Rightarrow> (Inr (mk None), (i, mk None) # cache)
             | Some d \<Rightarrow>
               bind_st (resolve db u (i # visiting) d (Suc depth) cache) (\<lambda>rd cache'.
               (Inr (mk (Some rd)), (i, mk (Some rd)) # cache'))))"
  by pat_completeness auto
termination
  by (relation "measure (\<lambda>(_, _, _, _, depth, _). Suc MaxDialerPathDepth - depth)") auto

declare resolve.simps [simp del]

fun resolve_accesses ::
  "'a proxy_db_scheme \<Rightarrow> user_row \<Rightarrow> access_row list \<Rightarrow> (string \<times> resolved) list \<Rightarrow> resolved list" where
  "resolve_accesses db u [] cache = []"
| "resolve_accesses db u (a # as) cache =
     (case resolve db u [] (ac_path a) 1 cache of
        (Inl _, cache') \<Rightarrow> resolve_accesses db u as cache'
      | (Inr r, cache') \<Rightarrow>
        (if pt_visibility (rs_path r) = ''selectable'' then [r] else []) @ resolve_accesses db u as cache')"

abbreviation rs_id :: "resolved \<Rightarrow> string" where
  "rs_id r \<equiv> pt_id (rs_path r)"

definition sort_selectable :: "resolved list \<Rightarrow> resolved list" where
  "sort_selectable rs = sort_key (\<lambda>r. pt_sort (rs_path r)) (sort_key rs_name rs)"

text \<open>\<open>emitted\<close> holds the ids of the paths in \<open>ordered\<close>.\<close>

fun emit :: "resolved \<Rightarrow> resolved list \<Rightarrow> resolved list" where
  "emit (Resolved p nm e d h c None) ordered =
     (if list_ex (\<lambda>x. rs_id x = pt_id p) ordered then ordered else ordered @ [Resolved p nm e d h c None])"
| "emit (Resolved p nm e d h c (Some r)) ordered =
     (if list_ex (\<lambda>x. rs_id x = pt_id p) ordered then ordered else emit r ordered @ [Resolved p nm e d h c (Some r)])"

record result =
  res_selectable :: "resolved list"
  res_ordered :: "resolved list"

definition ForUser :: "'a proxy_db_scheme \<Rightarrow> string \<Rightarrow> resolve_error + result" where
  "ForUser db user_name =
     bind_res (res_of ReUserNotFound (GetProxyUser db user_name)) (\<lambda>u.
     if us_status u \<noteq> ''active'' then Inl ReUserInactive
     else
       bind_res (res_of ReUserNotFound (ListActivePathAccessesByUser db (us_name u))) (\<lambda>as.
       if as = [] then Inr \<lparr>res_selectable = [], res_ordered = []\<rparr>
       else
         let selectable = sort_selectable (resolve_accesses db u as []);
             ordered = fold emit selectable []
         in if distinct (map rs_name ordered) then Inr \<lparr>res_selectable = selectable, res_ordered = ordered\<rparr>
            else Inl ReNameConflict))"

section \<open>The chain of a path\<close>

text \<open>\<open>chain db u i r\<close>: \<open>r\<close> is the path \<open>i\<close> with every hop of its chain usable by the user.\<close>

inductive chain :: "'a proxy_db_scheme \<Rightarrow> user_row \<Rightarrow> string \<Rightarrow> resolved \<Rightarrow> bool" for db u where
  chain_direct: "resolve_hop db u i = Inr (mk, None) \<Longrightarrow> chain db u i (mk None)"
| chain_dialer: "resolve_hop db u i = Inr (mk, Some d) \<Longrightarrow> chain db u d r \<Longrightarrow> chain db u i (mk (Some r))"

fun hops :: "resolved \<Rightarrow> nat" where
  "hops (Resolved p nm e d h c None) = 1"
| "hops (Resolved p nm e d h c (Some r)) = Suc (hops r)"

fun chain_of :: "resolved \<Rightarrow> resolved list" where
  "chain_of (Resolved p nm e d h c None) = [Resolved p nm e d h c None]"
| "chain_of (Resolved p nm e d h c (Some r)) = chain_of r @ [Resolved p nm e d h c (Some r)]"

section \<open>Chains are determined by their path\<close>

lemma resolve_hop_Inr:
  assumes "resolve_hop db u i = Inr (mk, dl)"
  obtains p e d h n b c where
    "mk = Resolved p (published_name (fst d) p) e d h c" "dl = pt_dialer p"
    "GetPath db i = Some p" "pt_enabled p" "GetEndpoint db (pt_endpoint p) = Some e" "ep_enabled e"
    "ResolveEndpoint db e = Inr (d, h)" "px_enabled (fst d)"
    "GetNode db (node_name (snd d)) = Some n" "node_status n = NodeActive"
    "GetUserNodeBinding db (us_name u) (node_name n) = Some b" "bd_enabled b"
    "GetProxyCredentialByIDs db (us_id u) (px_id (fst d)) = Some c" "cr_enabled c" "cr_deleted_at c = None"
  using assms by (auto simp: resolve_hop_def bind_res_Inr_iff split: if_splits)

lemma hop_path: "resolve_hop db u i = Inr (mk, dl) \<Longrightarrow> rs_id (mk x) = trim_space i \<and> rs_dialer (mk x) = x"
  by (erule resolve_hop_Inr) (auto simp: GetPath_def q_GetPathByID_def dest: sel_SomeD)

lemma hop_inj: "resolve_hop db u i = Inr (mk, dl) \<Longrightarrow> mk x = mk y \<longleftrightarrow> x = y"
  by (erule resolve_hop_Inr) auto

lemma hop_trim: "resolve_hop db u (trim_space i) = resolve_hop db u i"
  by (simp add: resolve_hop_def GetPath_def)

lemma hop_hops: "resolve_hop db u i = Inr (mk, dl) \<Longrightarrow> hops (mk None) = 1 \<and> hops (mk (Some r)) = Suc (hops r)"
  by (erule resolve_hop_Inr) auto

inductive_cases chain_cases: "chain db u i r"

lemma chain_determ: "chain db u i r \<Longrightarrow> chain db u i r' \<Longrightarrow> r = r'"
proof (induction arbitrary: r' rule: chain.induct)
  case (chain_direct i mk)
  from chain_direct(2,1) show ?case by (cases rule: chain.cases) auto
next
  case (chain_dialer i mk d r)
  from chain_dialer(4,1,3) show ?case by (cases rule: chain.cases) auto
qed

lemma chain_id: "chain db u i r \<Longrightarrow> rs_id r = trim_space i"
  by (erule chain_cases) (auto dest: hop_path)

lemma chain_trim: "chain db u i r \<Longrightarrow> chain db u (trim_space i) r"
  by (erule chain_cases) (simp_all add: chain.chain_direct chain.chain_dialer hop_trim)

definition resolvable :: "'a proxy_db_scheme \<Rightarrow> user_row \<Rightarrow> resolved \<Rightarrow> bool" where
  "resolvable db u r \<longleftrightarrow> (\<exists>i. chain db u i r)"

lemma resolvable_eq: "resolvable db u r \<Longrightarrow> resolvable db u r' \<Longrightarrow> rs_id r = rs_id r' \<Longrightarrow> r = r'"
  unfolding resolvable_def by (metis chain_determ chain_id chain_trim)

lemma resolvable_dialer:
  assumes "resolvable db u r" and "rs_dialer r = Some d"
  shows "resolvable db u d \<and> hops r = Suc (hops d)"
proof -
  obtain i where "chain db u i r" using assms(1) by (auto simp: resolvable_def)
  then show ?thesis
  proof (cases rule: chain.cases)
    case (chain_direct mk)
    then show ?thesis using assms(2) hop_path [of db u i mk None None] by simp
  next
    case (chain_dialer mk j x)
    then have "x = d" using assms(2) hop_path [of db u i mk "Some j" "Some x"] by simp
    then show ?thesis using chain_dialer hop_hops [of db u i mk "Some j" x] by (auto simp: resolvable_def)
  qed
qed

section \<open>The cache\<close>

definition cache_ok :: "'a proxy_db_scheme \<Rightarrow> user_row \<Rightarrow> (string \<times> resolved) list \<Rightarrow> bool" where
  "cache_ok db u cache \<longleftrightarrow> (\<forall>(i, r) \<in> set cache. chain db u i r)"

lemma cache_hit: "cache_ok db u cache \<Longrightarrow> map_of cache i = Some r \<Longrightarrow> chain db u i r"
  by (auto simp: cache_ok_def dest!: map_of_SomeD)

lemma resolve_sound:
  "resolve db u visiting i depth cache = (res, cache') \<Longrightarrow> cache_ok db u cache \<Longrightarrow>
   cache_ok db u cache' \<and> (\<forall>r. res = Inr r \<longrightarrow> chain db u i r)"
proof (induction db u visiting i depth cache arbitrary: res cache' rule: resolve.induct)
  case (1 db u visiting i depth cache)
  show ?case
  proof (cases "map_of cache i")
    case (Some r)
    then show ?thesis using 1(2,3) by (auto simp: resolve.simps [of db u visiting] dest: cache_hit)
  next
    case miss: None
    show ?thesis
    proof (cases "i \<in> set visiting \<or> MaxDialerPathDepth < depth \<or> (\<exists>e. resolve_hop db u i = Inl e)")
      case True
      then show ?thesis using 1(2,3) miss by (auto simp: resolve.simps [of db u visiting] split: if_splits)
    next
      case False
      then obtain mk dl where hop: "resolve_hop db u i = Inr (mk, dl)" by (cases "resolve_hop db u i") auto
      show ?thesis
      proof (cases dl)
        case None
        then show ?thesis using 1(2,3) False miss hop
          by (auto simp: resolve.simps [of db u visiting] cache_ok_def intro: chain_direct)
      next
        case (Some d)
        obtain rd c' where rec: "resolve db u (i # visiting) d (Suc depth) cache = (rd, c')" by fastforce
        have "cache_ok db u c' \<and> (\<forall>r. rd = Inr r \<longrightarrow> chain db u d r)"
          using 1(1) [OF miss _ _ hop refl Some rec 1(3)] False by auto
        then show ?thesis using 1(2) False miss hop Some rec
          by (cases rd) (auto simp: resolve.simps [of db u visiting] cache_ok_def intro: chain_dialer)
      qed
    qed
  qed
qed

lemma resolve_complete:
  "chain db u i r \<Longrightarrow> cache_ok db u cache \<Longrightarrow> depth + hops r \<le> Suc MaxDialerPathDepth \<Longrightarrow>
   (\<And>a. a \<in> set visiting \<Longrightarrow> \<exists>x. chain db u a x \<and> hops r < hops x) \<Longrightarrow>
   fst (resolve db u visiting i depth cache) = Inr r"
proof (induction arbitrary: depth visiting rule: chain.induct)
  case (chain_direct i mk)
  have "i \<notin> set visiting" using chain_direct(4) [of i] chain.chain_direct [OF chain_direct(1)] chain_determ by fastforce
  moreover have "x = mk None" if "map_of cache i = Some x" for x
    using cache_hit [OF chain_direct(2) that] chain.chain_direct [OF chain_direct(1)] chain_determ by blast
  ultimately show ?case using chain_direct(1,3) hop_hops [OF chain_direct(1)]
    by (auto simp: resolve.simps [of db u visiting] split: option.splits)
next
  case (chain_dialer i mk d r)
  have me: "chain db u i (mk (Some r))" using chain_dialer(1,2) by (rule chain.chain_dialer)
  have more: "hops (mk (Some r)) = Suc (hops r)" using hop_hops [OF chain_dialer(1)] by simp
  have "i \<notin> set visiting" using chain_dialer(6) [of i] me chain_determ by fastforce
  moreover have "fst (resolve db u (i # visiting) d (Suc depth) cache) = Inr r"
  proof (rule chain_dialer(3) [OF chain_dialer(4)])
    show "Suc depth + hops r \<le> Suc MaxDialerPathDepth" using chain_dialer(5) more by simp
    fix a assume "a \<in> set (i # visiting)"
    then show "\<exists>x. chain db u a x \<and> hops r < hops x"
    proof (cases "a = i")
      case True
      then show ?thesis using me more by auto
    next
      case False
      then show ?thesis using chain_dialer(6) [of a] more \<open>a \<in> set (i # visiting)\<close> by fastforce
    qed
  qed
  moreover have "x = mk (Some r)" if "map_of cache i = Some x" for x
    using cache_hit [OF chain_dialer(4) that] me chain_determ by blast
  ultimately show ?case using chain_dialer(1,5) more
    by (cases "resolve db u (i # visiting) d (Suc depth) cache")
       (auto simp: resolve.simps [of db u visiting] split: option.splits)
qed

lemma resolve_accesses_sound:
  "cache_ok db u cache \<Longrightarrow> r \<in> set (resolve_accesses db u as cache) \<Longrightarrow>
   pt_visibility (rs_path r) = ''selectable'' \<and> (\<exists>a \<in> set as. chain db u (ac_path a) r)"
proof (induction as arbitrary: cache)
  case (Cons a as)
  obtain res c' where res: "resolve db u [] (ac_path a) 1 cache = (res, c')" by fastforce
  have ok: "cache_ok db u c' \<and> (\<forall>r. res = Inr r \<longrightarrow> chain db u (ac_path a) r)"
    using resolve_sound [OF res Cons.prems(1)] .
  show ?case using Cons.prems(2) Cons.IH [of c'] ok res
    by (cases res) (auto split: if_splits)
qed simp

lemma resolve_accesses_complete:
  "cache_ok db u cache \<Longrightarrow> a \<in> set as \<Longrightarrow> chain db u (ac_path a) r \<Longrightarrow> hops r \<le> MaxDialerPathDepth \<Longrightarrow>
   pt_visibility (rs_path r) = ''selectable'' \<Longrightarrow> r \<in> set (resolve_accesses db u as cache)"
proof (induction as arbitrary: cache)
  case (Cons b as)
  obtain res c' where res: "resolve db u [] (ac_path b) 1 cache = (res, c')" by fastforce
  have ok: "cache_ok db u c'" using resolve_sound [OF res Cons.prems(1)] by simp
  show ?case
  proof (cases "a = b")
    case True
    then have "res = Inr r" using resolve_complete [OF Cons.prems(3,1), of 1 "[]"] res Cons.prems(4) by simp
    then show ?thesis using res Cons.prems(5) by simp
  next
    case False
    then have "r \<in> set (resolve_accesses db u as c')" using Cons ok by auto
    then show ?thesis using res by (cases res) auto
  qed
qed simp

section \<open>Emission\<close>

text \<open>The list under construction: resolved paths, one per id, each after its dialer.\<close>

definition emission_ok :: "'a proxy_db_scheme \<Rightarrow> user_row \<Rightarrow> resolved list \<Rightarrow> bool" where
  "emission_ok db u xs \<longleftrightarrow> list_all (resolvable db u) xs \<and> distinct (map rs_id xs)
     \<and> (\<forall>ys r zs d. xs = ys @ r # zs \<longrightarrow> rs_dialer r = Some d \<longrightarrow> d \<in> set ys)"

lemma emission_ok_Nil: "emission_ok db u []"
  by (simp add: emission_ok_def)

lemma emission_ok_snoc:
  assumes "emission_ok db u xs" "resolvable db u r" "rs_id r \<notin> rs_id ` set xs" "\<And>d. rs_dialer r = Some d \<Longrightarrow> d \<in> set xs"
  shows "emission_ok db u (xs @ [r])"
  unfolding emission_ok_def
proof (intro conjI allI impI)
  fix ys x zs d assume eq: "xs @ [r] = ys @ x # zs" and d: "rs_dialer x = Some d"
  show "d \<in> set ys"
  proof (cases zs rule: rev_cases)
    case Nil
    then show ?thesis using eq d assms(4) by auto
  next
    case (snoc zs' z)
    then have "xs = ys @ x # zs'" using eq by simp
    then show ?thesis using assms(1) d by (auto simp: emission_ok_def)
  qed
qed (use assms in \<open>auto simp: emission_ok_def\<close>)

lemma known_id:
  "emission_ok db u xs \<Longrightarrow> resolvable db u r \<Longrightarrow> rs_id r \<in> rs_id ` set xs \<Longrightarrow> r \<in> set xs"
  by (auto simp: emission_ok_def list_all_iff dest: resolvable_eq)

lemma emit_ok:
  "resolvable db u r \<Longrightarrow> emission_ok db u xs \<Longrightarrow>
   emission_ok db u (emit r xs) \<and> r \<in> set (emit r xs) \<and> set xs \<subseteq> set (emit r xs)
   \<and> (\<forall>x \<in> set (emit r xs) - set xs. hops x \<le> hops r)"
proof (induction r xs rule: emit.induct)
  case (1 p nm e d h c ordered)
  let ?r = "Resolved p nm e d h c None"
  show ?case
  proof (cases "pt_id p \<in> rs_id ` set ordered")
    case True
    then show ?thesis using known_id [OF 1(2,1)] 1(2) by (auto simp: list_ex_iff)
  next
    case False
    then show ?thesis using emission_ok_snoc [OF 1(2,1)] by (auto simp: list_ex_iff image_iff)
  qed
next
  case (2 p nm e d h c r ordered)
  let ?r = "Resolved p nm e d h c (Some r)"
  show ?case
  proof (cases "pt_id p \<in> rs_id ` set ordered")
    case True
    then show ?thesis using known_id [OF 2(3,2)] 2(3) by (auto simp: list_ex_iff)
  next
    case False
    have r: "resolvable db u r" using resolvable_dialer [OF 2(2)] by simp
    have IH: "emission_ok db u (emit r ordered) \<and> r \<in> set (emit r ordered) \<and> set ordered \<subseteq> set (emit r ordered)
       \<and> (\<forall>x \<in> set (emit r ordered) - set ordered. hops x \<le> hops r)"
    proof (rule 2(1) [OF _ r 2(3)])
      show "\<not> list_ex (\<lambda>x. rs_id x = pt_id p) ordered" using False by (auto simp: list_ex_iff image_iff)
    qed
    have "rs_id ?r \<notin> rs_id ` set (emit r ordered)"
    proof
      assume "rs_id ?r \<in> rs_id ` set (emit r ordered)"
      then have "?r \<in> set (emit r ordered)" using known_id IH 2(2) by blast
      moreover have "?r \<notin> set ordered" using False by force
      ultimately have "hops ?r \<le> hops r" using IH by blast
      then show False by simp
    qed
    then have "emission_ok db u (emit r ordered @ [?r])" using emission_ok_snoc [of db u "emit r ordered" ?r] IH 2(2) by auto
    moreover have "\<not> list_ex (\<lambda>x. rs_id x = pt_id p) ordered" using False by (auto simp: list_ex_iff image_iff)
    ultimately show ?thesis using IH by (fastforce simp: le_SucI)
  qed
qed

lemma fold_emit_ok:
  "list_all (resolvable db u) rs \<Longrightarrow> emission_ok db u xs \<Longrightarrow>
   emission_ok db u (fold emit rs xs) \<and> set rs \<union> set xs \<subseteq> set (fold emit rs xs)"
proof (induction rs arbitrary: xs)
  case (Cons r rs)
  then show ?case using emit_ok [of db u r xs] Cons.IH [of "emit r xs"] by auto
qed simp

section \<open>Subscriptions\<close>

text \<open>One hop that the user may use, read off the tables.\<close>

definition usable_hop :: "'a proxy_db_scheme \<Rightarrow> user_row \<Rightarrow> resolved \<Rightarrow> bool" where
  "usable_hop db u r \<longleftrightarrow>
     rs_path r \<in> set (db_paths db) \<and> pt_enabled (rs_path r)
     \<and> GetEndpoint db (pt_endpoint (rs_path r)) = Some (rs_endpoint r) \<and> ep_enabled (rs_endpoint r)
     \<and> GetProxyByID db (ep_proxy (rs_endpoint r)) = Some (rs_proxy r) \<and> live_proxy (rs_proxy r) \<and> px_enabled (fst (rs_proxy r))
     \<and> host_selected (rs_host r) \<and> host_id (rs_host r) = trim_space (ep_host (rs_endpoint r))
     \<and> (\<exists>n. GetNode db (node_name (snd (rs_proxy r))) = Some n \<and> node_status n = NodeActive \<and> rs_host r \<in> set (node_hosts n)
          \<and> (\<exists>b. GetUserNodeBinding db (us_name u) (node_name n) = Some b \<and> bd_enabled b))
     \<and> rs_cred r \<in> set (db_creds db) \<and> cr_user (rs_cred r) = trim_space (us_id u) \<and> cr_enabled (rs_cred r) \<and> cr_deleted_at (rs_cred r) = None
     \<and> cr_proxy (rs_cred r) = trim_space (px_id (fst (rs_proxy r)))
     \<and> map_option rs_id (rs_dialer r) = map_option trim_space (pt_dialer (rs_path r))"

lemma GetProxyByID_live: "GetProxyByID db i = Some d \<Longrightarrow> live_proxy d"
  by (auto simp: GetProxyByID_def q_GetProxyByID_def dest: sel_SomeD)

lemma hop_usable:
  assumes "resolve_hop db u i = Inr (mk, dl)" and "map_option rs_id x = map_option trim_space dl"
  shows "usable_hop db u (mk x)"
  using assms(1)
proof (rule resolve_hop_Inr)
  fix p e d h n b c
  assume mk: "mk = Resolved p (published_name (fst d) p) e d h c" "dl = pt_dialer p"
    and p: "GetPath db i = Some p" "pt_enabled p" and e: "GetEndpoint db (pt_endpoint p) = Some e" "ep_enabled e"
    and d: "ResolveEndpoint db e = Inr (d, h)" "px_enabled (fst d)"
    and n: "GetNode db (node_name (snd d)) = Some n" "node_status n = NodeActive"
    and b: "GetUserNodeBinding db (us_name u) (node_name n) = Some b" "bd_enabled b"
    and c: "GetProxyCredentialByIDs db (us_id u) (px_id (fst d)) = Some c" "cr_enabled c" "cr_deleted_at c = None"
  have "p \<in> set (db_paths db)" using p by (auto simp: GetPath_def q_GetPathByID_def dest: sel_SomeD)
  moreover have "GetProxyByID db (ep_proxy e) = Some d" "host_selected h" "host_id h = trim_space (ep_host e)" "h \<in> set (node_hosts n)"
    using d n(1) by (auto simp: ResolveEndpoint_def validateEndpointPair_def bind_res_Inr_iff dest: sel_SomeD split: if_splits)
  moreover have "c \<in> set (db_creds db) \<and> cr_user c = trim_space (us_id u) \<and> cr_proxy c = trim_space (px_id (fst d))"
    using c(1) by (auto simp: GetProxyCredentialByIDs_def q_GetProxyAccessByIDs_def dest: sel_SomeD)
  ultimately show ?thesis using mk p e d n b c assms(2) GetProxyByID_live [of db "ep_proxy e" d] by (auto simp: usable_hop_def)
qed

lemma resolvable_usable:
  assumes "resolvable db u r"
  shows "usable_hop db u r"
proof -
  obtain i where "chain db u i r" using assms by (auto simp: resolvable_def)
  then show ?thesis
    by (cases rule: chain.cases) (auto intro!: hop_usable dest: chain_id)
qed


text \<open>A path of two hops: \<open>p1\<close> dials through the dependency \<open>p2\<close>.\<close>

definition two_hop_user :: user_row where
  "two_hop_user = \<lparr>us_id = ''u1'', us_name = ''alice'', us_display = [], us_status = ''active'', us_quota = 0,
     us_expire_at = None, us_deleted_at = None, us_created_at = Stamp 0 ''Z''\<rparr>"

definition two_hop_path :: "string \<Rightarrow> string option \<Rightarrow> string \<Rightarrow> path_row" where
  "two_hop_path i d v = \<lparr>pt_id = i, pt_name = i, pt_display = i, pt_endpoint = ''e1'', pt_dialer = d, pt_enabled = True,
     pt_visibility = v, pt_managed = False, pt_sort = 0, pt_updated_at = Stamp 0 ''Z''\<rparr>"

definition two_hop_db :: path_db where
  "two_hop_db =
     \<lparr>db_nodes = [\<lparr>node_id = ''n1'', node_name = ''tokyo'', node_public_host = [],
          node_hosts = [\<lparr>host_id = ''h1'', host_addr = ''a.example'', host_tag = [], host_selected = True\<rparr>],
          node_status = NodeActive, node_sing_box_version = [], node_last_seen_at = None, node_deleted_at = None,
          node_created_at = Stamp 0 ''Z'', node_updated_at = Stamp 0 ''Z''\<rparr>],
      db_aliases = [], db_users = [two_hop_user],
      db_proxies = [\<lparr>px_id = ''x1'', px_node = ''n1'', px_name = ''ss'', px_protocol = ''shadowsocks'', px_listen = [],
          px_port = 443, px_transport = ''tcp'', px_enabled = True, px_multiplier = 1, px_deleted_at = None\<rparr>],
      db_bindings = [\<lparr>bd_id = ''b1'', bd_user = ''u1'', bd_node = ''n1'', bd_enabled = True, bd_quota = 0, bd_multiplier = None, bd_reason = []\<rparr>],
      db_creds = [\<lparr>cr_id = ''c1'', cr_proxy = ''x1'', cr_user = ''u1'', cr_auth = ''alice'', cr_enabled = True, cr_quota = 0,
          cr_multiplier = None, cr_json = [], cr_deleted_at = None\<rparr>],
      db_endpoints = [\<lparr>ep_id = ''e1'', ep_proxy = ''x1'', ep_host = ''h1'', ep_enabled = True, ep_created_at = Stamp 0 ''Z''\<rparr>],
      db_paths = [two_hop_path ''p1'' (Some ''p2'') ''selectable'', two_hop_path ''p2'' None ''dependency''],
      db_accesses = [\<lparr>ac_id = ''a1'', ac_path = ''p1'', ac_user = ''u1'', ac_enabled = True, ac_deleted_at = None, ac_created_at = Stamp 0 ''Z''\<rparr>],
      db_group_members = [], db_direct_grants = [], db_publication = []\<rparr>"


end
