(* ===== verification/Path_Properties.thy ===== *)
theory Path_Properties
  imports Path_Resolve
begin

text \<open>
  What the path store guarantees: the graph check accepts exactly the chains of at most three
  paths, and in every reachable state each path has its endpoint and a chain of dialers that
  ends, so that no walk along a chain runs for ever.
\<close>

section \<open>Chains\<close>

text \<open>\<open>dialer_chain m i k\<close>: the chain that starts at path \<open>i\<close> ends after \<open>k\<close> paths.\<close>

inductive dialer_chain :: "(string \<rightharpoonup> path_row) \<Rightarrow> string \<Rightarrow> nat \<Rightarrow> bool" for m where
  last_path: "m i = Some p \<Longrightarrow> pt_dialer p = None \<Longrightarrow> dialer_chain m i (Suc 0)"
| dialed_path: "m i = Some p \<Longrightarrow> pt_dialer p = Some d \<Longrightarrow> dialer_chain m d k \<Longrightarrow> dialer_chain m i (Suc k)"

lemma dialer_chain_determ: "dialer_chain m i k \<Longrightarrow> dialer_chain m i l \<Longrightarrow> k = l"
proof (induction arbitrary: l rule: dialer_chain.induct)
  case (last_path i p)
  from last_path(3,1,2) show ?case by (cases rule: dialer_chain.cases) auto
next
  case (dialed_path i p d k)
  from dialed_path(5,1,2,4) show ?case by (cases rule: dialer_chain.cases) auto
qed

lemma dialer_chain_dom: "dialer_chain m i k \<Longrightarrow> i \<in> dom m \<and> 0 < k"
  by (auto elim: dialer_chain.cases)

lemma dialer_chain_next:
  "dialer_chain m i k \<Longrightarrow> m i = Some p \<Longrightarrow> pt_dialer p = Some d \<Longrightarrow> \<exists>l. k = Suc l \<and> dialer_chain m d l"
  by (auto elim: dialer_chain.cases)

text \<open>
  A chain depends on the dialers only. \<open>good\<close> holds of the paths of the chain.
\<close>

lemma dialer_chain_mono:
  assumes "dialer_chain m i k" and "good i"
    and "\<And>j p. good j \<Longrightarrow> m j = Some p \<Longrightarrow> \<exists>q. m' j = Some q \<and> pt_dialer q = pt_dialer p"
    and "\<And>j p d. good j \<Longrightarrow> m j = Some p \<Longrightarrow> pt_dialer p = Some d \<Longrightarrow> d \<in> dom m \<Longrightarrow> good d"
  shows "dialer_chain m' i k"
  using assms(1,2)
proof (induction rule: dialer_chain.induct)
  case (last_path i p)
  then show ?case using assms(3) [of i p] by (auto intro: dialer_chain.last_path)
next
  case (dialed_path i p d k)
  then have "good d" using assms(4) [of i p d] dialer_chain_dom [OF dialed_path(3)] by blast
  then show ?case using dialed_path assms(3) [of i p] by (auto intro: dialer_chain.dialed_path)
qed

text \<open>A change of the graph keeps a chain finite when each of its paths keeps its dialer or is known to have a finite chain.\<close>

lemma dialer_chain_transfer:
  assumes "dialer_chain m i k" and "good i"
    and "\<And>j p. good j \<Longrightarrow> m j = Some p \<Longrightarrow> (\<exists>l. dialer_chain m' j l) \<or>
          (\<exists>q. m' j = Some q \<and> pt_dialer q = pt_dialer p \<and> (\<forall>d. pt_dialer p = Some d \<longrightarrow> good d))"
  shows "\<exists>l. dialer_chain m' i l"
  using assms(1,2)
proof (induction rule: dialer_chain.induct)
  case (last_path i p)
  then show ?case using assms(3) [of i p] by (auto intro: dialer_chain.last_path)
next
  case (dialed_path i p d k)
  then show ?case using assms(3) [of i p] by (auto intro: dialer_chain.dialed_path)
qed

text \<open>The paths of a chain are different, so a chain is no longer than the table.\<close>

lemma dialer_chain_inner: "dialer_chain m i k \<Longrightarrow> 0 < l \<Longrightarrow> l \<le> k \<Longrightarrow> \<exists>j. dialer_chain m j l"
proof (induction rule: dialer_chain.induct)
  case (last_path i p)
  then have "l = Suc 0" by simp
  then show ?case using dialer_chain.last_path [of m i p] last_path(1,2) by auto
next
  case (dialed_path i p d k)
  then show ?case by (cases "l = Suc k") (auto intro: dialer_chain.dialed_path)
qed

lemma dialer_chain_bounded:
  assumes "dialer_chain m i k" and "finite (dom m)"
  shows "k \<le> card (dom m)"
proof -
  let ?f = "\<lambda>j. THE l. dialer_chain m j l"
  have "{1..k} \<subseteq> ?f ` dom m"
  proof
    fix l assume "l \<in> {1..k}"
    then obtain j where j: "dialer_chain m j l" using dialer_chain_inner [OF assms(1)] by fastforce
    then have "?f j = l" using dialer_chain_determ by blast
    then show "l \<in> ?f ` dom m" using dialer_chain_dom [OF j] by blast
  qed
  then have "card {1..k} \<le> card (dom m)" using assms(2) surj_card_le by blast
  then show ?thesis by simp
qed

section \<open>The graph check\<close>

lemma visit_path_sound:
  "visit_path m i depth visiting [] = Inr x \<Longrightarrow> \<exists>k. dialer_chain m i k \<and> depth + k \<le> Suc MaxDialerPathDepth"
proof (induction m i depth visiting "[] :: string list" arbitrary: x rule: visit_path.induct)
  case (1 m i depth visiting)
  obtain p where p: "m i = Some p" "i \<notin> set visiting" "depth \<le> MaxDialerPathDepth"
    using 1(2) by (auto simp: visit_path.simps [of m i] split: if_splits option.splits)
  show ?case
  proof (cases "pt_dialer p")
    case None
    then show ?thesis using p by (auto intro: last_path)
  next
    case (Some d)
    then obtain y where "visit_path m d (Suc depth) (i # visiting) [] = Inr y"
      using 1(2) p by (auto simp: bind_res_Inr_iff visit_path.simps [of m i])
    then obtain k where "dialer_chain m d k" "Suc depth + k \<le> Suc MaxDialerPathDepth"
      using 1(1) [of p d y] p Some by auto
    then show ?thesis using dialed_path [of m i p d, OF p(1) Some] by fastforce
  qed
qed

lemma visit_path_complete:
  "dialer_chain m i k \<Longrightarrow> depth + k \<le> Suc MaxDialerPathDepth \<Longrightarrow>
   (\<And>a. a \<in> set visiting \<Longrightarrow> \<exists>l > k. dialer_chain m a l) \<Longrightarrow> \<exists>x. visit_path m i depth visiting [] = Inr x"
proof (induction arbitrary: depth visiting rule: dialer_chain.induct)
  case (last_path i p)
  have "i \<notin> set visiting"
    using last_path(4) [of i] dialer_chain.last_path [of m i p, OF last_path(1,2)] dialer_chain_determ by fastforce
  then show ?case using last_path by (simp add: visit_path.simps [of m i])
next
  case (dialed_path i p d k)
  have me: "dialer_chain m i (Suc k)" using dialed_path(1-3) by (rule dialer_chain.dialed_path)
  have "i \<notin> set visiting" using dialed_path(6) [of i] me dialer_chain_determ by fastforce
  moreover have "\<exists>x. visit_path m d (Suc depth) (i # visiting) [] = Inr x"
  proof (rule dialed_path(4))
    show "Suc depth + k \<le> Suc MaxDialerPathDepth" using dialed_path(5) by simp
    fix a assume "a \<in> set (i # visiting)"
    then show "\<exists>l > k. dialer_chain m a l" using me dialed_path(6) [of a] by (cases "a = i") (auto dest: Suc_lessD)
  qed
  ultimately show ?case using dialed_path(1,2,5)
    by (auto simp: visit_path.simps [of m i])
qed

text \<open>
  C37: The check of the dialer graph accepts a path exactly when the chain that starts at it, with the
  path as it is about to be saved, ends after at most three paths without a missing one.
  The bookkeeping of visited paths adds nothing, and nothing is asked of the paths that dial
  through the saved one.
\<close>

theorem path_graph_check:
  "validatePathGraph db c = Inr () \<longleftrightarrow> (\<exists>k \<le> MaxDialerPathDepth. dialer_chain (paths_by_id db c) (pt_id c) k)"
proof
  assume "validatePathGraph db c = Inr ()"
  then obtain x where "visit_path (paths_by_id db c) (pt_id c) 1 [] [] = Inr x"
    by (auto simp: validatePathGraph_def Let_def bind_res_Inr_iff split: if_splits)
  from visit_path_sound [OF this] show "\<exists>k \<le> MaxDialerPathDepth. dialer_chain (paths_by_id db c) (pt_id c) k" by auto
next
  assume "\<exists>k \<le> MaxDialerPathDepth. dialer_chain (paths_by_id db c) (pt_id c) k"
  then obtain k where k: "k \<le> MaxDialerPathDepth" "dialer_chain (paths_by_id db c) (pt_id c) k" by blast
  then obtain x where "visit_path (paths_by_id db c) (pt_id c) 1 [] [] = Inr x"
    using visit_path_complete [OF k(2), of 1 "[]"] by auto
  moreover have "paths_by_id db c (pt_id c) = Some c" by (simp add: paths_by_id_def)
  then have "\<not> (case pt_dialer c of None \<Rightarrow> False | Some d \<Rightarrow> paths_by_id db c d = None)"
    using dialer_chain_next [OF k(2)] by (auto dest!: dialer_chain_dom split: option.splits)
  ultimately show "validatePathGraph db c = Inr ()"
    by (simp add: validatePathGraph_def Let_def)
qed

section \<open>The invariant\<close>

lemma image_key_upd: "(\<And>r. p r \<Longrightarrow> key (f r) = key r) \<Longrightarrow> key ` set (upd p f t) = key ` set t"
  using map_key_upd [of p key f t] by (metis list.set_map)

lemma sel_filter_key: "j \<noteq> i \<Longrightarrow> sel (\<lambda>x. key x = j) (filter (\<lambda>x. key x \<noteq> i) t) = sel (\<lambda>x. key x = j) t"
  by (induction t) auto

definition chain_ends :: "'a proxy_db_scheme \<Rightarrow> string \<Rightarrow> bool" where
  "chain_ends db i \<longleftrightarrow> (\<exists>k. dialer_chain (q_GetPathByID db) i k)"

definition path_inv :: "'a proxy_db_scheme \<Rightarrow> bool" where
  "path_inv db \<longleftrightarrow>
     distinct (map pt_id (db_paths db)) \<and> distinct (map ep_id (db_endpoints db))
     \<and> (\<forall>p \<in> set (db_paths db). trim_space (pt_id p) = pt_id p \<and> valid_visibility (pt_visibility p)
          \<and> pt_endpoint p \<in> ep_id ` set (db_endpoints db) \<and> chain_ends db (pt_id p))
     \<and> (\<forall>a \<in> set (db_accesses db). ac_path a \<in> pt_id ` set (db_paths db))"

lemma chain_ends_cong: "db_paths db' = db_paths db \<Longrightarrow> chain_ends db' i = chain_ends db i"
  by (simp add: chain_ends_def q_GetPathByID_def [abs_def])

lemma chain_ends_stored: "chain_ends db i \<Longrightarrow> i \<in> pt_id ` set (db_paths db)"
  by (auto simp: chain_ends_def q_GetPathByID_def dest!: dialer_chain_dom sel_SomeD)

text \<open>Writes to the endpoints, and to tables that paths do not refer to.\<close>

lemma path_inv_endpoints:
  assumes "path_inv db" and "db_paths db' = db_paths db" and "db_accesses db' = db_accesses db"
    and "distinct (map ep_id (db_endpoints db'))"
    and "\<And>p. p \<in> set (db_paths db) \<Longrightarrow> pt_endpoint p \<in> ep_id ` set (db_endpoints db')"
  shows "path_inv db'"
  using assms by (auto simp: path_inv_def chain_ends_cong [OF assms(2)])

lemma path_inv_frame:
  "path_inv db \<Longrightarrow> db_paths db' = db_paths db \<Longrightarrow> db_endpoints db' = db_endpoints db \<Longrightarrow> db_accesses db' = db_accesses db \<Longrightarrow> path_inv db'"
  by (rule path_inv_endpoints) (auto simp: path_inv_def)

lemma create_endpoint_inv: "path_inv db \<Longrightarrow> q_CreateEndpoint now db i p h = Some db' \<Longrightarrow> path_inv db'"
  by (rule path_inv_endpoints [of db]) (auto simp: path_inv_def q_CreateEndpoint_def list_ex_iff split: if_splits)

lemma set_endpoint_inv: "path_inv db \<Longrightarrow> path_inv (fst (q_SetEndpointEnabled db i b))"
  by (rule path_inv_endpoints [of db]) (auto simp: path_inv_def q_SetEndpointEnabled_def map_key_upd image_key_upd)

lemma delete_endpoint_inv: "path_inv db \<Longrightarrow> q_DeleteEndpoint db i = Some (db', n) \<Longrightarrow> path_inv db'"
  by (rule path_inv_endpoints [of db])
     (fastforce simp: path_inv_def q_DeleteEndpoint_def list_ex_iff distinct_map_filter split: if_splits)+

text \<open>Writes to the paths.\<close>

lemma chain_ends_step: "q_GetPathByID db i = Some p \<Longrightarrow> (\<And>d. pt_dialer p = Some d \<Longrightarrow> chain_ends db d) \<Longrightarrow> chain_ends db i"
  unfolding chain_ends_def by (cases "pt_dialer p") (metis last_path, metis dialed_path)

lemma chain_ends_transfer:
  assumes "chain_ends db i" and "good i"
    and "\<And>j p. good j \<Longrightarrow> q_GetPathByID db j = Some p \<Longrightarrow> chain_ends db' j \<or>
          (\<exists>q. q_GetPathByID db' j = Some q \<and> pt_dialer q = pt_dialer p \<and> (\<forall>d. pt_dialer p = Some d \<longrightarrow> good d))"
  shows "chain_ends db' i"
  using assms dialer_chain_transfer [of "q_GetPathByID db" i _ good "q_GetPathByID db'"] unfolding chain_ends_def by blast

lemma path_constraintsD:
  "path_constraints db p \<Longrightarrow> pt_endpoint p \<in> ep_id ` set (db_endpoints db) \<and> valid_visibility (pt_visibility p)"
  by (force simp: path_constraints_def list_ex_iff)

lemma create_path_inv:
  assumes "path_inv db" and "q_CreatePath now db p = Some db'" and "trim_space (pt_id p) = pt_id p"
  shows "path_inv db'"
proof -
  have new: "pt_id p \<notin> pt_id ` set (db_paths db)" and con: "path_constraints db p"
    and db': "db' = db\<lparr>db_paths := db_paths db @ [p\<lparr>pt_updated_at := sql_now now\<rparr>]\<rparr>"
    using assms(2) by (auto simp: q_CreatePath_def list_ex_iff split: if_splits)
  have old: "chain_ends db' i" if "chain_ends db i" for i
    by (rule chain_ends_transfer [OF that, of "\<lambda>_. True"]) (auto simp: db' q_GetPathByID_def sel_append)
  have "q_GetPathByID db' (pt_id p) = Some (p\<lparr>pt_updated_at := sql_now now\<rparr>)"
    using new by (cases "sel (\<lambda>r. pt_id r = pt_id p) (db_paths db)")
      (auto simp: db' q_GetPathByID_def sel_append image_iff dest!: sel_SomeD)
  then have "chain_ends db' (pt_id p)"
    by (rule chain_ends_step) (use con assms(1) in \<open>auto simp: path_constraints_def list_ex_iff path_inv_def intro: old\<close>)
  then show ?thesis using assms(1,3) new path_constraintsD [OF con] old by (auto simp: path_inv_def db')
qed

lemma fold_by_id:
  "fold (\<lambda>p m. m(pt_id p \<mapsto> p)) ps m i = (case sel (\<lambda>p. pt_id p = i) (rev ps) of Some p \<Rightarrow> Some p | None \<Rightarrow> m i)"
  by (induction ps arbitrary: m) (auto simp: sel_append split: option.splits)

lemma paths_by_id_eq:
  assumes "distinct (map pt_id (db_paths db))"
  shows "paths_by_id db c = (q_GetPathByID db)(pt_id c \<mapsto> c)"
proof -
  let ?l = "rev (ListPaths db)"
  have s: "set ?l = set (db_paths db)" by (simp add: ListPaths_def q_ListPaths_def)
  then have d: "distinct (map pt_id ?l)" using assms by (simp add: distinct_map ListPaths_def q_ListPaths_def)
  have "sel (\<lambda>p. pt_id p = i) ?l = sel (\<lambda>p. pt_id p = i) (db_paths db)" for i
    using sel_key_iff [OF d, of i] sel_key_iff [OF assms, of i] s by (metis not_Some_eq)
  then show ?thesis by (auto simp: paths_by_id_def fold_by_id q_GetPathByID_def fun_eq_iff split: option.splits)
qed

text \<open>The graph with a checked path in it.\<close>

lemma checked_graph:
  assumes "path_inv db" and "validatePathGraph db c = Inr ()" and "i \<in> insert (pt_id c) (pt_id ` set (db_paths db))"
  shows "\<exists>k. dialer_chain ((q_GetPathByID db)(pt_id c \<mapsto> c)) i k"
proof -
  let ?m = "(q_GetPathByID db)(pt_id c \<mapsto> c)"
  have eq: "paths_by_id db c = ?m" using assms(1) by (simp add: path_inv_def paths_by_id_eq)
  have own: "\<exists>k. dialer_chain ?m (pt_id c) k"
    using assms(2) visit_path_sound unfolding eq [symmetric]
    by (fastforce simp: validatePathGraph_def Let_def bind_res_Inr_iff split: if_splits)
  show ?thesis
  proof (cases "i = pt_id c")
    case False
    then obtain k where "dialer_chain (q_GetPathByID db) i k" using assms(1,3) by (auto simp: path_inv_def chain_ends_def)
    then show ?thesis by (rule dialer_chain_transfer [of _ _ _ "\<lambda>_. True"]) (use own in auto)
  qed (use own in simp)
qed

lemma update_path_inv:
  assumes "path_inv db" and "q_UpdatePath now db p = Some (db', n)" and "validatePathGraph db p = Inr ()"
  shows "path_inv db'"
proof (cases "pt_id p \<in> pt_id ` set (db_paths db)")
  case False
  have "db' = db\<lparr>db_paths := upd (\<lambda>r. pt_id r = pt_id p) (\<lambda>_. p\<lparr>pt_updated_at := sql_now now\<rparr>) (db_paths db)\<rparr>"
    using assms(2) by (auto simp: q_UpdatePath_def Let_def split: if_splits)
  moreover have "upd (\<lambda>r. pt_id r = pt_id p) (\<lambda>_. p\<lparr>pt_updated_at := sql_now now\<rparr>) (db_paths db) = db_paths db"
    using False by (intro upd_none) (auto simp: image_iff)
  ultimately show ?thesis using assms(1) by simp
next
  case True
  let ?p = "p\<lparr>pt_updated_at := sql_now now\<rparr>"
  have con: "path_constraints db p" and db': "db' = db\<lparr>db_paths := upd (\<lambda>r. pt_id r = pt_id p) (\<lambda>_. ?p) (db_paths db)\<rparr>"
    using assms(2) True by (auto simp: q_UpdatePath_def Let_def filter_empty_conv split: if_splits)
  have new: "q_GetPathByID db' j = (if j = pt_id p then Some ?p else q_GetPathByID db j)" for j
  proof -
    have "q_GetPathByID db' j = map_option (\<lambda>r. if pt_id r = pt_id p then ?p else r) (q_GetPathByID db j)"
      unfolding q_GetPathByID_def db' by (simp add: sel_upd_key [where key = pt_id])
    moreover have "q_GetPathByID db (pt_id p) \<noteq> None" using True by (auto simp: q_GetPathByID_def sel_None_iff)
    moreover have "r \<in> set (db_paths db) \<and> pt_id r = j" if "q_GetPathByID db j = Some r" for r
      using that by (auto simp: q_GetPathByID_def dest: sel_SomeD)
    ultimately show ?thesis by (cases "q_GetPathByID db j") auto
  qed
  have ends: "chain_ends db' i" if i: "i \<in> pt_id ` set (db_paths db)" for i
  proof -
    obtain k where "dialer_chain ((q_GetPathByID db)(pt_id p \<mapsto> p)) i k"
      using checked_graph [OF assms(1,3)] i by blast
    then have "dialer_chain (q_GetPathByID db') i k"
      by (rule dialer_chain_mono [of _ _ _ "\<lambda>_. True"]) (auto simp: new split: if_splits)
    then show ?thesis by (auto simp: chain_ends_def)
  qed
  have "pt_id ` set (db_paths db') = pt_id ` set (db_paths db)" "map pt_id (db_paths db') = map pt_id (db_paths db)"
    by (auto simp: db' image_key_upd map_key_upd)
  moreover have "trim_space (pt_id p) = pt_id p" using True assms(1) by (auto simp: path_inv_def)
  ultimately show ?thesis using assms(1) ends True path_constraintsD [OF con]
    by (auto simp: path_inv_def db' set_upd)
qed

lemma set_path_inv: "path_inv db \<Longrightarrow> path_inv (fst (q_SetPathEnabled now db i b))"
proof -
  assume inv: "path_inv db"
  let ?db = "fst (q_SetPathEnabled now db i b)"
  have new: "q_GetPathByID ?db j = map_option (\<lambda>p. if pt_id p = i then p\<lparr>pt_enabled := b, pt_updated_at := sql_now now\<rparr> else p) (q_GetPathByID db j)" for j
    unfolding q_GetPathByID_def q_SetPathEnabled_def by (simp add: sel_upd_key [where key = pt_id])
  have "chain_ends ?db j" if "chain_ends db j" for j
    by (rule chain_ends_transfer [OF that, of "\<lambda>_. True"]) (auto simp: new)
  moreover have "pt_id ` set (db_paths ?db) = pt_id ` set (db_paths db)" "map pt_id (db_paths ?db) = map pt_id (db_paths db)"
    by (auto simp: q_SetPathEnabled_def image_key_upd map_key_upd)
  ultimately show ?thesis using inv by (auto simp: path_inv_def q_SetPathEnabled_def set_upd)
qed

lemma delete_path_inv:
  assumes "path_inv db" and "q_DeletePath db i = Some (db', n)"
  shows "path_inv db'"
proof -
  have db': "db_paths db' = filter (\<lambda>p. pt_id p \<noteq> i) (db_paths db)" "db_accesses db' = filter (\<lambda>a. ac_path a \<noteq> i) (db_accesses db)"
    "db_endpoints db' = db_endpoints db"
    and free: "i \<in> pt_id ` set (db_paths db) \<Longrightarrow> p \<in> set (db_paths db) \<Longrightarrow> pt_dialer p \<noteq> Some i" for p
    using assms(2) by (auto simp: q_DeletePath_def list_ex_iff split: if_splits)
  have new: "q_GetPathByID db' j = q_GetPathByID db j" if "j \<noteq> i" for j
    using that by (simp add: q_GetPathByID_def db'(1) sel_filter_key)
  have "chain_ends db' j" if "chain_ends db j" "j \<noteq> i" for j
  proof (cases "i \<in> pt_id ` set (db_paths db)")
    case True
    show ?thesis using that
      by (rule chain_ends_transfer [where good = "\<lambda>j. j \<noteq> i"])
         (use free [OF True] new in \<open>auto simp: q_GetPathByID_def dest: sel_SomeD\<close>)
  next
    case False
    then have "db_paths db' = db_paths db" using db'(1) by (auto simp: filter_id_conv)
    then show ?thesis using that(1) chain_ends_cong by blast
  qed
  then show ?thesis using assms(1) by (auto simp: path_inv_def db' distinct_map_filter)
qed

section \<open>The methods\<close>

lemma EnsureEndpoint_inv: "path_inv db \<Longrightarrow> path_inv (snd (EnsureEndpoint now f db pid hid))"
  by (auto simp: EnsureEndpoint_def create_endpoint_inv split: sum.split option.split)

lemma SetEndpointEnabled_inv: "path_inv db \<Longrightarrow> path_inv (snd (SetEndpointEnabled db i b))"
  using set_endpoint_inv [of db "trim_space i" b] by (auto simp: SetEndpointEnabled_def split: prod.splits)

lemma DeleteEndpoint_inv: "path_inv db \<Longrightarrow> path_inv (snd (DeleteEndpoint db i))"
  by (auto simp: DeleteEndpoint_def delete_endpoint_inv split: option.split)

lemma store_path_inv: "path_inv db \<Longrightarrow> trim_space (pt_id p) = pt_id p \<Longrightarrow> path_inv (snd (store_path now db p))"
  by (auto simp: store_path_def create_path_inv split: option.split)

lemma checked_path_id: "checked_path now fresh db prm = Inr p \<Longrightarrow> pt_id p = fresh"
  by (auto simp: checked_path_def Let_def bind_res_Inr_iff)

lemma CreatePath_inv: "path_inv db \<Longrightarrow> trim_space fresh = fresh \<Longrightarrow> path_inv (snd (CreatePath now fresh db prm))"
  by (auto simp: CreatePath_def store_path_inv dest: checked_path_id split: sum.split)

lemma UpdatePath_inv: "path_inv db \<Longrightarrow> path_inv (snd (UpdatePath now db prm))"
  by (auto simp: UpdatePath_def bind_res_Inr_iff update_path_inv split: sum.split if_splits)

lemma setPathEnabledUnchecked_inv: "path_inv db \<Longrightarrow> path_inv (snd (setPathEnabledUnchecked now db i b))"
  using set_path_inv [of db now "trim_space i" b] by (auto simp: setPathEnabledUnchecked_def split: prod.splits)

lemma bind_inv:
  "path_inv (snd r) \<Longrightarrow> (\<And>x s. path_inv s \<Longrightarrow> path_inv (snd (f x s))) \<Longrightarrow> path_inv (snd (bind_st r f))"
  by (cases "(r, f)" rule: bind_st.cases) auto

lemma disable_managed_inv: "path_inv db \<Longrightarrow> path_inv (snd (disable_managed now db ps))"
  by (induction ps arbitrary: db) (simp_all add: bind_inv setPathEnabledUnchecked_inv)

lemma disable_unselected_inv: "path_inv db \<Longrightarrow> path_inv (snd (disable_unselected now selected db es))"
  by (induction es arbitrary: db) (simp_all add: bind_inv disable_managed_inv)

lemma direct_path_inv: "path_inv db \<Longrightarrow> trim_space fresh = fresh \<Longrightarrow> path_inv (snd (direct_path now fresh x db index h e))"
  by (auto simp: direct_path_def Let_def CreatePath_inv UpdatePath_inv split: option.split)

lemma ensure_direct_inv:
  "path_inv db \<Longrightarrow> (\<And>h. trim_space (fp h) = fp h) \<Longrightarrow> path_inv (snd (ensure_direct now fe fp x db index hs))"
  by (induction hs arbitrary: db index) (simp_all add: bind_inv EnsureEndpoint_inv direct_path_inv)

lemma EnsureDirectPathsForProxy_inv:
  assumes "path_inv db" and "\<And>h. trim_space (fp h) = fp h"
  shows "path_inv (snd (EnsureDirectPathsForProxy now fe fp db pid))"
  using assms
  by (simp add: EnsureDirectPathsForProxy_def bind_inv disable_unselected_inv ensure_direct_inv split: option.split)

lemma SetProxyDirectPublication_inv:
  assumes "path_inv db" and "\<And>h. trim_space (fp h) = fp h"
  shows "path_inv (snd (SetProxyDirectPublication now fe fp db pid b))"
proof -
  have "path_inv (q_SetProxyDirectPublication db (trim_space pid) b)"
    by (rule path_inv_frame [OF assms(1)]) (auto simp: q_SetProxyDirectPublication_def)
  then show ?thesis using assms
    by (auto simp: SetProxyDirectPublication_def Let_def disable_managed_inv EnsureDirectPathsForProxy_inv split: option.split)
qed

lemma disable_credentials_frame:
  "disable_credentials db uid required cs = Inr db' \<Longrightarrow>
   db_paths db' = db_paths db \<and> db_endpoints db' = db_endpoints db \<and> db_accesses db' = db_accesses db"
  by (induction cs arbitrary: db) (fastforce simp: q_SetProxyAccessEnabled_def Let_def split: if_splits)+

lemma disable_for_users_frame:
  "disable_for_users db us = Inr db' \<Longrightarrow>
   db_paths db' = db_paths db \<and> db_endpoints db' = db_endpoints db \<and> db_accesses db' = db_accesses db"
  by (induction us arbitrary: db)
     (fastforce simp: bind_res_Inr_iff disableUnusedProxyCredentialsTx_def dest: disable_credentials_frame)+

lemma DeletePath_inv:
  assumes "path_inv db"
  shows "path_inv (snd (DeletePath db i))"
proof (cases "delete_path_tx db i")
  case (Inr db')
  then obtain us db1 n db2 where d: "q_DeletePath db (trim_space i) = Some (db1, n)"
    "db2 = db1 \<or> (\<exists>e m. q_DeleteEndpoint db1 e = Some (db2, m))" "disable_for_users db2 us = Inr db'"
    by (auto simp: delete_path_tx_def bind_res_Inr_iff split: if_splits) blast
  have "path_inv db2" using d(2) delete_path_inv [OF assms d(1)] delete_endpoint_inv by blast
  then have "path_inv db'" using path_inv_frame disable_for_users_frame [OF d(3)] by blast
  then show ?thesis using Inr by (simp add: DeletePath_def)
qed (use assms in \<open>simp add: DeletePath_def\<close>)

section \<open>The walk over published names returns\<close>

text \<open>The path that \<open>visit\<close> sees under an id.\<close>

definition seen_path :: "'a proxy_db_scheme \<Rightarrow> path_row option \<Rightarrow> string \<rightharpoonup> path_row" where
  "seen_path db cand i =
     map_option (\<lambda>p. case cand of None \<Rightarrow> p | Some c \<Rightarrow> if pt_id c = i then c else p) (GetPath db i)"

lemma publish_name_error: "publish_name db cand i p st \<noteq> Inl PeDiverges"
  by (auto simp: publish_name_def Let_def bind_res_Inl_iff split: option.splits if_splits)

lemma visit_names_step:
  assumes "seen_path db cand i = Some p"
  shows "visit_names db cand (Suc fuel) i st =
    (if i \<in> set (fst st) then Inr st else if \<not> pt_enabled p then Inr st
     else bind_res (case pt_dialer p of None \<Rightarrow> Inr st | Some d \<Rightarrow> visit_names db cand fuel d st) (publish_name db cand i p))"
  using assms by (auto simp: seen_path_def Let_def)

lemma visit_names_returns:
  "dialer_chain (seen_path db cand) i k \<Longrightarrow> k \<le> fuel \<Longrightarrow> visit_names db cand fuel i st \<noteq> Inl PeDiverges"
proof (induction arbitrary: fuel rule: dialer_chain.induct)
  case (last_path i p)
  then obtain n where "fuel = Suc n" by (cases fuel) auto
  then show ?case using last_path(2)
    by (simp add: visit_names_step [OF last_path(1)] publish_name_error del: visit_names.simps)
next
  case (dialed_path i p d k)
  then obtain n where n: "fuel = Suc n" "k \<le> n" by (cases fuel) auto
  then show ?case using dialed_path(2) dialed_path(4) [OF n(2)]
    by (auto simp: visit_names_step [OF dialed_path(1)] publish_name_error bind_res_Inl_iff simp del: visit_names.simps)
qed

lemma visit_roots_returns:
  "(\<And>r. r \<in> set rs \<Longrightarrow> \<exists>k \<le> fuel. dialer_chain (seen_path db cand) r k) \<Longrightarrow> visit_roots db cand fuel rs st \<noteq> Inl PeDiverges"
proof (induction rs arbitrary: st)
  case (Cons r rs)
  obtain k where "k \<le> fuel" "dialer_chain (seen_path db cand) r k" using Cons.prems [of r] by auto
  then have "visit_names db cand fuel r st \<noteq> Inl PeDiverges" using visit_names_returns by blast
  then show ?case using Cons by (auto simp: bind_res_Inl_iff)
qed simp

lemma candidate_chain:
  assumes "path_inv db" and "validatePathGraph db c = Inr ()" and "pt_id c \<in> pt_id ` set (db_paths db)"
    and "i \<in> pt_id ` set (db_paths db)"
  shows "\<exists>k \<le> length (db_paths db). dialer_chain (seen_path db (Some c)) i k"
proof -
  let ?m = "(q_GetPathByID db)(pt_id c \<mapsto> c)"
  let ?ids = "pt_id ` set (db_paths db)"
  obtain k where k: "dialer_chain ?m i k" using checked_graph [OF assms(1,2)] assms(4) by blast
  have dom: "dom ?m \<subseteq> ?ids" using assms(3) by (auto simp: q_GetPathByID_def dest!: sel_SomeD split: if_splits)
  then have "card (dom ?m) \<le> length (db_paths db)"
    by (metis card_length card_mono finite_set le_trans length_map list.set_map)
  moreover have "k \<le> card (dom ?m)" using dialer_chain_bounded [OF k] dom finite_subset by blast
  moreover have trimmed: "trim_space j = j" if "j \<in> ?ids" for j using that assms(1) by (auto simp: path_inv_def)
  have "dialer_chain (seen_path db (Some c)) i k"
  proof (rule dialer_chain_mono [OF k, of "\<lambda>j. j \<in> ?ids"])
    fix j p assume j: "j \<in> ?ids" "?m j = Some p"
    moreover have "q_GetPathByID db (pt_id c) \<noteq> None" using assms(3) by (auto simp: q_GetPathByID_def sel_None_iff)
    ultimately show "\<exists>q. seen_path db (Some c) j = Some q \<and> pt_dialer q = pt_dialer p"
      by (auto simp: seen_path_def GetPath_def trimmed split: if_splits)
  qed (use assms(4) dom in auto)
  ultimately show ?thesis using le_trans by blast
qed

lemma normalizePath_id: "normalizePath db p0 = Inr p \<Longrightarrow> pt_id p = trim_space (pt_id p0)"
  by (auto simp: normalizePath_def Let_def bind_res_Inr_iff split: if_splits)

lemma GetPath_stored: "GetPath db i = Some p \<Longrightarrow> trim_space i \<in> pt_id ` set (db_paths db)"
  by (force simp: GetPath_def q_GetPathByID_def dest!: sel_SomeD)

lemma active_access_stored:
  "ListActivePathAccessesByUser db u = Some as \<Longrightarrow> a \<in> set as \<Longrightarrow> ac_path a \<in> pt_id ` set (db_paths db)"
  by (force simp: ListActivePathAccessesByUser_def q_ListActivePathAccessesByUserID_def list_ex_iff)

lemma names_after_change_returns:
  assumes "path_inv db" and "validatePathGraph db c = Inr ()" and "pt_id c \<in> pt_id ` set (db_paths db)"
  shows "validate_names_of_users db c us \<noteq> Inl PeDiverges"
proof (induction us)
  case (Cons u us)
  have "validatePublishedNamesForUser db u [] (Some c) \<noteq> Inl PeDiverges"
  proof
    assume "validatePublishedNamesForUser db u [] (Some c) = Inl PeDiverges"
    then obtain as where as: "ListActivePathAccessesByUser db u = Some as"
      and bad: "visit_roots db (Some c) (Suc (length (db_paths db))) (map ac_path as) ([], []) = Inl PeDiverges"
      by (auto simp: validatePublishedNamesForUser_def simp: bind_res_Inl_iff)
    have "\<exists>k \<le> Suc (length (db_paths db)). dialer_chain (seen_path db (Some c)) r k" if "r \<in> set (map ac_path as)" for r
    proof -
      have "r \<in> pt_id ` set (db_paths db)" using that active_access_stored [OF as] by auto
      then show ?thesis using candidate_chain [OF assms] le_SucI by blast
    qed
    from visit_roots_returns [OF this] bad show False by blast
  qed
  then show ?case using Cons by (auto simp: bind_res_Inl_iff)
qed simp

lemma visit_path_error: "visit_path m i depth visiting visited \<noteq> Inl PeDiverges"
proof (induction m i depth visiting visited rule: visit_path.induct)
  case (1 m i depth visiting visited)
  then show ?case
    by (auto simp: visit_path.simps [of m i] bind_res_Inl_iff split: option.splits prod.splits)
qed

lemma normalizePath_error: "normalizePath db p \<noteq> Inl PeDiverges"
  by (auto simp: normalizePath_def Let_def ResolveEndpoint_def validateEndpointPair_def split: if_splits simp: bind_res_Inl_iff)

lemma UpdatePath_returns:
  assumes "path_inv db"
  shows "fst (UpdatePath now db prm) \<noteq> Inl PeDiverges"
proof
  assume "fst (UpdatePath now db prm) = Inl PeDiverges"
  then obtain ex p where p: "GetPath db (up_id prm) = Some ex" "normalizePath db (path_of_params now (up_id prm) prm) = Inr p"
    "validatePathGraph db p = Inr ()" "validatePublishedNamesAfterPathChange db p = Inl PeDiverges"
    by (auto simp: UpdatePath_def normalizePath_error validatePathGraph_def Let_def bind_res_Inl_iff visit_path_error
        split: sum.splits if_splits)
  have "pt_id p \<in> pt_id ` set (db_paths db)"
    using GetPath_stored [OF p(1)] normalizePath_id [OF p(2)] by (simp add: path_of_params_def)
  with p(3,4) show False using names_after_change_returns [OF assms] by (simp add: validatePublishedNamesAfterPathChange_def)
qed

section \<open>Runs\<close>

text \<open>
  A step is one call, or the insert of a \<open>CreatePath\<close> whose checks ran in any earlier state \<open>db0\<close>, or
  a change elsewhere that keeps paths and endpoints and grants stored paths only. Fresh ids
  have no surrounding spaces.
\<close>

inductive path_step :: "path_db \<Rightarrow> path_db \<Rightarrow> bool" where
  st_ensure_endpoint: "path_step db (snd (EnsureEndpoint now fresh db pid hid))"
| st_set_endpoint: "path_step db (snd (SetEndpointEnabled db i b))"
| st_delete_endpoint: "path_step db (snd (DeleteEndpoint db i))"
| st_create: "trim_space fresh = fresh \<Longrightarrow> path_step db (snd (CreatePath now fresh db prm))"
| st_create_late: "checked_path now fresh (db0 :: path_db) prm = Inr p \<Longrightarrow> trim_space fresh = fresh \<Longrightarrow>
    path_step db (snd (store_path now' db p))"
| st_update: "path_step db (snd (UpdatePath now db uprm))"
| st_delete: "path_step db (snd (DeletePath db i))"
| st_ensure_direct: "(\<forall>h. trim_space (fp h) = fp h) \<Longrightarrow> path_step db (snd (EnsureDirectPathsForProxy now fe fp db pid))"
| st_publication: "(\<forall>h. trim_space (fp h) = fp h) \<Longrightarrow> path_step db (snd (SetProxyDirectPublication now fe fp db pid b))"
| st_other: "db_paths db' = db_paths db \<Longrightarrow> db_endpoints db' = db_endpoints db \<Longrightarrow>
    (\<forall>a \<in> set (db_accesses db'). ac_path a \<in> pt_id ` set (db_paths db)) \<Longrightarrow> path_step db db'"

lemma path_inv_accesses:
  assumes "path_inv db" and "db_paths db' = db_paths db" and "db_endpoints db' = db_endpoints db"
    and "\<forall>a \<in> set (db_accesses db'). ac_path a \<in> pt_id ` set (db_paths db)"
  shows "path_inv db'"
  using assms by (auto simp: path_inv_def chain_ends_cong [OF assms(2)])

interpretation path_sys: invariant_system path_step path_inv
proof
  fix s t :: path_db
  assume inv: "path_inv s" and step: "path_step s t"
  from step inv show "path_inv t"
    by (induction rule: path_step.induct)
       (simp_all add: EnsureEndpoint_inv SetEndpointEnabled_inv DeleteEndpoint_inv CreatePath_inv store_path_inv checked_path_id
         UpdatePath_inv DeletePath_inv EnsureDirectPathsForProxy_inv SetProxyDirectPublication_inv path_inv_accesses)
qed

text \<open>
  C38: The graph of paths in every reachable state, also when the checks of a new path ran in an older
  state: ids are unique, every path has its endpoint and a valid visibility, every granted path exists,
  and the chain of dialers of every path ends, through stored paths only. So a path is never lost
  under another one, there is no cycle, and the unbounded walk of an update over the chains
  of all users returns.
\<close>

theorem path_graph_sound:
  assumes "run path_step s t" and "path_inv s"
  shows "path_inv t \<and> fst (UpdatePath now t prm) \<noteq> Inl PeDiverges"
  using path_sys.run_inv [OF assms] UpdatePath_returns by blast

lemma two_hop_inv: "path_inv two_hop_db"
proof -
  let ?m = "q_GetPathByID two_hop_db"
  have p2: "?m ''p2'' = Some (two_hop_path ''p2'' None ''dependency'')"
    and p1: "?m ''p1'' = Some (two_hop_path ''p1'' (Some ''p2'') ''selectable'')" by code_simp+
  have c2: "dialer_chain ?m ''p2'' (Suc 0)" by (rule last_path [of ?m, OF p2]) (simp add: two_hop_path_def)
  have c1: "dialer_chain ?m ''p1'' (Suc (Suc 0))" by (rule dialed_path [of ?m, OF p1 _ c2]) (simp add: two_hop_path_def)
  have "trim_space ''p1'' = ''p1''" "trim_space ''p2'' = ''p2''" by code_simp+
  moreover have "chain_ends two_hop_db ''p1''" "chain_ends two_hop_db ''p2''" using c1 c2 unfolding chain_ends_def by blast+
  ultimately show ?thesis by (simp add: path_inv_def two_hop_db_def two_hop_path_def valid_visibility_def)
qed

definition two_hop_change :: "string \<Rightarrow> string \<Rightarrow> update_path_params" where
  "two_hop_change i d = \<lparr>cp_name = ''next'', cp_display = [], cp_endpoint = ''e1'', cp_dialer = d, cp_enabled = True,
     cp_visibility = ''selectable'', cp_managed = False, cp_sort = 0, up_id = i, up_allow_managed = False\<rparr>"

lemma sql_now_zero: "sql_now 0 = Stamp 0 ''.000Z''"
proof -
  have "(char_of (48 :: nat) :: char) = CHR ''0''" by code_simp
  then show ?thesis by (simp add: sql_now_def digit_char_def numeral_3_eq_3)
qed

theorem path_graph_sound_witness:
  "is_ok (fst (UpdatePath 0 two_hop_db (two_hop_change ''p1'' []))) \<and> path_inv (snd (UpdatePath 0 two_hop_db (two_hop_change ''p1'' [])))
   \<and> fst (UpdatePath 0 two_hop_db (two_hop_change ''p2'' ''p1'')) = Inl PeCycle"
proof (intro conjI)
  show "is_ok (fst (UpdatePath 0 two_hop_db (two_hop_change ''p1'' [])))"
    unfolding UpdatePath_def path_of_params_def q_UpdatePath_def sql_now_zero by code_simp
  show "path_inv (snd (UpdatePath 0 two_hop_db (two_hop_change ''p1'' [])))"
    using path_graph_sound [OF run_one [of path_step, OF st_update] two_hop_inv] by blast
  show "fst (UpdatePath 0 two_hop_db (two_hop_change ''p2'' ''p1'')) = Inl PeCycle"
    unfolding UpdatePath_def path_of_params_def q_UpdatePath_def sql_now_zero by code_simp
qed

end
