(* ===== verification/Grant_Properties.thy ===== *)
theory Grant_Properties
  imports Resource_Deletion Path_Properties
begin

text \<open>
  The accesses of users follow their sources: in every reachable state a user has an active access
  to exactly the paths that the direct grants and the groups of the user give, whatever grants,
  selections, group changes, edits of paths and deletions were made, and whichever of them failed.
\<close>

section \<open>What a user has and is to have\<close>

definition active_paths :: "'a proxy_db_scheme \<Rightarrow> string \<Rightarrow> string set" where
  "active_paths db u =
     set (map ac_path (filter (\<lambda>a. ac_user a = u \<and> ac_enabled a \<and> ac_deleted_at a = None) (db_accesses db)))"

definition desired_paths :: "'a group_db_scheme \<Rightarrow> string \<Rightarrow> string set" where
  "desired_paths db u = set (q_ListUserDesiredPathIDs db u)"

text \<open>The tables that decide what is desired, and those that they refer to.\<close>

definition same_base :: "'a group_db_scheme \<Rightarrow> 'a group_db_scheme \<Rightarrow> bool" where
  "same_base db db' \<longleftrightarrow>
     db_paths db' = db_paths db \<and> db_endpoints db' = db_endpoints db \<and> db_users db' = db_users db
     \<and> db_direct_grants db' = db_direct_grants db \<and> db_group_members db' = db_group_members db
     \<and> db_groups db' = db_groups db \<and> db_group_grants db' = db_group_grants db"

text \<open>Other users keep their accesses, and every access is to a stored path.\<close>

definition only_user :: "string \<Rightarrow> 'a proxy_db_scheme \<Rightarrow> 'a proxy_db_scheme \<Rightarrow> bool" where
  "only_user u db db' \<longleftrightarrow>
     (\<forall>v. v \<noteq> u \<longrightarrow> active_paths db' v = active_paths db v)
     \<and> ac_path ` set (db_accesses db') \<subseteq> ac_path ` set (db_accesses db) \<union> pt_id ` set (db_paths db)"

definition sources_ok :: "'a group_db_scheme \<Rightarrow> bool" where
  "sources_ok db \<longleftrightarrow>
     (\<forall>u \<in> set (db_users db). normalizeName (us_id u) = us_id u)
     \<and> (\<lambda>g. fst (snd g)) ` set (db_direct_grants db) \<subseteq> pt_id ` set (db_paths db)
     \<and> snd ` set (db_group_members db) \<subseteq> pt_id ` set (db_paths db)
     \<and> fst ` set (db_group_members db) \<subseteq> gr_id ` set (db_groups db)
     \<and> fst ` set (db_group_grants db) \<subseteq> us_id ` set (db_users db)
     \<and> snd ` set (db_group_grants db) \<subseteq> gr_id ` set (db_groups db)"

definition grants_wf :: "'a group_db_scheme \<Rightarrow> bool" where
  "grants_wf db \<longleftrightarrow> path_inv db \<and> sources_ok db"

definition in_sync :: "'a group_db_scheme \<Rightarrow> bool" where
  "in_sync db \<longleftrightarrow> (\<forall>u. active_paths db u = desired_paths db u)"

definition grants_inv :: "'a group_db_scheme \<Rightarrow> bool" where
  "grants_inv db \<longleftrightarrow> grants_wf db \<and> in_sync db"

lemma desired_iff:
  "i \<in> desired_paths db u \<longleftrightarrow> (u, i, True) \<in> set (db_direct_grants db)
     \<or> (\<exists>g \<in> set (db_groups db). gr_enabled g \<and> gr_deleted_at g = None \<and> (u, gr_id g) \<in> set (db_group_grants db)
          \<and> (gr_id g, i) \<in> set (db_group_members db))"
  by (force simp: desired_paths_def q_ListUserDesiredPathIDs_def list_ex_iff)

lemma option_if_Some: "(if b then None else Some x) = Some y \<Longrightarrow> (\<not> b \<Longrightarrow> y = x \<Longrightarrow> P) \<Longrightarrow> P"
  by (auto split: if_splits)

lemma active_iff:
  "i \<in> active_paths db u \<longleftrightarrow>
     (\<exists>a \<in> set (db_accesses db). ac_path a = i \<and> ac_user a = u \<and> ac_enabled a \<and> ac_deleted_at a = None)"
  by (auto simp: active_paths_def)

lemma active_cong: "db_accesses db' = db_accesses db \<Longrightarrow> active_paths db' u = active_paths db u"
  by (simp add: active_paths_def)

lemma desired_cong:
  "db_direct_grants db' = db_direct_grants db \<Longrightarrow> db_groups db' = db_groups db \<Longrightarrow> db_group_grants db' = db_group_grants db \<Longrightarrow>
   db_group_members db' = db_group_members db \<Longrightarrow> desired_paths db' u = desired_paths db u"
  by (simp add: desired_paths_def q_ListUserDesiredPathIDs_def)

lemma grant_path_image: "(u, i, b) \<in> G \<Longrightarrow> i \<in> (\<lambda>g. fst (snd g)) ` G"
  by (rule image_eqI [of _ _ "(u, i, b)"]) auto

lemma pair_images: "(g, i) \<in> M \<Longrightarrow> i \<in> snd ` M" "(g, i) \<in> M \<Longrightarrow> g \<in> fst ` M"
  by (rule image_eqI [of _ _ "(g, i)"]; simp)+

lemma desired_stored:
  assumes s: "sources_ok db" and "i \<in> desired_paths db u"
  shows "i \<in> pt_id ` set (db_paths db)"
proof -
  have g: "(\<lambda>g. fst (snd g)) ` set (db_direct_grants db) \<subseteq> pt_id ` set (db_paths db)"
    and m: "snd ` set (db_group_members db) \<subseteq> pt_id ` set (db_paths db)" using s by (simp_all add: sources_ok_def)
  from assms(2) consider "(u, i, True) \<in> set (db_direct_grants db)" | g where "(g, i) \<in> set (db_group_members db)"
    by (auto simp: desired_iff)
  then show ?thesis
    by cases (rule subsetD [OF g grant_path_image], assumption, rule subsetD [OF m pair_images(1)], assumption)
qed

lemma same_base_refl [simp]: "same_base db db" by (simp add: same_base_def)

lemma same_base_trans: "same_base db db1 \<Longrightarrow> same_base db1 db2 \<Longrightarrow> same_base db db2"
  by (simp add: same_base_def)

lemma only_user_refl [simp]: "only_user u db db" by (auto simp: only_user_def)

lemma subset_chain: "A \<subseteq> B \<union> C \<Longrightarrow> D \<subseteq> A \<union> C \<Longrightarrow> D \<subseteq> B \<union> C"
  by blast

lemma only_user_trans:
  assumes "only_user u db db1" and "same_base db db1" and "only_user u db1 db2"
  shows "only_user u db db2"
proof -
  have "db_paths db1 = db_paths db" using assms(2) by (simp add: same_base_def)
  then have "ac_path ` set (db_accesses db2) \<subseteq> ac_path ` set (db_accesses db) \<union> pt_id ` set (db_paths db)"
    using assms(1,3) subset_chain unfolding only_user_def by metis
  then show ?thesis using assms(1,3) by (simp add: only_user_def)
qed

definition only_this_user :: "string \<Rightarrow> 'a group_db_scheme \<Rightarrow> 'a group_db_scheme \<Rightarrow> bool" where
  "only_this_user u db db' \<longleftrightarrow> same_base db db' \<and> only_user u db db'"

lemma only_this_user_trans: "only_this_user u db db1 \<Longrightarrow> only_this_user u db1 db2 \<Longrightarrow> only_this_user u db db2"
  unfolding only_this_user_def using same_base_trans only_user_trans by metis

lemma same_base_desired: "same_base db db' \<Longrightarrow> desired_paths db' u = desired_paths db u"
  by (rule desired_cong) (simp_all add: same_base_def)

lemma same_base_sources: "same_base db db' \<Longrightarrow> sources_ok db' = sources_ok db"
  by (simp add: same_base_def sources_ok_def)

lemma same_base_wf:
  assumes "grants_wf db" and "same_base db db'" and "only_user u db db'"
  shows "grants_wf db'"
proof -
  have "path_inv db'"
  proof (rule path_inv_accesses)
    show "path_inv db" using assms(1) by (simp add: grants_wf_def)
    then have "ac_path ` set (db_accesses db) \<subseteq> pt_id ` set (db_paths db)" by (auto simp: path_inv_def)
    then show "\<forall>a \<in> set (db_accesses db'). ac_path a \<in> pt_id ` set (db_paths db)"
      using assms(3) unfolding only_user_def by blast
  qed (use assms(2) in \<open>simp_all add: same_base_def\<close>)
  then show ?thesis using assms(1,2) by (simp add: grants_wf_def same_base_sources)
qed

text \<open>A user found under the id of a stored user has that id.\<close>

lemma GetProxyUser_eq:
  "GetProxyUser db nm =
     (case sel (\<lambda>u. us_id u = normalizeName nm) (db_users db) of
        None \<Rightarrow> sel (\<lambda>u. us_name u = normalizeName nm \<and> us_deleted_at u = None) (db_users db)
      | Some u \<Rightarrow> if us_deleted_at u = None then Some u else None)"
  by (simp add: GetProxyUser_def resolveProxyUser_def q_GetProxyUserByIDIncludingDeleted_def q_GetProxyUserByName_def Let_def
      split: option.split)

lemma GetProxyUser_stored: "GetProxyUser db nm = Some u \<Longrightarrow> u \<in> set (db_users db)"
  by (auto simp: GetProxyUser_eq split: option.splits if_splits dest: sel_SomeD)

lemma GetProxyUser_cong: "db_users db' = db_users db \<Longrightarrow> GetProxyUser db' nm = GetProxyUser db nm"
  by (simp add: GetProxyUser_eq split: option.split)

lemma GetProxyUser_by_id:
  assumes "GetProxyUser db i = Some w" and "sources_ok db" and "i \<in> us_id ` set (db_users db)"
  shows "us_id w = i"
proof -
  have n: "normalizeName i = i" using assms(2,3) by (auto simp: sources_ok_def)
  have "sel (\<lambda>u. us_id u = i) (db_users db) \<noteq> None" using assms(3) by (auto simp: sel_None_iff)
  then show ?thesis using assms(1) by (auto simp: GetProxyUser_eq n split: if_splits dest: sel_SomeD)
qed

lemma GetProxyUser_again:
  "GetProxyUser db nm = Some u \<Longrightarrow> sources_ok db \<Longrightarrow> GetProxyUser db (us_id u) = Some w \<Longrightarrow> us_id w = us_id u"
  using GetProxyUser_by_id GetProxyUser_stored by blast

section \<open>One grant\<close>

lemma GetPath_trimmed:
  assumes "path_inv db" and "GetPath db i = Some p" and "i \<in> pt_id ` set (db_paths db)"
  shows "pt_id p = i"
  using assms by (auto simp: path_inv_def GetPath_def q_GetPathByID_def dest!: sel_SomeD)

text \<open>An update of accesses that keeps whose and to what they are.\<close>

lemma active_update:
  assumes "\<And>a. ac_path (f a) = ac_path a" and "\<And>a. ac_user (f a) = ac_user a"
  shows "i \<in> active_paths (db\<lparr>db_accesses := upd m f (db_accesses db)\<rparr>) u \<longleftrightarrow>
    (\<exists>a \<in> set (db_accesses db). ac_path a = i \<and> ac_user a = u
       \<and> (if m a then ac_enabled (f a) \<and> ac_deleted_at (f a) = None else ac_enabled a \<and> ac_deleted_at a = None))"
  by (force simp: active_iff set_upd assms simp del: if_image_distrib)

lemma active_restore:
  assumes "\<exists>a \<in> set (db_accesses db). ac_path a = i \<and> ac_user a = u"
  shows "active_paths (q_RestorePathAccess db i u) v = (if v = u then insert i (active_paths db u) else active_paths db v)"
  using assms by (simp add: set_eq_iff active_update q_RestorePathAccess_def) (auto simp: active_iff; metis)

lemma active_create:
  "q_CreatePathAccess now db aid i u = Some db' \<Longrightarrow>
   active_paths db' v = (if v = u then insert i (active_paths db u) else active_paths db v)"
  unfolding q_CreatePathAccess_def by (elim option_if_Some) (auto simp: active_paths_def)

text \<open>\<open>granted u i db db'\<close>: user \<open>u\<close> gets path \<open>i\<close> and nothing else changes for anyone.\<close>

definition granted :: "string \<Rightarrow> string \<Rightarrow> 'a group_db_scheme \<Rightarrow> 'a group_db_scheme \<Rightarrow> bool" where
  "granted u i db db' \<longleftrightarrow> same_base db db' \<and> only_user u db db' \<and> active_paths db' u = insert i (active_paths db u)"

lemma create_access_only:
  "q_CreatePathAccess now db aid i u = Some db' \<Longrightarrow> same_base db db' \<and> only_user u db db'"
  unfolding q_CreatePathAccess_def
  by (elim option_if_Some) (auto simp: same_base_def only_user_def active_paths_def list_ex_iff)

lemma restore_access_only: "same_base db (q_RestorePathAccess db i u) \<and> only_user u db (q_RestorePathAccess db i u)"
  by (simp add: same_base_def only_user_def q_RestorePathAccess_def image_key_upd set_eq_iff active_update) (auto simp: active_iff)

lemma grantPathAccess_granted:
  fixes db db' :: "'a group_db_scheme"
  assumes "grantPathAccess now fr db nm i = Inr (a, db')" and "GetProxyUser db nm = Some u"
  shows "granted (us_id u) i db db'"
proof -
  consider (old) r where "q_GetPathAccessByIDs db i (us_id u) = Some r" "ac_enabled r" "ac_deleted_at r = None" "db' = db"
    | (again) r where "q_GetPathAccessByIDs db i (us_id u) = Some r" "db' = q_RestorePathAccess db i (us_id u)"
    | (new) "q_CreatePathAccess now db (fr_access fr i) i (us_id u) = Some db'"
    using assms by (auto simp: grantPathAccess_def Let_def bind_res_Inr_iff split: option.splits if_splits)
  then show ?thesis
  proof cases
    case old
    then have "i \<in> active_paths db (us_id u)" by (auto simp: q_GetPathAccessByIDs_def active_iff dest!: sel_SomeD)
    then show ?thesis using old by (auto simp: granted_def)
  next
    case again
    then have ex: "\<exists>a \<in> set (db_accesses db). ac_path a = i \<and> ac_user a = us_id u"
      by (auto simp: q_GetPathAccessByIDs_def dest!: sel_SomeD)
    show ?thesis using active_restore [OF ex] restore_access_only by (simp add: granted_def again(2))
  next
    case new
    show ?thesis using active_create [OF new] create_access_only [OF new] by (simp add: granted_def)
  qed
qed

lemma ensure_chain_frame:
  "ensure_chain fr u un db seen p = Inr db' \<Longrightarrow> \<exists>b cs. db' = db\<lparr>db_bindings := b, db_creds := cs\<rparr>"
proof (induction fr u un db seen p arbitrary: db' rule: ensure_chain.induct)
  case (1 fr u un db seen p)
  show ?case
  proof (cases "pt_id p \<in> set seen")
    case True
    then have "db' = db" using 1(2) by (simp add: ensure_chain.simps [of _ _ _ _ _ p])
    then show ?thesis by (intro exI [of _ "db_bindings db"] exI [of _ "db_creds db"]) simp
  next
    case False
    then obtain db1 where hop: "ensure_hop fr u un db p = Inr db1"
      using 1(2) by (auto simp: ensure_chain.simps [of _ _ _ _ _ p] split: sum.splits)
    obtain b cs where db1: "db1 = db\<lparr>db_bindings := b, db_creds := cs\<rparr>" using ensure_hop_frame [OF hop] by blast
    show ?thesis
    proof (cases "pt_dialer p")
      case None
      then show ?thesis using 1(2) False hop db1 by (auto simp: ensure_chain.simps [of _ _ _ _ _ p])
    next
      case (Some d)
      then obtain q where q: "GetPath db1 d = Some q" "ensure_chain fr u un db1 (pt_id p # seen) q = Inr db'"
        using 1(2) False hop by (auto simp: ensure_chain.simps [of _ _ _ _ _ p] split: option.splits)
      show ?thesis using 1(1) [OF False hop Some q] db1 by auto
    qed
  qed
qed

lemma technical_frame:
  "\<exists>b cs. db' = db\<lparr>db_bindings := b, db_creds := cs\<rparr> \<Longrightarrow> same_base db db' \<and> db_accesses db' = db_accesses db"
  by (auto simp: same_base_def)

lemma grantPathToUser_granted:
  assumes "grantPathToUser now fr db nm i = Inr (a, db')" and "GetProxyUser db nm = Some u"
    and "path_inv db" and "i \<in> pt_id ` set (db_paths db)"
  shows "granted (us_id u) i db db'"
proof -
  obtain p db1 where p: "GetPath db i = Some p" and c: "ensure_chain fr u nm db [] p = Inr db1"
    and g: "grantPathAccess now fr db1 nm (pt_id p) = Inr (a, db')"
    using assms(1,2) by (auto simp: grantPathToUser_def bind_res_Inr_iff split: if_splits)
  note f = technical_frame [OF ensure_chain_frame [OF c]]
  have "GetProxyUser db1 nm = Some u" using assms(2) f by (simp add: GetProxyUser_cong [of db1 db] same_base_def)
  from grantPathAccess_granted [OF g this] have "granted (us_id u) i db1 db'"
    using GetPath_trimmed [OF assms(3) p assms(4)] by simp
  then show ?thesis using f by (auto simp: granted_def same_base_def only_user_def active_paths_def)
qed

section \<open>Bringing a user in line\<close>

lemma bind_res_InrE: "bind_res r f = Inr y \<Longrightarrow> (\<And>x. r = Inr x \<Longrightarrow> f x = Inr y \<Longrightarrow> P) \<Longrightarrow> P"
  by (cases r) auto

lemma same_base_technical [simp]:
  "same_base db (db\<lparr>db_creds := cs\<rparr>)" "same_base db (db\<lparr>db_bindings := b\<rparr>)"
  by (simp_all add: same_base_def)

lemma disable_credentials_creds: "disable_credentials db uid required cs = Inr db' \<Longrightarrow> \<exists>c. db' = db\<lparr>db_creds := c\<rparr>"
proof (induction cs arbitrary: db)
  case Nil
  then show ?case using creds_id [of db] by simp
next
  case (Cons c cs)
  then show ?case by (fastforce simp: q_SetProxyAccessEnabled_def Let_def split: if_splits)
qed

lemma disable_unused_creds: "disableUnusedProxyCredentialsTx db u = Inr db' \<Longrightarrow> \<exists>c. db' = db\<lparr>db_creds := c\<rparr>"
  by (auto simp: disableUnusedProxyCredentialsTx_def bind_res_Inr_iff disable_credentials_creds)

lemma active_soft_delete:
  "active_paths (q_SoftDeletePathAccess now db i u) v = (if v = u then active_paths db u - {i} else active_paths db v)"
  by (simp add: set_eq_iff active_update q_SoftDeletePathAccess_def) (auto simp: active_iff)

lemma soft_delete_only:
  "same_base db (q_SoftDeletePathAccess now db i u) \<and> only_user u db (q_SoftDeletePathAccess now db i u)"
  by (simp add: only_user_def active_soft_delete) (auto simp: same_base_def q_SoftDeletePathAccess_def image_key_upd)

lemma scan_accesses_effect:
  "scan_accesses now u desired db rs active previous = Inr ((active', previous'), db') \<Longrightarrow>
   same_base db db' \<and> only_user u db db'
   \<and> set active' = set active
        \<union> ac_path ` set (filter (\<lambda>r. ac_enabled r \<and> ac_deleted_at r = None \<and> ac_path r \<in> set desired) rs)
   \<and> active_paths db' u = active_paths db u
        - ac_path ` set (filter (\<lambda>r. ac_enabled r \<and> ac_deleted_at r = None \<and> ac_path r \<notin> set desired) rs)"
proof (induction rs arbitrary: db active previous)
  case Nil
  then show ?case by simp
next
  case (Cons r rs)
  show ?case
  proof (cases "ac_deleted_at r \<noteq> None \<or> \<not> ac_enabled r")
    case True
    then have "scan_accesses now u desired db rs active previous = Inr ((active', previous'), db')" using Cons.prems by auto
    from Cons.IH [OF this] show ?thesis using True by (cases "ac_enabled r"; cases "ac_deleted_at r"; simp)
  next
    case False
    then obtain pre where c: "collect_proxies db previous [] (ac_path r) = Inr pre"
      using Cons.prems by (auto simp: bind_res_Inr_iff)
    show ?thesis
    proof (cases "ac_path r \<in> set desired")
      case True
      then have "scan_accesses now u desired db rs (ac_path r # active) pre = Inr ((active', previous'), db')"
        using Cons.prems False c by simp
      from Cons.IH [OF this] show ?thesis using False True by simp
    next
      case not: False
      let ?db1 = "q_SoftDeletePathAccess now db (ac_path r) u"
      have "scan_accesses now u desired ?db1 rs active pre = Inr ((active', previous'), db')"
        using Cons.prems False c not by simp
      note ih = Cons.IH [OF this]
      have "only_this_user u db db'"
        by (rule only_this_user_trans [of u db ?db1]) (use ih soft_delete_only in \<open>auto simp: only_this_user_def\<close>)
      then have "same_base db db'" "only_user u db db'" by (auto simp: only_this_user_def)
      then show ?thesis using ih False not active_soft_delete [of now db "ac_path r" u u]
        by (simp add: Diff_insert2 [symmetric])
    qed
  qed
qed

lemma grant_missing_effect:
  assumes "grant_missing now fr u active blocked db is = Inr db'" and "grants_wf db" and "u \<in> us_id ` set (db_users db)"
    and "set is \<subseteq> pt_id ` set (db_paths db)"
  shows "same_base db db' \<and> only_user u db db' \<and> active_paths db' u = active_paths db u \<union> (set is - set active)"
  using assms
proof (induction "is" arbitrary: db)
  case Nil
  then show ?case by simp
next
  case (Cons i "is")
  show ?case
  proof (cases "i \<in> set active")
    case True
    then show ?thesis using Cons.prems Cons.IH [of db] by auto
  next
    case False
    then obtain a db1 where g: "grantPathToUser now fr db u i = Inr (a, db1)"
      and rest: "grant_missing now fr u active blocked db1 is = Inr db'"
      using Cons.prems(1) by (auto simp: bind_res_Inr_iff split: if_splits)
    obtain w where w: "GetProxyUser db u = Some w" using g by (auto simp: grantPathToUser_def bind_res_Inr_iff)
    have "us_id w = u" using GetProxyUser_by_id [OF w] Cons.prems(2,3) by (simp add: grants_wf_def)
    then have gr: "granted u i db db1"
      using grantPathToUser_granted [OF g w] Cons.prems(2,4) by (simp add: grants_wf_def)
    then have sb: "same_base db db1" and ou: "only_user u db db1" by (auto simp: granted_def)
    have "grants_wf db1" by (rule same_base_wf [OF Cons.prems(2) sb ou])
    moreover have "u \<in> us_id ` set (db_users db1)" "set is \<subseteq> pt_id ` set (db_paths db1)"
      using Cons.prems(3,4) sb by (auto simp: same_base_def)
    ultimately have ih: "same_base db1 db' \<and> only_user u db1 db' \<and> active_paths db' u = active_paths db1 u \<union> (set is - set active)"
      using Cons.IH [OF rest] by blast
    have "only_this_user u db db'"
      by (rule only_this_user_trans [of u db db1]) (use ih sb ou in \<open>auto simp: only_this_user_def\<close>)
    then show ?thesis using ih gr False by (auto simp: granted_def only_this_user_def)
  qed
qed

lemma image_split: "f ` {r \<in> A. P r} - f ` {r \<in> A. P r \<and> f r \<notin> D} = f ` {r \<in> A. P r \<and> f r \<in> D}"
  by auto

text \<open>After \<open>reconcilePathGrants\<close> the user has exactly what is desired.\<close>

lemma reconcile_effect:
  assumes r: "reconcilePathGrants now fr db u = Inr db'" and wf: "grants_wf db" and u: "u \<in> us_id ` set (db_users db)"
  shows "same_base db db' \<and> only_user u db db' \<and> active_paths db' u = desired_paths db u \<and> grants_wf db'"
proof -
  obtain w where w: "GetProxyUser db u = Some w" using r by (auto simp: reconcilePathGrants_def bind_res_Inr_iff)
  have id: "us_id w = u" using GetProxyUser_by_id [OF w] wf u by (simp add: grants_wf_def)
  let ?d = "q_ListUserDesiredPathIDs db u" and ?rows = "q_ListUserPathAccessesIncludingInactive db u"
  obtain active previous db1 blocked db2 where
    s: "scan_accesses now u ?d db ?rows [] [] = Inr ((active, previous), db1)"
    and m: "grant_missing now fr u active blocked db1 ?d = Inr db2"
    and x: "disableUnusedProxyCredentialsTx db2 w = Inr db'"
    using r unfolding reconcilePathGrants_def w res_of_simps bind_res.simps Let_def id
    by (auto elim!: bind_res_InrE split: prod.splits intro: that)
  note sc = scan_accesses_effect [OF s]
  have act: "active_paths db u = ac_path ` {r \<in> set ?rows. ac_enabled r \<and> ac_deleted_at r = None}"
    by (auto simp: active_iff q_ListUserPathAccessesIncludingInactive_def)
  have wf1: "grants_wf db1" using same_base_wf [OF wf] sc by blast
  have "set ?d \<subseteq> pt_id ` set (db_paths db)"
    using desired_stored [of db _ u] wf by (auto simp: grants_wf_def desired_paths_def)
  then have gm: "same_base db1 db2 \<and> only_user u db1 db2 \<and> active_paths db2 u = active_paths db1 u \<union> (set ?d - set active)"
    using grant_missing_effect [OF m wf1] u sc by (simp add: same_base_def)
  have "only_this_user u db db2"
    by (rule only_this_user_trans [of u db db1]) (use sc gm in \<open>auto simp: only_this_user_def\<close>)
  then have same: "same_base db db2" "only_user u db db2" by (auto simp: only_this_user_def)
  obtain cs where cs: "db' = db2\<lparr>db_creds := cs\<rparr>" using disable_unused_creds [OF x] by blast
  have active: "set active = ac_path ` {r \<in> set ?rows. (ac_enabled r \<and> ac_deleted_at r = None) \<and> ac_path r \<in> set ?d}"
    using sc by (simp add: conj_assoc)
  have "active_paths db1 u = set active"
    unfolding active image_split [symmetric] using sc act by (simp add: conj_assoc)
  moreover have "set active \<subseteq> set ?d" unfolding active by blast
  ultimately have "active_paths db2 u = desired_paths db u" using gm by (auto simp: desired_paths_def)
  then have "active_paths db' u = desired_paths db u" using cs by (simp add: active_paths_def)
  moreover have "same_base db db'" using same_base_trans [OF same(1)] cs by simp
  moreover have "only_user u db db'" using same(2) cs by (simp add: only_user_def active_paths_def)
  ultimately show ?thesis using same_base_wf [OF wf] by blast
qed

section \<open>Changing the sources\<close>

text \<open>A change of sources that touches the users in \<open>U\<close> at most and leaves the accesses for \<open>reconcilePathGrants\<close>.\<close>

definition only_sources :: "string set \<Rightarrow> 'a group_db_scheme \<Rightarrow> 'a group_db_scheme \<Rightarrow> bool" where
  "only_sources U db db' \<longleftrightarrow> grants_wf db' \<and> db_accesses db' = db_accesses db \<and> db_users db' = db_users db
     \<and> (\<forall>v. v \<notin> U \<longrightarrow> desired_paths db' v = desired_paths db v)"

lemma only_sources_refl: "grants_wf db \<Longrightarrow> only_sources U db db"
  by (simp add: only_sources_def)

lemma only_sources_trans: "only_sources U db db1 \<Longrightarrow> only_sources U db1 db2 \<Longrightarrow> only_sources U db db2"
  by (simp add: only_sources_def)

lemma only_sources_wf: "only_sources U db db' \<Longrightarrow> grants_wf db'"
  by (simp add: only_sources_def)

lemma resync:
  assumes "in_sync db" and o: "only_sources {u} db db1" and u: "u \<in> us_id ` set (db_users db)"
    and "reconcilePathGrants now fr db1 u = Inr db'"
  shows "grants_inv db'"
proof -
  have "u \<in> us_id ` set (db_users db1)" using o u by (simp add: only_sources_def)
  note r = reconcile_effect [OF assms(4) only_sources_wf [OF o] this]
  have "active_paths db' v = desired_paths db' v" for v
  proof (cases "v = u")
    case True
    then show ?thesis using r same_base_desired [of db1 db' u] by simp
  next
    case False
    then have "active_paths db' v = active_paths db v"
      using r o active_cong [of db1 db v] by (simp add: only_user_def only_sources_def)
    moreover have "desired_paths db' v = desired_paths db v"
      using r o False same_base_desired [of db1 db' v] by (simp add: only_sources_def)
    ultimately show ?thesis using assms(1) by (simp add: in_sync_def)
  qed
  then show ?thesis using r by (simp add: grants_inv_def in_sync_def)
qed

lemma upsert_grant:
  assumes "(u, i, b) \<in> G"
  shows "(v, j, True) \<in> (\<lambda>g. if fst g = u \<and> fst (snd g) = i then (u, i, True) else g) ` G \<longleftrightarrow> v = u \<and> j = i \<or> (v, j, True) \<in> G"
    (is "_ \<in> ?f ` G \<longleftrightarrow> _")
proof
  assume "(v, j, True) \<in> ?f ` G"
  then obtain g where "g \<in> G" "(v, j, True) = ?f g" by blast
  then show "v = u \<and> j = i \<or> (v, j, True) \<in> G" by (cases "fst g = u \<and> fst (snd g) = i") auto
next
  assume "v = u \<and> j = i \<or> (v, j, True) \<in> G"
  then show "(v, j, True) \<in> ?f ` G"
  proof
    assume "v = u \<and> j = i"
    then show ?thesis using assms by (intro image_eqI [of _ ?f "(u, i, b)"]) auto
  next
    assume "(v, j, True) \<in> G"
    then show ?thesis by (intro image_eqI [of _ ?f "(v, j, True)"]) auto
  qed
qed

lemma set_direct_row:
  assumes "q_SetDirectPathGrant db u i = Some db'"
  obtains gs where "db' = db\<lparr>db_direct_grants := gs\<rparr>"
    and "\<And>v j. (v, j, True) \<in> set gs \<longleftrightarrow> v = u \<and> j = i \<or> (v, j, True) \<in> set (db_direct_grants db)"
    and "(\<lambda>g. fst (snd g)) ` set gs \<subseteq> insert i ((\<lambda>g. fst (snd g)) ` set (db_direct_grants db))"
    and "i \<in> (\<lambda>g. fst (snd g)) ` set (db_direct_grants db) \<union> pt_id ` set (db_paths db)"
proof (cases "\<exists>b. (u, i, b) \<in> set (db_direct_grants db)")
  case True
  then obtain b where b: "(u, i, b) \<in> set (db_direct_grants db)" by blast
  then have db': "db' = db\<lparr>db_direct_grants := upd (\<lambda>g. fst g = u \<and> fst (snd g) = i) (\<lambda>_. (u, i, True)) (db_direct_grants db)\<rparr>"
    using assms by (auto simp: q_SetDirectPathGrant_def list_ex_iff split: if_splits)
  show ?thesis
  proof (rule that [OF db'])
    show "(v, j, True) \<in> set (upd (\<lambda>g. fst g = u \<and> fst (snd g) = i) (\<lambda>_. (u, i, True)) (db_direct_grants db))
        \<longleftrightarrow> v = u \<and> j = i \<or> (v, j, True) \<in> set (db_direct_grants db)" for v j
      unfolding set_upd by (rule upsert_grant [OF b])
  qed (use grant_path_image [OF b] in \<open>auto simp: set_upd\<close>)
next
  case False
  then have db': "db' = db\<lparr>db_direct_grants := db_direct_grants db @ [(u, i, True)]\<rparr>" and i: "list_ex (\<lambda>p. pt_id p = i) (db_paths db)"
    using assms by (auto simp: q_SetDirectPathGrant_def list_ex_iff split: if_splits)
  show ?thesis by (rule that [OF db']) (use i in \<open>auto simp: list_ex_iff\<close>)
qed

lemma set_direct_desired:
  "q_SetDirectPathGrant db u i = Some db' \<Longrightarrow>
   desired_paths db' v = (if v = u then insert i (desired_paths db u) else desired_paths db v)"
  by (erule set_direct_row) (auto simp: set_eq_iff desired_iff)

lemma set_direct_wf:
  assumes "q_SetDirectPathGrant db u i = Some db'" and "grants_wf db"
  shows "grants_wf db' \<and> i \<in> pt_id ` set (db_paths db) \<and> db_accesses db' = db_accesses db \<and> db_users db' = db_users db \<and> db_paths db' = db_paths db"
proof -
  from assms(1) obtain gs where gs: "db' = db\<lparr>db_direct_grants := gs\<rparr>"
    "(\<lambda>g. fst (snd g)) ` set gs \<subseteq> insert i ((\<lambda>g. fst (snd g)) ` set (db_direct_grants db))"
    "i \<in> (\<lambda>g. fst (snd g)) ` set (db_direct_grants db) \<union> pt_id ` set (db_paths db)"
    by (rule set_direct_row)
  have i: "i \<in> pt_id ` set (db_paths db)" using gs(3) assms(2) by (auto simp: grants_wf_def sources_ok_def)
  have "(\<lambda>g. fst (snd g)) ` set gs \<subseteq> pt_id ` set (db_paths db)"
    by (rule order_trans [OF gs(2)]) (use i assms(2) in \<open>simp add: grants_wf_def sources_ok_def\<close>)
  moreover have "path_inv db'" using assms(2) unfolding gs(1) grants_wf_def by (auto intro: path_inv_frame [of db])
  ultimately show ?thesis using assms(2) i by (simp add: gs(1) grants_wf_def sources_ok_def)
qed

lemma set_direct_only: "q_SetDirectPathGrant db u i = Some db' \<Longrightarrow> grants_wf db \<Longrightarrow> only_sources {u} db db'"
  using set_direct_wf [of db u i db'] set_direct_desired [of db u i db'] by (auto simp: only_sources_def)

text \<open>Fewer sources and the same paths, users and groups keep the database well formed.\<close>

lemma fewer_sources_wf:
  assumes "grants_wf db" and "db_paths db' = db_paths db" and "db_endpoints db' = db_endpoints db"
    and "db_accesses db' = db_accesses db" and "db_users db' = db_users db" and "gr_id ` set (db_groups db') = gr_id ` set (db_groups db)"
    and "set (db_direct_grants db') \<subseteq> set (db_direct_grants db)" and "set (db_group_members db') \<subseteq> set (db_group_members db)"
    and "set (db_group_grants db') \<subseteq> set (db_group_grants db)"
  shows "grants_wf db'"
proof -
  have "path_inv db'" using assms(1-4) by (auto simp: grants_wf_def intro: path_inv_frame)
  then show ?thesis using assms(1) unfolding grants_wf_def sources_ok_def assms(2,5,6)
    by (simp add: order_trans [OF image_mono [OF assms(7)]] order_trans [OF image_mono [OF assms(8)]]
        order_trans [OF image_mono [OF assms(9)]])
qed

lemma desired_eqI:
  assumes "\<And>i. (v, i, True) \<in> set (db_direct_grants db') \<longleftrightarrow> (v, i, True) \<in> set (db_direct_grants db)"
    and "db_groups db' = db_groups db" and "db_group_members db' = db_group_members db"
    and "\<And>g. (v, g) \<in> set (db_group_grants db') \<longleftrightarrow> (v, g) \<in> set (db_group_grants db)"
  shows "desired_paths db' v = desired_paths db v"
  using assms by (simp add: set_eq_iff desired_iff)

lemma delete_direct_only:
  assumes "grants_wf db"
  shows "only_sources {u} db (q_DeleteDirectPathGrant db u i)"
proof -
  have "grants_wf (q_DeleteDirectPathGrant db u i)" by (rule fewer_sources_wf [OF assms]) (auto simp: q_DeleteDirectPathGrant_def)
  moreover have "desired_paths (q_DeleteDirectPathGrant db u i) v = desired_paths db v" if "v \<noteq> u" for v
    by (rule desired_eqI) (use that in \<open>auto simp: q_DeleteDirectPathGrant_def\<close>)
  ultimately show ?thesis by (simp add: only_sources_def) (simp add: q_DeleteDirectPathGrant_def)
qed

lemma delete_group_grants_only:
  assumes "grants_wf db"
  shows "only_sources {u} db (q_DeleteUserPathGroupGrants db u)"
proof -
  have "grants_wf (q_DeleteUserPathGroupGrants db u)" by (rule fewer_sources_wf [OF assms]) (auto simp: q_DeleteUserPathGroupGrants_def)
  moreover have "desired_paths (q_DeleteUserPathGroupGrants db u) v = desired_paths db v" if "v \<noteq> u" for v
    by (rule desired_eqI) (use that in \<open>auto simp: q_DeleteUserPathGroupGrants_def\<close>)
  ultimately show ?thesis by (simp add: only_sources_def) (simp add: q_DeleteUserPathGroupGrants_def)
qed

section \<open>Direct grants and selections\<close>

lemma atomically_keeps: "P db \<Longrightarrow> (\<And>x db'. r = Inr (x, db') \<Longrightarrow> P db') \<Longrightarrow> P (snd (atomically db r))"
  by (auto simp: atomically_def split: sum.splits)

lemma user_id_stored: "GetProxyUser db nm = Some u \<Longrightarrow> us_id u \<in> us_id ` set (db_users db)"
  using GetProxyUser_stored by blast

text \<open>A direct grant and the access that goes with it.\<close>

lemma granted_sync:
  assumes "grants_inv db" and s: "q_SetDirectPathGrant db u i = Some db1" and g: "granted u i db1 db'"
  shows "grants_inv db'"
proof -
  have wf: "grants_wf db1" "db_accesses db1 = db_accesses db" using set_direct_wf [OF s] assms(1) by (auto simp: grants_inv_def)
  have b: "same_base db1 db'" "only_user u db1 db'" using g by (auto simp: granted_def)
  have "active_paths db' v = desired_paths db' v" for v
    using assms(1) g b active_cong [OF wf(2)] same_base_desired [OF b(1)] set_direct_desired [OF s, of v]
    by (cases "v = u") (auto simp: grants_inv_def in_sync_def granted_def only_user_def)
  then show ?thesis using same_base_wf [OF wf(1) b] by (simp add: grants_inv_def in_sync_def)
qed

lemma grant_direct_inv:
  assumes inv: "grants_inv db" and r: "grant_direct_tx now fr technical db nm i = Inr (a, db')"
  shows "grants_inv db'"
proof -
  obtain u db1 where u: "GetProxyUser db nm = Some u" and s: "q_SetDirectPathGrant db (us_id u) i = Some db1"
    and g: "(if technical then grantPathToUser now fr db1 (us_id u) i else grantPathAccess now fr db1 (us_id u) i) = Inr (a, db')"
    using r by (auto simp: grant_direct_tx_def bind_res_Inr_iff)
  have wf: "grants_wf db1 \<and> i \<in> pt_id ` set (db_paths db1) \<and> db_users db1 = db_users db"
    using set_direct_wf [OF s] inv by (auto simp: grants_inv_def)
  obtain w where w: "GetProxyUser db1 (us_id u) = Some w"
    using g by (auto simp: grantPathToUser_def grantPathAccess_def bind_res_Inr_iff split: if_splits)
  have "us_id w = us_id u" using GetProxyUser_by_id [OF w] user_id_stored [OF u] wf by (simp add: grants_wf_def)
  then have "granted (us_id u) i db1 db'"
    using g grantPathToUser_granted [OF _ w] grantPathAccess_granted [OF _ w] wf by (auto simp: grants_wf_def split: if_splits)
  from granted_sync [OF inv s this] show ?thesis .
qed

lemma grantDirectPath_inv: "grants_inv db \<Longrightarrow> grants_inv (snd (grantDirectPath now fr technical db nm i))"
  unfolding grantDirectPath_def by (rule atomically_keeps) (auto intro: grant_direct_inv)

lemma RevokePathAccess_inv: "grants_inv db \<Longrightarrow> grants_inv (snd (RevokePathAccess now fr db nm i))"
  unfolding RevokePathAccess_def
proof (rule atomically_keeps)
  fix a db'
  assume inv: "grants_inv db" and r: "revoke_tx now fr db nm i = Inr (a, db')"
  obtain u where u: "GetProxyUser db nm = Some u"
    and rec: "reconcilePathGrants now fr (q_DeleteDirectPathGrant db (us_id u) i) (us_id u) = Inr db'"
    using r by (auto simp: revoke_tx_def bind_res_Inr_iff)
  show "grants_inv db'"
    using resync [OF _ delete_direct_only user_id_stored [OF u] rec] inv by (simp add: grants_inv_def)
qed

lemma set_direct_grants_only: "set_direct_grants db u is = Inr db' \<Longrightarrow> grants_wf db \<Longrightarrow> only_sources {u} db db'"
proof (induction "is" arbitrary: db)
  case Nil
  then show ?case by (simp add: only_sources_refl)
next
  case (Cons i "is")
  then obtain db1 where "q_SetDirectPathGrant db u i = Some db1" "set_direct_grants db1 u is = Inr db'"
    by (auto simp: bind_res_Inr_iff)
  then show ?case using Cons set_direct_only only_sources_trans only_sources_wf by metis
qed

lemma apply_selection_only: "apply_selection db u cs = Inr db' \<Longrightarrow> grants_wf db \<Longrightarrow> only_sources {u} db db'"
proof (induction cs arbitrary: db)
  case Nil
  then show ?case by (simp add: only_sources_refl)
next
  case (Cons c cs)
  then have "\<exists>db1. only_sources {u} db db1 \<and> apply_selection db1 u cs = Inr db'"
    by (cases "snd c") (auto simp: bind_res_Inr_iff intro: set_direct_only delete_direct_only)
  then show ?case using Cons only_sources_trans only_sources_wf by metis
qed

lemma ChangeUserPathSelection_inv: "grants_inv db \<Longrightarrow> grants_inv (snd (ChangeUserPathSelection now fr db nm changes))"
proof -
  assume inv: "grants_inv db"
  have "grants_inv db'" if r: "selection_tx now fr db nm changes = Inr (x, db')" for x db'
  proof -
    obtain u db1 db2 where u: "GetProxyUser db nm = Some u"
      and s: "set_direct_grants db (us_id u) (q_ListUserDesiredPathIDs db (us_id u)) = Inr db1"
      and a: "apply_selection (q_DeleteUserPathGroupGrants db1 (us_id u)) (us_id u) changes = Inr db2"
      and rec: "reconcilePathGrants now fr db2 (us_id u) = Inr db'"
      using r by (auto simp: selection_tx_def bind_res_Inr_iff)
    have wf: "grants_wf db" using inv by (simp add: grants_inv_def)
    note o1 = set_direct_grants_only [OF s wf]
    note o2 = delete_group_grants_only [OF only_sources_wf [OF o1], of "us_id u"]
    note o3 = apply_selection_only [OF a only_sources_wf [OF o2]]
    have "only_sources {us_id u} db db2" using only_sources_trans [OF only_sources_trans [OF o1 o2] o3] .
    then show ?thesis using resync [OF _ _ user_id_stored [OF u] rec] inv by (simp add: grants_inv_def)
  qed
  then have "grants_inv (snd (atomically db (selection_tx now fr db nm changes)))" 
    by (rule atomically_keeps [where P = grants_inv, OF inv])
  then show ?thesis using inv by (simp add: ChangeUserPathSelection_def)
qed

section \<open>Groups\<close>

text \<open>A change of the rows and members of one group.\<close>

definition group_only :: "string \<Rightarrow> 'a group_db_scheme \<Rightarrow> 'a group_db_scheme \<Rightarrow> bool" where
  "group_only g db db' \<longleftrightarrow>
     grants_wf db' \<and> db_accesses db' = db_accesses db \<and> db_users db' = db_users db \<and> db_paths db' = db_paths db
     \<and> db_direct_grants db' = db_direct_grants db \<and> db_group_grants db' = db_group_grants db
     \<and> (\<forall>r. gr_id r \<noteq> g \<longrightarrow> (r \<in> set (db_groups db') \<longleftrightarrow> r \<in> set (db_groups db)))
     \<and> (\<forall>h i. h \<noteq> g \<longrightarrow> ((h, i) \<in> set (db_group_members db') \<longleftrightarrow> (h, i) \<in> set (db_group_members db)))"

lemma group_only_wf: "group_only g db db' \<Longrightarrow> grants_wf db'"
  by (simp add: group_only_def)

lemma group_only_refl: "grants_wf db \<Longrightarrow> group_only g db db"
  by (simp add: group_only_def)

lemma group_only_trans: "group_only g db db1 \<Longrightarrow> group_only g db1 db2 \<Longrightarrow> group_only g db db2"
  by (simp add: group_only_def)

lemma group_only_sources:
  assumes "group_only g db db'" and "{u. (u, g) \<in> set (db_group_grants db)} \<subseteq> U"
  shows "only_sources U db db'"
proof -
  have "desired_paths db' v = desired_paths db v" if v: "v \<notin> U" for v
  proof -
    have "gr_id r \<noteq> g" if "(v, gr_id r) \<in> set (db_group_grants db)" for r using that v assms(2) by auto
    then have "(r \<in> set (db_groups db') \<and> (v, gr_id r) \<in> set (db_group_grants db) \<and> (gr_id r, i) \<in> set (db_group_members db'))
        \<longleftrightarrow> (r \<in> set (db_groups db) \<and> (v, gr_id r) \<in> set (db_group_grants db) \<and> (gr_id r, i) \<in> set (db_group_members db))" for r i
      using assms(1) by (auto simp: group_only_def)
    moreover have "db_direct_grants db' = db_direct_grants db" "db_group_grants db' = db_group_grants db"
      using assms(1) by (simp_all add: group_only_def)
    ultimately show ?thesis by (simp add: set_eq_iff desired_iff) blast
  qed
  then show ?thesis using assms(1) by (simp add: only_sources_def group_only_def)
qed

text \<open>Rows of groups change, with at least the same ids, and members of stored groups and paths come or go.\<close>

lemma group_rows_wf:
  assumes "grants_wf db" and "db_paths db' = db_paths db" and "db_endpoints db' = db_endpoints db"
    and "db_accesses db' = db_accesses db" and "db_users db' = db_users db" and "gr_id ` set (db_groups db) \<subseteq> gr_id ` set (db_groups db')"
    and "db_direct_grants db' = db_direct_grants db" and "db_group_grants db' = db_group_grants db"
    and "snd ` set (db_group_members db') \<subseteq> pt_id ` set (db_paths db)" and "fst ` set (db_group_members db') \<subseteq> gr_id ` set (db_groups db')"
  shows "grants_wf db'"
proof -
  have "path_inv db'" using assms(1-4) by (auto simp: grants_wf_def intro: path_inv_frame)
  then show ?thesis using assms(1,9,10) unfolding grants_wf_def sources_ok_def assms(2,5,7,8)
    by (simp add: order_trans [OF _ assms(6)])
qed

lemma members_stored:
  "grants_wf db \<Longrightarrow> snd ` set (db_group_members db) \<subseteq> pt_id ` set (db_paths db) \<and> fst ` set (db_group_members db) \<subseteq> gr_id ` set (db_groups db)"
  by (simp add: grants_wf_def sources_ok_def)

lemma create_group_only:
  assumes "q_CreatePathGroup db g nm descr b = Some db'" and "grants_wf db"
  shows "group_only g db db' \<and> g \<notin> gr_id ` set (db_groups db)"
proof -
  have db': "db' = db\<lparr>db_groups := db_groups db @ [\<lparr>gr_id = g, gr_name = nm, gr_description = descr, gr_enabled = b,
      gr_revision = 1, gr_deleted_at = None\<rparr>]\<rparr>" and new: "g \<notin> gr_id ` set (db_groups db)"
    using assms(1) by (auto simp: q_CreatePathGroup_def list_ex_iff split: if_splits)
  have "grants_wf db'"
    by (rule group_rows_wf [OF assms(2)]) (use members_stored [OF assms(2)] in \<open>auto simp: db'\<close>)
  then show ?thesis using new by (auto simp: group_only_def db')
qed

text \<open>An update of rows with one id that keeps the ids.\<close>

lemma update_group_only:
  assumes "grants_wf db" and "\<And>r. m r \<Longrightarrow> gr_id r = g" and "\<And>r. gr_id (f r) = gr_id r"
  shows "group_only g db (db\<lparr>db_groups := upd m f (db_groups db)\<rparr>)"
proof -
  let ?db = "db\<lparr>db_groups := upd m f (db_groups db)\<rparr>"
  have ids: "gr_id ` set (upd m f (db_groups db)) = gr_id ` set (db_groups db)" by (rule image_key_upd) (rule assms(3))
  have "grants_wf ?db"
    by (rule group_rows_wf [OF assms(1)]) (use members_stored [OF assms(1)] ids in simp_all)
  moreover have "r \<in> set (upd m f (db_groups db)) \<longleftrightarrow> r \<in> set (db_groups db)" if "gr_id r \<noteq> g" for r
    using that assms(2,3) unfolding set_upd by (force simp: image_iff)
  ultimately show ?thesis by (simp add: group_only_def)
qed

lemma UpdatePathGroup_only: "q_UpdatePathGroup db g nm descr b revision = Some (db', n) \<Longrightarrow> grants_wf db \<Longrightarrow> group_only g db db'"
  by (auto simp: q_UpdatePathGroup_def Let_def intro: update_group_only split: if_splits)

lemma ArchivePathGroup_only: "grants_wf db \<Longrightarrow> group_only g db (q_ArchivePathGroup now db g)"
  unfolding q_ArchivePathGroup_def by (rule update_group_only) auto

lemma delete_members_only:
  assumes "grants_wf db"
  shows "group_only g db (q_DeletePathGroupMembers db g)"
proof -
  have "grants_wf (q_DeletePathGroupMembers db g)"
    by (rule fewer_sources_wf [OF assms]) (auto simp: q_DeletePathGroupMembers_def)
  then show ?thesis by (simp add: group_only_def) (simp add: q_DeletePathGroupMembers_def)
qed

lemma add_member_only:
  assumes "q_AddPathGroupMember db g i = Some db'" and "grants_wf db"
  shows "group_only g db db'"
proof -
  have db': "db' = db\<lparr>db_group_members := db_group_members db @ [(g, i)]\<rparr>"
    and ok: "g \<in> gr_id ` set (db_groups db)" "i \<in> pt_id ` set (db_paths db)"
    using assms(1) by (auto simp: q_AddPathGroupMember_def list_ex_iff split: if_splits)
  have "grants_wf db'"
    by (rule group_rows_wf [OF assms(2)]) (use members_stored [OF assms(2)] ok in \<open>auto simp: db'\<close>)
  then show ?thesis by (simp add: group_only_def db')
qed

lemma add_members_only: "add_members db g is = Inr db' \<Longrightarrow> grants_wf db \<Longrightarrow> group_only g db db'"
proof (induction "is" arbitrary: db)
  case Nil
  then show ?case by (simp add: group_only_refl)
next
  case (Cons i "is")
  then obtain db1 where "q_AddPathGroupMember db g i = Some db1" "add_members db1 g is = Inr db'"
    by (auto simp: bind_res_Inr_iff)
  then show ?case using Cons add_member_only group_only_trans group_only_wf by metis
qed

lemma save_group_only:
  assumes "save_group gid db c n = Inr (g, db')" and wf: "grants_wf db"
  shows "group_only g db db' \<and> (g = gc_group c \<or> g \<notin> gr_id ` set (db_groups db))"
proof -
  obtain db1 where 1: "group_only g db db1" "g = gc_group c \<or> g \<notin> gr_id ` set (db_groups db)"
    and 2: "add_members (q_DeletePathGroupMembers db1 g) g (gc_paths c) = Inr db'"
    using assms(1) create_group_only [OF _ wf] UpdatePathGroup_only [OF _ wf]
    by (fastforce simp: save_group_def Let_def bind_res_Inr_iff split: if_splits)
  note d = delete_members_only [OF group_only_wf [OF 1(1)], of g]
  have "group_only g db db'"
    using group_only_trans [OF group_only_trans [OF 1(1) d] add_members_only [OF 2 group_only_wf [OF d]]] .
  then show ?thesis using 1(2) by blast
qed

lemma GrantUserPathGroup_row:
  "q_GrantUserPathGroup db u g = Some db' \<Longrightarrow>
   db' = db \<or> g \<in> gr_id ` set (db_groups db) \<and> db' = db\<lparr>db_group_grants := db_group_grants db @ [(u, g)]\<rparr>"
  by (auto simp: q_GrantUserPathGroup_def list_ex_iff split: if_splits)

lemma grant_user_only:
  assumes "grant_group grant db c = Inr db'" and "grants_wf db" and u: "gc_user c \<in> us_id ` set (db_users db)"
  shows "only_sources {gc_user c} db db'"
proof -
  have "q_GrantUserPathGroup db (gc_user c) (gc_group c) = Some db' \<or> db' = q_RevokeUserPathGroup db (gc_user c) (gc_group c)"
    using assms(1) by (auto simp: grant_group_def Let_def bind_res_Inr_iff split: if_splits)
  then consider (same) "db' = db"
    | (add) "gc_group c \<in> gr_id ` set (db_groups db)" "db' = db\<lparr>db_group_grants := db_group_grants db @ [(gc_user c, gc_group c)]\<rparr>"
    | (del) "db' = q_RevokeUserPathGroup db (gc_user c) (gc_group c)"
    using GrantUserPathGroup_row by blast
  then show ?thesis
  proof cases
    case same
    then show ?thesis using assms(2) by (simp add: only_sources_refl)
  next
    case add
    have "path_inv db'" using assms(2) by (auto simp: add(2) grants_wf_def intro: path_inv_frame [of db])
    then have "grants_wf db'" using assms(2) u add(1) by (simp add: grants_wf_def sources_ok_def add(2))
    moreover have "desired_paths db' v = desired_paths db v" if "v \<noteq> gc_user c" for v
      by (rule desired_eqI) (use that in \<open>auto simp: add(2)\<close>)
    ultimately show ?thesis by (simp add: only_sources_def) (simp add: add(2))
  next
    case del
    have "grants_wf db'" by (rule fewer_sources_wf [OF assms(2)]) (auto simp: del q_RevokeUserPathGroup_def)
    moreover have "desired_paths db' v = desired_paths db v" if "v \<noteq> gc_user c" for v
      by (rule desired_eqI) (use that in \<open>auto simp: del q_RevokeUserPathGroup_def\<close>)
    ultimately show ?thesis by (simp add: only_sources_def) (simp add: del q_RevokeUserPathGroup_def)
  qed
qed

text \<open>The loop over the affected users brings each of them in line.\<close>

lemma reconcile_users_effect:
  assumes "reconcile_users now fr before db nodes us = Inr (x, db')" and "grants_wf db" and "set us \<subseteq> us_id ` set (db_users db)"
    and "\<And>v. v \<notin> set us \<Longrightarrow> active_paths db v = desired_paths db v"
  shows "grants_inv db'"
  using assms
proof (induction us arbitrary: db nodes x)
  case Nil
  then show ?case by (simp add: grants_inv_def in_sync_def)
next
  case (Cons u us)
  obtain db1 nodes1 y where r: "reconcilePathGrants now (fr u) db u = Inr db1"
    and rest: "reconcile_users now fr before db1 nodes1 us = Inr (y, db')"
    using Cons.prems(1) by (auto simp: Let_def bind_res_Inr_iff split: prod.splits)
  have u: "u \<in> us_id ` set (db_users db)" using Cons.prems(3) by simp
  note e = reconcile_effect [OF r Cons.prems(2) u]
  have "active_paths db1 v = desired_paths db1 v" if "v \<notin> set us" for v
  proof (cases "v = u")
    case True
    then show ?thesis using e same_base_desired [of db db1 u] by simp
  next
    case False
    then show ?thesis using e that Cons.prems(4) [of v] same_base_desired [of db db1 v] by (simp add: only_user_def)
  qed
  moreover have "set us \<subseteq> us_id ` set (db_users db1)" using e Cons.prems(3) by (simp add: same_base_def)
  ultimately show ?case using Cons.IH [OF rest] e by blast
qed

lemma set_granted_users: "set (granted_users db g) = {u. (u, g) \<in> set (db_group_grants db)}"
  by (force simp: granted_users_def q_ListPathGroupGrants_def)

lemma affected_users_ok:
  assumes "affected_users db c0 = Inr (c, users)" and wf: "grants_wf db"
  shows "gc_group c = gc_group c0 \<and> {u. (u, gc_group c0) \<in> set (db_group_grants db)} \<subseteq> set users
    \<and> set users \<subseteq> us_id ` set (db_users db) \<and> (gc_user c \<noteq> [] \<longrightarrow> gc_user c \<in> us_id ` set (db_users db))"
proof -
  have "fst ` set (db_group_grants db) \<subseteq> us_id ` set (db_users db)" using wf by (simp add: grants_wf_def sources_ok_def)
  then have "set (granted_users db (gc_group c0)) \<subseteq> us_id ` set (db_users db)"
    unfolding set_granted_users by (rule order_trans [rotated]) (auto intro: pair_images(2))
  moreover have "set (granted_users db (gc_group c0)) \<subseteq> set users
      \<and> (gc_user c0 = [] \<and> c = c0 \<and> users = granted_users db (gc_group c0)
         \<or> (\<exists>u. GetProxyUser db (gc_user c0) = Some u \<and> c = c0\<lparr>gc_user := us_id u\<rparr> \<and> set users = insert (us_id u) (set (granted_users db (gc_group c0)))))"
    using assms(1) by (auto simp: affected_users_def bind_res_Inr_iff split: if_splits)
  ultimately show ?thesis unfolding set_granted_users [symmetric] using user_id_stored [of db "gc_user c0"] by auto
qed

text \<open>The switch of \<open>ChangePathGroup\<close> touches the sources of the affected users only.\<close>

lemma change_sources_only:
  assumes ch: "change_sources now gid db c users = Inr ((g, users'), db')" and wf: "grants_wf db"
    and all: "{u. (u, gc_group c) \<in> set (db_group_grants db)} \<subseteq> set users"
    and stored: "set users \<subseteq> us_id ` set (db_users db)" "gc_user c \<noteq> [] \<Longrightarrow> gc_user c \<in> us_id ` set (db_users db)"
  shows "only_sources (set users') db db' \<and> set users' \<subseteq> us_id ` set (db_users db)"
proof -
  consider (save) "save_group gid db c (length users) = Inr (g, db')" "users' = users"
    | (delete) "delete_group now db c = Inr db'" "users' = users"
    | (grant) b where "grant_group b db c = Inr db'" "users' = [gc_user c]"
    using ch unfolding change_sources_def
    by (simp only: split: if_splits) (auto elim!: bind_res_InrE split: prod.splits simp del: list.inject char.inject)
  then show ?thesis
  proof cases
    case save
    note o = save_group_only [OF save(1) wf]
    have "snd ` set (db_group_grants db) \<subseteq> gr_id ` set (db_groups db)" using wf by (simp add: grants_wf_def sources_ok_def)
    then have "(u, g) \<notin> set (db_group_grants db)" if "g \<notin> gr_id ` set (db_groups db)" for u
      using that pair_images(1) [of u g "set (db_group_grants db)"] by auto
    then have "{u. (u, g) \<in> set (db_group_grants db)} \<subseteq> set users" using all o by auto
    then show ?thesis using group_only_sources o save(2) stored(1) by blast
  next
    case delete
    then have "db' = q_ArchivePathGroup now db (gc_group c)" by (auto simp: delete_group_def bind_res_Inr_iff split: if_splits)
    then show ?thesis using group_only_sources [OF ArchivePathGroup_only [OF wf] all] delete(2) stored(1) by simp
  next
    case grant
    have "gc_user c \<noteq> []" using grant(1) by (auto simp: grant_group_def split: if_splits)
    then show ?thesis using grant_user_only [OF grant(1) wf] stored(2) grant(2) by simp
  qed
qed

lemma ChangePathGroup_inv:
  assumes inv: "grants_inv db"
  shows "grants_inv (snd (ChangePathGroup tok now fr gid event db c0 preview))"
proof -
  have wf: "grants_wf db" and sync: "in_sync db" using inv by (simp_all add: grants_inv_def)
  have "grants_inv db'" if r: "change_group_tx tok now fr gid event db c0 preview = Inr (imp, db')" for imp db'
  proof -
    obtain c users where cu: "affected_users db c0 = Inr (c, users)"
      using r by (auto simp: change_group_tx_def Let_def bind_res_Inr_iff split: if_splits)
    obtain g users' db1 before x db2 i where
      ch: "change_sources now gid db c users = Inr ((g, users'), db1)"
      and ru: "reconcile_users now fr before db1 [] (sort users') = Inr (x, db2)"
      and rec: "record_change now event preview c i db2 = Inr (imp, db')"
      using r unfolding change_group_tx_def cu Let_def bind_res.simps prod.case
      by (auto elim!: bind_res_InrE split: if_splits prod.splits)
    note u = affected_users_ok [OF cu wf]
    then have o: "only_sources (set users') db db1" "set users' \<subseteq> us_id ` set (db_users db)"
      using change_sources_only [OF ch wf] by auto
    have "grants_inv db2"
    proof (rule reconcile_users_effect [OF ru only_sources_wf [OF o(1)]])
      show "set (sort users') \<subseteq> us_id ` set (db_users db1)" using o by (simp add: only_sources_def)
      show "active_paths db1 v = desired_paths db1 v" if "v \<notin> set (sort users')" for v
        using that o(1) sync active_cong [of db1 db v] by (simp add: only_sources_def in_sync_def)
    qed
    moreover have "db' = db2 \<or> (\<exists>row. q_RecordPathGroupChange db2 row = Some db')"
      using rec by (auto simp: record_change_def bind_res_Inr_iff split: if_splits)
    moreover have "grants_inv db'" if "q_RecordPathGroupChange db2 row = Some db'" "grants_inv db2" for row
    proof -
      have e: "db' = db2\<lparr>db_group_changes := db_group_changes db2 @ [row]\<rparr>"
        using that(1) by (auto simp: q_RecordPathGroupChange_def split: if_splits)
      have "path_inv db'" using that(2) unfolding e grants_inv_def grants_wf_def by (auto intro: path_inv_frame [of db2])
      moreover have "desired_paths db' v = desired_paths db2 v" for v by (rule desired_eqI) (simp_all add: e)
      ultimately show ?thesis using that(2) active_cong [of db' db2]
        by (simp add: grants_inv_def grants_wf_def sources_ok_def in_sync_def e)
    qed
    ultimately show ?thesis by blast
  qed
  then have "grants_inv (snd (atomically db (change_group_tx tok now fr gid event db c0 preview)))"
    by (rule atomically_keeps [where P = grants_inv, OF inv])
  then show ?thesis using inv
    by (cases "atomically db (change_group_tx tok now fr gid event db c0 preview)") (simp add: ChangePathGroup_def)
qed

end
