(* ===== verification/Grant_Runs.thy ===== *)
theory Grant_Runs
  imports Grant_Properties
begin

text \<open>
  Runs of the store of paths, grants and groups: what endpoint and path writes, deletions and direct
  publication do to the grants, the step relation, and the invariant of all runs. The last section
  shows what the deletion of a proxy or a node leaves behind.
\<close>

section \<open>Writes to endpoints and paths\<close>

text \<open>\<open>path_frame db db'\<close>: no path is lost, and the accesses and their sources are as before.\<close>

definition path_frame :: "'a group_db_scheme \<Rightarrow> 'a group_db_scheme \<Rightarrow> bool" where
  "path_frame db db' \<longleftrightarrow>
     pt_id ` set (db_paths db) \<subseteq> pt_id ` set (db_paths db') \<and> db_accesses db' = db_accesses db \<and> db_users db' = db_users db
     \<and> db_direct_grants db' = db_direct_grants db \<and> db_group_members db' = db_group_members db
     \<and> db_groups db' = db_groups db \<and> db_group_grants db' = db_group_grants db"

lemma path_frame_refl [simp]: "path_frame db db"
  by (simp add: path_frame_def)

lemma path_frame_trans: "path_frame db db1 \<Longrightarrow> path_frame db1 db2 \<Longrightarrow> path_frame db db2"
  unfolding path_frame_def by (elim conjE, intro conjI) (rule order_trans, simp_all)

lemma path_frame_bind_st:
  assumes "path_frame db (snd r)" and "\<And>x s. r = (Inr x, s) \<Longrightarrow> path_frame s (snd (f x s))"
  shows "path_frame db (snd (bind_st r f))"
  using assms by (cases "(r, f)" rule: bind_st.cases) (auto intro: path_frame_trans)

lemma path_frame_inv:
  assumes "grants_inv db" and "path_frame db db'" and "path_inv db'"
  shows "grants_inv db'"
proof -
  have f: "db_accesses db' = db_accesses db" "db_users db' = db_users db" "db_direct_grants db' = db_direct_grants db"
    "db_group_members db' = db_group_members db" "db_groups db' = db_groups db" "db_group_grants db' = db_group_grants db"
    and p: "pt_id ` set (db_paths db) \<subseteq> pt_id ` set (db_paths db')"
    using assms(2) by (simp_all add: path_frame_def)
  have "desired_paths db' v = desired_paths db v" for v using f by (intro desired_cong) simp_all
  moreover have "active_paths db' v = active_paths db v" for v by (rule active_cong) (rule f(1))
  ultimately show ?thesis using assms(1,3) f
    by (simp add: grants_inv_def grants_wf_def in_sync_def sources_ok_def order_trans [OF _ p])
qed

lemma endpoint_frame [simp]: "path_frame db (db\<lparr>db_endpoints := es\<rparr>)" "path_frame db (db\<lparr>db_creds := cs\<rparr>)"
  by (simp_all add: path_frame_def)

lemma EnsureEndpoint_frame: "path_frame db (snd (EnsureEndpoint now fresh db pid hid))"
  by (auto simp: EnsureEndpoint_def q_CreateEndpoint_def split: sum.split option.split)

lemma SetEndpointEnabled_frame: "path_frame db (snd (SetEndpointEnabled db i b))"
  by (simp add: SetEndpointEnabled_def q_SetEndpointEnabled_def Let_def)

lemma DeleteEndpoint_frame: "path_frame db (snd (DeleteEndpoint db i))"
  by (auto simp: DeleteEndpoint_def q_DeleteEndpoint_def split: option.split)

lemma store_path_frame: "path_frame db (snd (store_path now db p))"
  by (auto simp: store_path_def q_CreatePath_def path_frame_def split: option.split)

lemma CreatePath_frame: "path_frame db (snd (CreatePath now fresh db prm))"
  by (auto simp: CreatePath_def store_path_frame split: sum.split)

lemma UpdatePath_frame: "path_frame db (snd (UpdatePath now db prm))"
proof -
  have q: "path_frame db db'" if "q_UpdatePath now db p = Some (db', n)" for p db' n
  proof -
    have db': "db' = db\<lparr>db_paths := upd (\<lambda>r. pt_id r = pt_id p) (\<lambda>_. p\<lparr>pt_updated_at := sql_now now\<rparr>) (db_paths db)\<rparr>"
      using that by (auto simp: q_UpdatePath_def Let_def split: if_splits)
    have "pt_id ` set (db_paths db') = pt_id ` set (db_paths db)"
      unfolding db' by (simp add: image_key_upd)
    then show ?thesis by (simp add: path_frame_def db')
  qed
  show ?thesis unfolding UpdatePath_def
    by (auto simp: bind_res_Inr_iff q split: sum.split if_splits)
qed

lemma setPathEnabledUnchecked_frame: "path_frame db (snd (setPathEnabledUnchecked now db i b))"
  by (simp add: setPathEnabledUnchecked_def q_SetPathEnabled_def Let_def path_frame_def image_key_upd)

lemma disable_managed_frame: "path_frame db (snd (disable_managed now db ps))"
  by (induction ps arbitrary: db) (simp_all add: path_frame_bind_st setPathEnabledUnchecked_frame)

lemma disable_unselected_frame: "path_frame db (snd (disable_unselected now selected db es))"
  by (induction es arbitrary: db) (simp_all add: path_frame_bind_st disable_managed_frame)

lemma direct_path_frame: "path_frame db (snd (direct_path now fresh x db index h e))"
  by (auto simp: direct_path_def Let_def CreatePath_frame UpdatePath_frame split: option.split)

lemma ensure_direct_frame: "path_frame db (snd (ensure_direct now fe fp x db index hs))"
  by (induction hs arbitrary: db index) (simp_all add: path_frame_bind_st EnsureEndpoint_frame direct_path_frame)

lemma EnsureDirectPathsForProxy_frame: "path_frame db (snd (EnsureDirectPathsForProxy now fe fp db pid))"
  by (simp add: EnsureDirectPathsForProxy_def path_frame_bind_st disable_unselected_frame ensure_direct_frame split: option.split)

lemma SetProxyDirectPublication_frame: "path_frame db (snd (SetProxyDirectPublication now fe fp db pid b))"
proof -
  have p: "path_frame db (q_SetProxyDirectPublication db (trim_space pid) c)" for c
    by (simp add: q_SetProxyDirectPublication_def path_frame_def)
  show ?thesis
    by (auto simp: SetProxyDirectPublication_def Let_def split: option.split
        intro: path_frame_trans [OF p disable_managed_frame] path_frame_trans [OF p EnsureDirectPathsForProxy_frame])
qed

section \<open>Deletions\<close>

text \<open>A path goes with its accesses and its sources.\<close>

definition path_gone :: "string \<Rightarrow> 'a group_db_scheme \<Rightarrow> 'a group_db_scheme \<Rightarrow> bool" where
  "path_gone i db db' \<longleftrightarrow>
     (\<forall>v. active_paths db' v = active_paths db v - {i}) \<and> (\<forall>v. desired_paths db' v = desired_paths db v - {i})"

lemma path_gone_sync: "in_sync db \<Longrightarrow> path_gone i db db' \<Longrightarrow> in_sync db'"
  by (simp add: in_sync_def path_gone_def)

lemma delete_path_gone:
  assumes "q_DeletePath db i = Some (db', n)"
  shows "path_gone i db db'"
proof -
  have db': "db' = db\<lparr>db_paths := filter (\<lambda>p. pt_id p \<noteq> i) (db_paths db), db_accesses := filter (\<lambda>a. ac_path a \<noteq> i) (db_accesses db),
      db_group_members := filter (\<lambda>m. snd m \<noteq> i) (db_group_members db), db_direct_grants := filter (\<lambda>g. fst (snd g) \<noteq> i) (db_direct_grants db)\<rparr>"
    using assms by (auto simp: q_DeletePath_def split: if_splits)
  show ?thesis by (auto simp: path_gone_def set_eq_iff active_iff desired_iff db')
qed

lemma delete_path_sources:
  assumes "q_DeletePath db i = Some (db', n)" and "sources_ok db"
  shows "sources_ok db'"
proof -
  have db': "db' = db\<lparr>db_paths := filter (\<lambda>p. pt_id p \<noteq> i) (db_paths db), db_accesses := filter (\<lambda>a. ac_path a \<noteq> i) (db_accesses db),
      db_group_members := filter (\<lambda>m. snd m \<noteq> i) (db_group_members db), db_direct_grants := filter (\<lambda>g. fst (snd g) \<noteq> i) (db_direct_grants db)\<rparr>"
    using assms(1) by (auto simp: q_DeletePath_def split: if_splits)
  have kept: "pt_id ` set (filter (\<lambda>p. pt_id p \<noteq> i) ps) = pt_id ` set ps - {i}" for ps :: "path_row list" by auto
  show ?thesis using assms(2) by (simp add: sources_ok_def db' kept del: set_filter) (auto simp: image_subset_iff)
qed

lemma disable_for_users_creds: "disable_for_users db us = Inr db' \<Longrightarrow> \<exists>c. db' = db\<lparr>db_creds := c\<rparr>"
proof (induction us arbitrary: db)
  case Nil
  then show ?case using creds_id [of db] by simp
next
  case (Cons u us)
  then obtain db1 where "disableUnusedProxyCredentialsTx db u = Inr db1" "disable_for_users db1 us = Inr db'"
    by (auto simp: bind_res_Inr_iff)
  then show ?case using disable_unused_creds [of db u db1] Cons.IH [of db1] by auto
qed

lemma DeletePath_grants:
  assumes inv: "grants_inv db"
  shows "grants_inv (snd (DeletePath db i))"
proof (cases "delete_path_tx db i")
  case (Inr db')
  then obtain us db1 n db2 where d: "q_DeletePath db (trim_space i) = Some (db1, n)"
    "db2 = db1 \<or> (\<exists>e m. q_DeleteEndpoint db1 e = Some (db2, m))" "disable_for_users db2 us = Inr db'"
    by (auto simp: delete_path_tx_def bind_res_Inr_iff split: if_splits) blast
  obtain cs es where db': "db' = db1\<lparr>db_endpoints := es, db_creds := cs\<rparr>"
  proof -
    have "\<exists>es. db2 = db1\<lparr>db_endpoints := es\<rparr>"
      using d(2) by (elim disjE exE) (rule exI [of _ "db_endpoints db1"], auto simp: q_DeleteEndpoint_def split: if_splits)
    then show ?thesis using disable_for_users_creds [OF d(3)] that by auto
  qed
  have "path_inv db'" using DeletePath_inv [of db i] inv Inr by (simp add: DeletePath_def grants_inv_def grants_wf_def)
  moreover have "sources_ok db'"
    using delete_path_sources [OF d(1)] inv by (simp add: grants_inv_def grants_wf_def sources_ok_def db')
  moreover have "in_sync db1" using path_gone_sync [OF _ delete_path_gone [OF d(1)]] inv by (simp add: grants_inv_def)
  then have "in_sync db'"
    by (simp add: in_sync_def db' active_paths_def desired_paths_def q_ListUserDesiredPathIDs_def)
  ultimately show ?thesis using Inr by (simp add: DeletePath_def grants_inv_def grants_wf_def)
qed (use inv in \<open>simp add: DeletePath_def\<close>)

text \<open>A deleted user has nothing and is to have nothing.\<close>

lemma active_archive_user:
  "active_paths (q_ArchiveUserPathAccesses now db u) v = (if v = u then {} else active_paths db v)"
  by (simp add: set_eq_iff active_update q_ArchiveUserPathAccesses_def) (auto simp: active_iff)

lemma users_wf:
  assumes "grants_wf db" and "us_id ` set us = us_id ` set (db_users db)" and "\<forall>u \<in> set us. normalizeName (us_id u) = us_id u"
  shows "grants_wf (db\<lparr>db_users := us\<rparr>)"
  using assms path_inv_frame [of db "db\<lparr>db_users := us\<rparr>"] by (simp add: grants_wf_def sources_ok_def)

lemma update_users_wf:
  assumes "grants_wf db" and "\<And>u. us_id (f u) = us_id u"
  shows "grants_wf (db\<lparr>db_users := upd m f (db_users db)\<rparr>)"
proof (rule users_wf [OF assms(1)])
  show "us_id ` set (upd m f (db_users db)) = us_id ` set (db_users db)" by (rule image_key_upd) (rule assms(2))
  show "\<forall>u \<in> set (upd m f (db_users db)). normalizeName (us_id u) = us_id u"
    using assms by (auto simp: grants_wf_def sources_ok_def set_upd)
qed

lemma users_sync: "in_sync db \<Longrightarrow> in_sync (db\<lparr>db_users := us\<rparr>)"
  by (simp add: in_sync_def active_paths_def desired_paths_def q_ListUserDesiredPathIDs_def)

lemma creds_inv: "grants_inv db \<Longrightarrow> grants_inv (db\<lparr>db_creds := cs\<rparr>)"
  by (rule path_frame_inv [of db]) (auto simp: grants_inv_def grants_wf_def intro: path_inv_frame)

lemma delete_user_inv:
  assumes inv: "grants_inv db" and r: "delete_user_tx now db nm = Inr (w, db')"
  shows "grants_inv db'"
proof -
  obtain u where u: "GetProxyUser db nm = Some u" using r by (auto simp: delete_user_tx_def bind_res_Inr_iff)
  obtain db1 n where q: "q_SoftDeleteProxyUser now db (us_id u) = (db1, n)" by fastforce
  then have 1: "db1 = fst (q_SoftDeleteProxyUser now db (us_id u))" by simp
  have db': "db' = q_ArchiveGroupUserCredentials now (q_ArchiveUserPathAccesses now
        (q_DeleteUserDirectPathGrants (q_DeleteUserPathGroupGrants db1 (us_id u)) (us_id u)) (us_id u)) (us_id u)"
    using r unfolding delete_user_tx_def u by (auto simp: q Let_def bind_res_Inr_iff split: if_splits)
  have wf1: "grants_wf db1" and sync1: "in_sync db1"
    using inv by (auto simp: grants_inv_def 1 q_SoftDeleteProxyUser_def q_update_user_def intro: update_users_wf users_sync)
  let ?db2 = "q_DeleteUserPathGroupGrants db1 (us_id u)"
  let ?db3 = "q_DeleteUserDirectPathGrants ?db2 (us_id u)"
  let ?db4 = "q_ArchiveUserPathAccesses now ?db3 (us_id u)"
  have wf3: "grants_wf ?db3"
    by (rule fewer_sources_wf [OF wf1]) (auto simp: q_DeleteUserPathGroupGrants_def q_DeleteUserDirectPathGrants_def)
  have "path_inv ?db4"
    by (rule path_inv_accesses [of ?db3])
       (use wf3 in \<open>auto simp: grants_wf_def path_inv_def q_ArchiveUserPathAccesses_def set_upd\<close>)
  then have wf4: "grants_wf ?db4" using wf3 by (simp add: grants_wf_def sources_ok_def q_ArchiveUserPathAccesses_def)
  have "desired_paths ?db4 v = (if v = us_id u then {} else desired_paths db1 v)" for v
    by (auto simp: set_eq_iff desired_iff q_ArchiveUserPathAccesses_def q_DeleteUserPathGroupGrants_def q_DeleteUserDirectPathGrants_def)
  moreover have "active_paths ?db4 v = (if v = us_id u then {} else active_paths db1 v)" for v
  proof -
    have "active_paths ?db3 v = active_paths db1 v"
      by (rule active_cong) (simp add: q_DeleteUserPathGroupGrants_def q_DeleteUserDirectPathGrants_def)
    then show ?thesis by (simp only: active_archive_user)
  qed
  ultimately have "in_sync ?db4" using sync1 by (simp add: in_sync_def)
  then have "grants_inv ?db4" using wf4 by (simp add: grants_inv_def)
  then show ?thesis unfolding db' by (subst q_ArchiveGroupUserCredentials_def) (rule creds_inv)
qed

lemma SoftDeleteProxyUser_inv: "grants_inv db \<Longrightarrow> grants_inv (snd (SoftDeleteProxyUser now db nm))"
  unfolding SoftDeleteProxyUser_def by (rule atomically_keeps [where P = grants_inv]) (auto intro: delete_user_inv)

lemma RestoreProxyUser_inv: "grants_inv db \<Longrightarrow> grants_inv (snd (RestoreProxyUser db nm))"
  by (auto simp: RestoreProxyUser_def q_RestoreProxyUser_def q_update_user_def Let_def grants_inv_def update_users_wf users_sync
      split: option.split)

lemma SetProxyUserStatus_inv: "grants_inv db \<Longrightarrow> grants_inv (snd (SetProxyUserStatus db nm status))"
  by (auto simp: SetProxyUserStatus_def q_SetProxyUserStatus_def q_update_user_def Let_def grants_inv_def update_users_wf users_sync
      split: option.split)

text \<open>Retiring a path takes its accesses and its sources, and disables it.\<close>

lemma active_archive_path: "active_paths (q_ArchivePathAccesses now db i) v = active_paths db v - {i}"
  by (simp add: set_eq_iff active_update q_ArchivePathAccesses_def) (auto simp: active_iff)

lemma retire_path_desired: "desired_paths (retire_path now db i) v = desired_paths db v - {i}"
  by (auto simp: set_eq_iff desired_iff retire_path_def Let_def q_RemoveRetiredPathGroupSources_def
      q_RemoveRetiredPathDirectSources_def q_ArchivePathAccesses_def q_SetPathEnabled_def)

lemma retire_path_active: "active_paths (retire_path now db i) v = active_paths db v - {i}"
proof -
  let ?db1 = "fst (q_SetPathEnabled now db i False)"
  have "active_paths (retire_path now db i) v = active_paths (q_ArchivePathAccesses now ?db1 i) v"
    by (rule active_cong) (simp add: retire_path_def Let_def q_RemoveRetiredPathGroupSources_def q_RemoveRetiredPathDirectSources_def)
  moreover have "active_paths ?db1 v = active_paths db v" by (rule active_cong) (simp add: q_SetPathEnabled_def)
  ultimately show ?thesis by (simp only: active_archive_path)
qed

lemma retire_path_inv:
  assumes inv: "grants_inv db"
  shows "grants_inv (retire_path now db i)"
proof -
  let ?db1 = "fst (q_SetPathEnabled now db i False)"
  let ?db2 = "q_ArchivePathAccesses now ?db1 i"
  have 1: "grants_inv ?db1"
  proof (rule path_frame_inv [OF inv])
    show "path_frame db ?db1" by (simp add: q_SetPathEnabled_def path_frame_def image_key_upd)
    show "path_inv ?db1" using inv by (simp add: grants_inv_def grants_wf_def set_path_inv)
  qed
  have "path_inv ?db2"
    by (rule path_inv_accesses [of ?db1])
       (use 1 in \<open>auto simp: grants_inv_def grants_wf_def path_inv_def q_ArchivePathAccesses_def set_upd\<close>)
  then have wf2: "grants_wf ?db2" using 1 by (simp add: grants_inv_def grants_wf_def sources_ok_def q_ArchivePathAccesses_def)
  have wf: "grants_wf (retire_path now db i)"
    by (rule fewer_sources_wf [OF wf2])
       (auto simp: retire_path_def Let_def q_RemoveRetiredPathGroupSources_def q_RemoveRetiredPathDirectSources_def)
  show ?thesis using inv wf by (simp add: grants_inv_def in_sync_def retire_path_desired retire_path_active)
qed

lemma retire_paths_inv: "grants_inv db \<Longrightarrow> grants_inv (snd (retire_paths now db users is))"
  by (induction "is" arbitrary: db users) (simp_all add: retire_path_inv)

lemma disable_unused_of_creds: "disable_unused_of db is = Inr db' \<Longrightarrow> \<exists>c. db' = db\<lparr>db_creds := c\<rparr>"
proof (induction "is" arbitrary: db)
  case Nil
  then show ?case using creds_id [of db] by simp
next
  case (Cons i "is")
  then consider "disable_unused_of db is = Inr db'"
    | u db1 where "disableUnusedProxyCredentialsTx db u = Inr db1" "disable_unused_of db1 is = Inr db'"
    by (auto simp: bind_res_Inr_iff split: if_splits)
  then show ?case
  proof cases
    case 2
    then show ?thesis using disable_unused_creds [OF 2(1)] Cons.IH [of db1] by auto
  qed (use Cons.IH in blast)
qed

lemma technical_inv:
  assumes "grants_inv db" and "path_frame db db'" and "db_paths db' = db_paths db" and "db_endpoints db' = db_endpoints db"
  shows "grants_inv db'"
proof (rule path_frame_inv [OF assms(1,2)])
  have "db_accesses db' = db_accesses db" using assms(2) by (simp add: path_frame_def)
  then show "path_inv db'" using assms(1,3,4) path_inv_frame [of db db'] by (simp add: grants_inv_def grants_wf_def)
qed

lemma bindings_inv: "grants_inv db \<Longrightarrow> grants_inv (db\<lparr>db_bindings := bs\<rparr>)"
  by (erule technical_inv) (simp_all add: path_frame_def)

lemma disable_endpoints_inv:
  assumes "grants_inv db"
  shows "grants_inv (db\<lparr>db_endpoints := upd m (\<lambda>e. e\<lparr>ep_enabled := False\<rparr>) (db_endpoints db)\<rparr>)"
proof (rule path_frame_inv [OF assms endpoint_frame(1)], rule path_inv_endpoints)
  show "path_inv db" using assms by (simp add: grants_inv_def grants_wf_def)
  then show "distinct (map ep_id (db_endpoints (db\<lparr>db_endpoints := upd m (\<lambda>e. e\<lparr>ep_enabled := False\<rparr>) (db_endpoints db)\<rparr>)))"
    by (simp add: path_inv_def map_key_upd)
  show "pt_endpoint p \<in> ep_id ` set (db_endpoints (db\<lparr>db_endpoints := upd m (\<lambda>e. e\<lparr>ep_enabled := False\<rparr>) (db_endpoints db)\<rparr>))"
    if "p \<in> set (db_paths db)" for p
    using that \<open>path_inv db\<close> by (simp add: path_inv_def image_key_upd)
qed simp_all

lemma retire_resources_inv:
  assumes inv: "grants_inv db" and r: "retireResourceDependenciesTx now db = Inr db'"
  shows "grants_inv db'"
proof -
  obtain users db1 where p: "retire_paths now db [] (q_ListRetiredResourcePaths db) = (users, db1)"
    by (cases "retire_paths now db [] (q_ListRetiredResourcePaths db)") blast
  have "grants_inv db1" using retire_paths_inv [OF inv, of now "[]" "q_ListRetiredResourcePaths db"] p by simp
  then have "grants_inv (q_ArchiveRetiredProxyCredentials now (q_DisableRetiredEndpoints (q_DisableRetiredNodeBindings db1)))"
    unfolding q_ArchiveRetiredProxyCredentials_def q_DisableRetiredEndpoints_def q_DisableRetiredNodeBindings_def
    by (intro creds_inv disable_endpoints_inv bindings_inv)
  moreover obtain cs where "db' = (q_ArchiveRetiredProxyCredentials now (q_DisableRetiredEndpoints (q_DisableRetiredNodeBindings db1)))\<lparr>db_creds := cs\<rparr>"
    using r disable_unused_of_creds by (auto simp: retireResourceDependenciesTx_def p Let_def) blast
  ultimately show ?thesis by (simp add: creds_inv)
qed

lemma proxy_rows_inv:
  "grants_inv db \<Longrightarrow> grants_inv (db\<lparr>db_proxies := xs\<rparr>)" "grants_inv db \<Longrightarrow> grants_inv (db\<lparr>db_nodes := ns\<rparr>)"
  "grants_inv db \<Longrightarrow> grants_inv (db\<lparr>db_aliases := as\<rparr>)" "grants_inv db \<Longrightarrow> grants_inv (db\<lparr>db_proxy_aliases := pas\<rparr>)"
  by (erule technical_inv; simp add: path_frame_def)+

lemma deleted_proxy_rows_inv: "grants_inv db \<Longrightarrow> grants_inv (db\<lparr>db_proxies := xs, db_proxy_aliases := pas\<rparr>)"
  using proxy_rows_inv(4) [OF proxy_rows_inv(1)] by blast

lemma deleted_node_rows_inv:
  "grants_inv db \<Longrightarrow> grants_inv (db\<lparr>db_nodes := ns, db_aliases := as, db_proxies := xs, db_proxy_aliases := pas\<rparr>)"
  by (erule technical_inv; simp add: path_frame_def)

lemma SoftDeleteProxy_inv: "grants_inv db \<Longrightarrow> grants_inv (snd (SoftDeleteProxy now db nm px))"
  by (auto simp: SoftDeleteProxy_def delete_proxy_tx_def q_SoftDeleteProxy_def q_DeleteProxyAliases_def Let_def
      split: option.split sum.split if_splits dest: retire_resources_inv [OF deleted_proxy_rows_inv])

lemma SoftDeleteNode_inv: "grants_inv db \<Longrightarrow> grants_inv (fst (snd (SoftDeleteNode now (db, toks) nm)))"
  by (auto simp: SoftDeleteNode_def delete_node_tx_def q_SoftDeleteNode_def q_DeleteNodeAliases_def q_ArchiveNodeProxies_def
      q_DeleteArchivedProxyAliases_def Let_def bind_res_Inr_iff split: option.split sum.split if_splits
      dest: retire_resources_inv [OF deleted_node_rows_inv])

section \<open>Runs\<close>

lemma grant_paths_inv: "grants_inv db \<Longrightarrow> grants_inv (snd (grant_paths now fr nm db ps))"
proof (induction ps arbitrary: db)
  case (Cons p ps)
  have "grants_inv (snd (GrantPathAccess now fr db nm (pt_id p)))"
    using Cons.prems by (simp add: GrantPathAccess_def grantDirectPath_inv)
  then show ?case using Cons.IH by (auto intro: bind_st_keeps [where P = grants_inv])
qed simp

lemma GrantDirectPathsForCredential_inv:
  assumes inv: "grants_inv db" and "\<And>h. trim_space (fp h) = fp h"
  shows "grants_inv (snd (GrantDirectPathsForCredential now fr fe fp db c))"
proof -
  have "grants_inv (snd (EnsureDirectPathsForProxy now fe fp db (cr_proxy c)))"
    using path_frame_inv [OF inv EnsureDirectPathsForProxy_frame] EnsureDirectPathsForProxy_inv [of db fp] assms
    by (simp add: grants_inv_def grants_wf_def)
  then show ?thesis using inv
    by (auto simp: GrantDirectPathsForCredential_def intro!: bind_st_keeps [where P = grants_inv] intro: grant_paths_inv)
qed

lemma issue_access_inv:
  assumes inv: "grants_inv db" and "\<And>h. trim_space (fp h) = fp h"
  shows "grants_inv (snd (issue_access protocol now fr fe fp db un nm px))"
  unfolding issue_access_def
proof (rule atomically_keeps [where P = grants_inv, OF inv])
  fix c db'
  assume "bind_res (issueProxyCredential fr db un nm px protocol) (\<lambda>(c, db1).
      bind_res (in_tx (GrantDirectPathsForCredential now fr fe fp db1 c)) (\<lambda>(_, db2). Inr (c, db2))) = Inr (c, db')"
  then obtain db1 where 1: "issueProxyCredential fr db un nm px protocol = Inr (c, db1)"
    and 2: "snd (GrantDirectPathsForCredential now fr fe fp db1 c) = db'"
    by (auto simp: bind_res_Inr_iff)
  obtain cs where "db1 = db\<lparr>db_creds := cs\<rparr>" using issueProxyCredential_frame [OF 1] by blast
  then have "grants_inv db1" using creds_inv [OF inv] by simp
  then have "grants_inv (snd (GrantDirectPathsForCredential now fr fe fp db1 c))"
    by (rule GrantDirectPathsForCredential_inv) (rule assms(2))
  then show "grants_inv db'" using 2 by simp
qed

text \<open>
  A step is one call of any operation on endpoints, paths, grants, selections, groups or users, a
  deletion, or the insert of a \<open>CreatePath\<close> whose checks ran in an earlier state. \<open>gs_other\<close> is any
  other write: it keeps the tables that the invariant is about, and users stay, under ids
  without surrounding spaces.
\<close>

inductive grant_step :: "audit_db \<Rightarrow> audit_db \<Rightarrow> bool" where
  gs_ensure_endpoint: "grant_step db (snd (EnsureEndpoint now fresh db pid hid))"
| gs_set_endpoint: "grant_step db (snd (SetEndpointEnabled db i b))"
| gs_delete_endpoint: "grant_step db (snd (DeleteEndpoint db i))"
| gs_create: "trim_space fresh = fresh \<Longrightarrow> grant_step db (snd (CreatePath now fresh db prm))"
| gs_create_late: "checked_path now fresh (db0 :: audit_db) prm = Inr p \<Longrightarrow> trim_space fresh = fresh \<Longrightarrow>
    grant_step db (snd (store_path now' db p))"
| gs_update: "grant_step db (snd (UpdatePath now db uprm))"
| gs_delete: "grant_step db (snd (DeletePath db i))"
| gs_ensure_direct: "(\<forall>h. trim_space (fp h) = fp h) \<Longrightarrow> grant_step db (snd (EnsureDirectPathsForProxy now fe fp db pid))"
| gs_publication: "(\<forall>h. trim_space (fp h) = fp h) \<Longrightarrow> grant_step db (snd (SetProxyDirectPublication now fe fp db pid b))"
| gs_grant: "grant_step db (snd (GrantPathAccess now fr db nm i))"
| gs_grant_to_user: "grant_step db (snd (GrantPathToUser now fr db nm i))"
| gs_revoke: "grant_step db (snd (RevokePathAccess now fr db nm i))"
| gs_select: "grant_step db (snd (ChangeUserPathSelection now fr db nm changes))"
| gs_change_group: "grant_step db (snd (ChangePathGroup tok now frs gid event db c preview))"
| gs_issue_vless: "(\<forall>h. trim_space (fp h) = fp h) \<Longrightarrow> grant_step db (snd (IssueVLESSRealityAccess now fr fe fp db nm n px))"
| gs_issue_shadowsocks: "(\<forall>h. trim_space (fp h) = fp h) \<Longrightarrow> grant_step db (snd (IssueShadowsocks2022Access now fr fe fp db nm n px))"
| gs_delete_user: "grant_step db (snd (SoftDeleteProxyUser now db nm))"
| gs_restore_user: "grant_step db (snd (RestoreProxyUser db nm))"
| gs_user_status: "grant_step db (snd (SetProxyUserStatus db nm status))"
| gs_delete_proxy: "grant_step db (snd (SoftDeleteProxy now db n px))"
| gs_delete_node: "grant_step db (fst (snd (SoftDeleteNode now (db, toks) n)))"
| gs_other: "db_paths db' = db_paths db \<Longrightarrow> db_endpoints db' = db_endpoints db \<Longrightarrow> db_accesses db' = db_accesses db \<Longrightarrow>
    db_direct_grants db' = db_direct_grants db \<Longrightarrow> db_group_members db' = db_group_members db \<Longrightarrow>
    db_groups db' = db_groups db \<Longrightarrow> db_group_grants db' = db_group_grants db \<Longrightarrow>
    us_id ` set (db_users db) \<subseteq> us_id ` set (db_users db') \<Longrightarrow> (\<forall>u \<in> set (db_users db'). normalizeName (us_id u) = us_id u) \<Longrightarrow>
    grant_step db db'"

lemma other_inv:
  assumes "grants_inv db" and "db_paths db' = db_paths db" "db_endpoints db' = db_endpoints db" "db_accesses db' = db_accesses db"
    "db_direct_grants db' = db_direct_grants db" "db_group_members db' = db_group_members db"
    "db_groups db' = db_groups db" "db_group_grants db' = db_group_grants db"
    and u: "us_id ` set (db_users db) \<subseteq> us_id ` set (db_users db')" "\<forall>u \<in> set (db_users db'). normalizeName (us_id u) = us_id u"
  shows "grants_inv db'"
proof -
  have "path_inv db'" using assms(1-4) path_inv_frame [of db db'] by (simp add: grants_inv_def grants_wf_def)
  moreover have "desired_paths db' v = desired_paths db v" for v using assms by (intro desired_cong) simp_all
  moreover have "active_paths db' v = active_paths db v" for v using assms by (intro active_cong) simp_all
  ultimately show ?thesis using assms
    by (simp add: grants_inv_def grants_wf_def in_sync_def sources_ok_def order_trans [OF _ u(1)])
qed

lemma path_ops_inv:
  assumes "path_frame db (snd r)" and "path_inv db \<Longrightarrow> path_inv (snd r)" and "grants_inv db"
  shows "grants_inv (snd r)"
  using path_frame_inv [OF assms(3,1)] assms(2,3) by (simp add: grants_inv_def grants_wf_def)

lemmas path_op_grants =
  path_ops_inv [OF EnsureEndpoint_frame EnsureEndpoint_inv]
  path_ops_inv [OF SetEndpointEnabled_frame SetEndpointEnabled_inv]
  path_ops_inv [OF DeleteEndpoint_frame DeleteEndpoint_inv]
  path_ops_inv [OF CreatePath_frame CreatePath_inv]
  path_ops_inv [OF store_path_frame store_path_inv]
  path_ops_inv [OF UpdatePath_frame UpdatePath_inv]
  path_ops_inv [OF EnsureDirectPathsForProxy_frame EnsureDirectPathsForProxy_inv]
  path_ops_inv [OF SetProxyDirectPublication_frame SetProxyDirectPublication_inv]

interpretation grant_sys: invariant_system grant_step grants_inv
proof
  fix s t :: audit_db
  assume inv: "grants_inv s" and step: "grant_step s t"
  from step inv show "grants_inv t"
  proof (induction rule: grant_step.induct)
    case gs_other
    then show ?case by - (rule other_inv, assumption+)
  qed (simp_all add: path_op_grants checked_path_id DeletePath_grants GrantPathAccess_def GrantPathToUser_def
      grantDirectPath_inv RevokePathAccess_inv ChangeUserPathSelection_inv ChangePathGroup_inv IssueVLESSRealityAccess_def
      IssueShadowsocks2022Access_def issue_access_inv SoftDeleteProxyUser_inv RestoreProxyUser_inv SetProxyUserStatus_inv
      SoftDeleteProxy_inv SoftDeleteNode_inv)
qed

section \<open>The property\<close>

lemma dom_add_sources: "dom (fold (add_source ref) is out) = dom out \<union> set is"
  by (induction "is" arbitrary: out) (auto simp: add_source_def split: option.splits if_splits)

lemma dom_group_sources:
  "dom (fold (add_group_sources u) gs out) = dom out \<union> (\<Union>g \<in> {g \<in> set gs. pg_enabled g \<and> u \<in> set (pg_users g)}. set (pg_paths g))"
proof (induction gs arbitrary: out)
  case (Cons g gs)
  have "dom (add_group_sources u g out) = dom out \<union> (if pg_enabled g \<and> u \<in> set (pg_users g) then set (pg_paths g) else {})"
    by (auto simp: add_group_sources_def containsID_def list_ex_iff dom_add_sources)
  then show ?case by (auto simp: Cons.IH)
qed simp

lemma dom_direct_sources:
  "dom (fold (\<lambda>d out. if snd (snd d) then out(fst (snd d) \<mapsto> (True, [])) else out) ds out)
     = dom out \<union> (\<lambda>d. fst (snd d)) ` {d \<in> set ds. snd (snd d)}"
  by (induction ds arbitrary: out) auto

lemma user_sources_dom:
  assumes "GetProxyUser db nm = Some u"
  shows "\<exists>out. UserPathSources db nm = Inr out \<and> dom out = desired_paths db (us_id u)"
proof -
  let ?G = "{g \<in> set (ListPathGroups db). pg_enabled g \<and> us_id u \<in> set (pg_users g)}"
  have "(\<Union>g \<in> ?G. set (pg_paths g)) = {i. \<exists>g \<in> set (db_groups db). gr_enabled g \<and> gr_deleted_at g = None
      \<and> (us_id u, gr_id g) \<in> set (db_group_grants db) \<and> (gr_id g, i) \<in> set (db_group_members db)}"
    by (force simp: ListPathGroups_def q_ListPathGroups_def q_ListPathGroupGrants_def q_ListPathGroupMembers_def)
  moreover have "(\<lambda>d. fst (snd d)) ` {d \<in> set (q_ListUserDirectPathGrants db (us_id u)). snd (snd d)}
      = {i. (us_id u, i, True) \<in> set (db_direct_grants db)}"
    by (force simp: q_ListUserDirectPathGrants_def)
  ultimately show ?thesis
    unfolding UserPathSources_def assms
    by (simp add: Let_def dom_group_sources dom_direct_sources) (simp add: set_eq_iff desired_iff)
qed

text \<open>
  C39: In every reachable state a user has an active access to exactly the paths that the enabled direct
  grants and the live enabled groups of this user give, and these are exactly the paths for
  which the server reports a source. This holds after every sequence of grants, revocations,
  selections, group edits and previews, edits and deletions of paths, proxies, nodes and users,
  also where a call fails half way.
\<close>

theorem accesses_follow_sources:
  assumes "run grant_step s t" and "grants_inv s"
  shows "active_paths t v = desired_paths t v
    \<and> (\<forall>nm u. GetProxyUser t nm = Some u \<longrightarrow> (\<exists>out. UserPathSources t nm = Inr out \<and> dom out = active_paths t (us_id u)))"
proof -
  have sync: "active_paths t w = desired_paths t w" for w
    using grant_sys.run_inv [OF assms] by (simp add: grants_inv_def in_sync_def)
  show ?thesis unfolding sync using user_sources_dom [of t] by blast
qed

definition grant_fresh :: fresh where
  "grant_fresh = \<lparr>fr_binding = (\<lambda>i. ''b-'' @ i), fr_credential = (\<lambda>i. ''c-'' @ i), fr_access = (\<lambda>i. ''a-'' @ i),
     fr_uuid = (\<lambda>i. ''uuid-'' @ i), fr_key = (\<lambda>i n. ''key''), fr_method = (\<lambda>_. None)\<rparr>"

definition grant_db :: audit_db where
  "grant_db = \<lparr>db_nodes = db_nodes two_hop_db, db_aliases = [], db_users = [two_hop_user],
     db_proxies = map (\<lambda>x. x\<lparr>px_protocol := ''vless_reality''\<rparr>) (db_proxies two_hop_db), db_bindings = [], db_creds = [],
     db_endpoints = db_endpoints two_hop_db, db_paths = db_paths two_hop_db, db_accesses = [], db_group_members = [],
     db_direct_grants = [], db_publication = [], db_groups = [], db_group_grants = [], db_proxy_aliases = [], db_group_changes = []\<rparr>"

definition grant_change :: "string \<Rightarrow> string \<Rightarrow> string \<Rightarrow> group_change" where
  "grant_change oper g u = \<lparr>gc_operation = oper, gc_group = g, gc_user = u, gc_name = ''staff'', gc_description = [],
     gc_enabled = True, gc_revision = 1, gc_paths = [''p1''], gc_token = ''t''\<rparr>"

definition grant_call :: "instant \<Rightarrow> string \<Rightarrow> audit_db \<Rightarrow> group_change \<Rightarrow> (path_error + group_impact) \<times> audit_db" where
  "grant_call now event db c = ChangePathGroup (\<lambda>_ _. ''t'') now (\<lambda>_. grant_fresh) ''g1'' event db c False"

definition grant_saved :: "instant \<Rightarrow> audit_db" where
  "grant_saved now = snd (grant_call now ''e1'' grant_db (grant_change ''save'' [] []))"

definition grant_given :: "instant \<Rightarrow> audit_db" where
  "grant_given now = snd (grant_call now ''e2'' (grant_saved now) (grant_change ''grant'' ''g1'' ''alice''))"

lemma sql_now_code [code]:
  "sql_now t = (if t = 0 then Stamp 0 ''.000Z''
     else Stamp (t div ns_per_s) (''.'' @ map digit_char (fixed_digits 3 (nat (t mod ns_per_s) div 1000000)) @ ''Z''))"
proof (cases "t = 0")
  case True
  then show ?thesis by (simp add: sql_now_zero)
qed (simp add: sql_now_def)

lemma grant_db_inv: "grants_inv grant_db"
proof -
  have "path_inv grant_db"
    by (rule path_inv_accesses [OF two_hop_inv]) (simp_all add: grant_db_def)
  moreover have "normalizeName ''u1'' = ''u1''" by code_simp
  ultimately have "grants_wf grant_db" by (simp add: grants_wf_def sources_ok_def grant_db_def two_hop_user_def)
  moreover have "in_sync grant_db"
    by (simp add: in_sync_def active_paths_def desired_paths_def q_ListUserDesiredPathIDs_def grant_db_def)
  ultimately show ?thesis by (simp add: grants_inv_def)
qed

theorem accesses_follow_sources_witness:
  "is_ok (fst (grant_call 0 ''e2'' (grant_saved 0) (grant_change ''grant'' ''g1'' ''alice'')))
   \<and> map cr_proxy (db_creds (grant_given 0)) = [''x1'']
   \<and> desired_paths (grant_given 0) ''u1'' = {''p1''} \<and> active_paths (grant_given 0) ''u1'' = {''p1''}"
proof -
  have "grant_step grant_db (grant_saved 0)" "grant_step (grant_saved 0) (grant_given 0)"
    unfolding grant_given_def grant_saved_def grant_call_def by (rule gs_change_group)+
  then have "run grant_step grant_db (grant_given 0)" by (blast intro: run.intros)
  note sync = conjunct1 [OF accesses_follow_sources [OF this grant_db_inv, of "''u1''"]]
  have "q_ListUserDesiredPathIDs (grant_given 0) ''u1'' = [''p1'']" by code_simp
  then have d: "desired_paths (grant_given 0) ''u1'' = {''p1''}" by (simp add: desired_paths_def)
  have ok: "is_ok (fst (grant_call 0 ''e2'' (grant_saved 0) (grant_change ''grant'' ''g1'' ''alice'')))" by code_simp
  have c: "map cr_proxy (db_creds (grant_given 0)) = [''x1'']" by code_simp
  show ?thesis using ok c d sync by (intro conjI) simp_all
qed

end
