(* ===== verification/Deletion_Properties.thy ===== *)
theory Deletion_Properties
  imports Grant_Runs
begin

text \<open>
  The deletion of proxies and nodes: the transactions of \<open>Resource_Deletion\<close> retire every path that leads
  through a deleted resource, with the endpoints, bindings and credentials that served it.
\<close>

section \<open>What a deletion leaves behind\<close>

text \<open>A path leads through a retired proxy when its own proxy is retired or its dialer leads through one.\<close>

inductive through_retired :: "'a proxy_db_scheme \<Rightarrow> string \<Rightarrow> bool" for db where
  retired_here: "p \<in> set (db_paths db) \<Longrightarrow> on_retired_proxy db p \<Longrightarrow> through_retired db (pt_id p)"
| retired_later: "p \<in> set (db_paths db) \<Longrightarrow> pt_dialer p = Some d \<Longrightarrow> through_retired db d \<Longrightarrow> through_retired db (pt_id p)"

lemma dialing_paths_found: "set found \<subseteq> set (dialing_paths db found)"
proof (induction db found rule: dialing_paths.induct)
  case (1 db found)
  then show ?case by (auto simp: dialing_paths.simps [of db found] Let_def)
qed

lemma dialing_paths_closed:
  "p \<in> set (db_paths db) \<Longrightarrow> pt_dialer p = Some d \<Longrightarrow> d \<in> set (dialing_paths db found) \<Longrightarrow> pt_id p \<in> set (dialing_paths db found)"
proof (induction db found rule: dialing_paths.induct)
  case (1 db found)
  let ?new = "map pt_id (filter (\<lambda>p. (case pt_dialer p of None \<Rightarrow> False | Some d \<Rightarrow> d \<in> set found) \<and> pt_id p \<notin> set found) (db_paths db))"
  show ?case
  proof (cases "?new = []")
    case True
    then have eq: "dialing_paths db found = found" by (simp add: dialing_paths.simps [of db found] Let_def)
    have "\<not> ((case pt_dialer p of None \<Rightarrow> False | Some d \<Rightarrow> d \<in> set found) \<and> pt_id p \<notin> set found)"
      using True "1.prems"(1) by (auto simp: filter_empty_conv simp del: not_None_eq)
    then show ?thesis using "1.prems"(2,3) eq by simp
  next
    case False
    then have eq: "dialing_paths db found = dialing_paths db (found @ remdups ?new)"
      by (subst dialing_paths.simps) (simp add: Let_def)
    show ?thesis using "1.IH" [OF refl False "1.prems"(1,2)] "1.prems"(3) unfolding eq .
  qed
qed

lemma retired_paths_complete: "through_retired db i \<Longrightarrow> i \<in> set (q_ListRetiredResourcePaths db)"
proof (induction rule: through_retired.induct)
  case (retired_here p)
  then have "pt_id p \<in> set (remdups (map pt_id (filter (on_retired_proxy db) (db_paths db))))" by simp
  then show ?case unfolding q_ListRetiredResourcePaths_def using dialing_paths_found by blast
next
  case (retired_later p d)
  then show ?case unfolding q_ListRetiredResourcePaths_def by (auto intro: dialing_paths_closed)
qed

lemma through_retired_mono:
  assumes "through_retired db' i" and "db_proxies db' = db_proxies db" and "db_nodes db' = db_nodes db"
    and "\<And>p. p \<in> set (db_paths db') \<Longrightarrow> \<exists>q \<in> set (db_paths db). pt_id q = pt_id p \<and> pt_dialer q = pt_dialer p \<and> pt_endpoint q = pt_endpoint p"
    and "\<And>e. e \<in> set (db_endpoints db') \<Longrightarrow> \<exists>f \<in> set (db_endpoints db). ep_id f = ep_id e \<and> ep_proxy f = ep_proxy e"
  shows "through_retired db i"
  using assms(1)
proof (induction rule: through_retired.induct)
  case (retired_here p)
  obtain q where q: "q \<in> set (db_paths db)" "pt_id q = pt_id p" "pt_endpoint q = pt_endpoint p"
    using assms(4) [OF retired_here(1)] by blast
  have r: "retired_proxy db' x = retired_proxy db x" for x
    by (simp add: retired_proxy_def proxy_details_def assms(2,3))
  obtain e where e: "e \<in> set (db_endpoints db')" "ep_id e = pt_endpoint p" "retired_proxy db (ep_proxy e)"
    using retired_here(2) by (auto simp: on_retired_proxy_def list_ex_iff r)
  obtain f where "f \<in> set (db_endpoints db)" "ep_id f = ep_id e" "ep_proxy f = ep_proxy e" using assms(5) [OF e(1)] by blast
  then have "on_retired_proxy db q" using e q by (auto simp: on_retired_proxy_def list_ex_iff)
  then show ?case using through_retired.retired_here [OF q(1)] q(2) by simp
next
  case (retired_later p d)
  then show ?case using assms(4) [OF retired_later(1)] through_retired.retired_later [of _ db d] by metis
qed

text \<open>
  No user has, or is to have, a path through a retired proxy; retired proxies have no enabled endpoint
  and no credential that is not deleted, and a deleted node has no enabled binding.
\<close>

definition no_live_route :: "'a group_db_scheme \<Rightarrow> bool" where
  "no_live_route db \<longleftrightarrow>
     (\<forall>i u. through_retired db i \<longrightarrow> i \<notin> active_paths db u \<and> i \<notin> desired_paths db u)
     \<and> (\<forall>e \<in> set (db_endpoints db). retired_proxy db (ep_proxy e) \<longrightarrow> \<not> ep_enabled e)
     \<and> (\<forall>c \<in> set (db_creds db). retired_proxy db (cr_proxy c) \<longrightarrow> cr_deleted_at c \<noteq> None)
     \<and> (\<forall>b \<in> set (db_bindings db). (\<exists>n \<in> set (db_nodes db). node_id n = bd_node b \<and> node_deleted_at n \<noteq> None) \<longrightarrow> \<not> bd_enabled b)"

lemma retire_path_frame:
  "db_proxies (retire_path now db i) = db_proxies db \<and> db_nodes (retire_path now db i) = db_nodes db
   \<and> db_endpoints (retire_path now db i) = db_endpoints db \<and> db_creds (retire_path now db i) = db_creds db
   \<and> db_paths (retire_path now db i) = upd (\<lambda>p. pt_id p = i) (\<lambda>p. p\<lparr>pt_enabled := False, pt_updated_at := sql_now now\<rparr>) (db_paths db)"
  by (simp add: retire_path_def Let_def q_RemoveRetiredPathGroupSources_def q_RemoveRetiredPathDirectSources_def
      q_ArchivePathAccesses_def q_SetPathEnabled_def)

lemma retire_paths_effect:
  "retire_paths now db users is = (users', db') \<Longrightarrow>
   db_proxies db' = db_proxies db \<and> db_nodes db' = db_nodes db \<and> db_endpoints db' = db_endpoints db
   \<and> (\<forall>p \<in> set (db_paths db'). \<exists>q \<in> set (db_paths db). pt_id q = pt_id p \<and> pt_dialer q = pt_dialer p \<and> pt_endpoint q = pt_endpoint p)
   \<and> (\<forall>v. active_paths db' v = active_paths db v - set is \<and> desired_paths db' v = desired_paths db v - set is)"
proof (induction "is" arbitrary: db users)
  case (Cons i "is")
  have "\<exists>q \<in> set (db_paths db). pt_id q = pt_id p \<and> pt_dialer q = pt_dialer p \<and> pt_endpoint q = pt_endpoint p"
    if "p \<in> set (db_paths (retire_path now db i))" for p
    using that by (auto simp: retire_path_frame set_upd split: if_splits)
  moreover note Cons.IH [of "retire_path now db i"]
  ultimately show ?case using Cons.prems
    by (fastforce simp: retire_path_frame retire_path_active retire_path_desired)
qed auto

text \<open>Disabling credentials deletes and restores none.\<close>

definition creds_kept :: "cred_row list \<Rightarrow> cred_row list \<Rightarrow> bool" where
  "creds_kept cs cs' \<longleftrightarrow> (\<forall>c' \<in> set cs'. \<exists>c \<in> set cs. cr_proxy c = cr_proxy c' \<and> cr_deleted_at c = cr_deleted_at c')"

lemma creds_kept_refl [simp]: "creds_kept cs cs"
  by (auto simp: creds_kept_def)

lemma creds_kept_trans: "creds_kept cs cs1 \<Longrightarrow> creds_kept cs1 cs2 \<Longrightarrow> creds_kept cs cs2"
  unfolding creds_kept_def by metis

lemma disable_credentials_kept:
  "disable_credentials db uid required cs = Inr db' \<Longrightarrow> creds_kept (db_creds db) (db_creds db')"
proof (induction cs arbitrary: db)
  case (Cons c cs)
  let ?db1 = "fst (q_SetProxyAccessEnabled db False uid (cr_proxy c))"
  have "creds_kept (db_creds db) (db_creds ?db1)" by (auto simp: creds_kept_def q_SetProxyAccessEnabled_def Let_def set_upd)
  moreover have "disable_credentials db uid required cs = Inr db' \<or> disable_credentials ?db1 uid required cs = Inr db'"
    using Cons.prems by (auto split: if_splits prod.splits)
  ultimately show ?case using Cons.IH creds_kept_trans by blast
qed simp

lemma disable_unused_of_kept: "disable_unused_of db is = Inr db' \<Longrightarrow> creds_kept (db_creds db) (db_creds db')"
proof (induction "is" arbitrary: db)
  case (Cons i "is")
  then consider "disable_unused_of db is = Inr db'"
    | u db1 where "disableUnusedProxyCredentialsTx db u = Inr db1" "disable_unused_of db1 is = Inr db'"
    by (auto simp: bind_res_Inr_iff split: if_splits)
  then show ?case
  proof cases
    case 2
    then have "creds_kept (db_creds db) (db_creds db1)"
      by (auto simp: disableUnusedProxyCredentialsTx_def bind_res_Inr_iff intro: disable_credentials_kept)
    then show ?thesis using Cons.IH [OF 2(2)] creds_kept_trans by blast
  qed (use Cons.IH in blast)
qed simp

lemma retire_resources_complete:
  assumes r: "retireResourceDependenciesTx now db = Inr db'"
  shows "no_live_route db' \<and> db_proxies db' = db_proxies db \<and> db_nodes db' = db_nodes db"
proof -
  obtain users db1 where p: "retire_paths now db [] (q_ListRetiredResourcePaths db) = (users, db1)"
    by (cases "retire_paths now db [] (q_ListRetiredResourcePaths db)") blast
  note e = retire_paths_effect [OF p]
  let ?db4 = "q_ArchiveRetiredProxyCredentials now (q_DisableRetiredEndpoints (q_DisableRetiredNodeBindings db1))"
  have dis: "disable_unused_of ?db4 users = Inr db'" using r by (simp add: retireResourceDependenciesTx_def p Let_def)
  obtain cs where db': "db' = ?db4\<lparr>db_creds := cs\<rparr>" using disable_unused_of_creds [OF dis] by blast
  have kept: "creds_kept (db_creds ?db4) (db_creds db')" by (rule disable_unused_of_kept [OF dis])
  have same: "db_proxies db' = db_proxies db" "db_nodes db' = db_nodes db"
    using e by (simp_all add: db' q_ArchiveRetiredProxyCredentials_def q_DisableRetiredEndpoints_def q_DisableRetiredNodeBindings_def)
  have ret: "retired_proxy d x = retired_proxy db x" if "db_proxies d = db_proxies db" "db_nodes d = db_nodes db" for d :: "'a path_db_scheme" and x
    using that by (simp add: retired_proxy_def proxy_details_def)
  have "i \<notin> active_paths db' u \<and> i \<notin> desired_paths db' u" if "through_retired db' i" for i u
  proof -
    have "through_retired db i"
    proof (rule through_retired_mono [OF that same])
      show "\<exists>q \<in> set (db_paths db). pt_id q = pt_id p \<and> pt_dialer q = pt_dialer p \<and> pt_endpoint q = pt_endpoint p"
        if "p \<in> set (db_paths db')" for p
        using that e by (simp add: db' q_ArchiveRetiredProxyCredentials_def q_DisableRetiredEndpoints_def q_DisableRetiredNodeBindings_def)
      show "\<exists>f \<in> set (db_endpoints db). ep_id f = ep_id x \<and> ep_proxy f = ep_proxy x" if "x \<in> set (db_endpoints db')" for x
        using that e by (auto simp: db' q_ArchiveRetiredProxyCredentials_def q_DisableRetiredEndpoints_def
            q_DisableRetiredNodeBindings_def set_upd split: if_splits)
    qed
    then have i: "i \<in> set (q_ListRetiredResourcePaths db)" by (rule retired_paths_complete)
    have "active_paths db' u = active_paths db1 u"
      by (rule active_cong) (simp add: db' q_ArchiveRetiredProxyCredentials_def q_DisableRetiredEndpoints_def q_DisableRetiredNodeBindings_def)
    moreover have "desired_paths db' u = desired_paths db1 u"
      by (rule desired_cong) (simp_all add: db' q_ArchiveRetiredProxyCredentials_def q_DisableRetiredEndpoints_def q_DisableRetiredNodeBindings_def)
    ultimately show ?thesis using e i by simp
  qed
  moreover have "\<not> ep_enabled x" if "x \<in> set (db_endpoints db')" "retired_proxy db' (ep_proxy x)" for x
    using that e by (auto simp: db' q_ArchiveRetiredProxyCredentials_def q_DisableRetiredEndpoints_def q_DisableRetiredNodeBindings_def
        set_upd retired_proxy_def proxy_details_def split: if_splits)
  moreover have "cr_deleted_at c \<noteq> None" if in_creds: "c \<in> set (db_creds db')" and "retired_proxy db' (cr_proxy c)" for c
  proof -
    obtain c4 where c4: "c4 \<in> set (db_creds ?db4)" "cr_proxy c4 = cr_proxy c" "cr_deleted_at c = cr_deleted_at c4"
      using bspec [OF kept [unfolded creds_kept_def] in_creds] by metis
    then show ?thesis using that(2)
      by (auto simp: db' q_ArchiveRetiredProxyCredentials_def q_DisableRetiredEndpoints_def q_DisableRetiredNodeBindings_def
          set_upd retired_proxy_def proxy_details_def split: if_splits)
  qed
  moreover have "\<not> bd_enabled b" if "b \<in> set (db_bindings db')" "\<exists>n \<in> set (db_nodes db'). node_id n = bd_node b \<and> node_deleted_at n \<noteq> None" for b
    using that e by (auto simp: db' q_ArchiveRetiredProxyCredentials_def q_DisableRetiredEndpoints_def q_DisableRetiredNodeBindings_def
        set_upd list_ex_iff split: if_splits)
  ultimately show ?thesis using same unfolding no_live_route_def by blast
qed

lemma retired_row: "d \<in> set (proxy_details db) \<Longrightarrow> \<not> live_proxy d \<Longrightarrow> retired_proxy db (px_id (fst d))"
  by (auto simp: retired_proxy_def list_ex_iff)

lemma detail_row: "d \<in> set (proxy_details db) \<Longrightarrow> fst d \<in> set (db_proxies db) \<and> snd d \<in> set (db_nodes db) \<and> node_id (snd d) = px_node (fst d)"
  by (auto simp: proxy_details_def)

lemma upd_all: "(\<And>r. p r \<Longrightarrow> Q (f r)) \<Longrightarrow> (\<And>r. \<not> p r \<Longrightarrow> Q r) \<Longrightarrow> \<forall>r \<in> set (upd p f t). Q r"
  by (auto simp: set_upd)

lemma delete_proxy_leaves:
  assumes t: "delete_proxy_tx now db i = Inr db'"
  shows "no_live_route db'" and "\<forall>x \<in> set (db_proxies db'). px_id x = i \<longrightarrow> px_deleted_at x \<noteq> None"
proof -
  have "retireResourceDependenciesTx now (q_DeleteProxyAliases (fst (q_SoftDeleteProxy now db i)) i) = Inr db'"
    using t by (simp add: delete_proxy_tx_def split: prod.splits if_splits)
  note r = retire_resources_complete [OF this]
  have proxies: "db_proxies db' = db_proxies (q_DeleteProxyAliases (fst (q_SoftDeleteProxy now db i)) i)" by (rule conjunct1 [OF conjunct2 [OF r]])
  show "no_live_route db'" by (rule conjunct1 [OF r])
  show "\<forall>x \<in> set (db_proxies db'). px_id x = i \<longrightarrow> px_deleted_at x \<noteq> None"
    unfolding proxies q_DeleteProxyAliases_def q_SoftDeleteProxy_def Let_def by simp (rule upd_all; simp)
qed

lemma delete_node_leaves:
  assumes t: "delete_node_tx now (db, toks) i = Inr (db', toks')"
  shows "no_live_route db'" and "\<forall>n \<in> set (db_nodes db'). node_id n = i \<longrightarrow> node_deleted_at n \<noteq> None"
    and "\<forall>x \<in> set (db_proxies db'). px_node x = i \<longrightarrow> px_deleted_at x \<noteq> None \<and> \<not> px_enabled x"
    and "\<forall>k \<in> set toks'. tok_node k = i \<longrightarrow> tok_revoked_at k \<noteq> None"
proof -
  let ?db4 = "q_DeleteArchivedProxyAliases (q_ArchiveNodeProxies now (q_DeleteNodeAliases (fst (q_SoftDeleteNode now db i)) i) i)"
  have t: "retireResourceDependenciesTx now ?db4 = Inr db'" "toks' = revoke_tokens now i toks"
    using t by (auto simp: delete_node_tx_def bind_res_Inr_iff Let_def split: prod.splits if_splits)
  note r = retire_resources_complete [OF t(1)]
  have rows: "db_proxies db' = db_proxies ?db4" "db_nodes db' = db_nodes ?db4"
    by (rule conjunct1 [OF conjunct2 [OF r]], rule conjunct2 [OF conjunct2 [OF r]])
  note defs = q_DeleteArchivedProxyAliases_def q_ArchiveNodeProxies_def q_DeleteNodeAliases_def q_SoftDeleteNode_def Let_def
  show "no_live_route db'" by (rule conjunct1 [OF r])
  show "\<forall>n \<in> set (db_nodes db'). node_id n = i \<longrightarrow> node_deleted_at n \<noteq> None"
    unfolding rows defs by simp (rule upd_all; simp)
  show "\<forall>x \<in> set (db_proxies db'). px_node x = i \<longrightarrow> px_deleted_at x \<noteq> None \<and> \<not> px_enabled x"
    unfolding rows defs by simp (rule upd_all; simp split: option.split)
  show "\<forall>k \<in> set toks'. tok_node k = i \<longrightarrow> tok_revoked_at k \<noteq> None"
    unfolding t(2) revoke_tokens_def by (rule upd_all; simp)
qed

text \<open>
  C40: deleting a proxy or a node leaves no live route through it. After \<open>SoftDeleteProxy\<close> has succeeded
  the proxy it returns is deleted, and so is the node, with its proxies and its tokens, after
  \<open>SoftDeleteNode\<close>; and then, for every proxy that is deleted itself or stands on a deleted node, no user
  has or is to have (directly or through a group) a path that leads through it at any hop of the dialer
  chain, its endpoints are disabled and its credentials deleted, and no deleted node has an enabled binding.
\<close>
theorem deletion_leaves_no_route:
  "(SoftDeleteProxy now db nm px = (Inr d, db') \<longrightarrow> retired_proxy db' (px_id (fst d)) \<and> no_live_route db')
   \<and> (SoftDeleteNode now (db, toks) nm = (Inr n, db2, toks2) \<longrightarrow>
        node_deleted_at n \<noteq> None \<and> n \<in> set (db_nodes db2) \<and> no_live_route db2
        \<and> (\<forall>x \<in> set (db_proxies db2). px_node x = node_id n \<longrightarrow> px_deleted_at x \<noteq> None \<and> \<not> px_enabled x)
        \<and> (\<forall>k \<in> set toks2. tok_node k = node_id n \<longrightarrow> tok_revoked_at k \<noteq> None))"
proof (intro conjI impI)
  assume "SoftDeleteProxy now db nm px = (Inr d, db')"
  then obtain i where tx: "delete_proxy_tx now db i = Inr db'" and d: "sel (\<lambda>d. px_id (fst d) = i) (proxy_details db') = Some d"
    by (auto simp: SoftDeleteProxy_def q_GetProxyByIDIncludingDeleted_def split: option.splits sum.splits)
  note left = delete_proxy_leaves [OF tx]
  have row: "d \<in> set (proxy_details db')" "px_id (fst d) = i" using sel_SomeD [OF d] by auto
  then have "\<not> live_proxy d" using left(2) detail_row [OF row(1)] by (auto simp: live_proxy_def)
  then show "retired_proxy db' (px_id (fst d))" by (rule retired_row [OF row(1)])
  show "no_live_route db'" by (rule left(1))
next
  assume "SoftDeleteNode now (db, toks) nm = (Inr n, db2, toks2)"
  then obtain i where tx: "delete_node_tx now (db, toks) i = Inr (db2, toks2)" and n: "sel (\<lambda>n. node_id n = i) (db_nodes db2) = Some n"
    by (auto simp: SoftDeleteNode_def q_GetNodeByIDIncludingDeleted_def split: option.splits sum.splits)
  note left = delete_node_leaves [OF tx]
  have row: "n \<in> set (db_nodes db2)" "node_id n = i" using sel_SomeD [OF n] by auto
  show "node_deleted_at n \<noteq> None" using left(2) row by simp
  show "n \<in> set (db_nodes db2)" by (rule row(1))
  show "no_live_route db2" by (rule left(1))
  show "\<forall>x \<in> set (db_proxies db2). px_node x = node_id n \<longrightarrow> px_deleted_at x \<noteq> None \<and> \<not> px_enabled x" using left(3) row(2) by simp
  show "\<forall>k \<in> set toks2. tok_node k = node_id n \<longrightarrow> tok_revoked_at k \<noteq> None" using left(4) row(2) by simp
qed


text \<open>Two nodes: \<open>p1\<close> on \<open>tokyo\<close>, which \<open>alice\<close> was given through a group, dials through \<open>p2\<close> on \<open>osaka\<close>.\<close>

definition relay_db :: audit_db where
  "relay_db =
     (let db = grant_given 0; n = hd (db_nodes db); x = hd (db_proxies db); e = hd (db_endpoints db) in
      db\<lparr>db_nodes := [n, n\<lparr>node_id := ''n2'', node_name := ''osaka''\<rparr>],
         db_proxies := [x, x\<lparr>px_id := ''x2'', px_node := ''n2''\<rparr>],
         db_endpoints := [e, e\<lparr>ep_id := ''e2'', ep_proxy := ''x2''\<rparr>],
         db_paths := map (\<lambda>p. if pt_id p = ''p2'' then p\<lparr>pt_endpoint := ''e2''\<rparr> else p) (db_paths db)\<rparr>)"

definition relay_tokens :: "token_row list" where
  "relay_tokens = [\<lparr>tok_id = ''t2'', tok_node = ''n2'', tok_hash = ''h'', tok_digest = None, tok_created_at = Stamp 0 ''Z'',
     tok_last_used_at = None, tok_revoked_at = None\<rparr>]"

definition accessible :: "'a proxy_db_scheme \<Rightarrow> string list" where
  "accessible db = map ac_path (filter (\<lambda>a. ac_enabled a \<and> ac_deleted_at a = None) (db_accesses db))"

theorem deletion_leaves_no_route_witness:
  "case (SoftDeleteProxy 0 relay_db ''osaka'' ''ss'', SoftDeleteNode 0 (relay_db, relay_tokens) ''osaka'') of
     ((Inr d, db'), (Inr n, db2, toks2)) \<Rightarrow>
       px_id (fst d) = ''x2'' \<and> node_id n = ''n2'' \<and> no_live_route db' \<and> no_live_route db2
       \<and> accessible relay_db = [''p1''] \<and> accessible db' = [] \<and> accessible db2 = [] \<and> list_all (\<lambda>k. tok_revoked_at k \<noteq> None) toks2
   | _ \<Rightarrow> False"
proof -
  have e: "case (SoftDeleteProxy 0 relay_db ''osaka'' ''ss'', SoftDeleteNode 0 (relay_db, relay_tokens) ''osaka'') of
     ((Inr d, db'), (Inr n, db2, toks2)) \<Rightarrow>
       px_id (fst d) = ''x2'' \<and> node_id n = ''n2''
       \<and> accessible relay_db = [''p1''] \<and> accessible db' = [] \<and> accessible db2 = [] \<and> list_all (\<lambda>k. tok_revoked_at k \<noteq> None) toks2
   | _ \<Rightarrow> False" by code_simp
  obtain a db' c db2 toks2 where calls: "SoftDeleteProxy 0 relay_db ''osaka'' ''ss'' = (a, db')"
    "SoftDeleteNode 0 (relay_db, relay_tokens) ''osaka'' = (c, db2, toks2)" by (metis prod.exhaust)
  moreover obtain d n where "a = Inr d" "c = Inr n" using e unfolding calls by (cases a; cases c) auto
  ultimately show ?thesis
    using e deletion_leaves_no_route [where now = 0 and db = relay_db and toks = relay_tokens and nm = "''osaka''"
      and px = "''ss''" and d = d and db' = db' and n = n and ?db2.0 = db2 and ?toks2.0 = toks2]
    by simp
qed

end
