(* ===== verification/Connection_Model.thy ===== *)
theory Connection_Model
  imports Traffic
begin

text \<open>
  Connection telemetry as the agent and the server share it (\<open>internal/model/connection_telemetry.go\<close>):
  buckets, which are snapshots of one session when they carry a connection id and sums over a dimension
  tuple otherwise, their canonical form, their key and how two of them merge.

  An instant on the wire is \<^const>\<open>None\<close> for a text that does not parse (the empty one among them) and
  otherwise the stamp it denotes. Counters of events are unbounded numbers; sums and differences of byte
  counts wrap.
\<close>

section \<open>Texts\<close>

definition last_colon :: "string \<Rightarrow> (string \<times> string) option" where
  "last_colon s = map_option (\<lambda>(b, r). (rev r, rev b)) (Cut CHR '':'' (rev s))"

definition trim_brackets :: "string \<Rightarrow> string" where
  "trim_brackets s =
     (let b = (\<lambda>c. c = CHR ''['' \<or> c = CHR '']'') in rev (dropWhile b (rev (dropWhile b s))))"

definition NormalizeConnectionHost :: "string \<Rightarrow> string" where
  "NormalizeConnectionHost host =
     (let h = trim_brackets (ToLower (trim_space host))
      in if length h > 1 \<and> last h = CHR ''.'' then butlast h else h)"

definition SplitConnectionAddress :: "string \<Rightarrow> (string \<times> int) option" where
  "SplitConnectionAddress value =
     (case last_colon (trim_space value) of
        None \<Rightarrow> None
      | Some (host, port) \<Rightarrow>
        if host = [] \<or> port = [] then None
        else (case ParseInt port of
                None \<Rightarrow> None
              | Some p \<Rightarrow>
                if p < 0 \<or> p > 65535 then None
                else let h = NormalizeConnectionHost host in if h = [] then None else Some (h, p)))"

fun join_hops :: "string list \<Rightarrow> string" where
  "join_hops [] = []"
| "join_hops [h] = h"
| "join_hops (h # hs) = h @ CHR ''>'' # join_hops hs"

definition ConnectionChainString :: "string list \<Rightarrow> string" where
  "ConnectionChainString chain = join_hops (filter (\<lambda>h. h \<noteq> []) (map trim_space chain))"

section \<open>Instants\<close>

text \<open>The years that \<open>time.Parse\<close> reads: 0 to 9999.\<close>

definition in_years :: "stamp \<Rightarrow> bool" where
  "in_years s \<longleftrightarrow> -62167219200 \<le> stamp_secs s \<and> stamp_secs s \<le> 253402300799"

definition NormalizeConnectionInstant :: "stamp option \<Rightarrow> stamp option" where
  "NormalizeConnectionInstant v =
     (case v of None \<Rightarrow> None | Some s \<Rightarrow> if in_years s then Some (sql_now (parse_stamp s)) else None)"

definition ConnectionBucketInterval :: int where
  "ConnectionBucketInterval = 300 * ns_per_s"

definition TruncateConnectionBucket :: "stamp option \<Rightarrow> stamp option" where
  "TruncateConnectionBucket v =
     (case v of
        None \<Rightarrow> None
      | Some s \<Rightarrow>
        if in_years s
        then let t = parse_stamp s in Some (sql_now (t - t mod ConnectionBucketInterval))
        else None)"

text \<open>Instants are compared as texts; the empty text is the least.\<close>

definition text_less :: "stamp option \<Rightarrow> stamp option \<Rightarrow> bool" where
  "text_less a b \<longleftrightarrow> (case b of None \<Rightarrow> False | Some y \<Rightarrow> (case a of None \<Rightarrow> True | Some x \<Rightarrow> x < y))"

section \<open>Buckets\<close>

record bucket =
  bk_id :: string
  bk_started :: "stamp option"
  bk_start :: "stamp option"
  bk_auth :: string
  bk_source :: string
  bk_host :: string
  bk_port :: int
  bk_domain :: string
  bk_network :: string
  bk_ip_version :: int
  bk_protocol :: string
  bk_inbound :: string
  bk_inbound_type :: string
  bk_rule :: string
  bk_outbound :: string
  bk_outbound_type :: string
  bk_chain :: "string list"
  bk_opened :: int
  bk_closed :: int
  bk_up :: int
  bk_down :: int
  bk_duration :: int
  bk_win_start :: "stamp option"
  bk_win_end :: "stamp option"

text \<open>\<open>Normalize\<close>: first the canonical fields, then the window, then whether the bucket is usable.\<close>

definition normal_texts :: "bucket \<Rightarrow> bucket" where
  "normal_texts b =
     (let domain = NormalizeConnectionHost (bk_domain b);
          flat = ConnectionChainString (bk_chain b) in
      b\<lparr>bk_auth := trim_space (bk_auth b), bk_source := NormalizeConnectionHost (bk_source b), bk_domain := domain,
        bk_host := (if domain \<noteq> [] then domain else NormalizeConnectionHost (bk_host b)),
        bk_network := ToLower (trim_space (bk_network b)), bk_protocol := ToLower (trim_space (bk_protocol b)),
        bk_inbound := trim_space (bk_inbound b), bk_inbound_type := trim_space (bk_inbound_type b),
        bk_rule := trim_space (bk_rule b), bk_outbound := trim_space (bk_outbound b),
        bk_outbound_type := trim_space (bk_outbound_type b),
        bk_ip_version := (if bk_ip_version b = 4 \<or> bk_ip_version b = 6 then bk_ip_version b else 0),
        bk_chain := (if flat = [] then [] else split_on CHR ''>'' flat)\<rparr>)"

definition normal_window :: "bucket \<Rightarrow> bucket" where
  "normal_window b =
     (let ws = NormalizeConnectionInstant (bk_win_start b);
          we = NormalizeConnectionInstant (bk_win_end b);
          s = (if ws = None then bk_start b else ws)
      in b\<lparr>bk_win_start := s, bk_win_end := (if we = None \<or> text_less we s then s else we)\<rparr>)"

definition usable_bucket :: "bucket \<Rightarrow> bool" where
  "usable_bucket b \<longleftrightarrow>
     bk_start b \<noteq> None \<and> bk_host b \<noteq> [] \<and> 0 \<le> bk_port b \<and> bk_port b \<le> 65535 \<and> 0 \<le> bk_opened b \<and> 0 \<le> bk_closed b
     \<and> 0 \<le> bk_up b \<and> 0 \<le> bk_down b \<and> 0 \<le> bk_duration b"

definition Normalize :: "bucket \<Rightarrow> bucket option" where
  "Normalize b0 =
     (let i = trim_space (bk_id b0);
          st = NormalizeConnectionInstant (bk_started b0);
          b1 = b0\<lparr>bk_id := i, bk_started := st\<rparr>
      in if i \<noteq> [] \<and> st = None then None
         else
           let b = normal_window (normal_texts (b1\<lparr>bk_start := (if i \<noteq> [] then st else TruncateConnectionBucket (bk_start b0))\<rparr>))
           in if usable_bucket b then Some b else None)"

section \<open>Keys\<close>

text \<open>
  \<open>DimensionKey\<close> joins its fields with a NUL byte, on the assumption that none of them contains one; the
  model is exact for such fields: the key is the list of them. The order of two joined texts is the order of
  the lists, a digit being less than a letter.
\<close>

datatype key_field = KTime "stamp option" | KText string

instantiation key_field :: linorder
begin

fun less_eq_key_field :: "key_field \<Rightarrow> key_field \<Rightarrow> bool" where
  "less_eq_key_field (KTime a) (KTime b) = (\<not> text_less b a)"
| "less_eq_key_field (KTime a) (KText t) = True"
| "less_eq_key_field (KText s) (KTime b) = False"
| "less_eq_key_field (KText s) (KText t) = (s \<le> t)"

definition less_key_field :: "key_field \<Rightarrow> key_field \<Rightarrow> bool" where
  "less_key_field a b \<longleftrightarrow> a \<le> b \<and> \<not> b \<le> a"

instance
proof
  fix x y z :: key_field
  show "(x < y) = (x \<le> y \<and> \<not> y \<le> x)" by (rule less_key_field_def)
  show "x \<le> x" by (cases x) (auto simp: text_less_def split: option.split)
  show "x \<le> y \<Longrightarrow> y \<le> z \<Longrightarrow> x \<le> z"
    by (cases x; cases y; cases z) (auto simp: text_less_def split: option.splits)
  show "x \<le> y \<Longrightarrow> y \<le> x \<Longrightarrow> x = y"
    by (cases x; cases y) (auto simp: text_less_def split: option.splits)
  show "x \<le> y \<or> y \<le> x"
    by (cases x; cases y) (auto simp: text_less_def split: option.split)
qed

end

fun nat_digits :: "nat \<Rightarrow> string" where
  "nat_digits n = (if n < 10 then [digit_char n] else nat_digits (n div 10) @ [digit_char (n mod 10)])"

declare nat_digits.simps [simp del]

definition FormatInt :: "int \<Rightarrow> string" where
  "FormatInt x = (if x < 0 then CHR ''-'' # nat_digits (nat (- x)) else nat_digits (nat x))"

type_synonym bucket_key = "key_field list"

definition DimensionKey :: "bucket \<Rightarrow> bucket_key" where
  "DimensionKey b =
     (if bk_id b \<noteq> [] then [KText ''session'', KText (bk_id b), KTime (bk_started b)]
      else
        [KTime (bk_start b), KText (bk_auth b), KText (bk_source b), KText (bk_host b), KText (FormatInt (bk_port b)),
         KText (bk_domain b), KText (bk_network b), KText (FormatInt (bk_ip_version b)), KText (bk_protocol b),
         KText (bk_inbound b), KText (bk_inbound_type b), KText (bk_rule b), KText (bk_outbound b),
         KText (bk_outbound_type b), KText (ConnectionChainString (bk_chain b))])"

section \<open>Merging\<close>

definition Merge :: "bucket \<Rightarrow> bucket \<Rightarrow> bucket" where
  "Merge b c =
     (let f = (if bk_id b \<noteq> [] then max else (\<lambda>x y. wrap64 (x + y))) in
      b\<lparr>bk_opened := f (bk_opened b) (bk_opened c), bk_closed := f (bk_closed b) (bk_closed c),
        bk_up := f (bk_up b) (bk_up c), bk_down := f (bk_down b) (bk_down c), bk_duration := f (bk_duration b) (bk_duration c),
        bk_win_start := (if bk_win_start c \<noteq> None \<and> (bk_win_start b = None \<or> text_less (bk_win_start c) (bk_win_start b))
                         then bk_win_start c else bk_win_start b),
        bk_win_end := (if text_less (bk_win_end b) (bk_win_end c) then bk_win_end c else bk_win_end b)\<rparr>)"

lemma Merge_key [simp]: "DimensionKey (Merge b c) = DimensionKey b"
  by (simp add: Merge_def Let_def DimensionKey_def)

section \<open>Reports\<close>

record coverage =
  cv_observed :: int
  cv_attributed :: int
  cv_unattributed :: int
  cv_orphaned :: int
  cv_resets :: int
  cv_dropped :: int
  cv_bytes :: int
  cv_bytes_attributed :: int

definition no_coverage :: coverage where
  "no_coverage = \<lparr>cv_observed = 0, cv_attributed = 0, cv_unattributed = 0, cv_orphaned = 0, cv_resets = 0, cv_dropped = 0,
     cv_bytes = 0, cv_bytes_attributed = 0\<rparr>"

record conn_report =
  cr_node_name :: string
  cr_sequence :: int
  cr_boot :: string
  cr_window_start :: "stamp option"
  cr_window_end :: "stamp option"
  cr_reported_at :: "stamp option"
  cr_coverage :: coverage
  cr_buckets :: "bucket list"

end
