(* ===== verification/Connection_Collector.thy ===== *)
theory Connection_Collector
  imports Connection_Model "HOL-Library.AList"
begin

text \<open>
  The connection collector of the agent (\<open>internal/agent/connections.go\<close>): it folds the event stream of
  sing-box into one cumulative snapshot per session, within fixed bounds of memory, and hands the snapshots
  out as reports. A map is the list of its entries; the mutex makes \<open>apply\<close> and \<open>Drain\<close> atomic.
\<close>

section \<open>Discovery\<close>

record api_service =
  sv_type :: string
  sv_listen :: string
  sv_port :: int
  sv_secret :: string

record telemetry_options =
  to_address :: string
  to_secret :: string
  to_interval :: int

datatype discovery_error = NoConnectionTelemetry | NoListenAddress | InvalidListenPort int | EmptySecret | ConfigUnreadable

definition JoinHostPort :: "string \<Rightarrow> string \<Rightarrow> string" where
  "JoinHostPort host port =
     (if list_ex (\<lambda>c. c = CHR '':'' \<or> c = CHR ''%'') host then CHR ''['' # host @ '']:'' @ port else host @ CHR '':'' # port)"

definition defaultConnectionUpdateInterval :: int where
  "defaultConnectionUpdateInterval = 5 * ns_per_s"

text \<open>The first API service decides; the argument is the parsed configuration.\<close>

fun connectionTelemetryOptions :: "api_service list \<Rightarrow> discovery_error + telemetry_options" where
  "connectionTelemetryOptions [] = Inl NoConnectionTelemetry"
| "connectionTelemetryOptions (s # ss) =
     (if sv_type s \<noteq> ''api'' then connectionTelemetryOptions ss
      else if sv_listen s = [] then Inl NoListenAddress
      else if sv_port s \<le> 0 \<or> sv_port s > 65535 then Inl (InvalidListenPort (sv_port s))
      else if sv_secret s = [] then Inl EmptySecret
      else Inr \<lparr>to_address = JoinHostPort (sv_listen s) (FormatInt (sv_port s)), to_secret = sv_secret s,
                to_interval = defaultConnectionUpdateInterval\<rparr>)"

section \<open>The stream\<close>

record connection =
  cn_id :: string
  cn_created :: int
  cn_closed :: int
  cn_up_total :: int
  cn_down_total :: int
  cn_user :: string
  cn_source :: string
  cn_destination :: string
  cn_domain :: string
  cn_network :: string
  cn_ip_version :: int
  cn_protocol :: string
  cn_inbound :: string
  cn_inbound_type :: string
  cn_rule :: string
  cn_outbound :: string
  cn_outbound_type :: string
  cn_chain :: "string list"

datatype event_kind = EventNew | EventUpdate | EventClosed | EventOther

record event =
  ev_kind :: event_kind
  ev_id :: string
  ev_connection :: "connection option"
  ev_up_delta :: int
  ev_down_delta :: int
  ev_closed_at :: int

record batch =
  ba_reset :: bool
  ba_events :: "event list"

text \<open>\<open>net.SplitHostPort\<close>, and \<open>Endpoint\<close> of \<open>internal/singboxapi\<close>.\<close>

definition SplitHostPort :: "string \<Rightarrow> (string \<times> string) option" where
  "SplitHostPort s =
     (case last_colon s of
        None \<Rightarrow> None
      | Some (before, port) \<Rightarrow>
        (case s of
           [] \<Rightarrow> None
         | c # cs \<Rightarrow>
           if c = CHR ''['' then
             (case Cut CHR '']'' s of
                None \<Rightarrow> None
              | Some (inside, rest) \<Rightarrow>
                if inside @ [CHR '']''] \<noteq> before \<or> CHR ''['' \<in> set (tl inside) \<or> CHR ''['' \<in> set rest \<or> CHR '']'' \<in> set rest
                then None else Some (tl inside, port))
           else if CHR '':'' \<in> set before \<or> CHR ''['' \<in> set s \<or> CHR '']'' \<in> set s then None
           else Some (before, port)))"

definition splitEndpoint :: "string \<Rightarrow> string \<times> int" where
  "splitEndpoint d =
     (if d = [] then ([], 0)
      else case SplitHostPort d of
        None \<Rightarrow> (d, 0)
      | Some (host, port) \<Rightarrow>
        (case parse_unsigned port of
           None \<Rightarrow> (host, 0)
         | Some p \<Rightarrow> (host, if p < 2 ^ 16 then p else 0)))"

definition Endpoint :: "connection \<Rightarrow> string \<times> int" where
  "Endpoint c =
     (let (host, port) = splitEndpoint (cn_destination c) in (if cn_domain c \<noteq> [] then cn_domain c else host, port))"

definition connectionEventID :: "event \<Rightarrow> connection \<Rightarrow> string" where
  "connectionEventID e c = (if ev_id e \<noteq> [] then ev_id e else cn_id c)"

section \<open>The ring of accounted closes\<close>

record id_ring =
  rg_ids :: "string set"
  rg_order :: "string list"
  rg_next :: nat

definition newClosedIDRing :: "nat \<Rightarrow> id_ring" where
  "newClosedIDRing limit = \<lparr>rg_ids = {}, rg_order = replicate limit [], rg_next = 0\<rparr>"

definition ring_contains :: "id_ring \<Rightarrow> string \<Rightarrow> bool" where
  "ring_contains r i \<longleftrightarrow> i \<in> rg_ids r"

definition ring_add :: "id_ring \<Rightarrow> string \<Rightarrow> id_ring" where
  "ring_add r i =
     (if i \<in> rg_ids r then r
      else
        let evicted = rg_order r ! rg_next r;
            ids = (if evicted \<noteq> [] then rg_ids r - {evicted} else rg_ids r)
        in \<lparr>rg_ids = insert i ids, rg_order = (rg_order r)[rg_next r := i],
            rg_next = (rg_next r + 1) mod length (rg_order r)\<rparr>)"

section \<open>The collector\<close>

definition maxTrackedConnections :: nat where
  "maxTrackedConnections = 4096"

definition maxPendingConnectionBuckets :: nat where
  "maxPendingConnectionBuckets = 2000"

definition maxAccountedCloseIDs :: nat where
  "maxAccountedCloseIDs = 2048"

record tracked =
  tk_template :: bucket
  tk_attributed :: bool
  tk_created :: int
  tk_up :: int
  tk_down :: int
  tk_epoch :: int
  tk_counted :: bool

definition advance_totals :: "tracked \<Rightarrow> int \<Rightarrow> int \<Rightarrow> int \<times> int \<times> tracked" where
  "advance_totals t u d =
     ((if u > tk_up t then wrap64 (u - tk_up t) else 0), (if d > tk_down t then wrap64 (d - tk_down t) else 0),
      t\<lparr>tk_up := max (tk_up t) u, tk_down := max (tk_down t) d\<rparr>)"

record collector =
  co_buckets :: "(bucket_key \<times> bucket) list"
  co_live :: "(string \<times> tracked) list"
  co_accounted :: id_ring
  co_coverage :: coverage
  co_epoch :: int
  co_subscribed :: bool
  co_startup_high :: int
  co_high :: int
  co_window_start :: instant

definition newConnectionCollector :: "instant \<Rightarrow> collector" where
  "newConnectionCollector now =
     \<lparr>co_buckets = [], co_live = [], co_accounted = newClosedIDRing maxAccountedCloseIDs, co_coverage = no_coverage,
      co_epoch = 0, co_subscribed = False, co_startup_high = 0, co_high = 0, co_window_start = now\<rparr>"

definition setStartupCloseHighWater :: "int \<Rightarrow> collector \<Rightarrow> collector" where
  "setStartupCloseHighWater ms c = c\<lparr>co_startup_high := ms, co_high := max (co_high c) ms\<rparr>"

definition cover :: "(coverage \<Rightarrow> coverage) \<Rightarrow> collector \<Rightarrow> collector" where
  "cover f c = c\<lparr>co_coverage := f (co_coverage c)\<rparr>"

definition note_dropped :: "collector \<Rightarrow> collector" where
  "note_dropped = cover (\<lambda>v. v\<lparr>cv_dropped := cv_dropped v + 1\<rparr>)"

definition note_orphaned :: "collector \<Rightarrow> collector" where
  "note_orphaned = cover (\<lambda>v. v\<lparr>cv_orphaned := cv_orphaned v + 1\<rparr>)"

definition unix_milli :: "int \<Rightarrow> instant" where
  "unix_milli ms = ms * 1000000"

text \<open>\<open>newTracked\<close>: \<^const>\<open>None\<close> when the dimensions cannot be normalised, which the coverage counts.\<close>

definition template_of :: "string \<Rightarrow> connection \<Rightarrow> bucket" where
  "template_of i n =
     (let (host, port) = Endpoint n in
      \<lparr>bk_id = i, bk_started = Some (sql_now (unix_milli (cn_created n))), bk_start = Some (sql_now (unix_milli 0)),
       bk_auth = cn_user n, bk_source = (case SplitConnectionAddress (cn_source n) of None \<Rightarrow> [] | Some (h, _) \<Rightarrow> h),
       bk_host = host, bk_port = port, bk_domain = cn_domain n, bk_network = cn_network n, bk_ip_version = cn_ip_version n,
       bk_protocol = cn_protocol n, bk_inbound = cn_inbound n, bk_inbound_type = cn_inbound_type n, bk_rule = cn_rule n,
       bk_outbound = cn_outbound n, bk_outbound_type = cn_outbound_type n, bk_chain = cn_chain n, bk_opened = 0, bk_closed = 0,
       bk_up = 0, bk_down = 0, bk_duration = 0, bk_win_start = None, bk_win_end = None\<rparr>)"

definition newTracked :: "string \<Rightarrow> connection \<Rightarrow> collector \<Rightarrow> tracked option \<times> collector" where
  "newTracked i n c =
     (case Normalize (template_of i n) of
        None \<Rightarrow> (None, note_dropped c)
      | Some b \<Rightarrow> (Some \<lparr>tk_template = b, tk_attributed = (bk_auth b \<noteq> []), tk_created = cn_created n, tk_up = 0, tk_down = 0,
                        tk_epoch = co_epoch c, tk_counted = False\<rparr>, c))"

text \<open>\<open>touch\<close>: a connection counts once per window.\<close>

definition touch :: "tracked \<Rightarrow> collector \<Rightarrow> tracked \<times> collector" where
  "touch t c =
     (if tk_counted t then (t, c)
      else (t\<lparr>tk_counted := True\<rparr>,
            cover (\<lambda>v. if tk_attributed t then v\<lparr>cv_observed := cv_observed v + 1, cv_attributed := cv_attributed v + 1\<rparr>
                       else v\<lparr>cv_observed := cv_observed v + 1, cv_unattributed := cv_unattributed v + 1\<rparr>) c))"

text \<open>\<open>record\<close>: the snapshot of a session after an event; the coverage grows by what the event added.\<close>

definition session_snapshot :: "tracked \<Rightarrow> instant \<Rightarrow> int \<Rightarrow> int \<Rightarrow> bucket" where
  "session_snapshot t tm ended duration =
     (let b = tk_template t; w = Some (sql_now tm) in
      b\<lparr>bk_start := bk_started b, bk_win_start := w, bk_win_end := w, bk_up := tk_up t, bk_down := tk_down t,
        bk_opened := 1, bk_closed := ended, bk_duration := duration\<rparr>)"

definition cover_bytes :: "tracked \<Rightarrow> int \<Rightarrow> int \<Rightarrow> collector \<Rightarrow> collector" where
  "cover_bytes t up down =
     (let total = wrap64 (up + down) in
      cover (\<lambda>v. let v1 = v\<lparr>cv_bytes := wrap64 (cv_bytes v + total)\<rparr> in
                 if tk_attributed t then v1\<lparr>cv_bytes_attributed := wrap64 (cv_bytes_attributed v1 + total)\<rparr> else v1))"

definition record_event :: "tracked \<Rightarrow> instant \<Rightarrow> int \<Rightarrow> int \<Rightarrow> int \<Rightarrow> int \<Rightarrow> int \<Rightarrow> collector \<Rightarrow> collector" where
  "record_event t tm up down opened ended duration c =
     (if up = 0 \<and> down = 0 \<and> opened = 0 \<and> ended = 0 then c
      else
        let b = session_snapshot t tm ended duration; k = DimensionKey b in
        (case map_of (co_buckets c) k of
           None \<Rightarrow>
             if length (co_buckets c) \<ge> maxPendingConnectionBuckets then note_dropped c
             else cover_bytes t up down (c\<lparr>co_buckets := AList.update k b (co_buckets c)\<rparr>)
         | Some old \<Rightarrow> cover_bytes t up down (c\<lparr>co_buckets := AList.update k (Merge old b) (co_buckets c)\<rparr>)))"

definition closeTracked :: "string \<Rightarrow> tracked \<Rightarrow> int \<Rightarrow> int \<Rightarrow> int \<Rightarrow> int \<Rightarrow> collector \<Rightarrow> collector" where
  "closeTracked i t closed_at up down opened c =
     (let duration = (if tk_created t > 0 \<and> closed_at > tk_created t then closed_at - tk_created t else 0);
          c1 = record_event t (unix_milli closed_at) up down opened 1 duration c
      in c1\<lparr>co_live := AList.delete i (co_live c1), co_accounted := ring_add (co_accounted c1) i, co_high := max (co_high c1) closed_at\<rparr>)"

definition set_live :: "string \<Rightarrow> tracked \<Rightarrow> collector \<Rightarrow> collector" where
  "set_live i t c = c\<lparr>co_live := AList.update i t (co_live c)\<rparr>"

section \<open>Events\<close>

text \<open>An event of a connection with an identity: the mark advances, and what it grew by is recorded.\<close>

definition applyNew :: "event \<Rightarrow> instant \<Rightarrow> collector \<Rightarrow> collector" where
  "applyNew e now c =
     (case ev_connection e of
        None \<Rightarrow> c
      | Some n \<Rightarrow>
        let i = connectionEventID e n; ended = cn_closed n in
        if i = [] then c
        else
          (case map_of (co_live c) i of
             Some t0 \<Rightarrow>
               let (t1, c1) = touch (t0\<lparr>tk_epoch := co_epoch c\<rparr>) c;
                   (up, down, t2) = advance_totals t1 (cn_up_total n) (cn_down_total n);
                   c2 = set_live i t2 c1
               in if ended \<noteq> 0 then closeTracked i t2 ended up down 0 c2 else record_event t2 now up down 0 0 0 c2
           | None \<Rightarrow>
               if ended \<noteq> 0 then
                 (if ring_contains (co_accounted c) i \<or> ended \<le> co_startup_high c then c
                  else case newTracked i n c of
                    (None, c1) \<Rightarrow> c1
                  | (Some t, c1) \<Rightarrow>
                    let (t1, c2) = touch t c1;
                        (up, down, t2) = advance_totals t1 (cn_up_total n) (cn_down_total n)
                    in closeTracked i t2 ended up down 1 (note_orphaned c2))
               else if length (co_live c) \<ge> maxTrackedConnections then note_dropped c
               else
                 (case newTracked i n c of
                    (None, c1) \<Rightarrow> c1
                  | (Some t, c1) \<Rightarrow>
                    let (t1, c2) = touch t c1;
                        (up, down, t2) = advance_totals t1 (cn_up_total n) (cn_down_total n)
                    in record_event t2 now up down 1 0 0 (set_live i t2 c2))))"

definition applyUpdate :: "event \<Rightarrow> instant \<Rightarrow> collector \<Rightarrow> collector" where
  "applyUpdate e now c =
     (case map_of (co_live c) (ev_id e) of
        None \<Rightarrow> c
      | Some t0 \<Rightarrow>
        let (t1, c1) = touch (t0\<lparr>tk_epoch := co_epoch c\<rparr>) c;
            up = max (ev_up_delta e) 0; down = max (ev_down_delta e) 0;
            t2 = t1\<lparr>tk_up := wrap64 (tk_up t1 + up), tk_down := wrap64 (tk_down t1 + down)\<rparr>
        in record_event t2 now up down 0 0 0 (set_live (ev_id e) t2 c1))"

text \<open>The end of a connection comes from the event, from its connection or from the clock.\<close>

definition closed_at :: "event \<Rightarrow> instant \<Rightarrow> int" where
  "closed_at e now =
     (let a = ev_closed_at e; b = (case ev_connection e of None \<Rightarrow> 0 | Some n \<Rightarrow> cn_closed n)
      in if a \<noteq> 0 then a else if b \<noteq> 0 then b else now div 1000000)"

definition applyClosed :: "event \<Rightarrow> instant \<Rightarrow> collector \<Rightarrow> collector" where
  "applyClosed e now c =
     (let i = ev_id e; ended = closed_at e now in
      if i = [] then c
      else
        (case map_of (co_live c) i of
           Some t0 \<Rightarrow>
             let (t1, c1) = touch (t0\<lparr>tk_epoch := co_epoch c\<rparr>) c;
                 (up, down, t2) = (case ev_connection e of
                     None \<Rightarrow> (0, 0, t1)
                   | Some n \<Rightarrow> advance_totals t1 (cn_up_total n) (cn_down_total n))
             in closeTracked i t2 ended up down 0 (set_live i t2 c1)
         | None \<Rightarrow>
             if ring_contains (co_accounted c) i then c
             else
               let c1 = note_orphaned c in
               (case ev_connection e of
                  None \<Rightarrow> c1
                | Some n \<Rightarrow>
                  (case newTracked i n c1 of
                     (None, c2) \<Rightarrow> c2
                   | (Some t, c2) \<Rightarrow>
                     let (t1, c3) = touch t c2;
                         (up, down, t2) = advance_totals t1 (cn_up_total n) (cn_down_total n)
                     in closeTracked i t2 ended up down 1 c3))))"

definition sweepStale :: "collector \<Rightarrow> collector" where
  "sweepStale c = c\<lparr>co_live := filter (\<lambda>(i, t). tk_epoch t = co_epoch c) (co_live c)\<rparr>"

definition apply_event :: "instant \<Rightarrow> event \<Rightarrow> collector \<Rightarrow> collector" where
  "apply_event now e c =
     (case ev_kind e of
        EventNew \<Rightarrow> applyNew e now c
      | EventUpdate \<Rightarrow> applyUpdate e now c
      | EventClosed \<Rightarrow> applyClosed e now c
      | EventOther \<Rightarrow> c)"

text \<open>A full-state replay starts a new epoch, and drops at its end what it did not mention.\<close>

definition begin_replay :: "collector \<Rightarrow> collector" where
  "begin_replay c =
     (let c1 = c\<lparr>co_epoch := co_epoch c + 1\<rparr>;
          c2 = (if co_subscribed c1 then cover (\<lambda>v. v\<lparr>cv_resets := cv_resets v + 1\<rparr>) c1 else c1)
      in c2\<lparr>co_subscribed := True\<rparr>)"

definition apply_batch :: "batch option \<Rightarrow> instant \<Rightarrow> collector \<Rightarrow> collector" where
  "apply_batch batch now c =
     (case batch of
        None \<Rightarrow> c
      | Some b \<Rightarrow>
        let c1 = (if ba_reset b then begin_replay c else c);
            c2 = fold (apply_event now) (ba_events b) c1
        in if ba_reset b then sweepStale c2 else c2)"

section \<open>Reports\<close>

definition Drain :: "instant \<Rightarrow> collector \<Rightarrow> (bucket list \<times> coverage \<times> instant) option \<times> collector" where
  "Drain now c =
     (let c1 = c\<lparr>co_window_start := now\<rparr> in
      if co_buckets c = [] \<and> co_coverage c = no_coverage then (None, c1)
      else
        (Some (map (\<lambda>k. the (map_of (co_buckets c) k)) (sort (map fst (co_buckets c))), co_coverage c, co_window_start c),
         c1\<lparr>co_coverage := no_coverage, co_buckets := [],
            co_live := map (\<lambda>(i, t). (i, t\<lparr>tk_counted := False\<rparr>)) (co_live c)\<rparr>))"

record conn_state =
  cs_boot :: string
  cs_pending :: "conn_report option"
  cs_sequence :: int
  cs_close_ms :: int

text \<open>
  \<open>Drain\<close> and \<open>CloseHighWaterMs\<close> lock the collector one after the other; \<open>between\<close> is what the receiving
  goroutine does in the meantime.
\<close>

definition buildConnectionReport ::
  "(collector \<Rightarrow> collector) \<Rightarrow> instant \<Rightarrow> collector \<Rightarrow> conn_state \<Rightarrow> conn_report option \<times> collector \<times> conn_state" where
  "buildConnectionReport between now c st =
     (let (drained, c1) = Drain now c;
          c2 = between c1;
          st1 = st\<lparr>cs_close_ms := max (cs_close_ms st) (co_high c2)\<rparr> in
      (case drained of
         None \<Rightarrow> (None, c2, st1)
       | Some (buckets, coverage, window_start) \<Rightarrow>
         let st2 = st1\<lparr>cs_sequence := wrap64 (cs_sequence st1 + 1)\<rparr> in
         (Some \<lparr>cr_node_name = [], cr_sequence = cs_sequence st2, cr_boot = cs_boot st2, cr_window_start = Some (sql_now window_start),
                cr_window_end = Some (sql_now now), cr_reported_at = Some (rfc3339nano now), cr_coverage = coverage,
                cr_buckets = buckets\<rparr>, c2, st2)))"


text \<open>
  \<open>ReportConnections\<close>: the state file is read and written with failures, \<open>post1\<close> and \<open>post2\<close> are the two
  exchanges with a server of state \<open>'s\<close>; the flag says whether the call returned without an error.
\<close>

record conn_env =
  ce_load :: bool
  ce_save1 :: bool
  ce_save2 :: bool
  ce_save3 :: bool
  ce_now :: instant
  ce_between :: "collector \<Rightarrow> collector"

type_synonym 's exchange = "conn_report \<Rightarrow> 's \<Rightarrow> bool \<times> 's"

definition report_window ::
  "conn_env \<Rightarrow> 's exchange \<Rightarrow> collector option \<Rightarrow> conn_state \<Rightarrow> conn_state \<Rightarrow> 's \<Rightarrow> bool \<times> collector option \<times> conn_state \<times> 's" where
  "report_window e post2 co file st srv =
     (case co of
        None \<Rightarrow> (True, None, file, srv)
      | Some c \<Rightarrow>
        let (r, c1, st1) = buildConnectionReport (ce_between e) (ce_now e) c st in
        (case r of
           None \<Rightarrow> (ce_save2 e, Some c1, if ce_save2 e then st1 else file, srv)
         | Some report \<Rightarrow>
           let st2 = st1\<lparr>cs_pending := Some report\<rparr> in
           if \<not> ce_save2 e then (False, Some c1, file, srv)
           else
             let (ok, srv1) = post2 report srv in
             if \<not> ok then (False, Some c1, st2, srv1)
             else (ce_save3 e, Some c1, if ce_save3 e then st2\<lparr>cs_pending := None\<rparr> else st2, srv1)))"

definition ReportConnections ::
  "conn_env \<Rightarrow> 's exchange \<Rightarrow> 's exchange \<Rightarrow> collector option \<Rightarrow> conn_state \<Rightarrow> 's \<Rightarrow> bool \<times> collector option \<times> conn_state \<times> 's" where
  "ReportConnections e post1 post2 co file srv =
     (if \<not> ce_load e then (False, co, file, srv)
      else
        (case cs_pending file of
           None \<Rightarrow> report_window e post2 co file file srv
         | Some r \<Rightarrow>
           let (ok, srv1) = post1 r srv; st1 = file\<lparr>cs_pending := None\<rparr> in
           if \<not> ok then (False, co, file, srv1)
           else if \<not> ce_save1 e then (False, co, file, srv1)
           else report_window e post2 co st1 st1 srv1))"

text \<open>The last window of a collector that has been stopped; a report that is still pending keeps its place.\<close>

definition flushConnectionsToState :: "bool \<Rightarrow> bool \<Rightarrow> instant \<Rightarrow> collector option \<Rightarrow> conn_state \<Rightarrow> conn_state" where
  "flushConnectionsToState load save now co file =
     (case co of
        None \<Rightarrow> file
      | Some c \<Rightarrow>
        if \<not> load then file
        else
          let (r, _, st) = buildConnectionReport id now c file;
              st1 = (case r of
                       None \<Rightarrow> st
                     | Some report \<Rightarrow> if cs_pending st \<noteq> None then st else st\<lparr>cs_pending := Some report\<rparr>)
          in if save then st1 else file)"

text \<open>The configuration on disk decides whether a collector runs and with which options; a changed one starts anew.\<close>

definition reconcileConnectionCollector ::
  "discovery_error + telemetry_options \<Rightarrow> instant \<Rightarrow> conn_state option \<Rightarrow> (telemetry_options \<times> collector) option
     \<Rightarrow> (telemetry_options \<times> collector) option" where
  "reconcileConnectionCollector found now file running =
     (case found of
        Inl _ \<Rightarrow> None
      | Inr options \<Rightarrow>
        let fresh = newConnectionCollector now;
            started = (case file of None \<Rightarrow> fresh | Some st \<Rightarrow> setStartupCloseHighWater (cs_close_ms st) fresh)
        in (case running of
              Some (o1, c) \<Rightarrow> if o1 = options then Some (o1, c) else Some (options, started)
            | None \<Rightarrow> Some (options, started)))"

end
