(* ===== verification/Connection_Properties.thy ===== *)
theory Connection_Properties
  imports Connection_Collector
begin

text \<open>
  What the connection collector keeps: it stays within its bounds, its ring is a bounded queue, and a replay
  is counted once.
\<close>

section \<open>The ring is a bounded queue\<close>

text \<open>The abstract queue, newest first: a new id enters in front, and what exceeds the limit falls out.\<close>

definition push :: "nat \<Rightarrow> string \<Rightarrow> string list \<Rightarrow> string list" where
  "push n x q = (if x \<in> set q then q else take n (x # q))"

definition ring_view :: "id_ring \<Rightarrow> string list" where
  "ring_view r = rev (rotate (rg_next r) (rg_order r))"

definition ring_abs :: "nat \<Rightarrow> id_ring \<Rightarrow> string list \<Rightarrow> bool" where
  "ring_abs n r q \<longleftrightarrow>
     length (rg_order r) = n \<and> rg_next r < n \<and> length q \<le> n \<and> ring_view r = q @ replicate (n - length q) []
     \<and> distinct q \<and> [] \<notin> set q \<and> rg_ids r = set q"

lemma rotate_replace:
  assumes "k < length xs"
  shows "rotate (Suc k mod length xs) (xs[k := x]) = tl (rotate k xs) @ [x]"
proof -
  have "rotate (Suc k mod length xs) (xs[k := x]) = drop (Suc k) (xs[k := x]) @ take (Suc k) (xs[k := x])"
    using assms by (cases "Suc k = length xs") (simp_all add: rotate_drop_take)
  also have "\<dots> = drop (Suc k) xs @ take k xs @ [x]"
    using assms by (simp add: take_Suc_conv_app_nth)
  also have "drop (Suc k) xs = tl (drop k xs)" by (simp add: drop_Suc tl_drop)
  finally show ?thesis using assms by (simp add: rotate_drop_take)
qed

lemma ring_view_add:
  assumes "rg_next r < length (rg_order r)" and "x \<notin> rg_ids r"
  shows "ring_view (ring_add r x) = x # butlast (ring_view r)"
proof -
  have "ring_view (ring_add r x) = rev (tl (rotate (rg_next r) (rg_order r)) @ [x])"
    using assms rotate_replace [OF assms(1)] by (simp add: ring_view_def ring_add_def Let_def)
  then show ?thesis by (simp add: ring_view_def butlast_rev)
qed

lemma last_view: "rg_next r < length (rg_order r) \<Longrightarrow> last (ring_view r) = rg_order r ! rg_next r"
  by (cases "rg_order r = []") (auto simp: ring_view_def last_rev hd_rotate_conv_nth)

lemma ring_add_refines:
  assumes abs: "ring_abs n r q" and x: "x \<noteq> []"
  shows "ring_abs n (ring_add r x) (push n x q)"
proof (cases "x \<in> rg_ids r")
  case True
  then show ?thesis using abs by (simp add: ring_abs_def ring_add_def push_def)
next
  case False
  have a: "length (rg_order r) = n" "rg_next r < n" "length q \<le> n" "ring_view r = q @ replicate (n - length q) []"
    "distinct q" "[] \<notin> set q" "rg_ids r = set q" using abs by (simp_all add: ring_abs_def)
  have xq: "x \<notin> set q" using False a(7) by simp
  have view: "ring_view (ring_add r x) = x # butlast (ring_view r)" using False a(1,2) by (simp add: ring_view_add)
  have out: "rg_order r ! rg_next r = last (ring_view r)" using a(1,2) by (simp add: last_view)
  show ?thesis
  proof (cases "length q = n")
    case True
    then have ne: "q \<noteq> []" and l: "last (ring_view r) = last q" "butlast (ring_view r) = butlast q" using a(2,4) by auto
    have "rg_ids (ring_add r x) = insert x (set q - {last q})"
      using False ne a(6,7) last_in_set [OF ne] by (auto simp: ring_add_def Let_def out l)
    also have "set q - {last q} = set (butlast q)"
      using a(5) ne by (metis append_butlast_last_id distinct_butlast not_distinct_conv_prefix Diff_insert_absorb
          list.simps(15) rotate1.simps(2) set_rotate1 distinct1_rotate distinct.simps(2))
    finally have ids: "rg_ids (ring_add r x) = set (x # butlast q)" by simp
    have "push n x q = x # butlast q" using True ne xq a(2) by (cases n) (simp_all add: push_def butlast_conv_take)
    then show ?thesis using True ne xq a(1,2,5,6) x ids view l False
      by (auto simp: ring_abs_def ring_add_def Let_def distinct_butlast dest: in_set_butlastD)
  next
    case False2: False
    then have less: "length q < n" using a(3) by simp
    have l: "last (ring_view r) = []" "butlast (ring_view r) = q @ replicate (n - Suc (length q)) []"
      using less by (simp_all add: a(4) butlast_append butlast_conv_take [of "replicate _ _"] min_def)
    have "push n x q = x # q" using xq less by (simp add: push_def)
    then show ?thesis using less xq a(1,2,5,6,7) x view l False
      by (auto simp: ring_abs_def ring_add_def Let_def out)
  qed
qed

lemma new_ring: "0 < n \<Longrightarrow> ring_abs n (newClosedIDRing n) []"
  by (simp add: ring_abs_def newClosedIDRing_def ring_view_def)

lemma push_young: "x \<in> set (take k q) \<Longrightarrow> Suc k \<le> n \<Longrightarrow> x \<in> set (take (Suc k) (push n y q))"
  using set_take_subset_set_take [of k "Suc k" q] by (auto simp: push_def)

section \<open>Events and the ring\<close>

lemma cover_simps [simp]:
  "co_accounted (cover f c) = co_accounted c" "co_live (cover f c) = co_live c" "co_buckets (cover f c) = co_buckets c"
  "co_epoch (cover f c) = co_epoch c" "co_high (cover f c) = co_high c" "co_coverage (cover f c) = f (co_coverage c)"
  by (simp_all add: cover_def)

lemma note_simps [simp]:
  "co_accounted (note_dropped c) = co_accounted c" "co_live (note_dropped c) = co_live c" "co_buckets (note_dropped c) = co_buckets c"
  "co_accounted (note_orphaned c) = co_accounted c" "co_live (note_orphaned c) = co_live c" "co_buckets (note_orphaned c) = co_buckets c"
  by (simp_all add: note_dropped_def note_orphaned_def)

lemma touch_frame:
  "touch t c = (t1, c1) \<Longrightarrow> co_accounted c1 = co_accounted c \<and> co_live c1 = co_live c \<and> co_buckets c1 = co_buckets c
     \<and> t1 = t\<lparr>tk_counted := True\<rparr>"
  by (auto simp: touch_def split: if_splits)

lemma newTracked_frame:
  "newTracked i n c = (r, c1) \<Longrightarrow> co_accounted c1 = co_accounted c \<and> co_live c1 = co_live c \<and> co_buckets c1 = co_buckets c"
  by (auto simp: newTracked_def split: option.splits)

lemma record_event_frame [simp]:
  "co_accounted (record_event t tm up down opened ended duration c) = co_accounted c"
  "co_live (record_event t tm up down opened ended duration c) = co_live c"
  by (simp_all add: record_event_def cover_bytes_def Let_def split: option.split)

lemma closeTracked_simps [simp]:
  "co_accounted (closeTracked i t e up down opened c) = ring_add (co_accounted c) i"
  "co_live (closeTracked i t e up down opened c) = AList.delete i (co_live c)"
  by (simp_all add: closeTracked_def Let_def)

lemma set_live_simps [simp]:
  "co_accounted (set_live i t c) = co_accounted c" "co_live (set_live i t c) = AList.update i t (co_live c)"
  "co_buckets (set_live i t c) = co_buckets c" "co_coverage (set_live i t c) = co_coverage c"
  by (simp_all add: set_live_def)

text \<open>An event adds at most one id to the ring.\<close>

lemma applyNew_ring:
  "co_accounted (applyNew e now c) = co_accounted c \<or> (\<exists>i. i \<noteq> [] \<and> co_accounted (applyNew e now c) = ring_add (co_accounted c) i)"
  by (auto simp: applyNew_def Let_def split: option.split prod.split dest!: touch_frame newTracked_frame)

lemma applyUpdate_ring: "co_accounted (applyUpdate e now c) = co_accounted c"
  by (auto simp: applyUpdate_def Let_def split: option.split prod.split dest!: touch_frame)

lemma applyClosed_ring:
  "co_accounted (applyClosed e now c) = co_accounted c \<or> (\<exists>i. i \<noteq> [] \<and> co_accounted (applyClosed e now c) = ring_add (co_accounted c) i)"
  by (auto simp: applyClosed_def Let_def split: option.split prod.split dest!: touch_frame newTracked_frame)

lemma apply_event_ring:
  "co_accounted (apply_event now e c) = co_accounted c
   \<or> (\<exists>i. i \<noteq> [] \<and> co_accounted (apply_event now e c) = ring_add (co_accounted c) i)"
  using applyNew_ring applyUpdate_ring applyClosed_ring by (simp add: apply_event_def split: event_kind.split)

section \<open>The state of the collector\<close>

definition counts_ok :: "coverage \<Rightarrow> bool" where
  "counts_ok v \<longleftrightarrow>
     cv_observed v = cv_attributed v + cv_unattributed v \<and> 0 \<le> cv_attributed v \<and> 0 \<le> cv_unattributed v
     \<and> 0 \<le> cv_orphaned v \<and> 0 \<le> cv_resets v \<and> 0 \<le> cv_dropped v"

text \<open>A pending bucket stands under its key, and a session is one connection that was closed at most once.\<close>

definition bucket_ok :: "bucket_key \<times> bucket \<Rightarrow> bool" where
  "bucket_ok e \<longleftrightarrow> DimensionKey (snd e) = fst e
     \<and> (bk_id (snd e) \<noteq> [] \<longrightarrow> bk_opened (snd e) = 1 \<and> bk_closed (snd e) \<in> {0, 1})"

definition collector_ok :: "collector \<Rightarrow> bool" where
  "collector_ok c \<longleftrightarrow>
     length (co_live c) \<le> maxTrackedConnections \<and> distinct (map fst (co_live c))
     \<and> length (co_buckets c) \<le> maxPendingConnectionBuckets \<and> distinct (map fst (co_buckets c))
     \<and> list_all bucket_ok (co_buckets c) \<and> counts_ok (co_coverage c)"

lemma length_update: "length (AList.update k v xs) = (if k \<in> fst ` set xs then length xs else Suc (length xs))"
  by (induction xs) auto

lemma set_update_sub: "set (AList.update k v xs) \<subseteq> insert (k, v) (set xs)"
  by (induction xs) auto

lemma update_all: "list_all P xs \<Longrightarrow> P (k, v) \<Longrightarrow> list_all P (AList.update k v xs)"
  using set_update_sub [of k v xs] by (auto simp: list_all_iff)

lemma cover_ok: "collector_ok c \<Longrightarrow> counts_ok (f (co_coverage c)) \<Longrightarrow> collector_ok (cover f c)"
  by (simp add: collector_ok_def cover_def)

lemma note_ok [intro]: "collector_ok c \<Longrightarrow> collector_ok (note_dropped c)" "collector_ok c \<Longrightarrow> collector_ok (note_orphaned c)"
  by (auto simp: note_dropped_def note_orphaned_def counts_ok_def collector_ok_def intro!: cover_ok)

lemma touch_ok: "touch t c = (t1, c1) \<Longrightarrow> collector_ok c \<Longrightarrow> collector_ok c1"
  by (auto simp: touch_def counts_ok_def collector_ok_def split: if_splits intro!: cover_ok)

lemma newTracked_ok: "newTracked i n c = (r, c1) \<Longrightarrow> collector_ok c \<Longrightarrow> collector_ok c1"
  by (auto simp: newTracked_def split: option.splits)

lemma set_live_ok:
  "collector_ok c \<Longrightarrow> i \<in> fst ` set (co_live c) \<or> length (co_live c) < maxTrackedConnections \<Longrightarrow> collector_ok (set_live i t c)"
  by (auto simp: collector_ok_def set_live_def length_update distinct_update)

lemma cover_bytes_ok: "collector_ok c \<Longrightarrow> collector_ok (cover_bytes t up down c)"
  by (auto simp: cover_bytes_def Let_def counts_ok_def collector_ok_def intro!: cover_ok)

lemma snapshot_ok: "ended \<in> {0, 1} \<Longrightarrow> bucket_ok (DimensionKey (session_snapshot t tm ended duration), session_snapshot t tm ended duration)"
  by (simp add: bucket_ok_def session_snapshot_def Let_def)

lemma key_session: "DimensionKey b = DimensionKey b' \<Longrightarrow> bk_id b \<noteq> [] \<longleftrightarrow> bk_id b' \<noteq> []"
  by (auto simp: DimensionKey_def split: if_splits)

lemma merge_ok:
  assumes "bucket_ok (k, old)" and "bucket_ok (k, b)"
  shows "bucket_ok (k, Merge old b)"
proof -
  have "DimensionKey old = DimensionKey b" using assms by (simp add: bucket_ok_def)
  then have "bk_id old \<noteq> [] \<longleftrightarrow> bk_id b \<noteq> []" by (rule key_session)
  moreover have "bk_id (Merge old b) = bk_id old" by (simp add: Merge_def Let_def)
  moreover have "bk_opened (Merge old b) = max (bk_opened old) (bk_opened b)" "bk_closed (Merge old b) = max (bk_closed old) (bk_closed b)"
    if "bk_id old \<noteq> []" using that by (simp_all add: Merge_def Let_def)
  ultimately show ?thesis using assms by (simp add: bucket_ok_def) linarith
qed

lemma buckets_ok:
  assumes "collector_ok c" and "bucket_ok (k, b)"
    and "map_of (co_buckets c) k = None \<Longrightarrow> length (co_buckets c) < maxPendingConnectionBuckets"
  shows "collector_ok (c\<lparr>co_buckets := AList.update k b (co_buckets c)\<rparr>)"
  using assms by (auto simp: collector_ok_def length_update distinct_update update_all map_of_eq_None_iff)

lemma record_event_ok:
  assumes ok: "collector_ok c" and e: "ended \<in> {0, 1}"
  shows "collector_ok (record_event t tm up down opened ended duration c)"
proof -
  let ?b = "session_snapshot t tm ended duration"
  have b: "bucket_ok (DimensionKey ?b, ?b)" by (rule snapshot_ok [OF e])
  have old: "bucket_ok (k, o')" if "map_of (co_buckets c) k = Some o'" for k o'
    using that ok map_of_SomeD by (fastforce simp: collector_ok_def list_all_iff)
  show ?thesis
    using ok b old by (auto simp: record_event_def Let_def not_le split: option.split intro!: cover_bytes_ok buckets_ok merge_ok)
qed

lemma closeTracked_ok:
  assumes "collector_ok c"
  shows "collector_ok (closeTracked i t e up down opened c)"
proof -
  have retire: "collector_ok (d\<lparr>co_live := AList.delete i l, co_accounted := r, co_high := h\<rparr>)"
    if "collector_ok d" "co_live d = l" for d l r h
    using that by (auto simp: collector_ok_def AList.delete_eq distinct_map_filter intro: order_trans [OF length_filter_le])
  show ?thesis using record_event_ok [OF assms, of 1] by (auto simp: closeTracked_def Let_def intro!: retire)
qed

lemma touched_live_ok:
  "touch t c = (t1, c1) \<Longrightarrow> map_of (co_live c) i = Some x \<Longrightarrow> collector_ok c \<Longrightarrow> collector_ok (set_live i t' c1)"
  using touch_frame [of t c t1 c1] touch_ok [of t c t1 c1] map_of_eq_None_iff [of "co_live c" i]
  by (auto intro!: set_live_ok)

lemma touched_new_ok:
  "touch t c1 = (t1, c2) \<Longrightarrow> newTracked i n c = (r, c1) \<Longrightarrow> length (co_live c) < maxTrackedConnections \<Longrightarrow> collector_ok c
     \<Longrightarrow> collector_ok (set_live i t' c2)"
  using touch_frame [of t c1 t1 c2] touch_ok [of t c1 t1 c2] newTracked_frame [of i n c r c1] newTracked_ok [of i n c r c1]
  by (auto intro!: set_live_ok)

lemma touched_orphan_ok: "touch t c1 = (t1, c2) \<Longrightarrow> newTracked i n c = (r, c1) \<Longrightarrow> collector_ok c \<Longrightarrow> collector_ok c2"
  using touch_ok newTracked_ok by blast

lemma applyNew_ok:
  assumes ok: "collector_ok c"
  shows "collector_ok (applyNew e now c)"
proof (cases "ev_connection e")
  case (Some n)
  let ?i = "connectionEventID e n"
  show ?thesis
  proof (cases "map_of (co_live c) ?i")
    case None
    show ?thesis
    proof (cases "newTracked ?i n c")
      case (Pair r c1)
      note new = touched_new_ok [OF _ Pair _ ok] and orphan = touched_orphan_ok [OF _ Pair ok] and tracked = newTracked_ok [OF Pair ok]
      show ?thesis using ok Some None Pair tracked
        by (auto simp: applyNew_def Let_def not_le split: option.split prod.split
            intro!: closeTracked_ok record_event_ok note_ok dest: orphan new)
    qed
  next
    case (Some t)
    then show ?thesis using ok \<open>ev_connection e = Some n\<close>
      by (auto simp: applyNew_def Let_def split: prod.split intro!: closeTracked_ok record_event_ok intro: touched_live_ok)
  qed
qed (simp add: applyNew_def ok)

lemma applyUpdate_ok: "collector_ok c \<Longrightarrow> collector_ok (applyUpdate e now c)"
  by (auto simp: applyUpdate_def Let_def split: option.split prod.split intro!: record_event_ok intro: touched_live_ok)

lemma applyClosed_ok:
  assumes ok: "collector_ok c"
  shows "collector_ok (applyClosed e now c)"
proof (cases "map_of (co_live c) (event.ev_id e)")
  case None
  then show ?thesis using ok note_ok(2) [OF ok] newTracked_ok touched_orphan_ok
    by (auto simp: applyClosed_def Let_def split: option.split prod.split intro!: closeTracked_ok)
next
  case (Some t)
  then show ?thesis using ok
    by (auto simp: applyClosed_def Let_def split: option.split prod.split intro!: closeTracked_ok intro: touched_live_ok)
qed

lemma apply_event_ok: "collector_ok c \<Longrightarrow> collector_ok (apply_event now e c)"
  using applyNew_ok applyUpdate_ok applyClosed_ok by (simp add: apply_event_def split: event_kind.split)

lemma fold_keeps: "(\<And>x s. P s \<Longrightarrow> P (f x s)) \<Longrightarrow> P s \<Longrightarrow> P (fold f xs s)"
  by (induction xs arbitrary: s) auto

lemma sweep_ok: "collector_ok c \<Longrightarrow> collector_ok (sweepStale c)"
  by (auto simp: collector_ok_def sweepStale_def distinct_map_filter intro: order_trans [OF length_filter_le])

lemma begin_replay_ok: "collector_ok c \<Longrightarrow> collector_ok (begin_replay c)"
  by (auto simp: begin_replay_def Let_def collector_ok_def cover_def counts_ok_def)

lemma apply_batch_ok: "collector_ok c \<Longrightarrow> collector_ok (apply_batch b now c)"
  by (auto simp: apply_batch_def Let_def split: option.split intro!: sweep_ok fold_keeps [where P = collector_ok] apply_event_ok begin_replay_ok)

lemma Drain_ok: "collector_ok c \<Longrightarrow> collector_ok (snd (Drain now c))"
  by (auto simp: Drain_def Let_def collector_ok_def counts_ok_def no_coverage_def comp_def split_def)

section \<open>Runs of the collector\<close>

text \<open>A collector receives batches and is drained, in any order.\<close>

datatype input = Received "batch option" instant | Drained instant

fun feed :: "input \<Rightarrow> collector \<Rightarrow> collector" where
  "feed (Received b t) c = apply_batch b t c"
| "feed (Drained t) c = snd (Drain t c)"

fun n_events :: "input \<Rightarrow> nat" where
  "n_events (Received (Some b) t) = length (ba_events b)"
| "n_events _ = 0"

definition started :: "instant \<Rightarrow> int \<Rightarrow> collector" where
  "started t ms = setStartupCloseHighWater ms (newConnectionCollector t)"

lemma feed_ok: "collector_ok c \<Longrightarrow> collector_ok (feed x c)"
  by (cases x) (auto simp: apply_batch_ok Drain_ok)

lemma started_ok: "collector_ok (started t ms)"
  by (simp add: started_def setStartupCloseHighWater_def newConnectionCollector_def collector_ok_def counts_ok_def no_coverage_def)

text \<open>The ring of the collector, seen as a queue of ids, ages by at most one place per event.\<close>

definition ring_ok :: "collector \<Rightarrow> string list \<Rightarrow> bool" where
  "ring_ok c q \<longleftrightarrow> ring_abs maxAccountedCloseIDs (co_accounted c) q"

definition ages :: "string \<Rightarrow> nat \<Rightarrow> string list \<Rightarrow> string list \<Rightarrow> bool" where
  "ages i m q q' \<longleftrightarrow>
     (\<forall>k. i \<in> set (take k q) \<longrightarrow> k + m \<le> maxAccountedCloseIDs \<longrightarrow> i \<in> set (take (k + m) q'))
     \<and> (\<forall>k. (i \<in> set q \<longrightarrow> i \<in> set (take k q)) \<longrightarrow> i \<in> set q' \<longrightarrow> i \<in> set (take (k + m) q'))"

lemma ages_refl: "ages i 0 q q"
  by (simp add: ages_def)

lemma ages_trans: "ages i m q q1 \<Longrightarrow> ages i n q1 q2 \<Longrightarrow> ages i (m + n) q q2"
  unfolding ages_def add.assoc [symmetric] by (meson add_leD1)

lemma ages_idle: "ages i 1 q q"
proof -
  have "set (take k q) \<subseteq> set (take (k + 1) q)" for k by (rule set_take_subset_set_take) simp
  then show ?thesis unfolding ages_def by blast
qed

lemma ages_push: "ages i 1 q (push maxAccountedCloseIDs y q)"
proof -
  have "i \<in> set (take (Suc k) (push maxAccountedCloseIDs y q))"
    if k: "i \<in> set q \<longrightarrow> i \<in> set (take k q)" and i: "i \<in> set (push maxAccountedCloseIDs y q)" for k
  proof (cases "Suc k \<le> maxAccountedCloseIDs \<and> i \<in> set q")
    case True
    then show ?thesis using k push_young by blast
  next
    case False
    then show ?thesis using k i set_take_subset_set_take [of k "Suc k" q]
      by (auto simp: push_def take_Cons' min_def split: if_splits dest: in_set_takeD)
  qed
  then show ?thesis by (simp add: ages_def push_young)
qed

lemma event_ages: "ring_ok c q \<Longrightarrow> \<exists>q'. ring_ok (apply_event now e c) q' \<and> ages i 1 q q'"
  using apply_event_ring [of now e c] ring_add_refines ages_push [of i q] ages_idle [of i q]
  unfolding ring_ok_def by metis

lemma events_age: "ring_ok c q \<Longrightarrow> \<exists>q'. ring_ok (fold (apply_event now) es c) q' \<and> ages i (length es) q q'"
proof (induction es arbitrary: c q)
  case (Cons e es)
  obtain q1 where 1: "ring_ok (apply_event now e c) q1" "ages i 1 q q1" using event_ages [OF Cons.prems] by blast
  obtain q2 where "ring_ok (fold (apply_event now) es (apply_event now e c)) q2" "ages i (length es) q1 q2"
    using Cons.IH [OF 1(1)] by blast
  then show ?case using ages_trans [OF 1(2)] by auto
qed (auto intro: ages_refl)

lemma frame_rings [simp]:
  "co_accounted (begin_replay c) = co_accounted c" "co_accounted (sweepStale c) = co_accounted c"
  "co_accounted (snd (Drain t c)) = co_accounted c"
  by (simp_all add: begin_replay_def sweepStale_def Drain_def Let_def)

lemma feed_ages: "ring_ok c q \<Longrightarrow> \<exists>q'. ring_ok (feed x c) q' \<and> ages i (n_events x) q q'"
proof (cases x)
  case (Received b t)
  assume ok: "ring_ok c q"
  have e: "ring_ok (begin_replay c) q" "\<And>d r. ring_ok (sweepStale d) r = ring_ok d r" using ok by (simp_all add: ring_ok_def)
  show ?thesis
    using Received ok events_age [OF ok] events_age [OF e(1)] ages_refl e(2)
    by (cases b) (auto simp: apply_batch_def Let_def)
next
  case (Drained t)
  assume "ring_ok c q"
  then show ?thesis using Drained ages_refl by (auto simp: ring_ok_def)
qed

lemma feeds_age: "ring_ok c q \<Longrightarrow> \<exists>q'. ring_ok (fold feed xs c) q' \<and> ages i (sum_list (map n_events xs)) q q'"
proof (induction xs arbitrary: c q)
  case (Cons x xs)
  obtain q1 where 1: "ring_ok (feed x c) q1" "ages i (n_events x) q q1" using feed_ages [OF Cons.prems] by blast
  obtain q2 where "ring_ok (fold feed xs (feed x c)) q2" "ages i (sum_list (map n_events xs)) q1 q2"
    using Cons.IH [OF 1(1)] by blast
  then show ?case using ages_trans [OF 1(2)] by auto
qed (auto intro: ages_refl)

lemma started_ring: "ring_ok (started t ms) []"
  by (simp add: ring_ok_def started_def setStartupCloseHighWater_def newConnectionCollector_def maxAccountedCloseIDs_def new_ring)

lemma ring_contains_iff: "ring_ok c q \<Longrightarrow> ring_contains (co_accounted c) i \<longleftrightarrow> i \<in> set q"
  by (simp add: ring_ok_def ring_abs_def ring_contains_def)

lemma accounted_stays:
  assumes c0: "c0 = fold feed ins0 (started t ms)" and c1: "c1 = fold feed ins1 c0" and c2: "c2 = fold feed ins2 c1"
    and new: "\<not> ring_contains (co_accounted c0) i" and acc: "ring_contains (co_accounted c1) i"
    and few: "sum_list (map n_events (ins1 @ ins2)) \<le> maxAccountedCloseIDs"
  shows "ring_contains (co_accounted c2) i"
proof -
  obtain q0 where q0: "ring_ok c0 q0" using feeds_age [OF started_ring] c0 by blast
  obtain q1 where q1: "ring_ok c1 q1" "ages i (sum_list (map n_events ins1)) q0 q1" using feeds_age [OF q0] c1 by blast
  obtain q2 where q2: "ring_ok c2 q2" "ages i (sum_list (map n_events ins2)) q1 q2" using feeds_age [OF q1(1)] c2 by blast
  have "i \<in> set (take (sum_list (map n_events ins1)) q1)"
    using q1 new acc ring_contains_iff [OF q0] ring_contains_iff [OF q1(1)] unfolding ages_def
    by (metis add_0 empty_iff)
  then have "i \<in> set q2" using q2(2) few unfolding ages_def by (metis in_set_takeD map_append sum_list_append)
  then show ?thesis using ring_contains_iff [OF q2(1)] by simp
qed

section \<open>The collector stays within its bounds\<close>

lemma feeds_ok: "collector_ok (fold feed ins (started t ms))"
  by (rule fold_keeps [where P = collector_ok]) (simp_all add: feed_ok started_ok)

text \<open>
  C16: whatever stream the collector receives and whenever it is drained, it tracks at most 4096 connections
  under distinct ids, holds at most 2000 pending buckets, each under its own key and, for a session, as
  one connection closed at most once, and remembers at most 2048 closes, in a ring that is a queue of
  distinct ids; every connection it has observed counts as attributed or as unattributed.
\<close>
theorem collector_bounded:
  "let c = fold feed ins (started t ms) in
     length (co_live c) \<le> 4096 \<and> distinct (map fst (co_live c))
     \<and> length (co_buckets c) \<le> 2000 \<and> distinct (map fst (co_buckets c)) \<and> list_all bucket_ok (co_buckets c)
     \<and> (\<exists>q. ring_ok c q) \<and> finite (rg_ids (co_accounted c)) \<and> card (rg_ids (co_accounted c)) \<le> 2048
     \<and> cv_observed (co_coverage c) = cv_attributed (co_coverage c) + cv_unattributed (co_coverage c)"
proof -
  let ?c = "fold feed ins (started t ms)"
  obtain q where q: "ring_ok ?c q" using feeds_age [OF started_ring] by blast
  then have "rg_ids (co_accounted ?c) = set q" "length q \<le> 2048"
    by (simp_all add: ring_ok_def ring_abs_def maxAccountedCloseIDs_def)
  then have "finite (rg_ids (co_accounted ?c))" "card (rg_ids (co_accounted ?c)) \<le> 2048"
    using card_length [of q] by simp_all
  then show ?thesis using q feeds_ok [of ins t ms]
    by (auto simp: Let_def collector_ok_def counts_ok_def maxTrackedConnections_def maxPendingConnectionBuckets_def)
qed

section \<open>Replays count once\<close>

definition reports_close :: "string \<Rightarrow> event \<Rightarrow> bool" where
  "reports_close i e \<longleftrightarrow>
     (case ev_kind e of
        EventClosed \<Rightarrow> event.ev_id e = i
      | EventNew \<Rightarrow> (case ev_connection e of None \<Rightarrow> False | Some n \<Rightarrow> connectionEventID e n = i \<and> cn_closed n \<noteq> 0)
      | _ \<Rightarrow> False)"

lemma accounted_close_ignored:
  "ring_contains (co_accounted c) i \<Longrightarrow> map_of (co_live c) i = None \<Longrightarrow> reports_close i e \<Longrightarrow> apply_event now e c = c"
  by (auto simp: reports_close_def apply_event_def applyNew_def applyClosed_def Let_def split: event_kind.splits option.splits)

text \<open>A replay of an open connection whose totals are known.\<close>

definition known_replay :: "event \<Rightarrow> collector \<Rightarrow> bool" where
  "known_replay e c \<longleftrightarrow>
     ev_kind e = EventNew
     \<and> (case ev_connection e of
          None \<Rightarrow> False
        | Some n \<Rightarrow>
          cn_closed n = 0
          \<and> (case map_of (co_live c) (connectionEventID e n) of
               None \<Rightarrow> False
             | Some t \<Rightarrow> cn_up_total n \<le> tk_up t \<and> cn_down_total n \<le> tk_down t))"

lemma touch_bytes: "touch t c = (t1, c1) \<Longrightarrow> cv_bytes (co_coverage c1) = cv_bytes (co_coverage c)"
  by (auto simp: touch_def split: if_splits)

lemma record_nothing [simp]: "record_event t tm 0 0 0 0 d c = c"
  by (simp add: record_event_def)

lemma known_replay_adds_nothing:
  assumes "known_replay e c"
  shows "co_buckets (apply_event now e c) = co_buckets c \<and> cv_bytes (co_coverage (apply_event now e c)) = cv_bytes (co_coverage c)"
proof -
  obtain n t where n: "ev_connection e = Some n" "cn_closed n = 0" and t: "map_of (co_live c) (connectionEventID e n) = Some t"
    and le: "cn_up_total n \<le> tk_up t" "cn_down_total n \<le> tk_down t" and k: "ev_kind e = EventNew"
    using assms by (auto simp: known_replay_def split: option.splits)
  obtain t1 c1 where touched: "touch (t\<lparr>tk_epoch := co_epoch c\<rparr>) c = (t1, c1)" by fastforce
  note frame = touch_frame [OF touched]
  obtain t2 where adv: "advance_totals t1 (cn_up_total n) (cn_down_total n) = (0, 0, t2)"
    using le frame by (simp add: advance_totals_def)
  have "apply_event now e c = (if connectionEventID e n = [] then c else set_live (connectionEventID e n) t2 c1)"
    by (simp add: apply_event_def applyNew_def k n t touched adv Let_def)
  then show ?thesis using frame touch_bytes [OF touched] by simp
qed

text \<open>
  C18: a replay never counts twice. Let the close of a connection be accounted for between two states, and
  let at most 2048 events have come since the first of them, with any resets and drains among them. Then
  an event that reports the close again changes nothing; and a replay of an open connection with totals
  that are known adds no byte and no bucket.
\<close>
theorem replays_count_once:
  assumes "c0 = fold feed ins0 (started t ms)" and "c1 = fold feed ins1 c0" and "c2 = fold feed ins2 c1"
    and "\<not> ring_contains (co_accounted c0) i" and "ring_contains (co_accounted c1) i"
    and "sum_list (map n_events (ins1 @ ins2)) \<le> 2048"
  shows "(map_of (co_live c2) i = None \<longrightarrow> reports_close i e \<longrightarrow> apply_event now e c2 = c2)
    \<and> (known_replay e' c2 \<longrightarrow> co_buckets (apply_event now e' c2) = co_buckets c2
         \<and> cv_bytes (co_coverage (apply_event now e' c2)) = cv_bytes (co_coverage c2))"
proof -
  have "ring_contains (co_accounted c2) i"
    using accounted_stays [OF assms(1-5)] assms(6) by (simp add: maxAccountedCloseIDs_def)
  then show ?thesis using accounted_close_ignored known_replay_adds_nothing by blast
qed

definition sample_connection :: connection where
  "sample_connection =
     \<lparr>cn_id = ''c1'', cn_created = 1000, cn_closed = 5000, cn_up_total = 10, cn_down_total = 20, cn_user = ''alice'',
      cn_source = ''10.0.0.1:5000'', cn_destination = ''Example.com:443'', cn_domain = [], cn_network = ''tcp'', cn_ip_version = 4,
      cn_protocol = [], cn_inbound = ''in'', cn_inbound_type = ''vless'', cn_rule = [], cn_outbound = ''direct'',
      cn_outbound_type = ''direct'', cn_chain = [''direct'']\<rparr>"

definition sample_close :: "event_kind \<Rightarrow> event" where
  "sample_close k = \<lparr>ev_kind = k, ev_id = ''c1'', ev_connection = Some sample_connection, ev_up_delta = 0, ev_down_delta = 0, ev_closed_at = 0\<rparr>"

definition sample_open :: event where
  "sample_open = \<lparr>ev_kind = EventNew, ev_id = ''c2'', ev_connection = Some (sample_connection\<lparr>cn_closed := 0\<rparr>), ev_up_delta = 0,
     ev_down_delta = 0, ev_closed_at = 0\<rparr>"

definition sample_inputs :: "input list" where
  "sample_inputs = [Received (Some \<lparr>ba_reset = False, ba_events = [sample_close EventClosed, sample_open]\<rparr>) 7000000000]"

lemma session_template:
  assumes "trim_space i \<noteq> []" and "in_years (sql_now (unix_milli (cn_created n)))" and "NormalizeConnectionHost (cn_domain n) = []"
    and "NormalizeConnectionHost (fst (Endpoint n)) \<noteq> []" and "0 \<le> snd (Endpoint n) \<and> snd (Endpoint n) \<le> 65535"
  shows "Normalize (template_of i n) \<noteq> None"
  using assms
  by (auto simp: Normalize_def template_of_def NormalizeConnectionInstant_def usable_bucket_def normal_window_def normal_texts_def
      Let_def split_def)

lemma sample_template:
  assumes "i = ''c1'' \<or> i = ''c2''" and "n = sample_connection\<lparr>cn_closed := e\<rparr>"
  shows "Normalize (template_of i n) \<noteq> None"
proof (rule session_template)
  have "trim_space ''c1'' \<noteq> []" "trim_space ''c2'' \<noteq> []" by code_simp+
  then show "trim_space i \<noteq> []" using assms by blast
  have ep: "Endpoint n = Endpoint sample_connection" using assms by (simp add: Endpoint_def sample_connection_def)
  show "in_years (sql_now (unix_milli (cn_created n)))" using assms
    by (simp add: in_years_def sql_now_def unix_milli_def sample_connection_def)
  have "NormalizeConnectionHost [] = []" by code_simp
  then show "NormalizeConnectionHost (cn_domain n) = []" using assms by (simp add: sample_connection_def)
  show "NormalizeConnectionHost (fst (Endpoint n)) \<noteq> []" unfolding ep by code_simp
  show "0 \<le> snd (Endpoint n) \<and> snd (Endpoint n) \<le> 65535" unfolding ep by code_simp
qed

lemma orphan_close:
  assumes "map_of (co_live c) (event.ev_id e) = None" and "\<not> ring_contains (co_accounted c) (event.ev_id e)" and "event.ev_id e \<noteq> []"
    and "ev_connection e = Some n" and "Normalize (template_of (event.ev_id e) n) \<noteq> None"
  shows "co_accounted (applyClosed e now c) = ring_add (co_accounted c) (event.ev_id e) \<and> co_live (applyClosed e now c) = AList.delete (event.ev_id e) (co_live c)"
  using assms
  by (auto simp: applyClosed_def newTracked_def Let_def split: option.split prod.split dest!: touch_frame)

lemma first_open:
  assumes "map_of (co_live c) i = None" and "length (co_live c) < maxTrackedConnections" and "i \<noteq> []"
    and "ev_connection e = Some n" and "connectionEventID e n = i" and "cn_closed n = 0" and "Normalize (template_of i n) \<noteq> None"
  shows "co_accounted (applyNew e now c) = co_accounted c
    \<and> (\<exists>t. co_live (applyNew e now c) = AList.update i t (co_live c) \<and> tk_up t = max 0 (cn_up_total n) \<and> tk_down t = max 0 (cn_down_total n))"
  using assms
  by (auto simp: applyNew_def newTracked_def advance_totals_def Let_def split: option.split prod.split dest!: touch_frame)

lemma sample_state:
  assumes "c1 = fold feed sample_inputs (started 0 0)" and "c2 = snd (Drain 1 c1)"
  shows "\<not> ring_contains (co_accounted (started 0 0)) ''c1''" and "ring_contains (co_accounted c1) ''c1''"
    and "map_of (co_live c2) ''c1'' = None" and "known_replay sample_open c2"
proof -
  let ?s = "started 0 0" and ?d = "applyClosed (sample_close EventClosed) 7000000000 (started 0 0)"
  have start: "rg_ids (co_accounted ?s) = {}" "co_live ?s = []"
    by (simp_all add: started_def setStartupCloseHighWater_def newConnectionCollector_def newClosedIDRing_def)
  show no: "\<not> ring_contains (co_accounted ?s) ''c1''" by (simp add: ring_contains_def start)
  have "Normalize (template_of ''c1'' sample_connection) \<noteq> None"
    by (rule sample_template [of _ _ "cn_closed sample_connection"]) simp_all
  then have d: "co_accounted ?d = ring_add (co_accounted ?s) ''c1''" "co_live ?d = []"
    using orphan_close [of ?s "sample_close EventClosed" sample_connection] no start by (simp_all add: sample_close_def)
  have "Normalize (template_of ''c2'' (sample_connection\<lparr>cn_closed := 0\<rparr>)) \<noteq> None" by (rule sample_template) simp_all
  then obtain t where t: "co_live (applyNew sample_open 7000000000 ?d) = [(''c2'', t)]" "tk_up t = 10" "tk_down t = 20"
    and acc: "co_accounted (applyNew sample_open 7000000000 ?d) = ring_add (co_accounted ?s) ''c1''"
    using first_open [of ?d "''c2''" sample_open "sample_connection\<lparr>cn_closed := 0\<rparr>"] d
    by (auto simp: sample_open_def sample_connection_def connectionEventID_def maxTrackedConnections_def)
  have c1: "c1 = applyNew sample_open 7000000000 ?d"
    by (simp add: assms(1) sample_inputs_def apply_batch_def apply_event_def sample_close_def sample_open_def Let_def)
  show "ring_contains (co_accounted c1) ''c1''" by (simp add: c1 acc ring_contains_def ring_add_def Let_def)
  have live: "co_live c2 = [(''c2'', t)] \<or> co_live c2 = [(''c2'', t\<lparr>tk_counted := False\<rparr>)]"
    using t(1) by (simp add: assms(2) c1 Drain_def Let_def)
  then show "map_of (co_live c2) ''c1'' = None" by auto
  show "known_replay sample_open c2"
    using live t by (auto simp: known_replay_def sample_open_def connectionEventID_def sample_connection_def)
qed

theorem replays_count_once_witness:
  "let c1 = fold feed sample_inputs (started 0 0); c2 = snd (Drain 1 c1) in
     ring_contains (co_accounted c1) ''c1'' \<and> known_replay sample_open c2
     \<and> reports_close ''c1'' (sample_close EventNew) \<and> apply_event 9 (sample_close EventNew) c2 = c2
     \<and> co_buckets (apply_event 9 sample_open c2) = co_buckets c2"
proof -
  define c1 where "c1 = fold feed sample_inputs (started 0 0)"
  define c2 where "c2 = snd (Drain 1 c1)"
  note s = sample_state [OF c1_def c2_def]
  have close: "reports_close ''c1'' (sample_close EventNew)"
    by (simp add: reports_close_def sample_close_def connectionEventID_def sample_connection_def)
  have "sum_list (map n_events (sample_inputs @ [Drained 1])) \<le> 2048" by (simp add: sample_inputs_def)
  then have "(map_of (co_live c2) ''c1'' = None \<longrightarrow> reports_close ''c1'' (sample_close EventNew) \<longrightarrow> apply_event 9 (sample_close EventNew) c2 = c2)
    \<and> (known_replay sample_open c2 \<longrightarrow> co_buckets (apply_event 9 sample_open c2) = co_buckets c2
         \<and> cv_bytes (co_coverage (apply_event 9 sample_open c2)) = cv_bytes (co_coverage c2))"
    using replays_count_once [of "started 0 0" "[]" 0 0 c1 sample_inputs c2 "[Drained 1]" "''c1''"] s(1,2) by (simp add: c1_def c2_def)
  then show ?thesis unfolding Let_def c1_def [symmetric] c2_def [symmetric] using s close by blast
qed

section \<open>What is lost\<close>

text \<open>
  A shutdown that finds an earlier report still pending drops the last window, but stores the newest close
  of that window as reported. The collector of the next start then skips the replay of these closes.
\<close>

lemma flush_forgets_window:
  assumes "cs_pending file = Some p"
  shows "cs_pending (flushConnectionsToState True True now (Some c) file) = Some p
    \<and> co_high c \<le> cs_close_ms (flushConnectionsToState True True now (Some c) file)"
  using assms by (auto simp: flushConnectionsToState_def buildConnectionReport_def Drain_def Let_def)

lemma reported_close_skipped:
  assumes "ev_kind e = EventNew" and "ev_connection e = Some n" and "cn_closed n \<noteq> 0" and "cn_closed n \<le> cs_close_ms file"
  shows "apply_event now e (started t (cs_close_ms file)) = started t (cs_close_ms file)"
  using assms by (simp add: apply_event_def applyNew_def started_def setStartupCloseHighWater_def newConnectionCollector_def Let_def)

text \<open>Normalising a host twice is not the same as once.\<close>

lemma host_normalised_twice: "NormalizeConnectionHost ''a..'' = ''a.''" "NormalizeConnectionHost ''a.'' = ''a''"
  by code_simp+

end
