(* ===== verification/Connection_Store.thy ===== *)
theory Connection_Store
  imports Connection_Model Node_Tokens
begin

text \<open>
  The server's side of connection telemetry (\<open>internal/server/db/connection_events.go\<close>,
  \<open>sqlc/connection_events.sql.go\<close>, \<open>api/node_connection_events.go\<close>): the opt-in of a node and the ingest of
  its reports. \<open>sha\<close> is SHA-256 over the fields of an aggregate key, \<open>ip\<close> is \<open>netip.ParseAddr\<close> (whether the
  address is a loopback address, \<^const>\<open>None\<close> when it is no literal).
\<close>

section \<open>Tables\<close>

record telemetry_row =
  nt_node :: string
  nt_enabled :: bool
  nt_address :: string
  nt_port :: int
  nt_secret :: string
  nt_rotated_at :: "stamp option"

record source_row =
  sr_node :: string
  sr_started :: "stamp option"
  sr_ended :: "stamp option"

record conn_report_row =
  cp_id :: string
  cp_node :: string
  cp_sequence :: int
  cp_boot :: string
  cp_win_start :: "stamp option"
  cp_win_end :: "stamp option"
  cp_counts :: "int list"
  cp_bytes :: int
  cp_bytes_attributed :: int
  cp_reported_at :: "stamp option"

record conn_event_row =
  er_id :: string
  er_node :: string
  er_user :: "string option"
  er_auth :: string
  er_source :: string
  er_host :: string
  er_port :: int
  er_domain :: string
  er_network :: string
  er_ip_version :: int
  er_protocol :: string
  er_inbound :: string
  er_inbound_type :: string
  er_rule :: string
  er_outbound :: string
  er_outbound_type :: string
  er_chain :: string
  er_connection :: string
  er_opened :: int
  er_closed :: int
  er_up :: int
  er_down :: int
  er_duration :: int
  er_key :: string
  er_start :: "stamp option"
  er_win_start :: "stamp option"
  er_win_end :: "stamp option"

record connection_db = proxy_db +
  db_telemetry :: "telemetry_row list"
  db_sources :: "source_row list"
  db_conn_reports :: "conn_report_row list"
  db_conn_events :: "conn_event_row list"
  db_retention :: "int option option"

datatype connection_error =
    ConnNodeNotFound | MissingBootID | LongBootID | NegativeSequence int | BadRetention | ConnConstraint
  | ListenMissing | ListenNoLiteral | ListenNotLoopback | ListenPortRange int | SecretTooShort | NoTelemetryConfig

section \<open>Opting in\<close>

definition MinConnectionTelemetrySecretLength :: nat where
  "MinConnectionTelemetrySecretLength = 32"

definition ValidateConnectionTelemetryListen :: "(string \<Rightarrow> bool option) \<Rightarrow> string \<Rightarrow> int \<Rightarrow> connection_error + unit" where
  "ValidateConnectionTelemetryListen ip address port =
     (let a = trim_space address in
      if a = [] then Inl ListenMissing
      else case ip a of
        None \<Rightarrow> Inl ListenNoLiteral
      | Some loopback \<Rightarrow>
        if \<not> loopback then Inl ListenNotLoopback
        else if port \<le> 0 \<or> port > 65535 then Inl (ListenPortRange port)
        else Inr ())"

definition ValidateConnectionTelemetrySecret :: "string \<Rightarrow> connection_error + unit" where
  "ValidateConnectionTelemetrySecret v =
     (if length (trim_space v) < MinConnectionTelemetrySecretLength then Inl SecretTooShort else Inr ())"

definition q_GetNodeConnectionTelemetry :: "'a connection_db_scheme \<Rightarrow> string \<Rightarrow> telemetry_row option" where
  "q_GetNodeConnectionTelemetry db nid = sel (\<lambda>t. nt_node t = nid) (db_telemetry db)"

text \<open>With the trigger that closes the source interval of a node whose telemetry is switched off.\<close>

definition end_source :: "instant \<Rightarrow> string \<Rightarrow> 'a connection_db_scheme \<Rightarrow> 'a connection_db_scheme" where
  "end_source now nid db =
     db\<lparr>db_sources := upd (\<lambda>s. sr_node s = nid \<and> sr_ended s = None) (\<lambda>s. s\<lparr>sr_ended := Some (sql_now now)\<rparr>) (db_sources db)\<rparr>"

definition q_UpsertNodeConnectionTelemetry ::
  "instant \<Rightarrow> 'a connection_db_scheme \<Rightarrow> telemetry_row \<Rightarrow> 'a connection_db_scheme option" where
  "q_UpsertNodeConnectionTelemetry now db r =
     (if nt_address r = [] \<or> nt_port r \<le> 0 \<or> nt_port r > 65535 \<or> length (nt_secret r) < 32 then None
      else
        (case q_GetNodeConnectionTelemetry db (nt_node r) of
           None \<Rightarrow> Some (db\<lparr>db_telemetry := db_telemetry db @ [r]\<rparr>)
         | Some old \<Rightarrow>
           let db1 = db\<lparr>db_telemetry := upd (\<lambda>t. nt_node t = nt_node r) (\<lambda>_. r) (db_telemetry db)\<rparr>
           in Some (if nt_enabled old \<and> \<not> nt_enabled r then end_source now (nt_node r) db1 else db1)))"

definition q_DeleteNodeConnectionTelemetry :: "instant \<Rightarrow> 'a connection_db_scheme \<Rightarrow> string \<Rightarrow> 'a connection_db_scheme" where
  "q_DeleteNodeConnectionTelemetry now db nid =
     (if q_GetNodeConnectionTelemetry db nid = None then db
      else end_source now nid (db\<lparr>db_telemetry := filter (\<lambda>t. nt_node t \<noteq> nid) (db_telemetry db)\<rparr>))"

definition NodeConnectionTelemetryConfig :: "'a connection_db_scheme \<Rightarrow> string \<Rightarrow> connection_error + telemetry_row option" where
  "NodeConnectionTelemetryConfig db nm =
     (case GetNode db nm of
        None \<Rightarrow> Inl ConnNodeNotFound
      | Some n \<Rightarrow> Inr (q_GetNodeConnectionTelemetry db (node_id n)))"

text \<open>A secret is minted on the first use and kept afterwards; \<open>mint\<close> is the fresh one.\<close>

definition SetNodeConnectionTelemetry ::
  "(string \<Rightarrow> bool option) \<Rightarrow> string \<Rightarrow> instant \<Rightarrow> 'a connection_db_scheme \<Rightarrow> string \<Rightarrow> bool \<Rightarrow> string \<Rightarrow> int
     \<Rightarrow> (connection_error + telemetry_row option) \<times> 'a connection_db_scheme" where
  "SetNodeConnectionTelemetry ip mint now db nm enabled listen port =
     (case GetNode db nm of
        None \<Rightarrow> (Inl ConnNodeNotFound, db)
      | Some n \<Rightarrow>
        let a = trim_space listen;
            address = (if a = [] then ''127.0.0.1'' else a);
            prt = (if port = 0 then 9091 else port)
        in (case ValidateConnectionTelemetryListen ip address prt of
              Inl e \<Rightarrow> (Inl e, db)
            | Inr _ \<Rightarrow>
              let old = q_GetNodeConnectionTelemetry db (node_id n);
                  secret = (case old of None \<Rightarrow> [] | Some r \<Rightarrow> nt_secret r);
                  rotated = (case old of None \<Rightarrow> None | Some r \<Rightarrow> nt_rotated_at r);
                  write = (\<lambda>value rotated_at.
                    (case q_UpsertNodeConnectionTelemetry now db \<lparr>nt_node = node_id n, nt_enabled = enabled, nt_address = address,
                            nt_port = prt, nt_secret = value, nt_rotated_at = rotated_at\<rparr> of
                       None \<Rightarrow> (Inl ConnConstraint, db)
                     | Some db1 \<Rightarrow> (NodeConnectionTelemetryConfig db1 (node_name n), db1)))
              in (case ValidateConnectionTelemetrySecret secret of
                    Inr _ \<Rightarrow> write secret rotated
                  | Inl _ \<Rightarrow>
                    (case ValidateConnectionTelemetrySecret mint of
                       Inl e \<Rightarrow> (Inl e, db)
                     | Inr _ \<Rightarrow> write mint None))))"

definition RotateNodeConnectionTelemetrySecret ::
  "string \<Rightarrow> instant \<Rightarrow> 'a connection_db_scheme \<Rightarrow> string \<Rightarrow> (connection_error + telemetry_row option) \<times> 'a connection_db_scheme" where
  "RotateNodeConnectionTelemetrySecret mint now db nm =
     (case GetNode db nm of
        None \<Rightarrow> (Inl ConnNodeNotFound, db)
      | Some n \<Rightarrow>
        (case q_GetNodeConnectionTelemetry db (node_id n) of
           None \<Rightarrow> (Inl NoTelemetryConfig, db)
         | Some old \<Rightarrow>
           (case ValidateConnectionTelemetrySecret mint of
              Inl e \<Rightarrow> (Inl e, db)
            | Inr _ \<Rightarrow>
              (case q_UpsertNodeConnectionTelemetry now db (old\<lparr>nt_secret := mint, nt_rotated_at := Some (sql_now now)\<rparr>) of
                 None \<Rightarrow> (Inl ConnConstraint, db)
               | Some db1 \<Rightarrow> (NodeConnectionTelemetryConfig db1 (node_name n), db1)))))"

definition DeleteNodeConnectionTelemetry ::
  "instant \<Rightarrow> 'a connection_db_scheme \<Rightarrow> string \<Rightarrow> (connection_error + unit) \<times> 'a connection_db_scheme" where
  "DeleteNodeConnectionTelemetry now db nm =
     (case GetNode db nm of
        None \<Rightarrow> (Inl ConnNodeNotFound, db)
      | Some n \<Rightarrow> (Inr (), q_DeleteNodeConnectionTelemetry now db (node_id n)))"

definition ListEnabledConnectionTelemetryNodes :: "'a connection_db_scheme \<Rightarrow> (string \<times> string \<times> string \<times> int) list" where
  "ListEnabledConnectionTelemetryNodes db =
     sort_key (\<lambda>(_, nm, _, _). nm)
       (concat (map (\<lambda>t. map (\<lambda>n. (nt_node t, node_name n, nt_address t, nt_port t))
          (filter (\<lambda>n. node_id n = nt_node t \<and> node_deleted_at n = None) (db_nodes db)))
        (filter nt_enabled (db_telemetry db))))"

section \<open>Bounds on what a node sends\<close>

definition maxConnectionBucketsPerReport :: nat where
  "maxConnectionBucketsPerReport = 2000"

definition maxConnectionBucketBytes :: int where
  "maxConnectionBucketBytes = 4 * 2 ^ 40"

definition maxConnectionBucketConnections :: int where
  "maxConnectionBucketConnections = 10000000"

definition maxConnectionBucketDurationMs :: int where
  "maxConnectionBucketDurationMs = 30 * 24 * 3600 * 1000"

definition clamp :: "int \<Rightarrow> int \<Rightarrow> int" where
  "clamp limit v = (if v < 0 then 0 else if v > limit then limit else v)"

definition clampConnectionCount :: "int \<Rightarrow> int" where
  "clampConnectionCount = clamp maxConnectionBucketConnections"

definition clampConnectionBytes :: "int \<Rightarrow> int" where
  "clampConnectionBytes = clamp maxConnectionBucketBytes"

definition clampConnectionDuration :: "int \<Rightarrow> int" where
  "clampConnectionDuration = clamp maxConnectionBucketDurationMs"

text \<open>\<open>utf8.ValidString\<close>: the byte ranges of the encoding, without overlong forms and surrogates.\<close>

definition byte_in :: "char \<Rightarrow> nat \<Rightarrow> nat \<Rightarrow> bool" where
  "byte_in c lo hi \<longleftrightarrow> lo \<le> of_char c \<and> of_char c \<le> hi"

fun ValidString :: "string \<Rightarrow> bool" where
  "ValidString [] = True"
| "ValidString (a # s) =
     (if byte_in a 0 0x7F then ValidString s
      else case s of
        [] \<Rightarrow> False
      | b # s1 \<Rightarrow>
        if byte_in a 0xC2 0xDF then byte_in b 0x80 0xBF \<and> ValidString s1
        else (case s1 of
            [] \<Rightarrow> False
          | c # s2 \<Rightarrow>
            if byte_in a 0xE0 0xEF then
              byte_in b (if a = CHR 0xE0 then 0xA0 else 0x80) (if a = CHR 0xED then 0x9F else 0xBF)
              \<and> byte_in c 0x80 0xBF \<and> ValidString s2
            else (case s2 of
                [] \<Rightarrow> False
              | d # s3 \<Rightarrow>
                byte_in a 0xF0 0xF4 \<and> byte_in b (if a = CHR 0xF0 then 0x90 else 0x80) (if a = CHR 0xF4 then 0x8F else 0xBF)
                \<and> byte_in c 0x80 0xBF \<and> byte_in d 0x80 0xBF \<and> ValidString s3)))"

function cut_valid :: "string \<Rightarrow> string" where
  "cut_valid s = (if s = [] \<or> ValidString s then s else cut_valid (butlast s))"
  by pat_completeness auto
termination
  by (relation "measure length") auto

declare cut_valid.simps [simp del]

definition truncateConnectionField :: "string \<Rightarrow> nat \<Rightarrow> string" where
  "truncateConnectionField v limit = (if length v \<le> limit then v else cut_valid (take limit v))"

definition bound_texts :: "bucket \<Rightarrow> bucket" where
  "bound_texts b =
     (let label = (\<lambda>v. truncateConnectionField v 64); host = (\<lambda>v. truncateConnectionField v 253);
          chain = ConnectionChainString (bk_chain b) in
      b\<lparr>bk_auth := truncateConnectionField (bk_auth b) 128, bk_source := host (bk_source b), bk_host := host (bk_host b),
        bk_domain := host (bk_domain b), bk_network := label (bk_network b), bk_protocol := label (bk_protocol b),
        bk_inbound := label (bk_inbound b), bk_inbound_type := label (bk_inbound_type b), bk_rule := label (bk_rule b),
        bk_outbound := label (bk_outbound b), bk_outbound_type := label (bk_outbound_type b),
        bk_chain := (if length chain > 512 then split_on CHR ''>'' (truncateConnectionField chain 512) else bk_chain b)\<rparr>)"

definition bound_measures :: "bucket \<Rightarrow> bucket" where
  "bound_measures b =
     b\<lparr>bk_opened := clampConnectionCount (bk_opened b), bk_closed := clampConnectionCount (bk_closed b),
       bk_up := clampConnectionBytes (bk_up b), bk_down := clampConnectionBytes (bk_down b),
       bk_duration := clampConnectionDuration (bk_duration b)\<rparr>"

definition sanitizeConnectionBucket :: "bucket \<Rightarrow> bucket option" where
  "sanitizeConnectionBucket b0 =
     (case Normalize b0 of
        None \<Rightarrow> None
      | Some b1 \<Rightarrow>
        if length (bk_id b1) > 256 then None
        else
          let b2 = (if bk_id b1 \<noteq> [] then b1\<lparr>bk_opened := min (bk_opened b1) 1, bk_closed := min (bk_closed b1) 1\<rparr> else b1);
              b = bound_measures (bound_texts b2)
          in if bk_host b = [] then None else Some b)"

section \<open>Ingest\<close>

definition connectionEventAggregateKey :: "(key_field list \<Rightarrow> string) \<Rightarrow> string \<Rightarrow> bucket \<Rightarrow> string" where
  "connectionEventAggregateKey sha nid b = sha (KText nid # DimensionKey b)"

definition q_GetProxyUserIDByNodeAuthName :: "'a proxy_db_scheme \<Rightarrow> string \<Rightarrow> string \<Rightarrow> string option" where
  "q_GetProxyUserIDByNodeAuthName db nm auth =
     map_option cr_user
       (sel (\<lambda>c. cr_auth c = auth \<and> list_ex (\<lambda>(p, n). px_id p = cr_proxy c
                   \<and> (node_id n = nm \<or> node_name n = nm \<and> node_deleted_at n = None)) (proxy_details db))
          (db_creds db))"

definition q_CreateConnectionReport :: "'a connection_db_scheme \<Rightarrow> conn_report_row \<Rightarrow> 'a connection_db_scheme option" where
  "q_CreateConnectionReport db r =
     (if list_ex (\<lambda>x. cp_id x = cp_id r \<or> cp_node x = cp_node r \<and> cp_boot x = cp_boot r \<and> cp_sequence x = cp_sequence r)
           (db_conn_reports db)
      then None else Some (db\<lparr>db_conn_reports := db_conn_reports db @ [r]\<rparr>))"

definition q_GetConnectionReportBySequence :: "'a connection_db_scheme \<Rightarrow> string \<Rightarrow> string \<Rightarrow> int \<Rightarrow> conn_report_row option" where
  "q_GetConnectionReportBySequence db nid boot k =
     sel (\<lambda>x. cp_node x = nid \<and> cp_boot x = boot \<and> cp_sequence x = k) (db_conn_reports db)"

definition q_ActivateNetworkStreamSource :: "'a connection_db_scheme \<Rightarrow> string \<Rightarrow> stamp option \<Rightarrow> 'a connection_db_scheme option" where
  "q_ActivateNetworkStreamSource db nid started =
     (if \<not> list_ex (\<lambda>t. nt_node t = nid \<and> nt_enabled t) (db_telemetry db)
         \<or> list_ex (\<lambda>s. sr_node s = nid \<and> sr_ended s = None) (db_sources db) then Some db
      else if list_ex (\<lambda>s. sr_node s = nid \<and> sr_started s = started) (db_sources db) then None
      else Some (db\<lparr>db_sources := db_sources db @ [\<lparr>sr_node = nid, sr_started = started, sr_ended = None\<rparr>]\<rparr>))"

definition merge_row :: "conn_event_row \<Rightarrow> conn_event_row \<Rightarrow> conn_event_row" where
  "merge_row new old =
     (let f = (if er_connection new \<noteq> [] then max else (+)) in
      old\<lparr>er_opened := f (er_opened old) (er_opened new), er_closed := f (er_closed old) (er_closed new),
          er_up := f (er_up old) (er_up new), er_down := f (er_down old) (er_down new),
          er_duration := f (er_duration old) (er_duration new),
          er_user := (case er_user old of None \<Rightarrow> er_user new | Some u \<Rightarrow> Some u),
          er_win_start := (if text_less (er_win_start new) (er_win_start old) then er_win_start new else er_win_start old),
          er_win_end := (if text_less (er_win_end old) (er_win_end new) then er_win_end new else er_win_end old)\<rparr>)"

definition event_row_ok :: "conn_event_row \<Rightarrow> bool" where
  "event_row_ok r \<longleftrightarrow>
     ToLower (er_host r) = er_host r \<and> ToLower (er_domain r) = er_domain r \<and> 0 \<le> er_port r \<and> er_port r \<le> 65535
     \<and> er_ip_version r \<in> {0, 4, 6} \<and> 0 \<le> er_opened r \<and> 0 \<le> er_closed r \<and> 0 \<le> er_up r \<and> 0 \<le> er_down r \<and> 0 \<le> er_duration r"

definition q_UpsertConnectionEvent :: "'a connection_db_scheme \<Rightarrow> conn_event_row \<Rightarrow> 'a connection_db_scheme option" where
  "q_UpsertConnectionEvent db r =
     (if \<not> event_row_ok r then None
      else if list_ex (\<lambda>x. er_key x = er_key r) (db_conn_events db)
      then Some (db\<lparr>db_conn_events := upd (\<lambda>x. er_key x = er_key r) (merge_row r) (db_conn_events db)\<rparr>)
      else if list_ex (\<lambda>x. er_id x = er_id r) (db_conn_events db) then None
      else Some (db\<lparr>db_conn_events := db_conn_events db @ [r]\<rparr>))"

definition q_DeleteConnectionEventsBefore :: "'a connection_db_scheme \<Rightarrow> stamp option \<Rightarrow> 'a connection_db_scheme" where
  "q_DeleteConnectionEventsBefore db t =
     db\<lparr>db_conn_events :=
          filter (\<lambda>x. \<not> text_less (if er_connection x = [] then er_start x else er_win_end x) t) (db_conn_events db)\<rparr>"

definition q_DeleteConnectionReportsBefore :: "'a connection_db_scheme \<Rightarrow> stamp option \<Rightarrow> 'a connection_db_scheme" where
  "q_DeleteConnectionReportsBefore db t =
     db\<lparr>db_conn_reports := filter (\<lambda>x. \<not> text_less (cp_win_end x) t) (db_conn_reports db)\<rparr>"

text \<open>A setting that is no valid number of days counts as the default.\<close>

definition ConnectionEventRetentionDays :: "'a connection_db_scheme \<Rightarrow> connection_error + int" where
  "ConnectionEventRetentionDays db =
     (case db_retention db of
        None \<Rightarrow> Inr 14
      | Some None \<Rightarrow> Inl BadRetention
      | Some (Some d) \<Rightarrow> Inr (if d < 1 \<or> d > 3650 then 14 else d))"

definition event_row_of :: "(key_field list \<Rightarrow> string) \<Rightarrow> string \<Rightarrow> string \<Rightarrow> string option \<Rightarrow> bucket \<Rightarrow> conn_event_row" where
  "event_row_of sha i nid user b =
     \<lparr>er_id = i, er_node = nid, er_user = user, er_auth = bk_auth b, er_source = bk_source b, er_host = bk_host b,
      er_port = bk_port b, er_domain = bk_domain b, er_network = bk_network b, er_ip_version = bk_ip_version b,
      er_protocol = bk_protocol b, er_inbound = bk_inbound b, er_inbound_type = bk_inbound_type b, er_rule = bk_rule b,
      er_outbound = bk_outbound b, er_outbound_type = bk_outbound_type b, er_chain = ConnectionChainString (bk_chain b),
      er_connection = bk_id b, er_opened = bk_opened b, er_closed = bk_closed b, er_up = bk_up b, er_down = bk_down b,
      er_duration = bk_duration b, er_key = connectionEventAggregateKey sha nid b, er_start = bk_start b,
      er_win_start = bk_win_start b, er_win_end = bk_win_end b\<rparr>"

text \<open>
  The loop of \<open>RecordConnectionReport\<close>; a bucket that cannot be used is skipped. The source remembers the
  users it has looked up, which the transaction does not change.
\<close>

fun record_buckets ::
  "(key_field list \<Rightarrow> string) \<Rightarrow> (nat \<Rightarrow> string) \<Rightarrow> node_row \<Rightarrow> nat \<Rightarrow> bucket list \<Rightarrow> 'a connection_db_scheme
     \<Rightarrow> connection_error + 'a connection_db_scheme" where
  "record_buckets sha fresh n k [] db = Inr db"
| "record_buckets sha fresh n k (raw # bs) db =
     (case sanitizeConnectionBucket raw of
        None \<Rightarrow> record_buckets sha fresh n (Suc k) bs db
      | Some b \<Rightarrow>
        let user = (if bk_auth b \<noteq> [] then q_GetProxyUserIDByNodeAuthName db (node_name n) (bk_auth b) else None) in
        (case q_UpsertConnectionEvent db (event_row_of sha (fresh k) (node_id n) user b) of
           None \<Rightarrow> Inl ConnConstraint
         | Some db1 \<Rightarrow> record_buckets sha fresh n (Suc k) bs db1))"

text \<open>
  \<open>RecordConnectionReport\<close>: everything before the transaction checks and completes the report; a report
  that has been recorded before is skipped as a whole.
\<close>

definition report_row_of :: "instant \<Rightarrow> string \<Rightarrow> string \<Rightarrow> string \<Rightarrow> conn_report \<Rightarrow> conn_report_row" where
  "report_row_of now i nid boot r =
     (let reported = (case NormalizeConnectionInstant (cr_reported_at r) of None \<Rightarrow> Some (sql_now now) | Some t \<Rightarrow> Some t);
          ws = (case NormalizeConnectionInstant (cr_window_start r) of None \<Rightarrow> reported | Some t \<Rightarrow> Some t);
          we = NormalizeConnectionInstant (cr_window_end r);
          v = cr_coverage r in
      \<lparr>cp_id = i, cp_node = nid, cp_sequence = cr_sequence r, cp_boot = boot, cp_win_start = ws,
       cp_win_end = (if we = None \<or> text_less we ws then ws else we),
       cp_counts = map clampConnectionCount [cv_observed v, cv_attributed v, cv_unattributed v, cv_orphaned v, cv_resets v, cv_dropped v],
       cp_bytes = clampConnectionBytes (cv_bytes v), cp_bytes_attributed = clampConnectionBytes (cv_bytes_attributed v),
       cp_reported_at = reported\<rparr>)"

definition retention_cutoff :: "instant \<Rightarrow> int \<Rightarrow> stamp option" where
  "retention_cutoff now days = Some (sql_now (now - days * 86400 * ns_per_s))"

definition record_connections_tx ::
  "(key_field list \<Rightarrow> string) \<Rightarrow> (nat \<Rightarrow> string) \<Rightarrow> stamp option \<Rightarrow> node_row \<Rightarrow> conn_report_row \<Rightarrow> bucket list
     \<Rightarrow> 'a connection_db_scheme \<Rightarrow> connection_error + 'a connection_db_scheme" where
  "record_connections_tx sha fresh cutoff n row bs db =
     (case q_CreateConnectionReport db row of
        None \<Rightarrow>
          (case q_GetConnectionReportBySequence db (node_id n) (cp_boot row) (cp_sequence row) of
             Some _ \<Rightarrow> Inr db
           | None \<Rightarrow> Inl ConnConstraint)
      | Some db1 \<Rightarrow>
        (case q_ActivateNetworkStreamSource db1 (node_id n) (cp_win_start row) of
           None \<Rightarrow> Inl ConnConstraint
         | Some db2 \<Rightarrow>
           bind_res (record_buckets sha fresh n 0 bs db2) (\<lambda>db3.
           Inr (q_DeleteConnectionReportsBefore (q_DeleteConnectionEventsBefore db3 cutoff) cutoff))))"

definition RecordConnectionReport ::
  "(key_field list \<Rightarrow> string) \<Rightarrow> (nat \<Rightarrow> string) \<Rightarrow> string \<Rightarrow> instant \<Rightarrow> 'a connection_db_scheme \<Rightarrow> conn_report
     \<Rightarrow> (connection_error + unit) \<times> 'a connection_db_scheme" where
  "RecordConnectionReport sha fresh rid now db r =
     (let boot = trim_space (cr_boot r) in
      case GetNode db (cr_node_name r) of
        None \<Rightarrow> (Inl ConnNodeNotFound, db)
      | Some n \<Rightarrow>
        if boot = [] then (Inl MissingBootID, db)
        else if length boot > 128 then (Inl LongBootID, db)
        else if cr_sequence r < 0 then (Inl (NegativeSequence (cr_sequence r)), db)
        else
          (case ConnectionEventRetentionDays db of
             Inl e \<Rightarrow> (Inl e, db)
           | Inr days \<Rightarrow>
             (case record_connections_tx sha fresh (retention_cutoff now days) n (report_row_of now rid (node_id n) boot r)
                     (take maxConnectionBucketsPerReport (cr_buckets r)) db of
                Inl e \<Rightarrow> (Inl e, db)
              | Inr db1 \<Rightarrow> (Inr (), db1))))"

text \<open>The handler, for a node that its token has authenticated: the name in the report is overwritten.\<close>

datatype conn_answer = LookupFailed | NotEnabled | Unprocessable connection_error | Accepted

definition nodeConnectionEventsHandler ::
  "(key_field list \<Rightarrow> string) \<Rightarrow> (nat \<Rightarrow> string) \<Rightarrow> string \<Rightarrow> instant \<Rightarrow> string \<Rightarrow> conn_report \<Rightarrow> 'a connection_db_scheme
     \<Rightarrow> conn_answer \<times> 'a connection_db_scheme" where
  "nodeConnectionEventsHandler sha fresh rid now nm r db =
     (case NodeConnectionTelemetryConfig db nm of
        Inl _ \<Rightarrow> (LookupFailed, db)
      | Inr None \<Rightarrow> (NotEnabled, db)
      | Inr (Some t) \<Rightarrow>
        if \<not> nt_enabled t then (NotEnabled, db)
        else
          (case RecordConnectionReport sha fresh rid now db (r\<lparr>cr_node_name := nm\<rparr>) of
             (Inl e, db1) \<Rightarrow> (Unprocessable e, db1)
           | (Inr _, db1) \<Rightarrow> (Accepted, db1)))"

end
