(* ===== verification/Connection_Ingest.thy ===== *)
theory Connection_Ingest
  imports Connection_Store "HOL-Library.Countable"
begin

text \<open>
  The ingest of connection reports: the row of a session is the maximum of the snapshots that were
  accepted for it, whatever their order, and a report that is known is skipped.
\<close>

section \<open>The row under a key\<close>

definition event_row :: "'a connection_db_scheme \<Rightarrow> string \<Rightarrow> conn_event_row option" where
  "event_row db k = sel (\<lambda>x. er_key x = k) (db_conn_events db)"

definition session_key :: "string \<Rightarrow> stamp option \<Rightarrow> bucket_key" where
  "session_key i st = [KText ''session'', KText i, KTime st]"

definition accepted :: "bucket_key \<Rightarrow> bucket list \<Rightarrow> bucket list" where
  "accepted k bs = filter (\<lambda>b. DimensionKey b = k) (List.map_filter sanitizeConnectionBucket bs)"

lemma accepted_simps [simp]:
  "accepted k [] = []"
  "accepted k (b # bs) = (case sanitizeConnectionBucket b of
     None \<Rightarrow> accepted k bs | Some b' \<Rightarrow> if DimensionKey b' = k then b' # accepted k bs else accepted k bs)"
  by (simp_all add: accepted_def List.map_filter_simps split: option.split)

lemma session_bucket: "DimensionKey b = session_key i st \<Longrightarrow> bk_id b \<noteq> [] \<and> bk_id b = i"
  by (auto simp: DimensionKey_def session_key_def split: if_splits)

lemma merge_row_key [simp]: "er_key (merge_row r old) = er_key old"
  by (simp add: merge_row_def Let_def)

lemma upsert_row:
  assumes "q_UpsertConnectionEvent db r = Some db'"
  shows "event_row db' k = (if k = er_key r then Some (case event_row db k of None \<Rightarrow> r | Some old \<Rightarrow> merge_row r old) else event_row db k)"
proof (cases "list_ex (\<lambda>x. er_key x = er_key r) (db_conn_events db)")
  case True
  then have db': "db_conn_events db' = upd (\<lambda>x. er_key x = er_key r) (merge_row r) (db_conn_events db)"
    using assms by (auto simp: q_UpsertConnectionEvent_def split: if_splits)
  have "event_row db' k = map_option (\<lambda>x. if er_key x = er_key r then merge_row r x else x) (event_row db k)"
    unfolding event_row_def db' by (rule sel_upd_key) simp
  moreover have "event_row db (er_key r) \<noteq> None" using True by (auto simp: event_row_def sel_None_iff list_ex_iff)
  moreover have "er_key x = k" if "event_row db k = Some x" for x using that sel_SomeD by (fastforce simp: event_row_def)
  ultimately show ?thesis by (cases "event_row db k") auto
next
  case False
  then have "db_conn_events db' = db_conn_events db @ [r]" and "event_row db (er_key r) = None"
    using assms by (auto simp: q_UpsertConnectionEvent_def event_row_def sel_None_iff list_ex_iff split: if_splits)
  then show ?thesis by (auto simp: event_row_def sel_append split: option.split)
qed

lemma event_upsert_frame:
  assumes "q_UpsertConnectionEvent db r = Some db'"
  shows "distinct (map er_key (db_conn_events db)) \<Longrightarrow> distinct (map er_key (db_conn_events db'))"
    and "db_conn_reports db' = db_conn_reports db"
  using assms by (fastforce simp: q_UpsertConnectionEvent_def list_ex_iff map_key_upd split: if_splits)+

section \<open>Snapshots\<close>

text \<open>A measure of a row, and the same of a bucket, that merge by the maximum.\<close>

definition max_measure :: "(conn_event_row \<Rightarrow> int) \<Rightarrow> (bucket \<Rightarrow> int) \<Rightarrow> bool" where
  "max_measure f g \<longleftrightarrow>
     (\<forall>new old. er_connection new \<noteq> [] \<longrightarrow> f (merge_row new old) = max (f old) (f new))
     \<and> (\<forall>sha i nid u b. f (event_row_of sha i nid u b) = g b)"

lemma max_measures: "max_measure er_up bk_up" "max_measure er_down bk_down" "max_measure er_closed bk_closed"
  "max_measure er_duration bk_duration" "max_measure er_opened bk_opened"
  by (simp_all add: max_measure_def merge_row_def event_row_of_def Let_def)

definition is_max :: "int \<Rightarrow> int set \<Rightarrow> bool" where
  "is_max v S \<longleftrightarrow> v \<in> S \<and> (\<forall>x \<in> S. x \<le> v)"

lemma is_max_Max: "finite S \<Longrightarrow> is_max v S \<Longrightarrow> v = Max S"
  using Max_eqI [of S v] by (auto simp: is_max_def)

lemma event_row_of_simps [simp]:
  "er_key (event_row_of sha i nid u b) = sha (KText nid # DimensionKey b)" "er_connection (event_row_of sha i nid u b) = bk_id b"
  by (simp_all add: event_row_of_def connectionEventAggregateKey_def)

lemma record_buckets_frame:
  "record_buckets sha fresh n k bs db = Inr db' \<Longrightarrow>
     db_conn_reports db' = db_conn_reports db
     \<and> (distinct (map er_key (db_conn_events db)) \<longrightarrow> distinct (map er_key (db_conn_events db')))"
proof (induction bs arbitrary: k db)
  case (Cons raw bs)
  then show ?case by (auto simp: Let_def split: option.splits dest: event_upsert_frame)
qed simp

lemma record_buckets_row:
  assumes inj: "inj sha" and key: "key = session_key i st" and K: "K = sha (KText (node_id n) # key)"
  shows "record_buckets sha fresh n k bs db = Inr db' \<Longrightarrow>
     (accepted key bs = [] \<longrightarrow> event_row db' K = event_row db K)
     \<and> (accepted key bs \<noteq> [] \<longrightarrow> (\<exists>row. event_row db' K = Some row
          \<and> (\<forall>f g. max_measure f g \<longrightarrow> is_max (f row) (g ` set (accepted key bs) \<union> f ` set_option (event_row db K)))))"
proof (induction bs arbitrary: k db)
  case (Cons raw bs)
  show ?case
  proof (cases "sanitizeConnectionBucket raw")
    case None
    then show ?thesis using Cons.IH [of "Suc k" db] Cons.prems by simp
  next
    case (Some b)
    then obtain u db1 where up: "q_UpsertConnectionEvent db (event_row_of sha (fresh k) (node_id n) u b) = Some db1"
      and rest: "record_buckets sha fresh n (Suc k) bs db1 = Inr db'"
      using Cons.prems by (auto simp: Let_def split: option.splits)
    note IH = Cons.IH [OF rest]
    show ?thesis
    proof (cases "DimensionKey b = key")
      case False
      then have "K \<noteq> sha (KText (node_id n) # DimensionKey b)" using inj by (auto simp: K dest: injD)
      then show ?thesis using IH upsert_row [OF up, of K] Some False by simp
    next
      case True
      let ?r = "event_row_of sha (fresh k) (node_id n) u b"
      define row1 where "row1 = (case event_row db K of None \<Rightarrow> ?r | Some old \<Rightarrow> merge_row ?r old)"
      have row: "event_row db1 K = Some row1" using upsert_row [OF up, of K] True by (simp add: K row1_def)
      have m1: "is_max (f row1) (insert (g b) (f ` set_option (event_row db K)))" if "max_measure f g" for f g
        using that session_bucket [of b i st] True key
        by (auto simp: row1_def max_measure_def is_max_def split: option.split)
      have join: "is_max v (insert a S \<union> T)" if "is_max w (insert a T)" "is_max v (S \<union> {w})" for v w a :: int and S T
        using that unfolding is_max_def by (auto intro: order_trans)
      show ?thesis
      proof (cases "accepted key bs = []")
        case True
        then show ?thesis using IH row m1 Some \<open>DimensionKey b = key\<close> by simp
      next
        case False
        then show ?thesis using IH row m1 Some \<open>DimensionKey b = key\<close> join by (simp add: insert_commute) metis
      qed
    qed
  qed
qed simp

section \<open>A report\<close>

definition expiry :: "conn_event_row \<Rightarrow> stamp option" where
  "expiry x = (if er_connection x = [] then er_start x else er_win_end x)"

lemma sel_filter_unique:
  "distinct (map er_key t) \<Longrightarrow> sel (\<lambda>x. er_key x = k) t = Some row \<Longrightarrow>
     sel (\<lambda>x. er_key x = k) (filter P t) = (if P row then Some row else None)"
proof (induction t)
  case (Cons x t)
  show ?case
  proof (cases "er_key x = k")
    case True
    then have "k \<notin> er_key ` set t" using Cons.prems(1) by simp
    then have "sel (\<lambda>y. er_key y = k) (filter P t) = None" by (auto simp: sel_None_iff)
    then show ?thesis using True Cons.prems(2) by simp
  qed (use Cons in auto)
qed simp

lemma record_buckets_only:
  "record_buckets sha fresh n k bs db = Inr db' \<Longrightarrow> \<exists>ev. db' = db\<lparr>db_conn_events := ev\<rparr>"
proof (induction bs arbitrary: k db)
  case Nil
  then show ?case by (metis connection_db.surjective connection_db.update_convs(4) record_buckets.simps(1) sum.inject(2))
next
  case (Cons raw bs)
  show ?case
  proof (cases "sanitizeConnectionBucket raw")
    case (Some b)
    then obtain r db1 where "q_UpsertConnectionEvent db r = Some db1" "record_buckets sha fresh n (Suc k) bs db1 = Inr db'"
      using Cons.prems by (auto simp: Let_def split: option.splits)
    then show ?thesis using Cons.IH [of "Suc k" db1] by (auto simp: q_UpsertConnectionEvent_def split: if_splits)
  qed (use Cons in simp)
qed

lemma recorded_report:
  assumes "RecordConnectionReport sha fresh rid now db r = (Inr (), db')" and "GetNode db (cr_node_name r) = Some n"
    and "ConnectionEventRetentionDays db = Inr days"
  shows "record_connections_tx sha fresh (retention_cutoff now days) n (report_row_of now rid (node_id n) (trim_space (cr_boot r)) r)
           (take 2000 (cr_buckets r)) db = Inr db'"
    and "trim_space (cr_boot r) \<noteq> [] \<and> length (trim_space (cr_boot r)) \<le> 128 \<and> 0 \<le> cr_sequence r"
  using assms by (auto simp: RecordConnectionReport_def Let_def maxConnectionBucketsPerReport_def not_less split: if_splits sum.splits)

lemma known_report_skipped:
  assumes "GetNode db (cr_node_name r) = Some n" and "ConnectionEventRetentionDays db = Inr days"
    and "trim_space (cr_boot r) \<noteq> [] \<and> length (trim_space (cr_boot r)) \<le> 128 \<and> 0 \<le> cr_sequence r"
    and "q_GetConnectionReportBySequence db (node_id n) (trim_space (cr_boot r)) (cr_sequence r) \<noteq> None"
  shows "RecordConnectionReport sha fresh rid now db r = (Inr (), db)"
proof -
  let ?row = "report_row_of now rid (node_id n) (trim_space (cr_boot r)) r"
  have f: "cp_node ?row = node_id n" "cp_boot ?row = trim_space (cr_boot r)" "cp_sequence ?row = cr_sequence r"
    by (simp_all add: report_row_of_def Let_def)
  obtain x where "x \<in> set (db_conn_reports db)" "cp_node x = node_id n" "cp_boot x = trim_space (cr_boot r)" "cp_sequence x = cr_sequence r"
    using assms(4) by (auto simp: q_GetConnectionReportBySequence_def dest: sel_SomeD)
  then have "q_CreateConnectionReport db ?row = None" by (auto simp: q_CreateConnectionReport_def list_ex_iff f)
  then show ?thesis using assms f by (auto simp: RecordConnectionReport_def record_connections_tx_def Let_def split: option.split)
qed


text \<open>A snapshot that is canonical already, and an injection in place of the hash.\<close>

instance stamp :: countable
  by countable_datatype

instance key_field :: countable
  by countable_datatype

definition sample_hash :: "key_field list \<Rightarrow> string" where
  "sample_hash ks = replicate (to_nat ks) CHR ''x''"

lemma inj_sample_hash: "inj sample_hash"
  by (auto simp: inj_def sample_hash_def replicate_eq_replicate)

definition sample_snapshot :: bucket where
  "sample_snapshot =
     (let t = Some (sql_now 0) in
      \<lparr>bk_id = ''c1'', bk_started = t, bk_start = t, bk_auth = [], bk_source = [], bk_host = ''h'', bk_port = 443, bk_domain = [],
       bk_network = [], bk_ip_version = 4, bk_protocol = [], bk_inbound = [], bk_inbound_type = [], bk_rule = [], bk_outbound = [],
       bk_outbound_type = [], bk_chain = [], bk_opened = 1, bk_closed = 1, bk_up = 10, bk_down = 20, bk_duration = 5,
       bk_win_start = t, bk_win_end = t\<rparr>)"

definition sample_report :: conn_report where
  "sample_report = \<lparr>cr_node_name = ''n1'', cr_sequence = 1, cr_boot = ''b'', cr_window_start = Some (sql_now 0),
     cr_window_end = Some (sql_now 0), cr_reported_at = Some (sql_now 0), cr_coverage = no_coverage, cr_buckets = [sample_snapshot]\<rparr>"

definition sample_node :: node_row where
  "sample_node = \<lparr>node_id = ''n1'', node_name = ''tokyo'', node_public_host = [], node_hosts = [], node_status = NodeActive,
     node_sing_box_version = [], node_last_seen_at = None, node_deleted_at = None, node_created_at = Stamp 0 ''Z'',
     node_updated_at = Stamp 0 ''Z''\<rparr>"

definition sample_db :: connection_db where
  "sample_db = \<lparr>db_nodes = [sample_node], db_aliases = [], db_users = [], db_proxies = [], db_bindings = [], db_creds = [],
     db_endpoints = [], db_paths = [], db_accesses = [], db_group_members = [], db_telemetry = [], db_sources = [],
     db_conn_reports = [], db_conn_events = [], db_retention = None\<rparr>"

lemma sample_instant: "NormalizeConnectionInstant (Some (sql_now 0)) = Some (sql_now 0)"
proof -
  have "in_years (sql_now 0)" by (simp add: in_years_def sql_now_def)
  then show ?thesis by (simp add: NormalizeConnectionInstant_def parse_sql_now)
qed

lemma sample_sanitized: "sanitizeConnectionBucket sample_snapshot = Some sample_snapshot"
proof -
  have "trim_space ''c1'' = ''c1''" "NormalizeConnectionHost ''h'' = ''h''" "NormalizeConnectionHost [] = []" "ConnectionChainString [] = []"
    "ToLower [] = []" by code_simp+
  then show ?thesis
    by (simp add: sanitizeConnectionBucket_def Normalize_def normal_texts_def normal_window_def usable_bucket_def sample_snapshot_def
        sample_instant bound_texts_def bound_measures_def truncateConnectionField_def clampConnectionCount_def clampConnectionBytes_def
        clampConnectionDuration_def clamp_def maxConnectionBucketBytes_def maxConnectionBucketConnections_def
        maxConnectionBucketDurationMs_def text_less_def Let_def)
qed

lemma sample_node_found: "GetNode sample_db ''n1'' = Some sample_node"
proof -
  have "normalizeName ''n1'' = ''n1''" by code_simp
  then show ?thesis
    by (simp add: GetNode_def resolveNode_def q_GetNodeByIDIncludingDeleted_def sample_db_def sample_node_def Let_def)
qed

lemma snapshot_recorded:
  "RecordConnectionReport sample_hash (\<lambda>_. ''e1'') ''r1'' 0 sample_db sample_report
   = (Inr (), snd (RecordConnectionReport sample_hash (\<lambda>_. ''e1'') ''r1'' 0 sample_db sample_report))"
proof -
  have t: "trim_space ''b'' = ''b''" "ToLower ''h'' = ''h''" "ToLower [] = []" by code_simp+
  have n: "cr_node_name sample_report = ''n1''" "cr_boot sample_report = ''b''" "cr_sequence sample_report = 1" "cr_buckets sample_report = [sample_snapshot]"
    by (simp_all add: sample_report_def)
  have "q_CreateConnectionReport sample_db row = Some (sample_db\<lparr>db_conn_reports := [row]\<rparr>)" for row
    by (simp add: q_CreateConnectionReport_def sample_db_def)
  moreover have "q_ActivateNetworkStreamSource (sample_db\<lparr>db_conn_reports := [row]\<rparr>) nid w = Some (sample_db\<lparr>db_conn_reports := [row]\<rparr>)" for row nid w
    by (simp add: q_ActivateNetworkStreamSource_def sample_db_def)
  moreover have ok: "event_row_ok (event_row_of sample_hash j nid u sample_snapshot)" for j nid u
    by (simp add: event_row_ok_def event_row_of_def sample_snapshot_def t Let_def)
  moreover have "\<exists>db3. record_buckets sample_hash (\<lambda>_. ''e1'') sample_node 0 [sample_snapshot] (sample_db\<lparr>db_conn_reports := [row]\<rparr>) = Inr db3" for row
    by (simp add: sample_sanitized Let_def q_UpsertConnectionEvent_def ok sample_db_def)
  ultimately have "\<exists>db3. record_connections_tx sample_hash (\<lambda>_. ''e1'') cut sample_node row [sample_snapshot] sample_db = Inr db3" for cut row
    by (auto simp: record_connections_tx_def bind_res_Inr_iff)
  moreover have "ConnectionEventRetentionDays sample_db = Inr 14" by (simp add: ConnectionEventRetentionDays_def sample_db_def)
  ultimately show ?thesis
    by (auto simp: RecordConnectionReport_def n t sample_node_found maxConnectionBucketsPerReport_def Let_def split: sum.split) (metis sum.distinct(1))
qed


end
