(* ===== verification/Spec2Isabelle.thy ===== *)
theory Spec2Isabelle
  imports Campaign_Planning Agent_Outbox Catalog_Generator Guard_Properties Traffic_Properties Deletion_Properties Connection_Properties Connection_Ingest
begin

text \<open>
  BoxFleet: a verification library.

  \<^bold>\<open>The program.\<close> BoxFleet (Go) manages a fleet of sing-box proxy nodes. A server
  (\<open>internal/server\<close>) keeps nodes, users, proxies and paths in SQLite, hands out operations to
  the nodes and collects their traffic; an agent (\<open>internal/agent\<close>) on each node polls the
  server, executes operations, updates itself and reports. The parts meet in five places:
  \<^item> the operation protocol: an administrator creates an operation, the agent claims it under a
    lease, renews the lease, reports progress events and finishes it; update campaigns are a
    client of the same store on the server's side;
  \<^item> the self-update of the agent: an operation that replaces the binary which executes it;
  \<^item> traffic: counters of sing-box become deltas on the agent and totals on the server;
  \<^item> subscriptions: paths, chained through dialers, that a user's profile is made of; a user gets them
    directly or through groups, and each needs a node binding and a credential at every hop;
  \<^item> connection telemetry: the agent folds the connection events of sing-box into snapshots of sessions,
    which the server merges.

  \<^bold>\<open>How code becomes definitions.\<close> A table is the list of its rows, a row is a record, a nullable
  column an option; the schema's constraints are guards of the writes. A database method returns
  its result beside the new database, and a failed transaction returns the database it started
  from; a method without a transaction leaves what it wrote before an error. The records extend
  each other (nodes, operations, campaigns, controller, API; nodes, proxies, traffic or paths), so
  components work on one database. \<open>(T, error)\<close> is a sum with the error left; \<open>bind_res\<close> and
  \<open>bind_st\<close> of \<open>Prelude\<close> are the early return. Timestamps are the texts that are stored and compared
  (\<open>Timestamps\<close>); 64-bit arithmetic wraps (\<open>Go_Integers\<close>); strings are bytes, and \<open>TrimSpace\<close> knows
  the UTF-8 spaces. \<open>ToLower\<close> lowers ASCII only, which is what host names and digests use.

  \<^bold>\<open>Theories and sources.\<close>
  \<^item> \<open>Prelude\<close>, \<open>Timestamps\<close>, \<open>Go_Integers\<close>, \<open>Go_Strings\<close>: results, tables, runs of a step relation
    (locale \<open>invariant_system\<close>), time formats, \<open>strings\<close> and \<open>path/filepath\<close>.
  \<^item> \<open>Nodes\<close>, \<open>Node_Registry\<close>: \<open>server/db/nodes.go\<close> (lookup by id, name and alias, status, rename,
    host identities).
  \<^item> \<open>Node_Tokens\<close>: \<open>server/db/node_tokens.go\<close>, \<open>internal/token\<close>, \<open>authenticateNode\<close>.
  \<^item> \<open>Operation_Store\<close> (statements), \<open>Node_Operations\<close> (methods): \<open>server/db/node_operations.go\<close>;
    \<open>Operation_Lifecycle\<close> holds the invariant and the run relation, \<open>Operation_Properties\<close> and
    \<open>Operation_Reports\<close> the theorems.
  \<^item> \<open>Operation_Api\<close>, \<open>Api_Properties\<close>: \<open>server/api/node_operations.go\<close> and the long-poll notifier.
  \<^item> \<open>Update_Campaigns\<close>, \<open>Campaign_Controller\<close>: \<open>server/db/node_update_campaigns.go\<close> and
    \<open>server/api/update_campaigns.go\<close>; \<open>Campaign_Lifecycle\<close>, \<open>Campaign_Gate\<close>, \<open>Campaign_Properties\<close>
    and \<open>Campaign_Planning\<close> hold the theorems.
  \<^item> \<open>Agent_Operations\<close>, \<open>Agent_Outbox\<close>: \<open>agent/operations.go\<close>, then agent and server together.
  \<^item> \<open>Update_Guard\<close>, \<open>Guard_Properties\<close>: \<open>agent/update_guard.go\<close>, \<open>agent/service_files.go\<close> and
    \<open>updateAgent\<close> of \<open>agent/updater.go\<close>.
  \<^item> \<open>Service_Catalog\<close>, \<open>Catalog_Generator\<close>: \<open>internal/servicecatalog\<close> and its generator.
  \<^item> \<open>Proxy_Store\<close>: the tables and lookups of \<open>server/db/users.go\<close>, \<open>proxies.go\<close>, \<open>bindings.go\<close> and
    \<open>proxy_credentials.go\<close>; \<open>Traffic\<close>, \<open>Traffic_Properties\<close>: \<open>server/db/traffic.go\<close> and
    \<open>ReportTraffic\<close> of \<open>agent/agent.go\<close>.
  \<^item> \<open>Paths\<close>, \<open>Path_Properties\<close>: \<open>server/db/paths.go\<close>; \<open>Path_Resolve\<close>:
    \<open>server/pathresolve/resolve.go\<close>.
  \<^item> \<open>Credentials\<close>: \<open>server/db/proxy_credentials.go\<close>, \<open>bindings.go\<close>; \<open>Path_Grants\<close>: the granting half of
    \<open>paths.go\<close>, \<open>path_selection.go\<close> and \<open>reconcilePathGrants\<close>; \<open>Path_Groups\<close>: \<open>path_groups.go\<close>;
    \<open>Resource_Deletion\<close>: \<open>deletion.go\<close> and the deletion of users, proxies and nodes. \<open>Grant_Properties\<close>,
    \<open>Grant_Runs\<close> and \<open>Deletion_Properties\<close> hold their theorems.
  \<^item> \<open>Connection_Model\<close>: \<open>model/connection_telemetry.go\<close>; \<open>Connection_Collector\<close>, \<open>Connection_Properties\<close>:
    \<open>agent/connections.go\<close>; \<open>Connection_Store\<close>, \<open>Connection_Ingest\<close>: \<open>server/db/connection_events.go\<close> and
    \<open>server/api/node_connection_events.go\<close>.

  \<^bold>\<open>What is shown.\<close>
  \<^item> Operations (C1 to C11): one active operation per node, leases exactly on running operations, gapless
    events, finished operations frozen, idempotent creation, fencing of stale attempts, progress of a
    poll, the effect of a report and of its repetition, how far the textual lease comparison is off, and
    the operation that nothing can finish.
  \<^item> Campaigns (C12 to C15, C17): every run is a run of operation calls (so C1 and C2 carry over), the batch
    gate, success and failure, the plan; that finished campaigns are frozen and creation is idempotent
    are lemmas of the same theories.
  \<^item> Connection telemetry (C16, C18, C20): the collector stays within its bounds, its ring of closes is a
    bounded queue and a replay counts once; the row of a session is the maximum of its snapshots.
  \<^item> Nodes and tokens (C19, C21, C22): names (and, as a lemma, host identities) survive edits; tokens
    authenticate until revoked.
  \<^item> HTTP and agent (C23 to C26): no lost wake-up, API runs are store runs, exactly-once delivery
    of reports over a link that loses messages and an agent that crashes, and the report that is dropped.
  \<^item> Service catalog (C27 to C30): lookup against a reference definition, sound pruning, the round trip
    of the dataset, expansion of circular lists ends.
  \<^item> Self-update (C31 to C33): the guard file, rollback within three starts, restored service files.
  \<^item> Traffic (C34, C35): exactly-once accounting, totals are sums.
  \<^item> Paths (C36 to C38): what a subscription may contain, the graph check, chains always end.
  \<^item> Grants and deletion (C39, C40): the accesses of a user are exactly what its sources grant, through
    every change of groups, grants, users, proxies and nodes; a deletion leaves no live route.

  Run relations are interpretations of \<open>invariant_system\<close>; \<open>controller_effects\<close> collects what the campaign
  controller may do to a state and is interpreted for the event log, the operation store, the plan and
  other campaigns; \<open>latch\<close> is the contract of the notifier.

  \<^bold>\<open>Faults.\<close> The outbox, the traffic report and the update guard are run with failures: messages and
  answers are lost, file operations fail, the agent is killed. A file operation is atomic, and a crash
  between two of them leaves what a failure of the second leaves.

  \<^bold>\<open>Bounds and fuel.\<close> \<open>reconcile\<close> makes the four attempts of the source's loop; \<open>resolve\<close> and
  \<open>visit_path\<close> end by the limit \<open>MaxDialerPathDepth = 3\<close>; \<open>expand\<close> and \<open>visit_required\<close> end because a set of
  visited names grows. Only \<open>visit_names\<close> has fuel, since the source has no bound there: the number of
  stored paths plus one. C38 proves that \<open>UpdatePath\<close> never runs out of it.

  \<^bold>\<open>Parameters.\<close> SHA-256 (\<open>sha\<close>) and bcrypt (\<open>verify\<close>), fresh ids and secrets, the JSON that a decoder
  makes of a text, the digest of a campaign, the release catalog, the executors of the operation kinds,
  \<open>net.ParseIP\<close> and the public suffix list (\<open>parse_ip\<close>, \<open>etld1\<close>), the floating-point billing product
  (\<open>bill\<close>), semantic versions (\<open>canon\<close>), the service files that a version renders (\<open>units\<close>) and the version
  a binary prints (\<open>version_of\<close>), fresh ids of granted rows (\<open>fresh\<close>) and the preview token of a group
  change (\<open>tok\<close>), \<open>netip.ParseAddr\<close> (\<open>ip\<close>), and what the stream does to a collector between two locks
  (\<open>between\<close>). What a theorem asks of a parameter is a hypothesis of it.

  \<^bold>\<open>Not modelled.\<close> The generated RPC clients, the web interface, the command line, process and
  service managers and the set-up of SQLite are input and output. Bodies of HTTP requests are decoded
  before the model. Of the parts with logic of their own, these are left out:
  the creation and editing of users, nodes and proxies and their page queries, time series and log
  events, which are mostly SQL texts built at run time; configuration versions with rendering and the
  compilation of Mihomo profiles, which turn tables into JSON and YAML documents.
\<close>

end
